(* ===== verification/Prelude.thy ===== *)
theory Prelude
  imports Complex_Main "HOL-Library.Sublist"
begin

text \<open>
  Shared vocabulary of the development: Go's 64-bit integers with their wrap-around, the
  error values of the gateway, the parts of Go's \<^verbatim>\<open>strings\<close> and \<^verbatim>\<open>strconv\<close> packages that
  the source calls, the gateway's notion of time, and the generic lemmas that the component
  theories share.

  A Go string is a byte sequence and is modelled as a \<^typ>\<open>string\<close> (a list of bytes).
  \<^verbatim>\<open>strings.ToLower\<close>, \<^verbatim>\<open>strings.EqualFold\<close> and \<^verbatim>\<open>strings.TrimSpace\<close> are modelled on the
  ASCII range: the multi-byte letters and multi-byte spaces of Unicode are left unchanged.
  A Go \<^verbatim>\<open>int\<close> or \<^verbatim>\<open>int64\<close> is an \<^typ>\<open>int\<close>, and every addition, subtraction or
  multiplication whose overflow matters is written with \<^verbatim>\<open>wrap64\<close>.
  A \<^verbatim>\<open>time.Time\<close> or \<^verbatim>\<open>time.Duration\<close> is an \<^typ>\<open>int\<close> count of nanoseconds (since the Unix
  epoch for a time); \<^verbatim>\<open>time.Now()\<close> is an explicit argument of the operations that read it.
\<close>

section \<open>Collections of facts\<close>

named_theorems go_defs \<open>definitions of Go library helpers, for evaluation\<close>
named_theorems inv_intros \<open>preservation of component invariants\<close>

section \<open>Integers of 64 bits\<close>

definition wrap64 :: "int \<Rightarrow> int" where
  "wrap64 x = (x + 2 ^ 63) mod 2 ^ 64 - 2 ^ 63"

definition maxInt64 :: int where
  "maxInt64 = 2 ^ 63 - 1"

definition in64 :: "int \<Rightarrow> bool" where
  "in64 x \<longleftrightarrow> - (2 ^ 63) \<le> x \<and> x < 2 ^ 63"

lemma wrap64_id [simp]: "in64 x \<Longrightarrow> wrap64 x = x"
  by (simp add: wrap64_def in64_def)

lemma in64_wrap64 [simp]: "in64 (wrap64 x)"
proof -
  have "0 \<le> (x + 2 ^ 63) mod 2 ^ 64" "(x + 2 ^ 63) mod 2 ^ 64 < (2 ^ 64 :: int)"
    by simp_all
  then show ?thesis
    unfolding in64_def wrap64_def by auto
qed

lemma wrap64_idem [simp]: "wrap64 (wrap64 x) = wrap64 x"
  by (rule wrap64_id [OF in64_wrap64])

lemma wrap64_add_left: "wrap64 (wrap64 x + y) = wrap64 (x + y)"
proof -
  have "((x + 2 ^ 63) mod 2 ^ 64 - 2 ^ 63 + y + 2 ^ 63) mod 2 ^ 64 = ((x + 2 ^ 63) mod 2 ^ 64 + y) mod (2 ^ 64 :: int)"
    by (simp add: algebra_simps)
  also have "\<dots> = (x + 2 ^ 63 + y) mod 2 ^ 64"
    by (rule mod_add_left_eq)
  finally show ?thesis
    by (simp add: wrap64_def algebra_simps)
qed

section \<open>Errors\<close>

text \<open>
  The sentinel errors of \<^verbatim>\<open>service/memory_store.go\<close> and \<^verbatim>\<open>service/cache.go\<close>, and every other
  error by its text.
\<close>

datatype gerror =
    ErrNotFound
  | ErrQuotaExceeded
  | ErrInsufficientBalance
  | ErrModelRetired
  | ErrMiss
  | ErrText string

type_synonym 'a result = "gerror + 'a"

fun isOk :: "'a result \<Rightarrow> bool" where
  "isOk (Inl _) = False"
| "isOk (Inr _) = True"

section \<open>Time\<close>

type_synonym time = int
type_synonym duration = int

definition nsMilli :: duration where "nsMilli = 1000000"
definition nsSecond :: duration where "nsSecond = 1000000000"
definition nsMinute :: duration where "nsMinute = 60 * nsSecond"
definition nsHour :: duration where "nsHour = 60 * nsMinute"
definition nsDay :: duration where "nsDay = 24 * nsHour"

text \<open>The zero \<^verbatim>\<open>time.Time\<close>, 0001-01-01T00:00:00Z.\<close>

definition zeroTime :: time where
  "zeroTime = -62135596800 * nsSecond"

lemmas time_defs = nsMilli_def nsSecond_def nsMinute_def nsHour_def nsDay_def zeroTime_def

text \<open>\<^verbatim>\<open>time.Duration.Milliseconds\<close> divides with truncation towards zero.\<close>

definition truncDiv :: "int \<Rightarrow> int \<Rightarrow> int" where
  "truncDiv a b = (if 0 \<le> a then a div b else - ((- a) div b))"

definition milliseconds :: "duration \<Rightarrow> int" where
  "milliseconds d = truncDiv d nsMilli"

lemma truncDiv_bounds:
  assumes "0 < b" "0 \<le> a"
  shows "truncDiv a b * b \<le> a" "a < truncDiv a b * b + b"
proof -
  have eq: "truncDiv a b * b = a - a mod b"
    using assms by (simp add: truncDiv_def minus_mod_eq_div_mult [symmetric])
  show "truncDiv a b * b \<le> a" "a < truncDiv a b * b + b"
    using assms pos_mod_sign [of b a] pos_mod_bound [of b a] by (simp_all add: eq)
qed

section \<open>Decimal text of integers\<close>

text \<open>\<^verbatim>\<open>strconv.Itoa\<close>, the \<^verbatim>\<open>%d\<close> verb and \<^verbatim>\<open>strconv.Atoi\<close>.\<close>

fun digitChar :: "nat \<Rightarrow> char" where
  "digitChar d = char_of (48 + d)"

fun natText :: "nat \<Rightarrow> string" where
  "natText n = (if n < 10 then [digitChar n] else natText (n div 10) @ [digitChar (n mod 10)])"

declare natText.simps [simp del]

definition itoa :: "int \<Rightarrow> string" where
  "itoa i = (if i < 0 then CHR ''-'' # natText (nat (- i)) else natText (nat i))"

definition isDigit :: "char \<Rightarrow> bool" where
  "isDigit c \<longleftrightarrow> 48 \<le> (of_char c :: nat) \<and> (of_char c :: nat) \<le> 57"

definition digitVal :: "char \<Rightarrow> nat" where
  "digitVal c = of_char c - 48"

definition digitsVal :: "string \<Rightarrow> nat" where
  "digitsVal s = foldl (\<lambda>acc c. acc * 10 + digitVal c) 0 s"

definition parseNat :: "string \<Rightarrow> nat option" where
  "parseNat s = (if s \<noteq> [] \<and> list_all isDigit s then Some (digitsVal s) else None)"

definition parseInt :: "string \<Rightarrow> int option" where
  "parseInt s = (case s of
       [] \<Rightarrow> None
     | c # r \<Rightarrow>
         if c = CHR ''-'' then map_option (\<lambda>n. - int n) (parseNat r)
         else if c = CHR ''+'' then map_option int (parseNat r)
         else map_option int (parseNat s))"

definition atoi :: "string \<Rightarrow> int option" where
  "atoi s = (case parseInt s of Some i \<Rightarrow> if in64 i then Some i else None | None \<Rightarrow> None)"

lemma of_char_digitChar: "d < 10 \<Longrightarrow> (of_char (digitChar d) :: nat) = 48 + d"
  by simp

lemma isDigit_digitChar: "d < 10 \<Longrightarrow> isDigit (digitChar d)"
  by (simp add: isDigit_def)

lemma digitVal_digitChar: "d < 10 \<Longrightarrow> digitVal (digitChar d) = d"
  by (simp add: digitVal_def)

declare digitChar.simps [simp del]

lemma digitsVal_snoc: "digitsVal (s @ [c]) = digitsVal s * 10 + digitVal c"
  by (simp add: digitsVal_def)

lemma natText_digits: "list_all isDigit (natText n)"
  by (induction n rule: natText.induct)
    (subst natText.simps, simp add: isDigit_digitChar)

lemma natText_nonempty: "natText n \<noteq> []"
  by (subst natText.simps) simp

lemma digitsVal_natText: "digitsVal (natText n) = n"
proof (induction n rule: natText.induct)
  case (1 n)
  show ?case
  proof (cases "n < 10")
    case True
    then show ?thesis
      by (subst natText.simps) (simp add: digitsVal_def digitVal_digitChar)
  next
    case False
    then show ?thesis
      using "1.IH" by (subst natText.simps) (simp add: digitsVal_snoc digitVal_digitChar)
  qed
qed

lemma parseNat_natText [simp]: "parseNat (natText n) = Some n"
  by (simp add: parseNat_def natText_digits natText_nonempty digitsVal_natText)

lemma natText_hd_digit: "natText n = c # r \<Longrightarrow> isDigit c"
  using natText_digits [of n] by simp

lemma parseInt_itoa [simp]: "parseInt (itoa i) = Some i"
proof (cases "i < 0")
  case True
  then show ?thesis by (simp add: itoa_def parseInt_def)
next
  case False
  obtain c r where cr: "natText (nat i) = c # r"
    using natText_nonempty by (cases "natText (nat i)") auto
  have "isDigit c" by (rule natText_hd_digit [OF cr])
  then have "c \<noteq> CHR ''-''" "c \<noteq> CHR ''+''"
    by (auto simp: isDigit_def)
  then show ?thesis
    using False cr parseNat_natText [of "nat i"] by (simp add: itoa_def parseInt_def)
qed

lemma atoi_itoa [simp]: "in64 i \<Longrightarrow> atoi (itoa i) = Some i"
  by (simp add: atoi_def)

lemma itoa_inj: "itoa i = itoa j \<longleftrightarrow> i = j"
  by (metis option.inject parseInt_itoa)

section \<open>The strings package on ASCII text\<close>

definition lowerChar :: "char \<Rightarrow> char" where
  "lowerChar c = (let n = (of_char c :: nat) in
     if 65 \<le> n \<and> n \<le> 90 then char_of (n + 32) else c)"

definition toLower :: "string \<Rightarrow> string" where
  "toLower s = map lowerChar s"

definition equalFold :: "string \<Rightarrow> string \<Rightarrow> bool" where
  "equalFold a b \<longleftrightarrow> toLower a = toLower b"

definition isSpace :: "char \<Rightarrow> bool" where
  "isSpace c \<longleftrightarrow> (let n = (of_char c :: nat) in n = 32 \<or> (9 \<le> n \<and> n \<le> 13))"

definition trimSpace :: "string \<Rightarrow> string" where
  "trimSpace s = rev (dropWhile isSpace (rev (dropWhile isSpace s)))"

definition hasPrefix :: "string \<Rightarrow> string \<Rightarrow> bool" where
  "hasPrefix s p \<longleftrightarrow> prefix p s"

definition hasSuffix :: "string \<Rightarrow> string \<Rightarrow> bool" where
  "hasSuffix s p \<longleftrightarrow> suffix p s"

definition trimPrefix :: "string \<Rightarrow> string \<Rightarrow> string" where
  "trimPrefix s p = (if hasPrefix s p then drop (length p) s else s)"

fun containsStr :: "string \<Rightarrow> string \<Rightarrow> bool" where
  "containsStr [] p = (p = [])"
| "containsStr (c # s) p = (prefix p (c # s) \<or> containsStr s p)"

text \<open>\<^verbatim>\<open>strings.SplitN(s, sep, 2)\<close> for a separator of one byte, and \<^verbatim>\<open>strings.Split\<close>.\<close>

fun splitAtChar :: "char \<Rightarrow> string \<Rightarrow> string \<times> string option" where
  "splitAtChar d [] = ([], None)"
| "splitAtChar d (c # s) =
     (if c = d then ([], Some s) else (let (a, b) = splitAtChar d s in (c # a, b)))"

lemma splitAtChar_length: "splitAtChar d s = (a, Some r) \<Longrightarrow> length r < length s"
  by (induction s arbitrary: a) (auto split: if_splits prod.splits)

function splitChar :: "char \<Rightarrow> string \<Rightarrow> string list" where
  "splitChar d s = (case splitAtChar d s of
       (a, None) \<Rightarrow> [a]
     | (a, Some r) \<Rightarrow> a # splitChar d r)"
  by pat_completeness auto
termination
  by (relation "measure (length \<circ> snd)") (auto simp: splitAtChar_length dest!: sym [of "(_, _)"])

declare splitChar.simps [simp del]

fun joinWith :: "string \<Rightarrow> string list \<Rightarrow> string" where
  "joinWith sep [] = []"
| "joinWith sep [x] = x"
| "joinWith sep (x # y # r) = x @ sep @ joinWith sep (y # r)"

lemma containsStr_iff: "containsStr s p \<longleftrightarrow> (\<exists>a b. s = a @ p @ b)"
proof (induction s)
  case (Cons c s)
  have "(\<exists>a b. c # s = a @ p @ b) \<longleftrightarrow> prefix p (c # s) \<or> (\<exists>a b. s = a @ p @ b)"
    (is "?L \<longleftrightarrow> ?R")
  proof
    assume ?L
    then obtain a b where ab: "c # s = a @ p @ b" by blast
    then show ?R by (cases a) auto
  next
    assume ?R
    then show ?L
    proof
      assume "prefix p (c # s)"
      then obtain b where "c # s = [] @ p @ b" by (auto simp: prefix_def)
      then show ?L by blast
    next
      assume "\<exists>a b. s = a @ p @ b"
      then obtain a b where "c # s = (c # a) @ p @ b" by auto
      then show ?L by blast
    qed
  qed
  then show ?case using Cons.IH by simp
qed simp

lemma equalFold_refl [simp]: "equalFold s s"
  by (simp add: equalFold_def)

lemma equalFold_sym: "equalFold a b = equalFold b a"
  by (auto simp: equalFold_def)

lemma trimSpace_Nil [simp]: "trimSpace [] = []"
  by (simp add: trimSpace_def)

lemma trimSpace_idem: "trimSpace (trimSpace s) = trimSpace s"
proof -
  define t where "t = dropWhile isSpace s"
  define u where "u = dropWhile isSpace (rev t)"
  have "dropWhile isSpace (rev u) = rev u"
  proof (cases "rev u")
    case (Cons c r)
    have "suffix u (rev t)"
      by (simp add: u_def suffix_dropWhile)
    then have "prefix (rev u) t"
      by (simp add: suffix_to_prefix)
    then obtain r' where "t = c # r'"
      using Cons by (auto simp: prefix_def)
    then have "\<not> isSpace c"
      unfolding t_def using hd_dropWhile by (metis dropWhile_eq_Cons_conv)
    then show ?thesis using Cons by simp
  qed simp
  then show ?thesis
    by (simp add: trimSpace_def t_def [symmetric] u_def [symmetric])
      (simp add: u_def)
qed

lemma hasPrefix_append [simp]: "hasPrefix (p @ s) p"
  by (simp add: hasPrefix_def)

lemma trimPrefix_append [simp]: "trimPrefix (p @ s) p = s"
  by (simp add: trimPrefix_def)

section \<open>Generic lemmas\<close>

text \<open>Rounding a rational to a multiple of a unit, half away from zero.\<close>

definition roundAway :: "rat \<Rightarrow> int" where
  "roundAway q = (if 0 \<le> q then \<lfloor>q + 1 / 2\<rfloor> else - \<lfloor>- q + 1 / 2\<rfloor>)"

lemma roundAway_of_int [simp]: "roundAway (of_int i) = i"
proof -
  have "\<lfloor>of_int j + 1 / 2 :: rat\<rfloor> = j" for j
    by (simp add: floor_unique)
  from this [of i] this [of "- i"] show ?thesis
    by (auto simp: roundAway_def)
qed

lemma roundAway_0 [simp]: "roundAway 0 = 0"
  using roundAway_of_int [of 0] by simp

lemma roundAway_nonneg: "0 \<le> q \<Longrightarrow> 0 \<le> roundAway q"
  by (simp add: roundAway_def)

lemma roundAway_mono: "a \<le> b \<Longrightarrow> roundAway a \<le> roundAway b"
proof -
  assume ab: "a \<le> b"
  consider "0 \<le> a" | "a < 0" "0 \<le> b" | "b < 0" by linarith
  then show ?thesis
  proof cases
    case 1
    then show ?thesis using ab by (simp add: roundAway_def floor_mono)
  next
    case 2
    have "0 \<le> \<lfloor>- a + 1 / 2\<rfloor>" "0 \<le> \<lfloor>b + 1 / 2\<rfloor>"
      using 2 by simp_all
    then have "- \<lfloor>- a + 1 / 2\<rfloor> \<le> \<lfloor>b + 1 / 2\<rfloor>" by linarith
    then show ?thesis using 2 by (simp add: roundAway_def)
  next
    case 3
    have "\<lfloor>- b + 1 / 2\<rfloor> \<le> \<lfloor>- a + 1 / 2\<rfloor>"
      using ab by (intro floor_mono) simp
    then show ?thesis using 3 ab by (simp add: roundAway_def)
  qed
qed

end
