(* ===== verification/GoFloat.thy ===== *)
theory GoFloat
  imports Prelude
begin

text \<open>
  Go's \<^verbatim>\<open>float64\<close>: IEEE-754 binary64 values with rounding to nearest, ties to even, after
  every operation.  A finite value is the rational it denotes, so that the two signed zeros are
  one value; infinities and NaN are constructors, and comparisons with NaN are false.  The
  theory proves that the rounding function is monotone, odd, exact on the small integers and
  never moves a value across an integer of magnitude at most \<open>2 ^ 53\<close>, which is what the
  billing proofs use.
\<close>

section \<open>Rounding to 53 significant bits\<close>

fun nbits :: "nat \<Rightarrow> nat" where
  "nbits n = (if n = 0 then 0 else Suc (nbits (n div 2)))"

declare nbits.simps [simp del]

definition pow2 :: "int \<Rightarrow> rat" where
  "pow2 k = (if 0 \<le> k then 2 ^ nat k else 1 / 2 ^ nat (- k))"

text \<open>The binary exponent of a non-zero value, the floor of its base-2 logarithm.\<close>

definition expo :: "rat \<Rightarrow> int" where
  "expo q = (if 1 \<le> \<bar>q\<bar> then int (nbits (nat \<lfloor>\<bar>q\<bar>\<rfloor>)) - 1
             else - int (nbits (nat (\<lceil>1 / \<bar>q\<bar>\<rceil> - 1))))"

definition rndEven :: "rat \<Rightarrow> int" where
  "rndEven q = (let f = \<lfloor>q\<rfloor>; r = q - of_int f in
     if r < 1 / 2 then f else if 1 / 2 < r then f + 1 else if even f then f else f + 1)"

definition ulpExp :: "rat \<Rightarrow> int" where
  "ulpExp q = max (expo q - 52) (-1074)"

definition rnd :: "rat \<Rightarrow> rat" where
  "rnd q = (if q = 0 then 0 else of_int (rndEven (q / pow2 (ulpExp q))) * pow2 (ulpExp q))"

lemma nbits_gt: "n < 2 ^ nbits n"
proof (induction n rule: nbits.induct)
  case (1 n)
  show ?case
  proof (cases "n = 0")
    case True
    then show ?thesis by (simp add: nbits.simps)
  next
    case False
    have "n < 2 * 2 ^ nbits (n div 2)"
      using "1.IH" [OF False] by linarith
    then show ?thesis
      using False by (subst nbits.simps) simp
  qed
qed

lemma nbits_le: "0 < n \<Longrightarrow> 2 ^ (nbits n - 1) \<le> n"
proof (induction n rule: nbits.induct)
  case (1 n)
  show ?case
  proof (cases "n div 2 = 0")
    case True
    then show ?thesis using "1.prems" by (simp add: nbits.simps)
  next
    case False
    have pos: "0 < nbits (n div 2)"
      using False by (subst nbits.simps) simp
    have ih: "2 ^ (nbits (n div 2) - 1) \<le> n div 2"
      using "1.IH" "1.prems" False by simp
    have "2 ^ nbits (n div 2) = 2 * 2 ^ (nbits (n div 2) - 1)"
      using pos by (cases "nbits (n div 2)") simp_all
    also have "\<dots> \<le> n" using ih by linarith
    finally show ?thesis
      using "1.prems" by (subst nbits.simps) simp
  qed
qed

lemma pow2_pos [simp]: "0 < pow2 k"
  by (simp add: pow2_def)

lemma pow2_nonzero [simp]: "pow2 k \<noteq> 0"
  using pow2_pos [of k] by linarith

lemma pow2_nat: "pow2 (int n) = 2 ^ n"
  by (simp add: pow2_def)

lemma pow2_powi: "pow2 k = 2 powi k"
  by (simp add: pow2_def power_int_def field_simps)

lemma pow2_add: "pow2 (a + b) = pow2 a * pow2 b"
  by (simp add: pow2_powi power_int_add)

lemma pow2_mono: "a \<le> b \<Longrightarrow> pow2 a \<le> pow2 b"
  by (simp add: pow2_powi power_int_increasing)

lemma pow2_less_iff: "pow2 a < pow2 b \<longleftrightarrow> a < b"
  by (metis linorder_not_le order_antisym_conv order_le_less pow2_mono pow2_powi
      one_less_numeral_iff power_int_strict_increasing semiring_norm(76))

lemma pow2_quot_int: "b \<le> a \<Longrightarrow> pow2 a / pow2 b = of_int (2 ^ nat (a - b))"
proof -
  assume "b \<le> a"
  then have "pow2 a = pow2 b * 2 ^ nat (a - b)"
    using pow2_add [of b "a - b"] by (simp add: pow2_def [of "a - b"])
  then show ?thesis by simp
qed

lemma pow2_expo_large:
  assumes "1 \<le> z"
  shows "pow2 (int (nbits (nat \<lfloor>z\<rfloor>)) - 1) \<le> z" "z < pow2 (int (nbits (nat \<lfloor>z\<rfloor>)))"
proof -
  let ?n = "nat \<lfloor>z\<rfloor>"
  have f1: "1 \<le> \<lfloor>z\<rfloor>" using assms by (simp add: le_floor_iff)
  then have npos: "0 < ?n" by simp
  have nb: "0 < nbits ?n" using npos by (subst nbits.simps) simp
  have n_le: "of_nat ?n \<le> z" using f1 by (simp add: of_nat_nat)
  have n_gt: "z < of_nat ?n + 1" using f1 floor_correct [of z] by (simp add: of_nat_nat)
  have "pow2 (int (nbits ?n) - 1) = 2 ^ (nbits ?n - 1)"
    using nb pow2_nat [of "nbits ?n - 1"] by (simp add: of_nat_diff)
  also have "\<dots> \<le> of_nat ?n"
    using nbits_le [OF npos] by (metis of_nat_le_iff of_nat_numeral of_nat_power)
  finally show "pow2 (int (nbits ?n) - 1) \<le> z" using n_le by linarith
  have "Suc ?n \<le> 2 ^ nbits ?n" using nbits_gt [of ?n] by (rule Suc_leI)
  then have "of_nat (Suc ?n) \<le> (2 ^ nbits ?n :: rat)"
    by (metis of_nat_le_iff of_nat_numeral of_nat_power)
  then show "z < pow2 (int (nbits ?n))" using n_gt by (simp add: pow2_nat)
qed

lemma pow2_expo_small:
  assumes "0 < z" "z < 1"
  defines "k \<equiv> int (nbits (nat (\<lceil>1 / z\<rceil> - 1)))"
  shows "pow2 (- k) \<le> z" "z < pow2 (- k + 1)"
proof -
  let ?c = "\<lceil>1 / z\<rceil>"
  let ?n = "nat (?c - 1)"
  have z1: "1 < 1 / z" using assms by simp
  then have c2: "2 \<le> ?c"
    by (metis add_le_cancel_right less_ceiling_iff of_int_1 one_add_one zless_imp_add1_zle)
  then have npos: "0 < ?n" by simp
  have "Suc ?n \<le> 2 ^ nbits ?n" using nbits_gt [of ?n] by (rule Suc_leI)
  then have up: "of_nat (Suc ?n) \<le> (2 ^ nbits ?n :: rat)"
    by (metis of_nat_le_iff of_nat_numeral of_nat_power)
  have nc: "(of_nat ?n :: rat) = of_int ?c - 1"
    using c2 by (subst of_nat_nat) linarith+
  have "1 / z \<le> of_int ?c" by (rule le_of_int_ceiling)
  also have "\<dots> = of_nat (Suc ?n)" by (simp add: nc)
  also note up
  finally have "1 / z \<le> pow2 k" by (simp only: k_def pow2_nat)
  then have "1 / pow2 k \<le> z" using assms(1) by (simp add: field_simps)
  then show "pow2 (- k) \<le> z" by (simp add: pow2_powi power_int_minus field_simps)
  have kpos: "0 < nbits ?n" using npos by (subst nbits.simps) simp
  have "(2 ^ (nbits ?n - 1) :: rat) \<le> of_nat ?n"
    using nbits_le [OF npos] by (metis of_nat_le_iff of_nat_numeral of_nat_power)
  also have "\<dots> < 1 / z"
    using ceiling_correct [of "1 / z"] nc by linarith
  finally have "pow2 (k - 1) < 1 / z"
    using kpos pow2_nat [of "nbits ?n - 1"] by (simp add: k_def of_nat_diff)
  then have "z < 1 / pow2 (k - 1)" using assms(1) by (simp add: field_simps)
  also have "\<dots> = pow2 (- (k - 1))"
    by (simp only: pow2_powi power_int_minus inverse_eq_divide)
  finally show "z < pow2 (- k + 1)" by (simp add: algebra_simps)
qed

lemma expo_bounds:
  assumes "q \<noteq> 0"
  shows "pow2 (expo q) \<le> \<bar>q\<bar>" "\<bar>q\<bar> < pow2 (expo q + 1)"
  using pow2_expo_large [of "\<bar>q\<bar>"] pow2_expo_small [of "\<bar>q\<bar>"] assms
  by (auto simp: expo_def)

lemma expo_mono: "q \<noteq> 0 \<Longrightarrow> \<bar>q\<bar> \<le> \<bar>r\<bar> \<Longrightarrow> expo q \<le> expo r"
proof -
  assume q: "q \<noteq> 0" and qr: "\<bar>q\<bar> \<le> \<bar>r\<bar>"
  then have r: "r \<noteq> 0" by auto
  have "pow2 (expo q) < pow2 (expo r + 1)"
    using expo_bounds [OF q] expo_bounds [OF r] qr by linarith
  then show ?thesis by (simp add: pow2_less_iff)
qed

lemma expo_minus [simp]: "expo (- q) = expo q"
  by (simp add: expo_def)

lemma rndEven_bounds: "\<bar>of_int (rndEven q) - q\<bar> \<le> 1 / 2"
  using floor_correct [of q] by (auto simp: rndEven_def Let_def)

lemma rndEven_of_int [simp]: "rndEven (of_int i) = i"
  by (simp add: rndEven_def)

lemma rndEven_mono: assumes "a \<le> b" shows "rndEven a \<le> rndEven b"
proof (cases "\<lfloor>a\<rfloor> = \<lfloor>b\<rfloor>")
  case True
  then show ?thesis using assms by (auto simp: rndEven_def Let_def)
next
  case False
  then have "\<lfloor>a\<rfloor> + 1 \<le> \<lfloor>b\<rfloor>" using floor_mono [OF assms] by linarith
  moreover have "rndEven a \<le> \<lfloor>a\<rfloor> + 1" "\<lfloor>b\<rfloor> \<le> rndEven b"
    by (auto simp: rndEven_def Let_def)
  ultimately show ?thesis by linarith
qed

lemma rndEven_minus: "rndEven (- q) = - rndEven q"
proof (cases "q = of_int \<lfloor>q\<rfloor>")
  case True
  then show ?thesis by (metis of_int_minus rndEven_of_int)
next
  case False
  have "of_int \<lfloor>q\<rfloor> \<le> q" "q < of_int \<lfloor>q\<rfloor> + 1" by linarith+
  then have "of_int \<lfloor>q\<rfloor> < q" "q < of_int \<lfloor>q\<rfloor> + 1" using False by linarith+
  then have fl: "\<lfloor>- q\<rfloor> = - \<lfloor>q\<rfloor> - 1"
    by (intro floor_unique) auto
  show ?thesis by (auto simp: rndEven_def Let_def fl)
qed

lemma ulpExp_minus [simp]: "ulpExp (- q) = ulpExp q"
  by (simp add: ulpExp_def)

lemma rnd_0 [simp]: "rnd 0 = 0"
  by (simp add: rnd_def)

lemma rnd_minus: "rnd (- q) = - rnd q"
proof -
  have "- q / pow2 u = - (q / pow2 u)" for u by simp
  then show ?thesis by (simp only: rnd_def ulpExp_minus rndEven_minus) simp
qed

lemma rnd_nonneg: assumes "0 \<le> q" shows "0 \<le> rnd q"
proof -
  have "0 \<le> q / pow2 (ulpExp q)" using assms less_imp_le [OF pow2_pos] by simp
  then have "rndEven 0 \<le> rndEven (q / pow2 (ulpExp q))"
    by (rule rndEven_mono)
  then have "0 \<le> rndEven (q / pow2 (ulpExp q))"
    using rndEven_of_int [of 0] by simp
  then show ?thesis by (simp add: rnd_def less_imp_le)
qed

lemma rnd_le_unit:
  assumes "0 < q" "q \<le> of_int m * pow2 (ulpExp q)"
  shows "rnd q \<le> of_int m * pow2 (ulpExp q)"
proof -
  have "q / pow2 (ulpExp q) \<le> of_int m" using assms by (simp add: field_simps)
  then have "rndEven (q / pow2 (ulpExp q)) \<le> m"
    using rndEven_mono rndEven_of_int by metis
  then show ?thesis using assms by (simp add: rnd_def)
qed

lemma rnd_ge_unit:
  assumes "0 < q" "of_int m * pow2 (ulpExp q) \<le> q"
  shows "of_int m * pow2 (ulpExp q) \<le> rnd q"
proof -
  have "of_int m \<le> q / pow2 (ulpExp q)" using assms by (simp add: field_simps)
  then have "m \<le> rndEven (q / pow2 (ulpExp q))"
    using rndEven_mono rndEven_of_int by metis
  then show ?thesis using assms by (simp add: rnd_def)
qed

lemma rnd_pos_mono:
  assumes "0 < x" "x \<le> y"
  shows "rnd x \<le> rnd y"
proof -
  have e: "expo x \<le> expo y" using assms by (intro expo_mono) auto
  have xy: "0 < y" using assms by linarith
  show ?thesis
  proof (cases "ulpExp x = ulpExp y")
    case True
    have "x / pow2 (ulpExp y) \<le> y / pow2 (ulpExp y)"
      using assms by (simp add: divide_right_mono less_imp_le)
    then have "rndEven (x / pow2 (ulpExp y)) \<le> rndEven (y / pow2 (ulpExp y))"
      by (rule rndEven_mono)
    then show ?thesis using assms xy True by (simp add: rnd_def)
  next
    case False
    then have uy: "ulpExp y = expo y - 52" and ux: "ulpExp x \<le> expo y" and lt: "expo x < expo y"
      using e by (auto simp: ulpExp_def)
    define m n where "m = (2 :: int) ^ nat (expo y - ulpExp x)" and "n = (2 :: int) ^ nat (expo y - ulpExp y)"
    have m: "of_int m * pow2 (ulpExp x) = pow2 (expo y)"
      using pow2_quot_int [OF ux] by (simp add: m_def field_simps)
    have n: "of_int n * pow2 (ulpExp y) = pow2 (expo y)"
      using pow2_quot_int [of "ulpExp y" "expo y"] uy by (simp add: n_def eq_divide_eq divide_eq_eq del: diff_add_cancel)
    have "x < pow2 (expo x + 1)" using expo_bounds(2) [of x] assms by simp
    also have "\<dots> \<le> pow2 (expo y)" using lt by (intro pow2_mono) simp
    finally have "rnd x \<le> pow2 (expo y)"
      using rnd_le_unit [of x m] assms m by simp
    moreover have "pow2 (expo y) \<le> rnd y"
      using rnd_ge_unit [of y n] expo_bounds(1) [of y] xy n by simp
    ultimately show ?thesis by linarith
  qed
qed

lemma rnd_mono: assumes "x \<le> y" shows "rnd x \<le> rnd y"
proof -
  consider "0 < x" | "x \<le> 0" "0 \<le> y" | "y < 0" by linarith
  then show ?thesis
  proof cases
    case 1
    then show ?thesis using assms by (rule rnd_pos_mono)
  next
    case 2
    have "0 \<le> rnd (- x)" "0 \<le> rnd y" using 2 by (simp_all add: rnd_nonneg)
    then show ?thesis by (simp add: rnd_minus)
  next
    case 3
    have "rnd (- y) \<le> rnd (- x)" using 3 assms by (intro rnd_pos_mono) simp_all
    then show ?thesis by (simp add: rnd_minus)
  qed
qed

lemma rnd_int_nonneg:
  assumes "0 \<le> i" "i \<le> 2 ^ 53"
  shows "rnd (of_int i) = of_int i"
proof (cases "i = 0")
  case False
  let ?q = "of_int i :: rat"
  have q: "?q \<noteq> 0" using False by simp
  have "pow2 (expo ?q) \<le> of_int i" using expo_bounds(1) [OF q] assms by simp
  also have "of_int i \<le> (pow2 53 :: rat)"
    using assms(2) by (simp add: pow2_def)
  finally have "\<not> pow2 53 < pow2 (expo ?q)" by simp
  then have e: "expo ?q \<le> 53" by (simp add: pow2_less_iff)
  show ?thesis
  proof (cases "ulpExp ?q \<le> 0")
    case True
    have "pow2 0 / pow2 (ulpExp ?q) = of_int (2 ^ nat (0 - ulpExp ?q))"
      by (rule pow2_quot_int [OF True])
    then have "?q / pow2 (ulpExp ?q) = of_int (i * 2 ^ nat (0 - ulpExp ?q))"
      by (simp add: pow2_def field_simps)
    then have "of_int (rndEven (?q / pow2 (ulpExp ?q))) = ?q / pow2 (ulpExp ?q)"
      by (metis rndEven_of_int)
    then show ?thesis using q by (simp add: rnd_def)
  next
    case False
    then have "expo ?q = 53" and u: "ulpExp ?q = 1" using e by (auto simp: ulpExp_def)
    then have "pow2 53 \<le> ?q" using expo_bounds(1) [OF q] assms by simp
    then have "2 ^ 53 \<le> i" by (simp add: pow2_def)
    then have "i = 2 ^ 53" using assms by simp
    then have "?q / pow2 1 = of_int (2 ^ 52)" by (simp add: pow2_def)
    then have "rndEven (?q / pow2 1) = 2 ^ 52" by (metis rndEven_of_int)
    then show ?thesis using q u \<open>i = 2 ^ 53\<close> by (simp add: rnd_def pow2_def)
  qed
qed simp

lemma rnd_int: assumes "\<bar>i\<bar> \<le> 2 ^ 53" shows "rnd (of_int i) = of_int i"
proof (cases "0 \<le> i")
  case True
  then show ?thesis using assms by (simp add: rnd_int_nonneg)
next
  case False
  then have "rnd (of_int (- i)) = of_int (- i)" using assms by (intro rnd_int_nonneg) auto
  then show ?thesis by (simp add: rnd_minus)
qed

section \<open>Values and operations\<close>

datatype float64 = Fin rat | Inf bool | NaN

definition fin :: "rat \<Rightarrow> float64" where
  "fin q = (let r = rnd q in if 2 ^ 1024 \<le> \<bar>r\<bar> then Inf (0 < q) else Fin r)"

definition fOfInt :: "int \<Rightarrow> float64" where
  "fOfInt i = fin (of_int i)"

fun fneg :: "float64 \<Rightarrow> float64" where
  "fneg (Fin a) = Fin (- a)"
| "fneg (Inf s) = Inf (\<not> s)"
| "fneg NaN = NaN"

fun fadd :: "float64 \<Rightarrow> float64 \<Rightarrow> float64" where
  "fadd (Fin a) (Fin b) = fin (a + b)"
| "fadd (Inf s) (Inf t) = (if s = t then Inf s else NaN)"
| "fadd (Inf s) (Fin _) = Inf s"
| "fadd (Fin _) (Inf s) = Inf s"
| "fadd _ _ = NaN"

definition fsub :: "float64 \<Rightarrow> float64 \<Rightarrow> float64" where
  "fsub a b = fadd a (fneg b)"

fun fmul :: "float64 \<Rightarrow> float64 \<Rightarrow> float64" where
  "fmul (Fin a) (Fin b) = fin (a * b)"
| "fmul (Inf s) (Inf t) = Inf (s = t)"
| "fmul (Inf s) (Fin b) = (if b = 0 then NaN else Inf (s = (0 < b)))"
| "fmul (Fin a) (Inf s) = (if a = 0 then NaN else Inf (s = (0 < a)))"
| "fmul _ _ = NaN"

text \<open>Division; a zero divisor is taken as the positive zero.\<close>

fun fdiv :: "float64 \<Rightarrow> float64 \<Rightarrow> float64" where
  "fdiv (Fin a) (Fin b) =
     (if b = 0 then (if a = 0 then NaN else Inf (0 < a)) else fin (a / b))"
| "fdiv (Inf s) (Fin b) = Inf (s = (0 \<le> b))"
| "fdiv (Fin a) (Inf _) = Fin 0"
| "fdiv _ _ = NaN"

fun flt :: "float64 \<Rightarrow> float64 \<Rightarrow> bool" where
  "flt (Fin a) (Fin b) = (a < b)"
| "flt (Fin _) (Inf s) = s"
| "flt (Inf s) (Fin _) = (\<not> s)"
| "flt (Inf s) (Inf t) = (\<not> s \<and> t)"
| "flt _ _ = False"

fun fle :: "float64 \<Rightarrow> float64 \<Rightarrow> bool" where
  "fle (Fin a) (Fin b) = (a \<le> b)"
| "fle (Fin _) (Inf s) = s"
| "fle (Inf s) (Fin _) = (\<not> s)"
| "fle (Inf s) (Inf t) = (\<not> s \<or> t)"
| "fle _ _ = False"

fun feq :: "float64 \<Rightarrow> float64 \<Rightarrow> bool" where
  "feq NaN _ = False"
| "feq _ NaN = False"
| "feq a b = (a = b)"

text \<open>\<^verbatim>\<open>math.Ceil\<close> and \<^verbatim>\<open>math.Round\<close>, which rounds half away from zero.\<close>

fun fceil :: "float64 \<Rightarrow> float64" where
  "fceil (Fin a) = Fin (of_int \<lceil>a\<rceil>)"
| "fceil a = a"

fun fround :: "float64 \<Rightarrow> float64" where
  "fround (Fin a) = Fin (of_int (roundAway a))"
| "fround a = a"

text \<open>
  \<^verbatim>\<open>int64(f)\<close> truncates towards zero.  Out of range and for NaN the language leaves the value to
  the implementation; the amd64 instruction yields the least integer.
\<close>

definition truncRat :: "rat \<Rightarrow> int" where
  "truncRat q = (if 0 \<le> q then \<lfloor>q\<rfloor> else \<lceil>q\<rceil>)"

fun fToInt :: "float64 \<Rightarrow> int" where
  "fToInt (Fin a) = (if in64 (truncRat a) then truncRat a else - (2 ^ 63))"
| "fToInt _ = - (2 ^ 63)"

abbreviation fzero :: float64 where "fzero \<equiv> Fin 0"

section \<open>Facts the billing proofs use\<close>

lemma fle_refl: "a \<noteq> NaN \<Longrightarrow> fle a a"
  by (cases a) auto

lemma fle_trans: "fle a b \<Longrightarrow> fle b c \<Longrightarrow> fle a c"
  by (cases a; cases b; cases c) auto

lemma flt_imp_fle: "flt a b \<Longrightarrow> fle a b"
  by (cases a; cases b) auto

lemma not_flt_fle: "a \<noteq> NaN \<Longrightarrow> b \<noteq> NaN \<Longrightarrow> \<not> flt a b \<longleftrightarrow> fle b a"
  by (cases a; cases b) auto

lemma fin_mono: assumes "x \<le> y" shows "fle (fin x) (fin y)"
proof -
  have r: "rnd x \<le> rnd y" by (rule rnd_mono [OF assms])
  have px: "0 < x" if "0 < rnd x" using that rnd_nonneg [of "- x"] by (force simp: rnd_minus)
  have py: "\<not> 0 < y" if "rnd y < 0" using that rnd_nonneg [of y] by linarith
  have nx: "0 \<le> rnd x" if "0 < x" using that by (simp add: rnd_nonneg)
  have ny: "0 \<le> rnd y" if "0 < y" using that by (simp add: rnd_nonneg)
  have qx: "rnd x \<le> 0" if "\<not> 0 < x" using that rnd_nonneg [of "- x"] by (simp add: rnd_minus)
  have qy: "rnd y \<le> 0" if "\<not> 0 < y" using that rnd_nonneg [of "- y"] by (simp add: rnd_minus)
  have big: "(0 :: rat) < 2 ^ 1024" by simp
  define B :: rat where "B = 2 ^ 1024"
  have B: "0 < B" using big by (simp only: B_def)
  show ?thesis
    using r px py nx ny qx qy B unfolding fin_def Let_def B_def [symmetric]
    by (cases "0 < x"; cases "0 < y") (auto simp: abs_if split: if_splits)
qed

lemma fin_nonneg: "0 \<le> q \<Longrightarrow> fle fzero (fin q)"
proof -
  assume "0 \<le> q"
  then have "fle (fin 0) (fin q)" by (rule fin_mono)
  then show ?thesis by (simp add: fin_def)
qed

lemma fin_not_NaN [simp]: "fin q \<noteq> NaN"
  by (simp add: fin_def Let_def)

lemma fOfInt_small:
  assumes "\<bar>i\<bar> \<le> 2 ^ 53" shows "fOfInt i = Fin (of_int i)"
proof -
  have "\<bar>of_int i :: rat\<bar> \<le> 2 ^ 53"
    using assms by (metis of_int_abs of_int_le_iff of_int_numeral of_int_power)
  also have "(2 ^ 53 :: rat) < 2 ^ 1024" by (rule power_strict_increasing) simp_all
  finally show ?thesis using rnd_int [OF assms] by (simp add: fOfInt_def fin_def Let_def)
qed

lemma fin_below_Inf: "fle (fin q) (Inf True)" "fle (Inf False) (fin q)"
  using fin_not_NaN [of q] by (cases "fin q"; simp)+

lemma fmul_mono: "fle a b \<Longrightarrow> 0 < p \<Longrightarrow> fle (fmul a (Fin p)) (fmul b (Fin p))"
  by (cases a; cases b) (auto simp: fin_mono fin_below_Inf mult_right_mono)

lemma fdiv_mono: "fle a b \<Longrightarrow> 0 < p \<Longrightarrow> fle (fdiv a (Fin p)) (fdiv b (Fin p))"
  by (cases a; cases b) (auto simp: fin_mono fin_below_Inf divide_right_mono)

lemma fround_mono: "fle a b \<Longrightarrow> fle (fround a) (fround b)"
  by (cases a; cases b) (auto simp: roundAway_mono)

lemma fceil_mono: "fle a b \<Longrightarrow> fle (fceil a) (fceil b)"
  by (cases a; cases b) (auto simp: ceiling_mono)

text \<open>Numbers with few significant bits are exact.\<close>

lemma rnd_dyadic:
  assumes "\<bar>i\<bar> < 2 ^ 53" "j \<le> 1074"
  shows "rnd (of_int i / 2 ^ j) = of_int i / 2 ^ j"
proof (cases "i = 0")
  case False
  define q :: rat where "q = of_int i / 2 ^ j"
  have q0: "q \<noteq> 0" using False by (simp add: q_def)
  have "\<bar>of_int i :: rat\<bar> < 2 ^ 53" using assms(1)
    by (metis of_int_abs of_int_less_iff of_int_numeral of_int_power)
  then have "\<bar>q\<bar> < 2 ^ 53 / 2 ^ j" by (simp add: q_def divide_strict_right_mono)
  also have "\<dots> = pow2 (53 - int j)"
    using pow2_add [of 53 "- int j"] by (simp add: pow2_def [of 53] pow2_powi [of "- int j"] power_int_minus field_simps)
  finally have "pow2 (expo q) < pow2 (53 - int j)" using expo_bounds(1) [OF q0] by linarith
  then have e: "expo q < 53 - int j" by (simp add: pow2_less_iff)
  then have u: "ulpExp q \<le> - int j" using assms(2) by (simp add: ulpExp_def)
  define d where "d = nat (- int j - ulpExp q)"
  have "pow2 (- int j) / pow2 (ulpExp q) = of_int (2 ^ d)" using pow2_quot_int [OF u] by (simp add: d_def)
  moreover have "pow2 (- int j) = 1 / 2 ^ j" by (simp add: pow2_powi power_int_minus inverse_eq_divide)
  ultimately have "q / pow2 (ulpExp q) = of_int (i * 2 ^ d)" by (simp add: q_def field_simps)
  then have "of_int (rndEven (q / pow2 (ulpExp q))) = q / pow2 (ulpExp q)" by (metis rndEven_of_int)
  then show ?thesis using q0 by (simp add: rnd_def q_def [symmetric])
qed simp

end
