(* ===== verification/Types.thy ===== *)
theory Types
  imports GoFloat
begin

text \<open>
  The data of the gateway, \<^verbatim>\<open>internal/store/types.go\<close>: one record per struct, a pointer field as
  an option.  A UUID is a number, 0 the nil UUID.  Monetary columns travel as decimal text in
  these structs, as in the source.  A \<^verbatim>\<open>json.RawMessage\<close> is the document it decodes to, \<open>None\<close>
  when the bytes are empty or not a document.
\<close>

section \<open>JSON documents\<close>

text \<open>
  The value \<^verbatim>\<open>encoding/json\<close> decodes into an \<^verbatim>\<open>any\<close>: numbers are \<^verbatim>\<open>float64\<close>, an object is the
  list of its members with the last one of a repeated name kept.
\<close>

datatype json =
    JNull
  | JBool bool
  | JNum float64
  | JStr string
  | JArr "json list"
  | JObj "(string \<times> json) list"

type_synonym jobject = "(string \<times> json) list"
type_synonym raw_json = "json option"

text \<open>A failed type assertion in Go yields the zero value and \<^verbatim>\<open>false\<close>; here it yields \<open>None\<close>.\<close>

fun asString :: "json \<Rightarrow> string option" where
  "asString (JStr s) = Some s"
| "asString _ = None"

fun asObject :: "json \<Rightarrow> jobject option" where
  "asObject (JObj m) = Some m"
| "asObject _ = None"

fun asArray :: "json \<Rightarrow> json list option" where
  "asArray (JArr xs) = Some xs"
| "asArray _ = None"

fun asFloat :: "json \<Rightarrow> float64 option" where
  "asFloat (JNum f) = Some f"
| "asFloat _ = None"

fun asBool :: "json \<Rightarrow> bool option" where
  "asBool (JBool b) = Some b"
| "asBool _ = None"

definition jget :: "jobject \<Rightarrow> string \<Rightarrow> json option" where
  "jget m k = map_of m k"

text \<open>\<^verbatim>\<open>v, _ := m[k].(string)\<close>: the zero value when the key or the type does not match.\<close>

definition jgetStr :: "jobject \<Rightarrow> string \<Rightarrow> string" where
  "jgetStr m k = (case jget m k of Some (JStr s) \<Rightarrow> s | _ \<Rightarrow> [])"

definition jset :: "jobject \<Rightarrow> string \<Rightarrow> json \<Rightarrow> jobject" where
  "jset m k v = (if k \<in> fst ` set m then map (\<lambda>(j, w). if j = k then (j, v) else (j, w)) m
                 else m @ [(k, v)])"

lemma map_of_map_update:
  "k \<in> fst ` set m \<Longrightarrow>
   map_of (map (\<lambda>(i, w). if i = k then (i, v) else (i, w)) m) = (map_of m)(k \<mapsto> v)"
proof (induction m)
  case (Cons a m)
  show ?case
  proof (cases "k \<in> fst ` set m")
    case True
    then show ?thesis using Cons by (auto simp: fun_eq_iff split: prod.splits)
  next
    case False
    then have "map (\<lambda>(i, w). if i = k then (i, v) else (i, w)) m = m"
      by (auto intro!: map_idI split: prod.splits simp: rev_image_eqI)
    then show ?thesis using Cons False by (auto simp: fun_eq_iff split: prod.splits)
  qed
qed simp

lemma jget_jset [simp]: "jget (jset m k v) j = (if j = k then Some v else jget m j)"
proof (cases "k \<in> fst ` set m")
  case True
  then show ?thesis by (simp add: jget_def jset_def map_of_map_update)
next
  case False
  then have "map_of m k = None" by (simp add: map_of_eq_None_iff)
  then show ?thesis using False by (auto simp: jget_def jset_def map_add_def split: option.splits)
qed

lemma jgetStr_jset [simp]:
  "jgetStr (jset m k (JStr v)) j = (if j = k then v else jgetStr m j)"
  by (simp add: jgetStr_def)

section \<open>Structs\<close>

type_synonym uuid = nat

definition nilUUID :: uuid where
  "nilUUID = 0"

record SubscriptionPlanSnapshot =
  spID :: uuid
  spPlanCode :: string
  spDisplayName :: string
  spStatus :: string
  spMonthlyPrice :: string
  spCurrency :: string
  spQuotaTokensMonthly :: "int option"
  spRateLimitRPM :: "int option"
  spRateLimitTPM :: "int option"
  spConcurrentLimit :: "int option"
  spMaxRequestsPerPeriod :: "int option"
  spRateLimitRPD :: "int option"
  spCreditLimitPerDay :: "float64 option"
  spCreditLimitPerPeriod :: "float64 option"
  spMetadata :: raw_json
  spSyncedFromGenfityAt :: time
  spCreatedAt :: time
  spUpdatedAt :: time

record APIKey =
  akID :: uuid
  akGenfityUserID :: string
  akGenfityTenantID :: "string option"
  akName :: string
  akKeyPrefix :: string
  akKeyHash :: string
  akStatus :: string
  akBillingSource :: string
  akLastUsedAt :: "time option"
  akExpiresAt :: "time option"
  akCreatedAt :: time
  akRegeneratedAt :: "time option"
  akRevokedAt :: "time option"

record AIModel =
  amID :: uuid
  amPublicModel :: string
  amDisplayName :: string
  amDescription :: string
  amStatus :: string
  amModelType :: string
  amContextWindow :: "int option"
  amSupportsStreaming :: bool
  amSupportsTools :: bool
  amSupportsVision :: bool
  amPaygExposed :: bool
  amIsFree :: bool
  amFreeLimitRPD :: "int option"
  amFreeLimitRPM :: "int option"
  amFreeLimitTPD :: "int option"
  amCreatedAt :: time
  amUpdatedAt :: time

record AIModelPrice =
  apID :: uuid
  apModelID :: uuid
  apInputPricePer1M :: string
  apOutputPricePer1M :: string
  apCachedPricePer1M :: "string option"
  apReasoningPricePer1M :: "string option"
  apCurrency :: string
  apActive :: bool
  apCreatedAt :: time

record AIModelRoute =
  arID :: uuid
  arModelID :: uuid
  arRouterInstanceCode :: string
  arRouterModel :: string
  arStatus :: string
  arMetadata :: raw_json
  arCreatedAt :: time

record CustomerEntitlement =
  ceID :: uuid
  ceGenfityUserID :: string
  ceGenfityTenantID :: "string option"
  cePlanCode :: string
  ceStatus :: string
  cePeriodStart :: "time option"
  cePeriodEnd :: "time option"
  ceQuotaTokensMonthly :: "int option"
  ceBalanceSnapshot :: "string option"
  ceBalanceReserved :: "string option"
  ceCreditBalance :: "string option"
  ceCreditBalanceReserved :: "string option"
  ceCreditExpiresAt :: "time option"
  cePaygUsdBalance :: "string option"
  cePaygUsdBalanceReserved :: "string option"
  cePricingGroup :: "string option"
  ceMetadata :: raw_json
  ceUpdatedFromGenfityAt :: time

record ModelCreditCost =
  mcID :: uuid
  mcFullModelID :: string
  mcCreditsPerReq :: string
  mcIsFree :: bool
  mcIsActive :: bool
  mcNotes :: "string option"
  mcSyncedAt :: time
  mcMetadata :: raw_json
  mcCreatedAt :: time
  mcUpdatedAt :: time

record RouterInstance =
  riID :: uuid
  riCode :: string
  riPublicBaseURL :: "string option"
  riInternalBaseURL :: string
  riStatus :: string
  riEncryptedAPIKey :: "string option"
  riHealthStatus :: "string option"
  riLastHealthCheckAt :: "time option"
  riMetadata :: raw_json
  riCreatedAt :: time

record UsageLedgerEntry =
  ueID :: uuid
  ueRequestID :: string
  ueGenfityUserID :: string
  ueGenfityTenantID :: "string option"
  ueAPIKeyID :: "uuid option"
  uePublicModel :: string
  ueRouterModel :: "string option"
  ueRouterInstanceCode :: "string option"
  uePromptTokens :: int
  ueCompletionTokens :: int
  ueTotalTokens :: int
  ueCachedTokens :: int
  ueCacheReadInputTokens :: int
  ueCacheCreationInputTokens :: int
  ueReasoningTokens :: int
  ueInputCost :: string
  ueOutputCost :: string
  ueTotalCost :: string
  ueBillingMode :: "string option"
  ueAmountCredits :: "string option"
  ueBalanceAfterCredits :: "string option"
  ueBalanceAfterUsd :: "string option"
  ueStatus :: string
  ueErrorCode :: "string option"
  ueLatencyMS :: "int option"
  ueStartedAt :: time
  ueFinishedAt :: "time option"
  ueMetadata :: raw_json

record QuotaCounter =
  qcTokensUsed :: int
  qcTokensReserved :: int
  qcRequestCount :: int

record AuthUser =
  auID :: string
  auEmail :: string
  auRole :: string
  auTenantID :: "string option"
  auSessionID :: string

record PendingCallback =
  pcID :: uuid
  pcRequestID :: string
  pcUserID :: string
  pcBillingMode :: string
  pcAmountCredits :: "string option"
  pcAmountUSD :: "string option"
  pcModel :: "string option"
  pcNotes :: "string option"
  pcAttempts :: int
  pcLastError :: "string option"
  pcLastAttemptAt :: "time option"
  pcNextAttemptAt :: time
  pcStatus :: string
  pcCreatedAt :: time

section \<open>Small helpers of the store\<close>

definition defaultString :: "string \<Rightarrow> string \<Rightarrow> string" where
  "defaultString value fallback = (if value = [] then fallback else value)"

definition defaultTime :: "time \<Rightarrow> time \<Rightarrow> time" where
  "defaultTime now value = (if value = zeroTime then now else value)"

definition rawJSON :: "raw_json \<Rightarrow> raw_json" where
  "rawJSON v = (case v of None \<Rightarrow> Some (JObj []) | Some j \<Rightarrow> Some j)"

end
