(* ===== verification/Decimal.thy ===== *)
theory Decimal
  imports GoFloat
begin

text \<open>
  Decimal text of numbers: the syntax that \<^verbatim>\<open>strconv.ParseFloat\<close> and a cast to Postgres
  \<^verbatim>\<open>numeric\<close> read, the fixed-point text that \<^verbatim>\<open>fmt.Sprintf\<close> with a \<^verbatim>\<open>%.Nf\<close> verb and a cast of a
  \<^verbatim>\<open>numeric(p, N)\<close> column to text write, and the fact that reading such a text back gives the
  rounded number.  Hexadecimal floating-point literals and digit separators, which
  \<^verbatim>\<open>ParseFloat\<close> also reads, are not modelled; no writer in the gateway produces them.
\<close>

section \<open>Reading\<close>

definition parseExponent :: "string \<Rightarrow> int option" where
  "parseExponent s = (case s of
       [] \<Rightarrow> Some 0
     | c # r \<Rightarrow> if c = CHR ''e'' \<or> c = CHR ''E'' then parseInt r else None)"

definition parseUnsigned :: "string \<Rightarrow> rat option" where
  "parseUnsigned s =
     (let ip = takeWhile isDigit s; r = dropWhile isDigit s;
          (fp, e) = (case r of
               [] \<Rightarrow> ([], [])
             | c # r' \<Rightarrow> if c = CHR ''.'' then (takeWhile isDigit r', dropWhile isDigit r') else ([], r))
      in if ip = [] \<and> fp = [] then None
         else map_option (\<lambda>k. of_nat (digitsVal (ip @ fp)) / 10 ^ length fp * 10 powi k) (parseExponent e))"

definition parseDecimal :: "string \<Rightarrow> rat option" where
  "parseDecimal s = (case s of
       [] \<Rightarrow> None
     | c # r \<Rightarrow>
         if c = CHR ''-'' then map_option uminus (parseUnsigned r)
         else if c = CHR ''+'' then parseUnsigned r
         else parseUnsigned s)"

definition isInfWord :: "string \<Rightarrow> bool" where
  "isInfWord s \<longleftrightarrow> toLower s = ''inf'' \<or> toLower s = ''infinity''"

text \<open>\<^verbatim>\<open>strconv.ParseFloat(s, 64)\<close>; a value out of range is an error.\<close>

definition parseFloat :: "string \<Rightarrow> float64 option" where
  "parseFloat s =
     (if toLower s = ''nan'' then Some NaN
      else if isInfWord s \<or> isInfWord (trimPrefix s ''+'') then Some (Inf True)
      else if hasPrefix s ''-'' \<and> isInfWord (trimPrefix s ''-'') then Some (Inf False)
      else case parseDecimal s of
             None \<Rightarrow> None
           | Some q \<Rightarrow> (case fin q of Fin v \<Rightarrow> Some (Fin v) | _ \<Rightarrow> None))"

section \<open>Writing\<close>

definition padLeft :: "nat \<Rightarrow> string \<Rightarrow> string" where
  "padLeft n s = replicate (n - length s) (CHR ''0'') @ s"

definition fixedNat :: "nat \<Rightarrow> nat \<Rightarrow> string" where
  "fixedNat n m =
     (let t = padLeft (n + 1) (natText m); k = length t - n
      in take k t @ (if n = 0 then [] else CHR ''.'' # drop k t))"

text \<open>Exactly \<open>n\<close> fraction digits, the exact value rounded half to even.\<close>

definition fixedText :: "nat \<Rightarrow> rat \<Rightarrow> string" where
  "fixedText n q =
     (if q < 0 then CHR ''-'' # fixedNat n (nat (rndEven (- q * 10 ^ n)))
      else fixedNat n (nat (rndEven (q * 10 ^ n))))"

fun sprintfF :: "nat \<Rightarrow> float64 \<Rightarrow> string" where
  "sprintfF n (Fin q) = fixedText n q"
| "sprintfF n (Inf s) = (if s then ''+Inf'' else ''-Inf'')"
| "sprintfF n NaN = ''NaN''"

section \<open>Reading what was written\<close>

lemma digitsVal_append: "digitsVal (a @ b) = digitsVal a * 10 ^ length b + digitsVal b"
proof (induction b rule: rev_induct)
  case (snoc c b)
  have "digitsVal (a @ b @ [c]) = digitsVal (a @ b) * 10 + digitVal c"
    using digitsVal_snoc [of "a @ b" c] by simp
  then show ?case using snoc by (simp add: digitsVal_snoc algebra_simps)
qed (simp add: digitsVal_def)

lemma digitsVal_zeros: "digitsVal (replicate k (CHR ''0'')) = 0"
  by (induction k) (simp_all add: digitsVal_def digitVal_def)

lemma padLeft_digits: "list_all isDigit s \<Longrightarrow> list_all isDigit (padLeft n s)"
  by (auto simp: padLeft_def list_all_iff isDigit_def)

lemma padLeft_val: "digitsVal (padLeft n s) = digitsVal s"
  by (simp add: padLeft_def digitsVal_append digitsVal_zeros)

lemma padLeft_length: "length (padLeft n s) = max n (length s)"
  by (simp add: padLeft_def)

lemma parseUnsigned_parts:
  assumes "list_all isDigit ip" "list_all isDigit fp" "ip \<noteq> []"
  shows "parseUnsigned (ip @ (if fp = [] then [] else CHR ''.'' # fp))
           = Some (of_nat (digitsVal (ip @ fp)) / 10 ^ length fp)"
proof (cases "fp = []")
  case True
  have tw: "takeWhile isDigit ip = ip" "dropWhile isDigit ip = []"
    using assms(1) by (auto simp: list_all_iff takeWhile_eq_all_conv dropWhile_eq_Nil_conv)
  show ?thesis using True assms(3) by (simp only: parseUnsigned_def parseExponent_def Let_def) (simp add: tw)
next
  case False
  have dot: "\<not> isDigit (CHR ''.'')" by (simp add: isDigit_def)
  have tw: "takeWhile isDigit (ip @ CHR ''.'' # fp) = ip" "dropWhile isDigit (ip @ CHR ''.'' # fp) = CHR ''.'' # fp"
    using assms(1) dot by (simp_all add: list_all_iff takeWhile_append dropWhile_append)
  have tf: "takeWhile isDigit fp = fp" "dropWhile isDigit fp = []"
    using assms(2) by (auto simp: list_all_iff takeWhile_eq_all_conv dropWhile_eq_Nil_conv)
  show ?thesis using False assms(3)
    by (simp only: parseUnsigned_def parseExponent_def Let_def if_False tw) (simp add: tf)
qed

lemma fixedNat_parts:
  obtains ip fp where "fixedNat n m = ip @ (if fp = [] then [] else CHR ''.'' # fp)"
    and "list_all isDigit ip" "list_all isDigit fp" "ip \<noteq> []" "length fp = n" "digitsVal (ip @ fp) = m"
proof -
  define t where "t = padLeft (n + 1) (natText m)"
  define k where "k = length t - n"
  have len: "n < length t" by (simp add: t_def padLeft_length)
  have dig: "list_all isDigit t" by (simp add: t_def padLeft_digits natText_digits)
  have val: "digitsVal t = m" by (simp add: t_def padLeft_val digitsVal_natText)
  show ?thesis
  proof (rule that [of "take k t" "drop k t"])
    show "fixedNat n m = take k t @ (if drop k t = [] then [] else CHR ''.'' # drop k t)"
      using len unfolding fixedNat_def Let_def t_def [symmetric] k_def [symmetric]
      by (auto simp: k_def)
    show "list_all isDigit (take k t)" "list_all isDigit (drop k t)"
      using dig by (auto simp: list_all_iff dest: in_set_takeD in_set_dropD)
    show "take k t \<noteq> []" using len by (auto simp: k_def)
    show "length (drop k t) = n" using len by (simp add: k_def)
    show "digitsVal (take k t @ drop k t) = m" by (simp add: val)
  qed
qed

lemma parseUnsigned_fixedNat: "parseUnsigned (fixedNat n m) = Some (of_nat m / 10 ^ n)"
  using fixedNat_parts [of n m] parseUnsigned_parts by metis

lemma fixedNat_hd: "fixedNat n m = c # r \<Longrightarrow> isDigit c"
  using fixedNat_parts [of n m] by (metis append_Cons list.exhaust_sel list.inject list.pred_inject(2))

lemma fixedNat_nonempty: "fixedNat n m \<noteq> []"
  using fixedNat_parts [of n m] by (metis append_is_Nil_conv)

lemma parseDecimal_fixedNat: "parseDecimal (fixedNat n m) = Some (of_nat m / 10 ^ n)"
proof -
  obtain c r where cr: "fixedNat n m = c # r" using fixedNat_nonempty by (metis list.exhaust)
  have "isDigit c" by (rule fixedNat_hd [OF cr])
  then have "c \<noteq> CHR ''-''" "c \<noteq> CHR ''+''" by (auto simp: isDigit_def)
  then show ?thesis using cr parseUnsigned_fixedNat [of n m] by (simp add: parseDecimal_def)
qed

lemma rndEven_nonneg: "0 \<le> q \<Longrightarrow> 0 \<le> rndEven q"
  using rndEven_mono [of 0 q] rndEven_of_int [of 0] by simp

theorem parseDecimal_fixedText:
  "parseDecimal (fixedText n q) = Some (of_int (rndEven (q * 10 ^ n)) / 10 ^ n)"
proof (cases "q < 0")
  case True
  have "0 \<le> - q * 10 ^ n" using True by (intro mult_nonneg_nonneg) auto
  then have pos: "0 \<le> rndEven (- q * 10 ^ n)" by (rule rndEven_nonneg)
  have "parseDecimal (fixedText n q) = Some (- (of_nat (nat (rndEven (- q * 10 ^ n))) / 10 ^ n))"
    using True by (simp add: fixedText_def parseDecimal_def parseUnsigned_fixedNat)
  then show ?thesis using pos rndEven_minus [of "q * 10 ^ n"] by (simp add: of_nat_nat)
next
  case False
  have pos: "0 \<le> rndEven (q * 10 ^ n)" using False by (intro rndEven_nonneg) simp
  then show ?thesis using False by (simp add: fixedText_def parseDecimal_fixedNat of_nat_nat)
qed

section \<open>Decimal grids\<close>

text \<open>The values a column of type \<^verbatim>\<open>numeric(p, n)\<close> holds, and the rounding of a value stored into it.\<close>

definition onGrid :: "nat \<Rightarrow> rat \<Rightarrow> bool" where
  "onGrid n q \<longleftrightarrow> of_int \<lfloor>q * 10 ^ n\<rfloor> = q * 10 ^ n"

definition toScale :: "nat \<Rightarrow> rat \<Rightarrow> rat" where
  "toScale n q = of_int (roundAway (q * 10 ^ n)) / 10 ^ n"

lemma onGrid_iff: "onGrid n q \<longleftrightarrow> (\<exists>i. q = of_int i / 10 ^ n)"
proof
  assume "onGrid n q"
  then have "q = of_int \<lfloor>q * 10 ^ n\<rfloor> / 10 ^ n" by (simp only: onGrid_def) simp
  then show "\<exists>i. q = of_int i / 10 ^ n" by blast
qed (auto simp: onGrid_def)

lemma onGrid_toScale [simp]: "onGrid n (toScale n q)"
  by (auto simp: onGrid_iff toScale_def)

lemma toScale_onGrid [simp]: "onGrid n q \<Longrightarrow> toScale n q = q"
  by (auto simp: onGrid_iff toScale_def)

lemma onGrid_0 [simp]: "onGrid n 0"
  by (simp add: onGrid_def)

lemma onGrid_add: "onGrid n a \<Longrightarrow> onGrid n b \<Longrightarrow> onGrid n (a + b)"
  unfolding onGrid_iff by (metis add_divide_distrib of_int_add)

lemma onGrid_diff: "onGrid n a \<Longrightarrow> onGrid n b \<Longrightarrow> onGrid n (a - b)"
  unfolding onGrid_iff by (metis diff_divide_distrib of_int_diff)

lemma toScale_mono: "a \<le> b \<Longrightarrow> toScale n a \<le> toScale n b"
  by (simp add: toScale_def divide_right_mono roundAway_mono mult_right_mono)

lemma toScale_0 [simp]: "toScale n 0 = 0"
  by simp

lemma toScale_nonneg: "0 \<le> q \<Longrightarrow> 0 \<le> toScale n q"
  using toScale_mono [of 0 q n] by simp

lemma toScale_le_grid: "a \<le> g \<Longrightarrow> onGrid n g \<Longrightarrow> toScale n a \<le> g"
  using toScale_mono [of a g n] by simp

end
