(* ===== verification/PgTables.thy ===== *)
theory PgTables
  imports Types Decimal
begin

text \<open>
  The Postgres tables behind \<^verbatim>\<open>internal/service/postgres_store.go\<close> as lists of rows, and the
  three shapes of statement its SQL uses: a guarded update, an insert with a conflict clause and
  a delete.  A statement either runs completely or, when the connection is faulty, reports the
  fault and changes nothing.  Columns of type \<^verbatim>\<open>numeric(p, n)\<close> hold exact decimal values and
  round what is stored into them to \<open>n\<close> decimals, half away from zero; timestamps keep
  microseconds; a \<^verbatim>\<open>bigint\<close> that overflows aborts its statement.  Overflow of the precision \<open>p\<close>
  of a numeric column is not modelled.
\<close>

section \<open>Rows\<close>

record pg_ent =
  peID :: uuid
  peUser :: string
  peTenant :: "string option"
  pePlanCode :: string
  peStatus :: string
  pePeriodStart :: "time option"
  pePeriodEnd :: "time option"
  peQuota :: "int option"
  peSnapshot :: "rat option"
  peCredit :: rat
  peCreditReserved :: rat
  peCreditExpires :: "time option"
  pePayg :: rat
  pePaygReserved :: rat
  pePricingGroup :: "string option"
  peMetadata :: json
  peUpdatedFrom :: time
  peUpdatedAt :: time

record pg_quota =
  pqUser :: string
  pqTenant :: "string option"
  pqStart :: time
  pqEnd :: time
  pqUsed :: int
  pqReserved :: int
  pqRequests :: int
  pqUpdatedAt :: time

record pg_state =
  pgEnts :: "pg_ent list"
  pgQuotas :: "pg_quota list"
  pgKeys :: "APIKey list"
  pgModels :: "AIModel list"
  pgPrices :: "AIModelPrice list"
  pgRoutes :: "AIModelRoute list"
  pgRouters :: "RouterInstance list"
  pgCosts :: "ModelCreditCost list"
  pgPlans :: "SubscriptionPlanSnapshot list"
  pgLedger :: "UsageLedgerEntry list"
  pgCallbacks :: "PendingCallback list"
  pgFault :: "gerror option"

definition pgEmpty :: pg_state where
  "pgEmpty = \<lparr>pgEnts = [], pgQuotas = [], pgKeys = [], pgModels = [], pgPrices = [], pgRoutes = [],
     pgRouters = [], pgCosts = [], pgPlans = [], pgLedger = [], pgCallbacks = [], pgFault = None\<rparr>"

text \<open>\<^verbatim>\<open>timestamptz\<close> keeps microseconds.\<close>

definition pgTs :: "time \<Rightarrow> time" where
  "pgTs t = (t div 1000) * 1000"

lemma pgTs_idem [simp]: "pgTs (pgTs t) = pgTs t"
  by (simp add: pgTs_def)

section \<open>Statements\<close>

definition pgRun :: "(pg_state \<Rightarrow> pg_state \<times> 'a result) \<Rightarrow> pg_state \<Rightarrow> pg_state \<times> 'a result" where
  "pgRun f s = (case pgFault s of Some e \<Rightarrow> (s, Inl e) | None \<Rightarrow> f s)"

definition pgUp :: "pg_state \<Rightarrow> bool" where
  "pgUp s \<longleftrightarrow> pgFault s = None"

lemma pgRun_up [simp]: "pgUp s \<Longrightarrow> pgRun f s = f s"
  by (simp add: pgRun_def pgUp_def)

text \<open>\<^verbatim>\<open>UPDATE ... WHERE\<close>, with the number of affected rows.\<close>

definition updWhere :: "('a \<Rightarrow> bool) \<Rightarrow> ('a \<Rightarrow> 'a) \<Rightarrow> 'a list \<Rightarrow> 'a list" where
  "updWhere P f rows = map (\<lambda>r. if P r then f r else r) rows"

definition affected :: "('a \<Rightarrow> bool) \<Rightarrow> 'a list \<Rightarrow> nat" where
  "affected P rows = length (filter P rows)"

text \<open>\<^verbatim>\<open>INSERT ... ON CONFLICT (key) DO UPDATE SET ... WHERE guard\<close>.\<close>

definition onConflict :: "('a \<Rightarrow> bool) \<Rightarrow> 'a \<Rightarrow> ('a \<Rightarrow> bool) \<Rightarrow> ('a \<Rightarrow> 'a) \<Rightarrow> 'a list \<Rightarrow> 'a list \<times> nat" where
  "onConflict key new guard upd rows =
     (if list_ex key rows
      then (updWhere (\<lambda>r. key r \<and> guard r) upd rows, affected (\<lambda>r. key r \<and> guard r) rows)
      else (rows @ [new], 1))"

lemma updWhere_noop: "(\<And>r. r \<in> set rows \<Longrightarrow> \<not> P r) \<Longrightarrow> updWhere P f rows = rows"
  by (auto simp: updWhere_def intro!: map_idI)

lemma affected_0: "affected P rows = 0 \<longleftrightarrow> (\<forall>r \<in> set rows. \<not> P r)"
  by (auto simp: affected_def filter_empty_conv)

lemma set_updWhere: "set (updWhere P f rows) = (\<lambda>r. if P r then f r else r) ` set rows"
  by (simp add: updWhere_def)

lemma find_updWhere:
  assumes "\<And>r. P r \<Longrightarrow> Q (f r) = Q r"
  shows "find Q (updWhere P f rows) = map_option (\<lambda>r. if P r then f r else r) (find Q rows)"
  using assms by (induction rows) (auto simp: updWhere_def)

lemma find_updWhere_other:
  assumes "\<And>r. P r \<Longrightarrow> \<not> Q r \<and> \<not> Q (f r)"
  shows "find Q (updWhere P f rows) = find Q rows"
  using assms by (induction rows) (auto simp: updWhere_def)

lemma find_SomeD: "find P xs = Some x \<Longrightarrow> x \<in> set xs \<and> P x"
  by (induction xs) (auto split: if_splits)

lemma find_None_iff_all: "find P xs = None \<longleftrightarrow> (\<forall>x \<in> set xs. \<not> P x)"
  by (auto simp: find_None_iff)

text \<open>At most one row of a table satisfies a key, as a unique index guarantees.\<close>

definition atMostOne :: "('a \<Rightarrow> bool) \<Rightarrow> 'a list \<Rightarrow> bool" where
  "atMostOne P rows \<longleftrightarrow> length (filter P rows) \<le> 1"

lemma atMostOne_find:
  assumes "atMostOne P rows" "find P rows = Some x" "y \<in> set rows" "P y"
  shows "y = x"
proof -
  have "x \<in> set (filter P rows)" "y \<in> set (filter P rows)"
    using assms find_SomeD [OF assms(2)] by auto
  then show ?thesis
    using assms(1) by (cases "filter P rows") (auto simp: atMostOne_def simp del: set_filter)
qed

lemma atMostOne_updWhere:
  "(\<And>r. P r \<Longrightarrow> Q (f r) = Q r) \<Longrightarrow> atMostOne Q (updWhere P f rows) = atMostOne Q rows"
proof -
  assume a: "\<And>r. P r \<Longrightarrow> Q (f r) = Q r"
  have "length (filter Q (updWhere P f rows)) = length (filter Q rows)"
    using a by (induction rows) (auto simp: updWhere_def)
  then show ?thesis by (simp add: atMostOne_def)
qed

section \<open>Binding floating-point arguments\<close>

text \<open>
  The driver sends a \<^verbatim>\<open>float64\<close> argument of a numeric parameter as decimal text; \<^verbatim>\<open>N\<close> is the value
  the server reads, \<open>None\<close> when the argument is refused.  The driver is outside the repository:
  what the store relies on is that the sign of a finite argument is kept and that order is.
\<close>

locale pg_numeric =
  fixes N :: "float64 \<Rightarrow> rat option"
  assumes num_zero: "N fzero = Some 0"
    and num_pos: "0 < q \<Longrightarrow> \<exists>v. N (Fin q) = Some v \<and> 0 < v"
    and num_mono: "\<lbrakk>p \<le> q; N (Fin p) = Some v; N (Fin q) = Some w\<rbrakk> \<Longrightarrow> v \<le> w"
begin

lemma num_finite: "0 \<le> q \<Longrightarrow> \<exists>v. N (Fin q) = Some v \<and> 0 \<le> v"
  using num_zero num_pos [of q] by (cases "q = 0") (auto intro: less_imp_le)

lemma num_nonneg: "N (Fin q) = Some v \<Longrightarrow> 0 \<le> q \<Longrightarrow> 0 \<le> v"
  using num_finite [of q] by auto

end

text \<open>A driver that sends the exact decimal expansion.\<close>

fun exactNum :: "float64 \<Rightarrow> rat option" where
  "exactNum (Fin q) = Some q"
| "exactNum _ = None"

interpretation exactDriver: pg_numeric exactNum
  by unfold_locales auto

end
