(* ===== verification/PgBalance.thy ===== *)
theory PgBalance
  imports PgTables
begin

text \<open>
  The credit and pay-as-you-go balances of a user in Postgres: reserving an amount before a
  request, finalising it with the actual cost afterwards, the direct debit and the sweep of
  stale reservations (\<^verbatim>\<open>postgres_store.go\<close>).  The locale \<^verbatim>\<open>balance_account\<close> is the contract the
  request path relies on; it is interpreted on the credit columns and on the PAYG columns, and
  its client lemmas show that no sequence of reservations and settlements overdraws an account.
\<close>

section \<open>Operations\<close>

definition numArg :: "(float64 \<Rightarrow> rat option) \<Rightarrow> float64 \<Rightarrow> (rat \<Rightarrow> pg_state \<Rightarrow> pg_state \<times> 'a result)
    \<Rightarrow> pg_state \<Rightarrow> pg_state \<times> 'a result" where
  "numArg N x k s = (case N x of None \<Rightarrow> (s, Inl (ErrText ''numeric argument'')) | Some v \<Rightarrow> k v s)"

text \<open>The active row of a pricing group.\<close>

definition activeRow :: "string \<Rightarrow> string \<Rightarrow> pg_ent \<Rightarrow> bool" where
  "activeRow grp userID r \<longleftrightarrow> peUser r = userID \<and> peStatus r = ''active'' \<and> pePricingGroup r = Some grp"

definition execEnts :: "(pg_ent \<Rightarrow> bool) \<Rightarrow> (pg_ent \<Rightarrow> pg_ent) \<Rightarrow> gerror option \<Rightarrow> pg_state \<Rightarrow> pg_state \<times> unit result" where
  "execEnts P f noRows = pgRun (\<lambda>s.
     case noRows of
       Some e \<Rightarrow> if affected P (pgEnts s) = 0 then (s, Inl e)
                 else (s\<lparr>pgEnts := updWhere P f (pgEnts s)\<rparr>, Inr ())
     | None \<Rightarrow> (s\<lparr>pgEnts := updWhere P f (pgEnts s)\<rparr>, Inr ()))"

definition ReserveRequestCredits ::
  "(float64 \<Rightarrow> rat option) \<Rightarrow> time \<Rightarrow> string \<Rightarrow> float64 \<Rightarrow> pg_state \<Rightarrow> pg_state \<times> unit result" where
  "ReserveRequestCredits N now userID amount s =
     (if fle amount fzero then (s, Inr ())
      else numArg N amount (\<lambda>a. execEnts
        (\<lambda>r. activeRow ''credit_package'' userID r \<and> peCredit r - peCreditReserved r \<ge> a)
        (\<lambda>r. r\<lparr>peCreditReserved := toScale 4 (peCreditReserved r + a), peUpdatedAt := now\<rparr>)
        (Some ErrInsufficientBalance)) s)"

definition FinalizeRequestCredits ::
  "(float64 \<Rightarrow> rat option) \<Rightarrow> time \<Rightarrow> string \<Rightarrow> float64 \<Rightarrow> float64 \<Rightarrow> pg_state \<Rightarrow> pg_state \<times> unit result" where
  "FinalizeRequestCredits N now userID reservedAmount actualAmount s =
     (if fle reservedAmount fzero \<and> fle actualAmount fzero then (s, Inr ())
      else let ra = (if flt reservedAmount fzero then fzero else reservedAmount);
               aa = (if flt actualAmount fzero then fzero else actualAmount)
           in numArg N ra (\<lambda>x. numArg N aa (\<lambda>y. execEnts
             (activeRow ''credit_package'' userID)
             (\<lambda>r. r\<lparr>peCreditReserved := toScale 4 (max (peCreditReserved r - x) 0),
                    peCredit := toScale 4 (max (peCredit r - min y (peCredit r)) 0),
                    peUpdatedAt := now\<rparr>)
             None)) s)"

definition ReservePaygUsdBalance ::
  "(float64 \<Rightarrow> rat option) \<Rightarrow> time \<Rightarrow> string \<Rightarrow> float64 \<Rightarrow> pg_state \<Rightarrow> pg_state \<times> unit result" where
  "ReservePaygUsdBalance N now userID amount s =
     (if fle amount fzero then (s, Inr ())
      else numArg N amount (\<lambda>a. execEnts
        (\<lambda>r. activeRow ''payg_topup'' userID r \<and> pePayg r - pePaygReserved r \<ge> a)
        (\<lambda>r. r\<lparr>pePaygReserved := toScale 6 (pePaygReserved r + a), peUpdatedAt := now\<rparr>)
        (Some ErrInsufficientBalance)) s)"

definition FinalizePaygUsdBalance ::
  "(float64 \<Rightarrow> rat option) \<Rightarrow> time \<Rightarrow> string \<Rightarrow> float64 \<Rightarrow> float64 \<Rightarrow> pg_state \<Rightarrow> pg_state \<times> unit result" where
  "FinalizePaygUsdBalance N now userID reservedAmount actualAmount s =
     (if fle reservedAmount fzero \<and> fle actualAmount fzero then (s, Inr ())
      else let ra = (if flt reservedAmount fzero then fzero else reservedAmount);
               aa = (if flt actualAmount fzero then fzero else actualAmount)
           in numArg N ra (\<lambda>x. numArg N aa (\<lambda>y. execEnts
             (activeRow ''payg_topup'' userID)
             (\<lambda>r. r\<lparr>pePaygReserved := toScale 6 (max (pePaygReserved r - x) 0),
                    pePayg := toScale 6 (max (pePayg r - min y (pePayg r)) 0),
                    peUpdatedAt := now\<rparr>)
             None)) s)"

text \<open>
  The older entry points on the same row; \<^verbatim>\<open>planCode\<close> is an argument the statement ignores.
\<close>

definition ReserveCreditBalance ::
  "(float64 \<Rightarrow> rat option) \<Rightarrow> time \<Rightarrow> string \<Rightarrow> string \<Rightarrow> float64 \<Rightarrow> pg_state \<Rightarrow> pg_state \<times> unit result" where
  "ReserveCreditBalance N now userID planCode amountUsd s =
     (if fle amountUsd fzero then (s, Inr ())
      else numArg N amountUsd (\<lambda>a. execEnts
        (\<lambda>r. activeRow ''credit_package'' userID r \<and> peCredit r - peCreditReserved r \<ge> a)
        (\<lambda>r. r\<lparr>peCreditReserved := toScale 4 (peCreditReserved r + a), peUpdatedAt := now\<rparr>)
        (Some ErrInsufficientBalance)) s)"

definition coalesce0 :: "rat option \<Rightarrow> rat" where
  "coalesce0 q = (case q of Some v \<Rightarrow> v | None \<Rightarrow> 0)"

definition FinalizeCreditBalance ::
  "(float64 \<Rightarrow> rat option) \<Rightarrow> time \<Rightarrow> string \<Rightarrow> string \<Rightarrow> float64 \<Rightarrow> float64 \<Rightarrow> pg_state \<Rightarrow> pg_state \<times> unit result" where
  "FinalizeCreditBalance N now userID planCode reservedUsd actualUsd s =
     (if fle reservedUsd fzero \<and> fle actualUsd fzero then (s, Inr ())
      else let aa = (if flt actualUsd fzero then fzero else actualUsd);
               ra = (if flt reservedUsd fzero then fzero else reservedUsd)
           in numArg N ra (\<lambda>x. numArg N aa (\<lambda>y. execEnts
             (activeRow ''credit_package'' userID)
             (\<lambda>r. r\<lparr>peCreditReserved := toScale 4 (max (peCreditReserved r - x) 0),
                    peCredit := toScale 4 (max (peCredit r - min y (peCredit r)) 0),
                    peSnapshot := Some (toScale 6 (max (coalesce0 (peSnapshot r) - min y (coalesce0 (peSnapshot r))) 0)),
                    peUpdatedAt := now\<rparr>)
             None)) s)"

definition DebitCreditBalance ::
  "(float64 \<Rightarrow> rat option) \<Rightarrow> time \<Rightarrow> string \<Rightarrow> string \<Rightarrow> float64 \<Rightarrow> pg_state \<Rightarrow> pg_state \<times> unit result" where
  "DebitCreditBalance N now userID planCode debitUsd s =
     numArg N debitUsd (\<lambda>d. execEnts
       (\<lambda>r. activeRow ''credit_package'' userID r \<and> max (peCredit r - peCreditReserved r) 0 \<ge> d)
       (\<lambda>r. r\<lparr>peCredit := toScale 4 (max (peCredit r - d) 0),
              peSnapshot := Some (toScale 6 (max (coalesce0 (peSnapshot r) - d) 0)),
              peUpdatedAt := now\<rparr>)
       (Some ErrNotFound)) s"

definition staleEnt :: "time \<Rightarrow> duration \<Rightarrow> pg_ent \<Rightarrow> bool" where
  "staleEnt now age r \<longleftrightarrow> peStatus r = ''active'' \<and> (peCreditReserved r > 0 \<or> pePaygReserved r > 0)
     \<and> peUpdatedAt r < now - milliseconds age * nsMilli"

definition ReleaseStaleReservations :: "time \<Rightarrow> duration \<Rightarrow> pg_state \<Rightarrow> pg_state \<times> int result" where
  "ReleaseStaleReservations now olderThan s =
     (let age = (if olderThan \<le> 0 then 5 * nsMinute else olderThan) in
      pgRun (\<lambda>s. (s\<lparr>pgEnts := updWhere (staleEnt now age)
                       (\<lambda>r. r\<lparr>peCreditReserved := 0, pePaygReserved := 0, peUpdatedAt := now\<rparr>) (pgEnts s)\<rparr>,
                  Inr (int (affected (staleEnt now age) (pgEnts s))))) s)"

section \<open>The account contract\<close>

text \<open>
  One user's account as the request path sees it: a balance and a reserved amount, or no account.
  \<open>amt\<close> gives the number an amount stands for, \<open>rd\<close> the rounding of the stored columns.
\<close>

locale balance_account =
  fixes reserve :: "time \<Rightarrow> float64 \<Rightarrow> 's \<Rightarrow> 's \<times> unit result"
    and finalize :: "time \<Rightarrow> float64 \<Rightarrow> float64 \<Rightarrow> 's \<Rightarrow> 's \<times> unit result"
    and account :: "'s \<Rightarrow> (rat \<times> rat) option"
    and ok :: "'s \<Rightarrow> bool"
    and amt :: "float64 \<Rightarrow> rat option"
    and scale :: nat
  assumes amt_pos: "0 < q \<Longrightarrow> \<exists>v. amt (Fin q) = Some v \<and> 0 < v"
    and amt_zero: "amt fzero = Some 0"
    and amt_mono: "\<lbrakk>p \<le> q; amt (Fin p) = Some v; amt (Fin q) = Some w\<rbrakk> \<Longrightarrow> v \<le> w"
    and account_wf: "\<lbrakk>ok s; account s = Some (b, r)\<rbrakk> \<Longrightarrow> 0 \<le> b \<and> 0 \<le> r \<and> onGrid scale b \<and> onGrid scale r"
    and reserve_none: "\<lbrakk>ok s; account s = None; 0 < q\<rbrakk> \<Longrightarrow> reserve tm (Fin q) s = (s, Inl ErrInsufficientBalance)"
    and reserve_short: "\<lbrakk>ok s; account s = Some (b, r); 0 < q; amt (Fin q) = Some v; b - r < v\<rbrakk>
        \<Longrightarrow> reserve tm (Fin q) s = (s, Inl ErrInsufficientBalance)"
    and reserve_enough: "\<lbrakk>ok s; account s = Some (b, r); 0 < q; amt (Fin q) = Some v; v \<le> b - r\<rbrakk>
        \<Longrightarrow> snd (reserve tm (Fin q) s) = Inr () \<and> ok (fst (reserve tm (Fin q) s))
          \<and> account (fst (reserve tm (Fin q) s)) = Some (b, toScale scale (r + v))"
    and reserve_free: "q \<le> 0 \<Longrightarrow> reserve tm (Fin q) s = (s, Inr ())"
    and finalize_account: "\<lbrakk>ok s; account s = Some (b, r); 0 \<le> p; 0 \<le> q; amt (Fin p) = Some v; amt (Fin q) = Some w\<rbrakk>
        \<Longrightarrow> snd (finalize tm (Fin p) (Fin q) s) = Inr () \<and> ok (fst (finalize tm (Fin p) (Fin q) s))
          \<and> account (fst (finalize tm (Fin p) (Fin q) s))
              = Some (toScale scale (max (b - min w b) 0), toScale scale (max (r - v) 0))"
begin

lemma reserve_iff:
  assumes "ok s" "account s = Some (b, r)" "0 < q" "amt (Fin q) = Some v"
  shows "snd (reserve tm (Fin q) s) = Inr () \<longleftrightarrow> v \<le> b - r"
  using reserve_short [OF assms] reserve_enough [OF assms] by (cases "v \<le> b - r") auto

lemma reserve_covered:
  assumes "ok s" "account s = Some (b, r)" "r \<le> b" "0 < q" "amt (Fin q) = Some v" "v \<le> b - r"
  shows "\<exists>r'. account (fst (reserve tm (Fin q) s)) = Some (b, r') \<and> r \<le> r' \<and> r' \<le> b"
proof -
  have w: "0 \<le> v" using amt_pos [OF assms(4)] assms(5) by auto
  have g: "onGrid scale b" "onGrid scale r" using account_wf [OF assms(1,2)] by auto
  have "toScale scale (r + v) \<le> b" using assms(6) g by (intro toScale_le_grid) auto
  moreover have "r \<le> toScale scale (r + v)" using toScale_mono [of r "r + v" scale] w g by simp
  ultimately show ?thesis using reserve_enough [OF assms(1,2,4,5,6)] by simp
qed

text \<open>Settling at most what was reserved keeps every other reservation covered.\<close>

lemma finalize_covered:
  assumes "ok s" "account s = Some (b, r)" "r \<le> b" "0 \<le> q" "q \<le> p"
  shows "\<exists>b' r'. account (fst (finalize tm (Fin p) (Fin q) s)) = Some (b', r') \<and> 0 \<le> r' \<and> r' \<le> b' \<and> b' \<le> b"
proof -
  have "\<exists>v. amt (Fin x) = Some v \<and> 0 \<le> v" if "0 \<le> x" for x
    using that amt_pos [of x] amt_zero by (cases "x = 0") (auto intro: less_imp_le)
  from this [of p] this [of q] obtain v w where
    v: "amt (Fin p) = Some v" "0 \<le> v" and w: "amt (Fin q) = Some w" "0 \<le> w"
    using assms(4,5) by auto
  have wv: "w \<le> v" by (rule amt_mono [OF assms(5) w(1) v(1)])
  have g: "0 \<le> b" "onGrid scale b" using account_wf [OF assms(1,2)] by auto
  have le: "max (r - v) 0 \<le> max (b - min w b) 0" "max (b - min w b) 0 \<le> b"
    using assms(3) wv g w(2) by (auto simp: max_def min_def)
  have "0 \<le> p" using assms(4,5) by simp
  have "toScale scale (max (r - v) 0) \<le> toScale scale (max (b - min w b) 0)"
    by (rule toScale_mono [OF le(1)])
  moreover have "toScale scale (max (b - min w b) 0) \<le> b"
    by (rule toScale_le_grid [OF le(2) g(2)])
  ultimately show ?thesis
    using finalize_account [OF assms(1,2) \<open>0 \<le> p\<close> assms(4) v(1) w(1)] by (simp add: toScale_nonneg)
qed

lemma reserve_then_release:
  assumes "ok s" "account s = Some (b, r)" "0 < q" "amt (Fin q) = Some v" "onGrid scale v" "v \<le> b - r"
  shows "account (fst (finalize tm (Fin q) fzero (fst (reserve tm' (Fin q) s)))) = Some (b, r)"
proof -
  let ?s = "fst (reserve tm' (Fin q) s)"
  have g: "0 \<le> b" "0 \<le> r" "onGrid scale b" "onGrid scale r" using account_wf [OF assms(1,2)] by auto
  have e: "ok ?s" "account ?s = Some (b, r + v)"
    using reserve_enough [OF assms(1-4,6)] g assms(5) by (simp_all add: onGrid_add)
  show ?thesis
    using finalize_account [OF e less_imp_le [OF assms(3)] order_refl assms(4) amt_zero] g by simp
qed

end

text \<open>
  The life of an account: requests reserve, settle with at most what they reserved, and the
  counted sum of settlements never exceeds what the account held.
\<close>

inductive account_run ::
  "(time \<Rightarrow> float64 \<Rightarrow> 's \<Rightarrow> 's \<times> unit result) \<Rightarrow> (time \<Rightarrow> float64 \<Rightarrow> float64 \<Rightarrow> 's \<Rightarrow> 's \<times> unit result) \<Rightarrow> 's \<Rightarrow> 's \<Rightarrow> bool"
  for reserve finalize where
  ar_start: "account_run reserve finalize s s"
| ar_reserve: "\<lbrakk>account_run reserve finalize s t; reserve tm (Fin q) t = (t', res)\<rbrakk> \<Longrightarrow> account_run reserve finalize s t'"
| ar_settle: "\<lbrakk>account_run reserve finalize s t; 0 \<le> q; q \<le> p; finalize tm (Fin p) (Fin q) t = (t', res)\<rbrakk>
    \<Longrightarrow> account_run reserve finalize s t'"

context balance_account
begin

lemma reserve_step:
  assumes "ok t" "account t = Some (b, r)" "r \<le> b" "reserve tm (Fin q) t = (t', res)"
  shows "ok t' \<and> (\<exists>r'. account t' = Some (b, r') \<and> r' \<le> b)"
proof (cases "0 < q")
  case True
  obtain v where v: "amt (Fin q) = Some v" using amt_pos [OF True] by auto
  show ?thesis
  proof (cases "v \<le> b - r")
    case le: True
    show ?thesis
      using reserve_enough [OF assms(1,2) True v le, of tm] reserve_covered [OF assms(1-3) True v le, of tm] assms(4) by auto
  next
    case False
    then show ?thesis using reserve_short [OF assms(1,2) True v] assms by auto
  qed
next
  case False
  then show ?thesis using reserve_free [of q tm t] assms by auto
qed

lemma settle_step:
  assumes "ok t" "account t = Some (b, r)" "r \<le> b" "0 \<le> q" "q \<le> p" "finalize tm (Fin p) (Fin q) t = (t', res)"
  shows "ok t' \<and> (\<exists>b' r'. account t' = Some (b', r') \<and> r' \<le> b' \<and> b' \<le> b)"
proof -
  obtain v w where "amt (Fin p) = Some v" "amt (Fin q) = Some w"
    using amt_pos [of p] amt_pos [of q] amt_zero assms(4,5) by (cases "p = 0"; cases "q = 0") auto
  moreover have "0 \<le> p" using assms(4,5) by simp
  ultimately have "ok t'"
    using finalize_account [OF assms(1,2) _ assms(4), of p v w tm] assms(6) by simp
  then show ?thesis using finalize_covered [OF assms(1-5), of tm] assms(6) by auto
qed

lemma account_run_covered:
  assumes "account_run reserve finalize s t" "ok s" "account s = Some (b0, r0)" "r0 \<le> b0"
  shows "ok t \<and> (\<exists>b r. account t = Some (b, r) \<and> 0 \<le> r \<and> r \<le> b \<and> b \<le> b0)"
proof -
  have "ok t \<and> (\<exists>b r. account t = Some (b, r) \<and> r \<le> b \<and> b \<le> b0)"
    using assms
  proof (induction rule: account_run.induct)
    case (ar_start s)
    then show ?case by auto
  next
    case (ar_reserve s t tm q t' res)
    then show ?case using reserve_step by blast
  next
    case (ar_settle s t q p tm t' res)
    then show ?case using settle_step by (meson order_trans)
  qed
  then show ?thesis using account_wf by blast
qed

end

section \<open>The tables keep the contract\<close>

definition rowOk :: "pg_ent \<Rightarrow> bool" where
  "rowOk r \<longleftrightarrow> 0 \<le> peCredit r \<and> 0 \<le> peCreditReserved r \<and> 0 \<le> pePayg r \<and> 0 \<le> pePaygReserved r
     \<and> onGrid 4 (peCredit r) \<and> onGrid 4 (peCreditReserved r)
     \<and> onGrid 6 (pePayg r) \<and> onGrid 6 (pePaygReserved r)"

text \<open>
  The constraints the schema enforces on entitlements: the non-negative checks, the scales of the
  columns and the partial unique indexes of migration 00018.
\<close>

definition entsOk :: "pg_ent list \<Rightarrow> bool" where
  "entsOk rows \<longleftrightarrow> list_all rowOk rows
     \<and> list_all (\<lambda>r. atMostOne (activeRow ''credit_package'' (peUser r)) rows
                   \<and> atMostOne (activeRow ''payg_topup'' (peUser r)) rows) rows"

definition pgOk :: "pg_state \<Rightarrow> bool" where
  "pgOk s \<longleftrightarrow> pgUp s \<and> entsOk (pgEnts s)"

definition creditAccount :: "string \<Rightarrow> pg_state \<Rightarrow> (rat \<times> rat) option" where
  "creditAccount u s = map_option (\<lambda>r. (peCredit r, peCreditReserved r))
     (find (activeRow ''credit_package'' u) (pgEnts s))"

definition paygAccount :: "string \<Rightarrow> pg_state \<Rightarrow> (rat \<times> rat) option" where
  "paygAccount u s = map_option (\<lambda>r. (pePayg r, pePaygReserved r))
     (find (activeRow ''payg_topup'' u) (pgEnts s))"

text \<open>An update that keeps the identifying columns and the row checks.\<close>

definition keepsRow :: "(pg_ent \<Rightarrow> bool) \<Rightarrow> (pg_ent \<Rightarrow> pg_ent) \<Rightarrow> bool" where
  "keepsRow P f \<longleftrightarrow> (\<forall>r. P r \<longrightarrow> peUser (f r) = peUser r \<and> peStatus (f r) = peStatus r
     \<and> pePricingGroup (f r) = pePricingGroup r \<and> (rowOk r \<longrightarrow> rowOk (f r)))"

lemma atMostOne_vacuous: "(\<And>r. r \<in> set rows \<Longrightarrow> \<not> P r) \<Longrightarrow> atMostOne P rows"
proof -
  assume "\<And>r. r \<in> set rows \<Longrightarrow> \<not> P r"
  then have "filter P rows = []" by (simp add: filter_empty_conv)
  then show ?thesis by (simp add: atMostOne_def)
qed

lemma entsOk_unique:
  assumes "entsOk rows"
  shows "atMostOne (activeRow ''credit_package'' u) rows" "atMostOne (activeRow ''payg_topup'' u) rows"
proof -
  have "atMostOne (activeRow g u) rows" if "g = ''credit_package'' \<or> g = ''payg_topup''" for g
  proof (cases "\<exists>r \<in> set rows. peUser r = u")
    case True
    then show ?thesis using assms that by (auto simp: entsOk_def list_all_iff)
  next
    case False
    then show ?thesis by (intro atMostOne_vacuous) (auto simp: activeRow_def)
  qed
  then show "atMostOne (activeRow ''credit_package'' u) rows" "atMostOne (activeRow ''payg_topup'' u) rows"
    by auto
qed

lemma activeRow_keeps: "keepsRow P f \<Longrightarrow> P r \<Longrightarrow> activeRow g u (f r) = activeRow g u r"
  by (simp add: keepsRow_def activeRow_def)

lemma entsOk_updWhere [inv_intros]:
  assumes "entsOk rows" "keepsRow P f"
  shows "entsOk (updWhere P f rows)"
proof -
  have u: "atMostOne (activeRow g u) (updWhere P f rows) = atMostOne (activeRow g u) rows" for g u
    by (intro atMostOne_updWhere activeRow_keeps [OF assms(2)])
  have "peUser (f r) = peUser r" if "P r" for r using assms(2) that by (simp add: keepsRow_def)
  then show ?thesis
    using assms unfolding entsOk_def u
    by (auto simp: list_all_iff set_updWhere keepsRow_def)
qed

lemma find_activeRow_updWhere:
  "keepsRow P f \<Longrightarrow> find (activeRow g u) (updWhere P f rows)
     = map_option (\<lambda>r. if P r then f r else r) (find (activeRow g u) rows)"
  by (intro find_updWhere activeRow_keeps)

lemma rowOk_find: "entsOk rows \<Longrightarrow> find P rows = Some r \<Longrightarrow> rowOk r"
  using find_SomeD by (fastforce simp: entsOk_def list_all_iff)

lemma execEnts_none: "pgUp s \<Longrightarrow> \<forall>r \<in> set (pgEnts s). \<not> P r \<Longrightarrow> execEnts P f (Some e) s = (s, Inl e)"
  by (simp add: execEnts_def affected_0)

lemma execEnts_some: "pgUp s \<Longrightarrow> r \<in> set (pgEnts s) \<Longrightarrow> P r \<Longrightarrow>
    execEnts P f (Some e) s = (s\<lparr>pgEnts := updWhere P f (pgEnts s)\<rparr>, Inr ())"
  by (auto simp: execEnts_def affected_0)

lemma execEnts_any: "pgUp s \<Longrightarrow> execEnts P f None s = (s\<lparr>pgEnts := updWhere P f (pgEnts s)\<rparr>, Inr ())"
  by (simp add: execEnts_def)

lemma pgOk_updWhere [inv_intros]:
  "pgOk s \<Longrightarrow> keepsRow P f \<Longrightarrow> pgOk (s\<lparr>pgEnts := updWhere P f (pgEnts s)\<rparr>)"
  by (simp add: pgOk_def pgUp_def entsOk_updWhere)

lemma guardRow:
  assumes "pgOk s" "find (activeRow g u) (pgEnts s) = Some r" "g = ''credit_package'' \<or> g = ''payg_topup''"
    and "r' \<in> set (pgEnts s)" "activeRow g u r'"
  shows "r' = r"
proof -
  have "entsOk (pgEnts s)" using assms(1) by (simp add: pgOk_def)
  then show ?thesis using assms(2-5) atMostOne_find entsOk_unique by metis
qed

text \<open>
  The pair of statements both balances use, over the columns they touch; \<open>setRes\<close> and \<open>setBoth\<close>
  write the columns together with \<^verbatim>\<open>updated_at\<close>.
\<close>

definition reserveOn where
  "reserveOn grp bal res setRes n N now u amount s =
     (if fle amount fzero then (s, Inr ())
      else numArg N amount (\<lambda>a. execEnts
        (\<lambda>r. activeRow grp u r \<and> bal r - res r \<ge> a)
        (\<lambda>r. setRes now (toScale n (res r + a)) r)
        (Some ErrInsufficientBalance)) s)"

definition finalizeOn where
  "finalizeOn grp bal res setBoth n N now u reservedAmount actualAmount s =
     (if fle reservedAmount fzero \<and> fle actualAmount fzero then (s, Inr ())
      else let ra = (if flt reservedAmount fzero then fzero else reservedAmount);
               aa = (if flt actualAmount fzero then fzero else actualAmount)
           in numArg N ra (\<lambda>x. numArg N aa (\<lambda>y. execEnts (activeRow grp u)
             (\<lambda>r. setBoth now (toScale n (max (res r - x) 0)) (toScale n (max (bal r - min y (bal r)) 0)) r)
             None)) s)"

definition accountOn where
  "accountOn grp bal res u s = map_option (\<lambda>r. (bal r, res r)) (find (activeRow grp u) (pgEnts s))"

definition setCreditRes :: "time \<Rightarrow> rat \<Rightarrow> pg_ent \<Rightarrow> pg_ent" where
  "setCreditRes now v r = r\<lparr>peCreditReserved := v, peUpdatedAt := now\<rparr>"

definition setCreditBoth :: "time \<Rightarrow> rat \<Rightarrow> rat \<Rightarrow> pg_ent \<Rightarrow> pg_ent" where
  "setCreditBoth now x y r = r\<lparr>peCreditReserved := x, peCredit := y, peUpdatedAt := now\<rparr>"

definition setPaygRes :: "time \<Rightarrow> rat \<Rightarrow> pg_ent \<Rightarrow> pg_ent" where
  "setPaygRes now v r = r\<lparr>pePaygReserved := v, peUpdatedAt := now\<rparr>"

definition setPaygBoth :: "time \<Rightarrow> rat \<Rightarrow> rat \<Rightarrow> pg_ent \<Rightarrow> pg_ent" where
  "setPaygBoth now x y r = r\<lparr>pePaygReserved := x, pePayg := y, peUpdatedAt := now\<rparr>"

lemma credit_ops_eq:
  "ReserveRequestCredits N now u = reserveOn ''credit_package'' peCredit peCreditReserved setCreditRes 4 N now u"
  "FinalizeRequestCredits N now u = finalizeOn ''credit_package'' peCredit peCreditReserved setCreditBoth 4 N now u"
  "creditAccount u = accountOn ''credit_package'' peCredit peCreditReserved u"
  by (intro ext, simp only: ReserveRequestCredits_def reserveOn_def setCreditRes_def)
    (intro ext, simp only: FinalizeRequestCredits_def finalizeOn_def setCreditBoth_def creditAccount_def accountOn_def)+

lemma payg_ops_eq:
  "ReservePaygUsdBalance N now u = reserveOn ''payg_topup'' pePayg pePaygReserved setPaygRes 6 N now u"
  "FinalizePaygUsdBalance N now u = finalizeOn ''payg_topup'' pePayg pePaygReserved setPaygBoth 6 N now u"
  "paygAccount u = accountOn ''payg_topup'' pePayg pePaygReserved u"
  by (intro ext, simp only: ReservePaygUsdBalance_def reserveOn_def setPaygRes_def)
    (intro ext, simp only: FinalizePaygUsdBalance_def finalizeOn_def setPaygBoth_def paygAccount_def accountOn_def)+

locale balance_columns =
  fixes grp :: string and bal res :: "pg_ent \<Rightarrow> rat"
    and setRes :: "time \<Rightarrow> rat \<Rightarrow> pg_ent \<Rightarrow> pg_ent"
    and setBoth :: "time \<Rightarrow> rat \<Rightarrow> rat \<Rightarrow> pg_ent \<Rightarrow> pg_ent" and n :: nat
  assumes grp: "grp = ''credit_package'' \<or> grp = ''payg_topup''"
    and get_res: "bal (setRes t v r) = bal r" "res (setRes t v r) = v"
    and get_both: "res (setBoth t v w r) = v" "bal (setBoth t v w r) = w"
    and ids_res: "activeRow g u (setRes t v r) = activeRow g u r" "peUser (setRes t v r) = peUser r"
      "peStatus (setRes t v r) = peStatus r" "pePricingGroup (setRes t v r) = pePricingGroup r"
    and ids_both: "peUser (setBoth t v w r) = peUser r" "peStatus (setBoth t v w r) = peStatus r"
      "pePricingGroup (setBoth t v w r) = pePricingGroup r"
    and row_res: "\<lbrakk>rowOk r; 0 \<le> v; onGrid n v\<rbrakk> \<Longrightarrow> rowOk (setRes t v r)"
    and row_both: "\<lbrakk>rowOk r; 0 \<le> v; onGrid n v; 0 \<le> w; onGrid n w\<rbrakk> \<Longrightarrow> rowOk (setBoth t v w r)"
    and row_cols: "rowOk r \<Longrightarrow> 0 \<le> bal r \<and> 0 \<le> res r \<and> onGrid n (bal r) \<and> onGrid n (res r)"
begin

abbreviation acct :: "string \<Rightarrow> pg_state \<Rightarrow> (rat \<times> rat) option" where
  "acct \<equiv> accountOn grp bal res"

lemma acct_row:
  assumes "acct u s = Some (b, r)" "pgOk s"
  obtains e where "find (activeRow grp u) (pgEnts s) = Some e" "b = bal e" "r = res e"
    "e \<in> set (pgEnts s)" "activeRow grp u e" "rowOk e"
proof -
  obtain e where e: "find (activeRow grp u) (pgEnts s) = Some e" "b = bal e" "r = res e"
    using assms(1) by (auto simp: accountOn_def)
  then show ?thesis
    using that find_SomeD [OF e(1)] rowOk_find [OF _ e(1)] assms(2) by (simp add: pgOk_def)
qed

lemma keeps_reserve: "0 \<le> v \<Longrightarrow> keepsRow P (\<lambda>r. setRes t (toScale n (res r + v)) r)"
  by (simp add: keepsRow_def ids_res row_res toScale_nonneg row_cols)

lemma keeps_finalize:
  "keepsRow P (\<lambda>r. setBoth t (toScale n (max (res r - x) 0)) (toScale n (max (bal r - min y (bal r)) 0)) r)"
  by (simp add: keepsRow_def ids_both row_both toScale_nonneg)

lemma reserve_insufficient:
  assumes "pgOk s" "0 < q" "N (Fin q) = Some v" "\<And>b r. acct u s = Some (b, r) \<Longrightarrow> b - r < v"
  shows "reserveOn grp bal res setRes n N now u (Fin q) s = (s, Inl ErrInsufficientBalance)"
proof -
  have no: "\<not> (activeRow grp u e \<and> v \<le> bal e - res e)" if e: "e \<in> set (pgEnts s)" for e
  proof
    assume a: "activeRow grp u e \<and> v \<le> bal e - res e"
    then have "find (activeRow grp u) (pgEnts s) \<noteq> None" using e by (auto simp: find_None_iff_all)
    then obtain r where r: "find (activeRow grp u) (pgEnts s) = Some r" by auto
    have "e = r" using a by (intro guardRow [OF assms(1) r grp e]) simp
    then show False using a assms(4) [of "bal r" "res r"] r by (simp add: accountOn_def)
  qed
  have "reserveOn grp bal res setRes n N now u (Fin q) s
      = execEnts (\<lambda>r. activeRow grp u r \<and> v \<le> bal r - res r)
          (\<lambda>r. setRes now (toScale n (res r + v)) r) (Some ErrInsufficientBalance) s"
    using assms(2,3) by (simp add: reserveOn_def numArg_def)
  also have "\<dots> = (s, Inl ErrInsufficientBalance)"
    using assms(1) no by (intro execEnts_none) (simp_all add: pgOk_def)
  finally show ?thesis .
qed

lemma reserve_succeeds:
  assumes "pgOk s" "0 < q" "N (Fin q) = Some v" "0 \<le> v" "acct u s = Some (b, r)" "v \<le> b - r"
  shows "snd (reserveOn grp bal res setRes n N now u (Fin q) s) = Inr ()
    \<and> pgOk (fst (reserveOn grp bal res setRes n N now u (Fin q) s))
    \<and> acct u (fst (reserveOn grp bal res setRes n N now u (Fin q) s)) = Some (b, toScale n (r + v))"
proof -
  define P where "P = (\<lambda>r. activeRow grp u r \<and> v \<le> bal r - res r)"
  define f where "f = (\<lambda>r. setRes now (toScale n (res r + v)) r)"
  obtain e where e: "find (activeRow grp u) (pgEnts s) = Some e" "b = bal e" "r = res e"
    "e \<in> set (pgEnts s)" "activeRow grp u e" "rowOk e" using acct_row [OF assms(5,1)] .
  have Pe: "P e" using e assms(6) by (simp add: P_def)
  have k: "keepsRow P f" unfolding f_def by (rule keeps_reserve [OF assms(4)])
  have "reserveOn grp bal res setRes n N now u (Fin q) s = execEnts P f (Some ErrInsufficientBalance) s"
    using assms(2,3) by (simp add: reserveOn_def numArg_def P_def f_def)
  also have "\<dots> = (s\<lparr>pgEnts := updWhere P f (pgEnts s)\<rparr>, Inr ())"
    using assms(1) by (intro execEnts_some [where P = P, OF _ e(4) Pe]) (simp add: pgOk_def)
  finally have run: "reserveOn grp bal res setRes n N now u (Fin q) s = (s\<lparr>pgEnts := updWhere P f (pgEnts s)\<rparr>, Inr ())" .
  show ?thesis
    using e(1,2,3) Pe pgOk_updWhere [OF assms(1) k]
    by (simp add: run accountOn_def find_activeRow_updWhere [OF k]) (simp add: f_def get_res)
qed

lemma finalize_settles:
  assumes "pgOk s" "0 \<le> p" "0 \<le> q" "N (Fin p) = Some v" "N (Fin q) = Some w" "N fzero = Some 0"
    and "acct u s = Some (b, r)"
  shows "snd (finalizeOn grp bal res setBoth n N now u (Fin p) (Fin q) s) = Inr ()
    \<and> pgOk (fst (finalizeOn grp bal res setBoth n N now u (Fin p) (Fin q) s))
    \<and> acct u (fst (finalizeOn grp bal res setBoth n N now u (Fin p) (Fin q) s))
       = Some (toScale n (max (b - min w b) 0), toScale n (max (r - v) 0))"
proof -
  obtain e where e: "find (activeRow grp u) (pgEnts s) = Some e" "b = bal e" "r = res e"
    "e \<in> set (pgEnts s)" "activeRow grp u e" "rowOk e" using acct_row [OF assms(7,1)] .
  show ?thesis
  proof (cases "p = 0 \<and> q = 0")
    case True
    then have "v = 0" "w = 0" using assms(4-6) by simp_all
    then show ?thesis
      using True assms(1,7) row_cols [OF e(6)] e(2,3) by (simp add: finalizeOn_def)
  next
    case False
    define f where "f = (\<lambda>r. setBoth now (toScale n (max (res r - v) 0)) (toScale n (max (bal r - min w (bal r)) 0)) r)"
    have k: "keepsRow (activeRow grp u) f" unfolding f_def by (rule keeps_finalize)
    have "\<not> (fle (Fin p) fzero \<and> fle (Fin q) fzero)" using False assms(2,3) by auto
    then have run: "finalizeOn grp bal res setBoth n N now u (Fin p) (Fin q) s =
        (s\<lparr>pgEnts := updWhere (activeRow grp u) f (pgEnts s)\<rparr>, Inr ())"
      using assms(1-5) by (auto simp: finalizeOn_def numArg_def Let_def execEnts_any pgOk_def f_def)
    show ?thesis
      using e(1,2,3,5) pgOk_updWhere [OF assms(1) k]
      by (simp add: run accountOn_def find_activeRow_updWhere [OF k]) (simp add: f_def get_both)
  qed
qed

lemma is_account:
  assumes "pg_numeric N"
  shows "balance_account (\<lambda>now. reserveOn grp bal res setRes n N now u) (\<lambda>now. finalizeOn grp bal res setBoth n N now u)
    (acct u) pgOk N n"
proof (unfold_locales, goal_cases)
  case 1
  then show ?case by (rule pg_numeric.num_pos [OF assms])
next
  case 2
  then show ?case by (rule pg_numeric.num_zero [OF assms])
next
  case 3
  then show ?case by (rule pg_numeric.num_mono [OF assms])
next
  case (4 s b r)
  then show ?case using acct_row [OF 4(2,1)] row_cols by metis
next
  case (5 s q)
  obtain v where "N (Fin q) = Some v" using pg_numeric.num_pos [OF assms 5(3)] by auto
  then show ?case using 5 by (intro reserve_insufficient) auto
next
  case (6 s b r q v)
  then show ?case by (intro reserve_insufficient) auto
next
  case (7 s b r q v)
  have "0 < v" using pg_numeric.num_pos [OF assms 7(3)] 7(4) by auto
  then show ?case using 7 by (intro reserve_succeeds) auto
next
  case (8 q tm s)
  then show ?case by (simp add: reserveOn_def)
next
  case (9 s b r p q v w)
  then show ?case using pg_numeric.num_zero [OF assms] by (intro finalize_settles) auto
qed

end

interpretation creditCols: balance_columns "''credit_package''" peCredit peCreditReserved setCreditRes setCreditBoth 4
  by unfold_locales (auto simp: setCreditRes_def setCreditBoth_def rowOk_def activeRow_def)

interpretation paygCols: balance_columns "''payg_topup''" pePayg pePaygReserved setPaygRes setPaygBoth 6
  by unfold_locales (auto simp: setPaygRes_def setPaygBoth_def rowOk_def activeRow_def)

lemma credit_account:
  "pg_numeric N \<Longrightarrow> balance_account (\<lambda>now. ReserveRequestCredits N now u) (\<lambda>now. FinalizeRequestCredits N now u) (creditAccount u) pgOk N 4"
  unfolding credit_ops_eq by (rule creditCols.is_account)

lemma payg_account:
  "pg_numeric N \<Longrightarrow> balance_account (\<lambda>now. ReservePaygUsdBalance N now u) (\<lambda>now. FinalizePaygUsdBalance N now u) (paygAccount u) pgOk N 6"
  unfolding payg_ops_eq by (rule paygCols.is_account)

interpretation exactCredit: balance_account "\<lambda>now. ReserveRequestCredits exactNum now u" "\<lambda>now. FinalizeRequestCredits exactNum now u"
    "creditAccount u" pgOk exactNum 4 for u
  by (rule credit_account [OF exactDriver.pg_numeric_axioms])

interpretation exactPayg: balance_account "\<lambda>now. ReservePaygUsdBalance exactNum now u" "\<lambda>now. FinalizePaygUsdBalance exactNum now u"
    "paygAccount u" pgOk exactNum 6 for u
  by (rule payg_account [OF exactDriver.pg_numeric_axioms])

section \<open>Properties\<close>

text \<open>A user with 5 credits of which 2 are reserved, and 3 dollars, for the examples.\<close>

definition sampleEnt :: "string \<Rightarrow> string \<Rightarrow> pg_ent" where
  "sampleEnt u grp = \<lparr>peID = 1, peUser = u, peTenant = None, pePlanCode = grp, peStatus = ''active'',
     pePeriodStart = None, pePeriodEnd = None, peQuota = None, peSnapshot = None,
     peCredit = 5, peCreditReserved = 2, peCreditExpires = None, pePayg = 3, pePaygReserved = 0,
     pePricingGroup = Some grp, peMetadata = JObj [], peUpdatedFrom = 0, peUpdatedAt = 0\<rparr>"

definition samplePg :: pg_state where
  "samplePg = pgEmpty\<lparr>pgEnts := [sampleEnt ''u'' ''credit_package'', sampleEnt ''u'' ''payg_topup'']\<rparr>"

lemma onGrid_numeral [simp]: "onGrid n (numeral k)"
proof -
  have "numeral k = (of_int (numeral k * 10 ^ n) / 10 ^ n :: rat)" by simp
  then show ?thesis unfolding onGrid_iff by blast
qed

lemma samplePg_ok: "pgOk samplePg"
  by (simp add: pgOk_def pgUp_def entsOk_def rowOk_def atMostOne_def activeRow_def samplePg_def sampleEnt_def
      pgEmpty_def)

lemma samplePg_accounts: "creditAccount ''u'' samplePg = Some (5, 2)" "paygAccount ''u'' samplePg = Some (3, 0)"
  by (simp_all add: creditAccount_def paygAccount_def samplePg_def sampleEnt_def pgEmpty_def activeRow_def)



text \<open>
  The same for the pay-as-you-go dollars of a user.
\<close>

theorem payg_never_overdrawn:
  assumes "pg_numeric N" "pgOk s" "paygAccount u s = Some (b0, r0)" "r0 \<le> b0"
    and "account_run (\<lambda>now. ReservePaygUsdBalance N now u) (\<lambda>now. FinalizePaygUsdBalance N now u) s t"
  shows "\<exists>b r. paygAccount u t = Some (b, r) \<and> 0 \<le> r \<and> r \<le> b \<and> b \<le> b0"
  using balance_account.account_run_covered [OF payg_account [OF assms(1)] assms(5,2,3,4)] by blast

theorem payg_never_overdrawn_witness:
  "\<exists>b r. paygAccount ''u'' (fst (ReservePaygUsdBalance exactNum 7 ''u'' (Fin 3) samplePg)) = Some (b, r)
     \<and> 0 \<le> r \<and> r \<le> b \<and> b \<le> 3"
  by (rule payg_never_overdrawn [OF exactDriver.pg_numeric_axioms samplePg_ok samplePg_accounts(2)])
    (simp, rule ar_reserve [OF ar_start], rule prod.collapse [symmetric])

text \<open>
  A reservation of a positive amount succeeds exactly when the unreserved credits cover it;
  when it is refused the error is \<^verbatim>\<open>ErrInsufficientBalance\<close> and nothing changes; when it is
  granted, only the reserved column of that row grows, by the amount rounded to the column.
\<close>

theorem credit_reserve_exact:
  assumes "pg_numeric N" "pgOk s" "creditAccount u s = Some (b, r)" "0 < q" "N (Fin q) = Some v"
  shows "if v \<le> b - r
    then snd (ReserveRequestCredits N now u (Fin q) s) = Inr ()
      \<and> creditAccount u (fst (ReserveRequestCredits N now u (Fin q) s)) = Some (b, toScale 4 (r + v))
    else ReserveRequestCredits N now u (Fin q) s = (s, Inl ErrInsufficientBalance)"
  using balance_account.reserve_enough [OF credit_account [OF assms(1)] assms(2-5)]
    balance_account.reserve_short [OF credit_account [OF assms(1)] assms(2-5)] by auto

theorem credit_reserve_exact_witness:
  "ReserveRequestCredits exactNum 7 ''u'' (Fin 4) samplePg = (samplePg, Inl ErrInsufficientBalance)"
  using credit_reserve_exact [OF exactDriver.pg_numeric_axioms samplePg_ok samplePg_accounts(1), of 4 4 7] by simp

text \<open>
  Reserving an amount that fits the four decimals of the column and releasing it without a
  charge, at any later time, gives back exactly the balance and the reservations there were.
\<close>

theorem credit_reserve_release:
  assumes "pg_numeric N" "pgOk s" "creditAccount u s = Some (b, r)" "0 < q" "N (Fin q) = Some v"
    and "onGrid 4 v" "v \<le> b - r"
  shows "creditAccount u (fst (FinalizeRequestCredits N t2 u (Fin q) fzero
           (fst (ReserveRequestCredits N t1 u (Fin q) s)))) = Some (b, r)"
  by (rule balance_account.reserve_then_release [OF credit_account [OF assms(1)] assms(2-7)])

theorem credit_reserve_release_witness:
  "creditAccount ''u'' (fst (FinalizeRequestCredits exactNum 9 ''u'' (Fin 3) fzero
     (fst (ReserveRequestCredits exactNum 7 ''u'' (Fin 3) samplePg)))) = Some (5, 2)"
  by (rule credit_reserve_release [OF exactDriver.pg_numeric_axioms samplePg_ok samplePg_accounts(1), where v = 3])
    simp_all

text \<open>
  Charging a user touches nobody else: after any settlement of user \<open>u\<close>, every row of another
  user, and the user's own pay-as-you-go account, are as before.
\<close>

theorem credit_finalize_frame:
  assumes "v \<noteq> u"
  shows "filter (\<lambda>r. peUser r = v) (pgEnts (fst (FinalizeRequestCredits N now u p q s)))
           = filter (\<lambda>r. peUser r = v) (pgEnts s)
    \<and> paygAccount w (fst (FinalizeRequestCredits N now u p q s)) = paygAccount w s"
proof -
  have frame: "filter (\<lambda>r. peUser r = v) (updWhere (activeRow ''credit_package'' u) f rows) = filter (\<lambda>r. peUser r = v) rows"
    if "\<And>r. peUser (f r) = peUser r" for f :: "pg_ent \<Rightarrow> pg_ent" and rows
    using assms that by (induction rows) (auto simp: updWhere_def activeRow_def)
  have other: "find (activeRow ''payg_topup'' w) (updWhere (activeRow ''credit_package'' u) f rows)
      = find (activeRow ''payg_topup'' w) rows"
    if "\<And>r. pePricingGroup (f r) = pePricingGroup r" for f :: "pg_ent \<Rightarrow> pg_ent" and rows
    using that by (intro find_updWhere_other) (auto simp: activeRow_def)
  show ?thesis
    by (auto simp: FinalizeRequestCredits_def numArg_def execEnts_def pgRun_def Let_def paygAccount_def frame other
        split: option.splits)
qed

theorem credit_finalize_frame_witness:
  "filter (\<lambda>r. peUser r = ''v'') (pgEnts (fst (FinalizeRequestCredits exactNum 9 ''u'' (Fin 2) (Fin 1) samplePg)))
     = filter (\<lambda>r. peUser r = ''v'') (pgEnts samplePg)"
  using credit_finalize_frame [of "''v''" "''u''" exactNum 9 "Fin 2" "Fin 1" samplePg] by simp

text \<open>
  Settlement is not idempotent: finalising the same request twice takes the cost twice.
\<close>

theorem credit_finalize_twice_debits_twice:
  assumes "pg_numeric N" "pgOk s" "creditAccount u s = Some (b, r)" "0 \<le> p" "0 \<le> q"
    and "N (Fin p) = Some v" "N (Fin q) = Some w" "onGrid 4 w" "0 \<le> w" "2 * w \<le> b"
  shows "map_option fst (creditAccount u (fst (FinalizeRequestCredits N t2 u (Fin p) (Fin q)
           (fst (FinalizeRequestCredits N t1 u (Fin p) (Fin q) s))))) = Some (b - 2 * w)"
proof -
  note acc = credit_account [OF assms(1)]
  have g: "onGrid 4 b" using balance_account.account_wf [OF acc assms(2,3)] by simp
  have one: "onGrid 4 (b - w)" by (rule onGrid_diff [OF g assms(8)])
  have two: "onGrid 4 (b - w - w)" by (rule onGrid_diff [OF one assms(8)])
  let ?s = "fst (FinalizeRequestCredits N t1 u (Fin p) (Fin q) s)"
  have e: "pgOk ?s" "creditAccount u ?s = Some (b - w, toScale 4 (max (r - v) 0))"
    using balance_account.finalize_account [OF acc assms(2-7), of t1] assms(9,10) one by simp_all
  show ?thesis
    using balance_account.finalize_account [OF acc e assms(4-7), of t2] assms(9,10) two by simp
qed

theorem credit_finalize_twice_debits_twice_witness:
  "map_option fst (creditAccount ''u'' (fst (FinalizeRequestCredits exactNum 9 ''u'' (Fin 2) (Fin 2)
     (fst (FinalizeRequestCredits exactNum 8 ''u'' (Fin 2) (Fin 2) samplePg))))) = Some 1"
  using credit_finalize_twice_debits_twice [OF exactDriver.pg_numeric_axioms samplePg_ok samplePg_accounts(1),
      of 2 2 2 2 9 8] by simp

text \<open>
  The sweep clears exactly the reservations of active rows that have not been touched for
  longer than the threshold (five minutes by default), changes no balance, and reports how many
  rows it cleared.
\<close>

theorem stale_sweep_exact:
  assumes "pgUp s"
  shows "map (\<lambda>r. (peUser r, peCredit r, pePayg r)) (pgEnts (fst (ReleaseStaleReservations now age s)))
           = map (\<lambda>r. (peUser r, peCredit r, pePayg r)) (pgEnts s)
    \<and> (\<forall>r \<in> set (pgEnts (fst (ReleaseStaleReservations now age s))).
          peStatus r = ''active'' \<longrightarrow> peCreditReserved r > 0 \<or> pePaygReserved r > 0 \<longrightarrow>
          now - milliseconds (if age \<le> 0 then 5 * nsMinute else age) * nsMilli \<le> peUpdatedAt r)
    \<and> (\<forall>r \<in> set (pgEnts s).
          now - milliseconds (if age \<le> 0 then 5 * nsMinute else age) * nsMilli \<le> peUpdatedAt r \<longrightarrow>
          r \<in> set (pgEnts (fst (ReleaseStaleReservations now age s))))"
  using assms
  by (auto simp: ReleaseStaleReservations_def Let_def updWhere_def staleEnt_def)

theorem stale_sweep_exact_witness:
  "map (\<lambda>r. (peUser r, peCredit r, pePayg r)) (pgEnts (fst (ReleaseStaleReservations (nsDay) 0 samplePg)))
     = map (\<lambda>r. (peUser r, peCredit r, pePayg r)) (pgEnts samplePg)"
  using stale_sweep_exact [of samplePg nsDay 0] samplePg_ok by (simp add: pgOk_def)

end
