(* ===== verification/PgEntitlements.thy ===== *)
theory PgEntitlements
  imports PgBalance "HOL-Library.Product_Lexorder"
begin

text \<open>
  Entitlement rows in Postgres: the upsert that genfity-app's sync drives, with its two routes by
  pricing group, the balance push and the reads the request path uses (\<^verbatim>\<open>postgres_store.go\<close>).
  A statement that breaks a constraint of the schema (primary key, unique indexes, foreign key,
  checks) is an error and leaves the tables as they were, as a rolled-back transaction does.
  The lemmas show that the upserts keep the account invariant, leave at most one active unlimited
  subscription per user, never let an older purchase overwrite a newer one, and never touch
  reservations.
\<close>

section \<open>Constraints\<close>

definition activeIn :: "string \<Rightarrow> string \<Rightarrow> pg_ent list \<Rightarrow> bool" where
  "activeIn grp u rows = atMostOne (activeRow grp u) rows"

definition entsValid :: "string list \<Rightarrow> pg_ent list \<Rightarrow> bool" where
  "entsValid plans rows \<longleftrightarrow>
     distinct (map peID rows)
     \<and> distinct (map (\<lambda>r. (peUser r, pePlanCode r)) rows)
     \<and> list_all (\<lambda>r. pePlanCode r \<in> set plans) rows
     \<and> list_all (\<lambda>r. 0 \<le> peCredit r \<and> 0 \<le> peCreditReserved r \<and> 0 \<le> pePayg r \<and> 0 \<le> pePaygReserved r) rows
     \<and> list_all (\<lambda>r. activeIn ''unlimited'' (peUser r) rows \<and> activeIn ''credit_package'' (peUser r) rows
                     \<and> activeIn ''payg_topup'' (peUser r) rows) rows"

definition constraintError :: gerror where
  "constraintError = ErrText ''constraint violation''"

definition planCodes :: "pg_state \<Rightarrow> string list" where
  "planCodes s = map spPlanCode (pgPlans s)"

text \<open>A text argument of a numeric parameter.\<close>

definition numText :: "string option \<Rightarrow> rat option option" where
  "numText t = (case t of None \<Rightarrow> Some None | Some x \<Rightarrow> (case parseDecimal x of None \<Rightarrow> None | Some q \<Rightarrow> Some (Some q)))"

definition orElse :: "'a option \<Rightarrow> 'a \<Rightarrow> 'a" where
  "orElse v d = (case v of Some x \<Rightarrow> x | None \<Rightarrow> d)"

text \<open>\<^verbatim>\<open>RETURNING ... Scan\<close>: the scanned columns replace the item's fields, the rest stay.\<close>

definition scanEnt :: "CustomerEntitlement \<Rightarrow> pg_ent \<Rightarrow> CustomerEntitlement" where
  "scanEnt item r = item\<lparr>ceID := peID r, ceGenfityUserID := peUser r, ceGenfityTenantID := peTenant r,
     cePlanCode := pePlanCode r, ceStatus := peStatus r, cePeriodStart := pePeriodStart r, cePeriodEnd := pePeriodEnd r,
     ceQuotaTokensMonthly := peQuota r, ceBalanceSnapshot := map_option (fixedText 6) (peSnapshot r),
     ceCreditBalance := Some (fixedText 4 (peCredit r)), ceCreditExpiresAt := peCreditExpires r,
     cePaygUsdBalance := Some (fixedText 6 (pePayg r)), cePricingGroup := pePricingGroup r,
     ceMetadata := Some (peMetadata r), ceUpdatedFromGenfityAt := peUpdatedFrom r\<rparr>"

text \<open>The row an insert creates; the reserved columns take their default 0.\<close>

definition newEnt :: "time \<Rightarrow> CustomerEntitlement \<Rightarrow> string \<Rightarrow> string option \<Rightarrow> rat option \<Rightarrow> rat option \<Rightarrow> rat option \<Rightarrow> pg_ent" where
  "newEnt now item status grp snap credit payg =
     \<lparr>peID = ceID item, peUser = ceGenfityUserID item, peTenant = ceGenfityTenantID item, pePlanCode = cePlanCode item,
      peStatus = status, pePeriodStart = map_option pgTs (cePeriodStart item), pePeriodEnd = map_option pgTs (cePeriodEnd item),
      peQuota = ceQuotaTokensMonthly item, peSnapshot = map_option (toScale 6) snap,
      peCredit = toScale 4 (orElse credit 0), peCreditReserved = 0,
      peCreditExpires = map_option pgTs (ceCreditExpiresAt item),
      pePayg = toScale 6 (orElse payg 0), pePaygReserved = 0, pePricingGroup = grp,
      peMetadata = orElse (rawJSON (ceMetadata item)) JNull,
      peUpdatedFrom = pgTs (defaultTime now (ceUpdatedFromGenfityAt item)), peUpdatedAt = now\<rparr>"

section \<open>Upserts\<close>

text \<open>Rows in a terminal status that hold the incoming plan code are deleted first.\<close>

definition freePlanSlot :: "string \<Rightarrow> string \<Rightarrow> pg_ent list \<Rightarrow> pg_ent list" where
  "freePlanSlot u pc rows = (if pc \<noteq> [] then filter (\<lambda>r. \<not> (peUser r = u \<and> pePlanCode r = pc \<and> peStatus r \<noteq> ''active'')) rows
     else rows)"

definition singleRowUpdate ::
  "time \<Rightarrow> CustomerEntitlement \<Rightarrow> string \<Rightarrow> rat option \<Rightarrow> rat option \<Rightarrow> rat option \<Rightarrow> pg_ent \<Rightarrow> pg_ent" where
  "singleRowUpdate now item grp snap credit payg r =
     r\<lparr>peTenant := ceGenfityTenantID item, pePlanCode := cePlanCode item,
       pePeriodStart := map_option pgTs (cePeriodStart item), pePeriodEnd := map_option pgTs (cePeriodEnd item),
       peQuota := ceQuotaTokensMonthly item, peSnapshot := map_option (toScale 6) snap,
       peCredit := (if grp = ''payg_topup'' then 0 else toScale 4 (orElse credit (peCredit r))),
       peCreditExpires := map_option pgTs (ceCreditExpiresAt item),
       pePayg := (if grp = ''credit_package'' then 0 else toScale 6 (orElse payg (pePayg r))),
       pePricingGroup := Some grp, peMetadata := orElse (rawJSON (ceMetadata item)) JNull,
       peUpdatedFrom := pgTs (defaultTime now (ceUpdatedFromGenfityAt item)), peUpdatedAt := now\<rparr>"

definition upsertSingleRowEntitlement ::
  "time \<Rightarrow> CustomerEntitlement \<Rightarrow> string \<Rightarrow> pg_state \<Rightarrow> pg_state \<times> CustomerEntitlement result" where
  "upsertSingleRowEntitlement now item grp = pgRun (\<lambda>s.
     let u = ceGenfityUserID item; pc = cePlanCode item;
         rows1 = freePlanSlot u pc (pgEnts s)
     in case (numText (ceBalanceSnapshot item), numText (ceCreditBalance item), numText (cePaygUsdBalance item)) of
          (Some snap, Some credit, Some payg) \<Rightarrow>
            (case find (activeRow grp u) rows1 of
               None \<Rightarrow>
                 let new = newEnt now item ''active'' (Some grp) snap credit payg; rows2 = rows1 @ [new]
                 in if ceID item = nilUUID \<or> \<not> entsValid (planCodes s) rows2 then (s, Inl constraintError)
                    else (s\<lparr>pgEnts := rows2\<rparr>, Inr (scanEnt item new))
             | Some e \<Rightarrow>
                 let upd = singleRowUpdate now item grp snap credit payg;
                     rows2 = updWhere (\<lambda>r. peID r = peID e) upd rows1
                 in if \<not> entsValid (planCodes s) rows2 then (s, Inl constraintError)
                    else (s\<lparr>pgEnts := rows2\<rparr>, Inr (scanEnt item (upd e))))
        | _ \<Rightarrow> (s, Inl (ErrText ''invalid input syntax for type numeric'')))"

text \<open>\<^verbatim>\<open>COALESCE(pricing_group, metadata->>'pricingGroup')\<close>.\<close>

definition effGroup :: "pg_ent \<Rightarrow> string option" where
  "effGroup r = (case pePricingGroup r of
       Some g \<Rightarrow> Some g
     | None \<Rightarrow> (case peMetadata r of JObj m \<Rightarrow> (case jget m ''pricingGroup'' of Some (JStr g) \<Rightarrow> Some g | _ \<Rightarrow> None) | _ \<Rightarrow> None))"

definition unlimitedRow :: "pg_ent \<Rightarrow> bool" where
  "unlimitedRow r \<longleftrightarrow> effGroup r = Some ''unlimited'' \<or> effGroup r = Some ''unlimited_plan''"

definition staleIncoming :: "pg_ent \<Rightarrow> pg_ent \<Rightarrow> bool" where
  "staleIncoming new ce \<longleftrightarrow> peStatus new \<noteq> ''active'' \<and>
     (case (pePeriodStart ce, pePeriodStart new) of (Some a, Some b) \<Rightarrow> b < a | _ \<Rightarrow> False)"

definition conflictUpdate :: "pg_ent \<Rightarrow> pg_ent \<Rightarrow> pg_ent" where
  "conflictUpdate new r = r\<lparr>peTenant := peTenant new, peStatus := peStatus new, pePeriodStart := pePeriodStart new,
     pePeriodEnd := pePeriodEnd new, peQuota := peQuota new, peSnapshot := peSnapshot new, peCredit := peCredit new,
     peCreditExpires := peCreditExpires new, pePayg := pePayg new, pePricingGroup := pePricingGroup new,
     peMetadata := peMetadata new, peUpdatedFrom := peUpdatedFrom new, peUpdatedAt := peUpdatedAt new\<rparr>"

definition insertEntitlementByPlanCode ::
  "time \<Rightarrow> CustomerEntitlement \<Rightarrow> pg_state \<Rightarrow> pg_state \<times> CustomerEntitlement result" where
  "insertEntitlementByPlanCode now item = pgRun (\<lambda>s.
     case (numText (ceBalanceSnapshot item), numText (ceCreditBalance item), numText (cePaygUsdBalance item)) of
       (Some snap, Some credit, Some payg) \<Rightarrow>
         let new = newEnt now item (defaultString (ceStatus item) ''active'') (cePricingGroup item) snap credit payg;
             same = (\<lambda>r. peUser r = peUser new \<and> pePlanCode r = pePlanCode new)
         in if ceID item = nilUUID then (s, Inl constraintError)
            else (case find same (pgEnts s) of
                    Some ce \<Rightarrow>
                      if staleIncoming new ce then (s, Inr item)
                      else let rows = updWhere same (conflictUpdate new) (pgEnts s)
                           in if entsValid (planCodes s) rows then (s\<lparr>pgEnts := rows\<rparr>, Inr (scanEnt item (conflictUpdate new ce)))
                              else (s, Inl constraintError)
                  | None \<Rightarrow>
                      let rows = pgEnts s @ [new]
                      in if entsValid (planCodes s) rows then (s\<lparr>pgEnts := rows\<rparr>, Inr (scanEnt item new))
                         else (s, Inl constraintError))
     | _ \<Rightarrow> (s, Inl (ErrText ''invalid input syntax for type numeric'')))"

definition itemGroup :: "CustomerEntitlement \<Rightarrow> string" where
  "itemGroup item = (case cePricingGroup item of None \<Rightarrow> [] | Some g \<Rightarrow> trimSpace g)"

definition itemStatus :: "CustomerEntitlement \<Rightarrow> string" where
  "itemStatus item = trimSpace (defaultString (ceStatus item) ''active'')"

definition demoteUnlimited :: "time \<Rightarrow> string \<Rightarrow> string \<Rightarrow> pg_ent list \<Rightarrow> pg_ent list" where
  "demoteUnlimited now u planCode rows =
     updWhere (\<lambda>r. peUser r = u \<and> peStatus r = ''active'' \<and> pePlanCode r \<noteq> planCode \<and> unlimitedRow r)
       (\<lambda>r. r\<lparr>peStatus := ''replaced'', peUpdatedAt := now\<rparr>) rows"

definition upsertEntitlementByPlanCode ::
  "time \<Rightarrow> CustomerEntitlement \<Rightarrow> pg_state \<Rightarrow> pg_state \<times> CustomerEntitlement result" where
  "upsertEntitlementByPlanCode now item s =
     (if itemStatus item = ''active'' \<and> (itemGroup item = ''unlimited'' \<or> itemGroup item = ''unlimited_plan'') then
        pgRun (\<lambda>s.
          case insertEntitlementByPlanCode now item
                 (s\<lparr>pgEnts := demoteUnlimited now (ceGenfityUserID item) (cePlanCode item) (pgEnts s)\<rparr>) of
            (s1, Inl e) \<Rightarrow> (s, Inl e)
          | (s1, Inr saved) \<Rightarrow> (s1, Inr saved)) s
      else insertEntitlementByPlanCode now item s)"

definition upsertEntitlement ::
  "time \<Rightarrow> CustomerEntitlement \<Rightarrow> pg_state \<Rightarrow> pg_state \<times> CustomerEntitlement result" where
  "upsertEntitlement now item s =
     (let grp = itemGroup item in
      if itemStatus item = ''active'' \<and> (grp = ''credit_package'' \<or> grp = ''payg_topup'')
      then upsertSingleRowEntitlement now item grp s
      else upsertEntitlementByPlanCode now item s)"

section \<open>Reads\<close>

definition entOfRow :: "pg_ent \<Rightarrow> CustomerEntitlement" where
  "entOfRow r = \<lparr>ceID = peID r, ceGenfityUserID = peUser r, ceGenfityTenantID = peTenant r, cePlanCode = pePlanCode r,
     ceStatus = peStatus r, cePeriodStart = pePeriodStart r, cePeriodEnd = pePeriodEnd r,
     ceQuotaTokensMonthly = peQuota r, ceBalanceSnapshot = map_option (fixedText 6) (peSnapshot r),
     ceBalanceReserved = None, ceCreditBalance = Some (fixedText 4 (peCredit r)),
     ceCreditBalanceReserved = Some (fixedText 4 (peCreditReserved r)), ceCreditExpiresAt = peCreditExpires r,
     cePaygUsdBalance = Some (fixedText 6 (pePayg r)), cePaygUsdBalanceReserved = Some (fixedText 6 (pePaygReserved r)),
     cePricingGroup = pePricingGroup r, ceMetadata = Some (peMetadata r), ceUpdatedFromGenfityAt = peUpdatedFrom r\<rparr>"

definition entClass :: "pg_ent \<Rightarrow> int" where
  "entClass r = (if unlimitedRow r then 0 else if effGroup r = Some ''credit_package'' then 1 else 2)"

text \<open>Descending with nulls last, as an ascending key.\<close>

definition descKey :: "time option \<Rightarrow> int \<times> int" where
  "descKey t = (case t of Some x \<Rightarrow> (0, - x) | None \<Rightarrow> (1, 0))"

definition entOrder :: "pg_ent \<Rightarrow> int \<times> (int \<times> int) \<times> int \<times> (int \<times> int)" where
  "entOrder r = (entClass r, descKey (pePeriodStart r), - peUpdatedAt r, descKey (pePeriodEnd r))"

definition liveEnt :: "time \<Rightarrow> string \<Rightarrow> pg_ent \<Rightarrow> bool" where
  "liveEnt now u r \<longleftrightarrow> peUser r = u \<and> peStatus r = ''active''
     \<and> (case pePeriodEnd r of None \<Rightarrow> True | Some e \<Rightarrow> e > now)"

definition ListActiveEntitlementsByUser :: "time \<Rightarrow> string \<Rightarrow> pg_state \<Rightarrow> CustomerEntitlement list result" where
  "ListActiveEntitlementsByUser now u s = (case pgFault s of
       Some e \<Rightarrow> Inl e
     | None \<Rightarrow> Inr (map entOfRow (sort_key entOrder (filter (liveEnt now u) (pgEnts s)))))"

definition GetEntitlementByUser :: "time \<Rightarrow> string \<Rightarrow> pg_state \<Rightarrow> CustomerEntitlement result" where
  "GetEntitlementByUser now u s = (case pgFault s of
       Some e \<Rightarrow> Inl e
     | None \<Rightarrow> (case sort_key entOrder (filter (liveEnt now u) (pgEnts s)) of
         [] \<Rightarrow> Inl ErrNotFound
       | r # _ \<Rightarrow> Inr (entOfRow r)))"

definition pushCredit :: "time \<Rightarrow> rat \<Rightarrow> time option \<Rightarrow> pg_ent \<Rightarrow> pg_ent" where
  "pushCredit now b creditExpiresAt r = r\<lparr>peSnapshot := Some (toScale 6 b), peCredit := toScale 4 b,
     peUpdatedFrom := now, peUpdatedAt := now,
     peCreditExpires := (case creditExpiresAt of None \<Rightarrow> peCreditExpires r | Some t \<Rightarrow> Some (pgTs t))\<rparr>"

definition pushPayg :: "time \<Rightarrow> rat \<Rightarrow> pg_ent \<Rightarrow> pg_ent" where
  "pushPayg now p r = r\<lparr>pePayg := toScale 6 p, peUpdatedFrom := now, peUpdatedAt := now\<rparr>"

text \<open>The push of a balance: credits to the active credit row, dollars to the active PAYG row.\<close>

definition UpsertBalanceSnapshot ::
  "time \<Rightarrow> string \<Rightarrow> string \<Rightarrow> string option \<Rightarrow> time option \<Rightarrow> pg_state \<Rightarrow> pg_state \<times> pg_ent option result" where
  "UpsertBalanceSnapshot now u balance paygBalance creditExpiresAt = pgRun (\<lambda>s.
     case parseDecimal balance of
       None \<Rightarrow> (s, Inl (ErrText ''invalid input syntax for type numeric''))
     | Some b \<Rightarrow>
         let credit = activeRow ''credit_package'' u;
             updC = pushCredit now b creditExpiresAt;
             rows1 = updWhere credit updC (pgEnts s); creditRow = map_option updC (find credit (pgEnts s));
             n1 = affected credit (pgEnts s)
         in if n1 > 0 \<and> toScale 4 b < 0 then (s, Inl constraintError)
            else (case paygBalance of
                    None \<Rightarrow> if n1 = 0 then (s, Inl ErrNotFound) else (s\<lparr>pgEnts := rows1\<rparr>, Inr creditRow)
                  | Some pt \<Rightarrow> (case parseDecimal pt of
                      None \<Rightarrow> (s\<lparr>pgEnts := rows1\<rparr>, Inl (ErrText ''invalid input syntax for type numeric''))
                    | Some p \<Rightarrow>
                        let payg = activeRow ''payg_topup'' u;
                            rows2 = updWhere payg (pushPayg now p) rows1;
                            n2 = affected payg rows1
                        in if n2 > 0 \<and> toScale 6 p < 0 then (s\<lparr>pgEnts := rows1\<rparr>, Inl constraintError)
                           else if n1 + n2 = 0 then (s, Inl ErrNotFound)
                           else (s\<lparr>pgEnts := rows2\<rparr>, Inr creditRow))))"

section \<open>Invariants\<close>

definition entsInv :: "pg_state \<Rightarrow> bool" where
  "entsInv s \<longleftrightarrow> pgOk s \<and> entsValid (planCodes s) (pgEnts s)"

lemma entsInvD: "entsInv s \<Longrightarrow> pgUp s \<and> entsOk (pgEnts s) \<and> entsValid (planCodes s) (pgEnts s)"
  by (simp add: entsInv_def pgOk_def)

text \<open>The constraints give the account invariant back, once every numeric is on its grid.\<close>

definition gridRow :: "pg_ent \<Rightarrow> bool" where
  "gridRow r \<longleftrightarrow> onGrid 4 (peCredit r) \<and> onGrid 4 (peCreditReserved r) \<and> onGrid 6 (pePayg r) \<and> onGrid 6 (pePaygReserved r)"

lemma entsValid_entsOk: "entsValid plans rows \<Longrightarrow> list_all gridRow rows \<Longrightarrow> entsOk rows"
  by (auto simp: entsValid_def entsOk_def rowOk_def gridRow_def activeIn_def list_all_iff)

lemma entsOk_grid: "entsOk rows \<Longrightarrow> list_all gridRow rows"
  by (auto simp: entsOk_def rowOk_def gridRow_def list_all_iff)

lemma entsInv_write:
  assumes "entsInv s" "entsValid (planCodes s) rows" "list_all gridRow rows"
  shows "entsInv (s\<lparr>pgEnts := rows\<rparr>)"
  using assms entsValid_entsOk [OF assms(2,3)]
  by (simp add: entsInv_def pgOk_def pgUp_def planCodes_def)

lemma gridRow_new [simp]: "gridRow (newEnt now item st g snap credit payg)"
  by (simp add: gridRow_def newEnt_def)

lemma grid_updWhere: "list_all gridRow rows \<Longrightarrow> (\<And>r. gridRow r \<Longrightarrow> gridRow (f r)) \<Longrightarrow> list_all gridRow (updWhere P f rows)"
  by (auto simp: list_all_iff set_updWhere)

text \<open>
  What a write for one user may do to the table: rows of other users stay as they are, and every row
  of the user is a new one without reservations or an old one with the reservations it had.
\<close>

definition sameReserved :: "pg_ent \<Rightarrow> pg_ent \<Rightarrow> bool" where
  "sameReserved r r0 \<longleftrightarrow> peID r = peID r0 \<and> peUser r = peUser r0
     \<and> peCreditReserved r = peCreditReserved r0 \<and> pePaygReserved r = pePaygReserved r0"

definition linked :: "string \<Rightarrow> pg_ent list \<Rightarrow> pg_ent list \<Rightarrow> bool" where
  "linked u old new \<longleftrightarrow>
     filter (\<lambda>r. peUser r \<noteq> u) new = filter (\<lambda>r. peUser r \<noteq> u) old
     \<and> (\<forall>r \<in> set new. peUser r = u \<longrightarrow>
          (peCreditReserved r = 0 \<and> pePaygReserved r = 0) \<or> (\<exists>r0 \<in> set old. sameReserved r r0))"

lemma linked_refl [simp]: "linked u rows rows"
  by (auto simp: linked_def sameReserved_def)

lemma linked_trans:
  assumes "linked u a b" "linked u b c"
  shows "linked u a c"
  unfolding linked_def
proof (intro conjI ballI impI)
  show "filter (\<lambda>r. peUser r \<noteq> u) c = filter (\<lambda>r. peUser r \<noteq> u) a" using assms by (simp add: linked_def)
next
  fix r assume r: "r \<in> set c" "peUser r = u"
  show "(peCreditReserved r = 0 \<and> pePaygReserved r = 0) \<or> (\<exists>r0 \<in> set a. sameReserved r r0)"
  proof (cases "peCreditReserved r = 0 \<and> pePaygReserved r = 0")
    case False
    then obtain r1 where r1: "r1 \<in> set b" "sameReserved r r1" using assms(2) r by (auto simp: linked_def)
    then have "peUser r1 = u" "\<not> (peCreditReserved r1 = 0 \<and> pePaygReserved r1 = 0)"
      using r False by (auto simp: sameReserved_def)
    then obtain r0 where "r0 \<in> set a" "sameReserved r1 r0" using assms(1) r1(1) by (auto simp: linked_def)
    then show ?thesis using r1(2) by (auto simp: sameReserved_def)
  qed simp
qed

lemma linked_updWhere:
  assumes "\<And>r. r \<in> set rows \<Longrightarrow> P r \<Longrightarrow> peUser r = u \<and> sameReserved (f r) r"
  shows "linked u rows (updWhere P f rows)"
proof -
  have "filter (\<lambda>r. peUser r \<noteq> u) (updWhere P f rows) = filter (\<lambda>r. peUser r \<noteq> u) rows"
    using assms by (induction rows) (auto simp: updWhere_def sameReserved_def)
  moreover have "\<exists>r0 \<in> set rows. sameReserved r r0" if "r \<in> set (updWhere P f rows)" for r
    using that assms by (auto simp: set_updWhere sameReserved_def)
  ultimately show ?thesis by (auto simp: linked_def)
qed

lemma linked_filter: "(\<And>r. r \<in> set rows \<Longrightarrow> peUser r \<noteq> u \<Longrightarrow> K r) \<Longrightarrow> linked u rows (filter K rows)"
  by (auto simp: linked_def sameReserved_def intro!: filter_cong)

lemma linked_append:
  "peUser r = u \<Longrightarrow> peCreditReserved r = 0 \<Longrightarrow> pePaygReserved r = 0 \<Longrightarrow> linked u rows (rows @ [r])"
  by (auto simp: linked_def sameReserved_def)

lemma newEnt_cols [simp]:
  "peUser (newEnt now item st g snap credit payg) = ceGenfityUserID item"
  "pePlanCode (newEnt now item st g snap credit payg) = cePlanCode item"
  "peStatus (newEnt now item st g snap credit payg) = st"
  "peCreditReserved (newEnt now item st g snap credit payg) = 0"
  "pePaygReserved (newEnt now item st g snap credit payg) = 0"
  "pePeriodStart (newEnt now item st g snap credit payg) = map_option pgTs (cePeriodStart item)"
  "pePricingGroup (newEnt now item st g snap credit payg) = g"
  by (simp_all add: newEnt_def)

lemma entsValid_idUnique:
  "entsValid plans rows \<Longrightarrow> r \<in> set rows \<Longrightarrow> r' \<in> set rows \<Longrightarrow> peID r = peID r' \<Longrightarrow> r = r'"
  by (auto simp: entsValid_def distinct_map inj_on_def)

text \<open>The outcome of the two writing transactions.\<close>

definition goodWrite :: "string \<Rightarrow> pg_state \<Rightarrow> pg_state \<Rightarrow> bool" where
  "goodWrite u s s' \<longleftrightarrow> s' = s \<or> (\<exists>rows. s' = s\<lparr>pgEnts := rows\<rparr> \<and> entsValid (planCodes s) rows
     \<and> linked u (pgEnts s) rows \<and> list_all gridRow rows)"

lemma goodWrite_inv:
  assumes "entsInv s" "goodWrite u s s'"
  shows "entsInv s'" "linked u (pgEnts s) (pgEnts s')"
  using assms entsInv_write by (auto simp: goodWrite_def)

lemma goodWriteI: "entsValid (planCodes s) rows \<Longrightarrow> linked u (pgEnts s) rows \<Longrightarrow> list_all gridRow rows
    \<Longrightarrow> goodWrite u s (s\<lparr>pgEnts := rows\<rparr>)"
  by (auto simp: goodWrite_def)

lemma goodWrite_refl [simp]: "goodWrite u s s"
  by (simp add: goodWrite_def)

lemma singleRow_reserved: "sameReserved (singleRowUpdate now item grp snap credit payg r) r"
  by (simp add: sameReserved_def singleRowUpdate_def)

lemma singleRow_grid: "gridRow r \<Longrightarrow> gridRow (singleRowUpdate now item grp snap credit payg r)"
  by (auto simp: gridRow_def singleRowUpdate_def)

lemma single_goodWrite:
  assumes "entsInv s"
  shows "goodWrite (ceGenfityUserID item) s (fst (upsertSingleRowEntitlement now item grp s))"
proof -
  let ?u = "ceGenfityUserID item"
  have up: "pgUp s" and v: "entsValid (planCodes s) (pgEnts s)" and g: "list_all gridRow (pgEnts s)"
    using entsInvD [OF assms] entsOk_grid by auto
  define rows1 where "rows1 = freePlanSlot ?u (cePlanCode item) (pgEnts s)"
  have l1: "linked ?u (pgEnts s) rows1" by (auto simp: rows1_def freePlanSlot_def intro!: linked_filter)
  have s1: "set rows1 \<subseteq> set (pgEnts s)" by (auto simp: rows1_def freePlanSlot_def)
  have g1: "list_all gridRow rows1" using g s1 by (auto simp: list_all_iff)
  have new: "goodWrite ?u s (s\<lparr>pgEnts := rows1 @ [newEnt now item st p snap credit payg]\<rparr>)"
    if "entsValid (planCodes s) (rows1 @ [newEnt now item st p snap credit payg])" for st p snap credit payg
    using that g1 by (intro goodWriteI linked_trans [OF l1] linked_append) auto
  have upd: "goodWrite ?u s (s\<lparr>pgEnts := updWhere (\<lambda>r. peID r = peID e) f rows1\<rparr>)"
    if "find (activeRow grp ?u) rows1 = Some e" "entsValid (planCodes s) (updWhere (\<lambda>r. peID r = peID e) f rows1)"
      "\<And>r. sameReserved (f r) r" "\<And>r. gridRow r \<Longrightarrow> gridRow (f r)" for e f
  proof -
    have e: "e \<in> set rows1" "peUser e = ?u" using find_SomeD [OF that(1)] by (auto simp: activeRow_def)
    have "peUser r = ?u" if "r \<in> set rows1" "peID r = peID e" for r
      using entsValid_idUnique [OF v] that e s1 by blast
    then show ?thesis
      using that g1 by (intro goodWriteI linked_trans [OF l1] linked_updWhere grid_updWhere) auto
  qed
  show ?thesis
  proof (cases "find (activeRow grp ?u) rows1")
    case None
    then show ?thesis
      using up new by (auto simp: upsertSingleRowEntitlement_def Let_def rows1_def [symmetric] split: option.splits)
  next
    case (Some e)
    then show ?thesis
      using up upd [OF Some _ singleRow_reserved singleRow_grid]
      by (auto simp: upsertSingleRowEntitlement_def Let_def rows1_def [symmetric] split: option.splits)
  qed
qed

text \<open>The slot of an item: the row with its user and plan code.\<close>

definition slotOf :: "CustomerEntitlement \<Rightarrow> pg_ent \<Rightarrow> bool" where
  "slotOf item r \<longleftrightarrow> peUser r = ceGenfityUserID item \<and> pePlanCode r = cePlanCode item"

lemma conflictUpdate_cols [simp]:
  "peID (conflictUpdate new r) = peID r" "peUser (conflictUpdate new r) = peUser r"
  "pePlanCode (conflictUpdate new r) = pePlanCode r" "peStatus (conflictUpdate new r) = peStatus new"
  "pePeriodStart (conflictUpdate new r) = pePeriodStart new" "sameReserved (conflictUpdate new r) r"
  by (simp_all add: conflictUpdate_def sameReserved_def)

lemma conflictUpdate_grid: "gridRow new \<Longrightarrow> gridRow r \<Longrightarrow> gridRow (conflictUpdate new r)"
  by (simp add: gridRow_def conflictUpdate_def)

text \<open>The three ways the insert by plan code can succeed.\<close>

lemma insert_success:
  assumes "insertEntitlementByPlanCode now item s = (s', Inr saved)"
  obtains snap credit payg new where
    "new = newEnt now item (defaultString (ceStatus item) ''active'') (cePricingGroup item) snap credit payg"
    "(s' = s \<and> (\<exists>ce. find (slotOf item) (pgEnts s) = Some ce \<and> staleIncoming new ce))
     \<or> (s' = s\<lparr>pgEnts := updWhere (slotOf item) (conflictUpdate new) (pgEnts s)\<rparr> \<and> entsValid (planCodes s) (pgEnts s')
         \<and> (\<exists>ce. find (slotOf item) (pgEnts s) = Some ce \<and> \<not> staleIncoming new ce))
     \<or> (s' = s\<lparr>pgEnts := pgEnts s @ [new]\<rparr> \<and> entsValid (planCodes s) (pgEnts s') \<and> find (slotOf item) (pgEnts s) = None)"
proof -
  have slot: "(\<lambda>r. peUser r = ceGenfityUserID item \<and> pePlanCode r = cePlanCode item) = slotOf item"
    by (simp add: slotOf_def fun_eq_iff)
  obtain snap credit payg where n: "numText (ceBalanceSnapshot item) = Some snap"
    "numText (ceCreditBalance item) = Some credit" "numText (cePaygUsdBalance item) = Some payg"
    using assms by (auto simp: insertEntitlementByPlanCode_def pgRun_def split: option.splits)
  show ?thesis
    by (rule that [OF refl, of snap credit payg], insert assms)
      (auto simp: insertEntitlementByPlanCode_def pgRun_def Let_def slot n split: option.splits if_splits)
qed

lemma insert_goodWrite:
  assumes "list_all gridRow (pgEnts s)"
  shows "goodWrite (ceGenfityUserID item) s (fst (insertEntitlementByPlanCode now item s))"
proof (cases "insertEntitlementByPlanCode now item s")
  case (Pair s' res)
  show ?thesis
  proof (cases res)
    case (Inl e)
    then have "s' = s"
      using Pair by (auto simp: insertEntitlementByPlanCode_def pgRun_def Let_def split: option.splits if_splits)
    then show ?thesis using Pair by simp
  next
    case (Inr saved)
    obtain snap credit payg new where n:
      "new = newEnt now item (defaultString (ceStatus item) ''active'') (cePricingGroup item) snap credit payg"
      and o: "s' = s \<or> (s' = s\<lparr>pgEnts := updWhere (slotOf item) (conflictUpdate new) (pgEnts s)\<rparr> \<and> entsValid (planCodes s) (pgEnts s'))
        \<or> (s' = s\<lparr>pgEnts := pgEnts s @ [new]\<rparr> \<and> entsValid (planCodes s) (pgEnts s'))"
      using insert_success [of now item s s' saved] Pair Inr by metis
    have "linked (ceGenfityUserID item) (pgEnts s) (updWhere (slotOf item) (conflictUpdate new) (pgEnts s))"
      by (intro linked_updWhere) (simp add: slotOf_def)
    moreover have "list_all gridRow (updWhere (slotOf item) (conflictUpdate new) (pgEnts s))"
      using assms n by (intro grid_updWhere conflictUpdate_grid) auto
    moreover have "linked (ceGenfityUserID item) (pgEnts s) (pgEnts s @ [new])"
      using n by (intro linked_append) auto
    ultimately show ?thesis using Pair o assms n goodWriteI by auto
  qed
qed

lemma demote_cols:
  "map peID (demoteUnlimited now u pc rows) = map peID rows"
  "map (\<lambda>r. (peUser r, pePlanCode r)) (demoteUnlimited now u pc rows) = map (\<lambda>r. (peUser r, pePlanCode r)) rows"
  by (auto simp: demoteUnlimited_def updWhere_def)

lemma demote_grid: "list_all gridRow rows \<Longrightarrow> list_all gridRow (demoteUnlimited now u pc rows)"
  unfolding demoteUnlimited_def by (erule grid_updWhere) (simp add: gridRow_def)

lemma demote_linked: "linked u rows (demoteUnlimited now u pc rows)"
  unfolding demoteUnlimited_def by (rule linked_updWhere) (simp add: sameReserved_def)

lemma filter_updWhere_le:
  "(\<And>r. P r \<Longrightarrow> Q (f r) \<Longrightarrow> Q r) \<Longrightarrow> length (filter Q (updWhere P f rows)) \<le> length (filter Q rows)"
  by (induction rows) (auto simp: updWhere_def le_SucI)

lemma demote_valid: "entsValid plans rows \<Longrightarrow> entsValid plans (demoteUnlimited now u pc rows)"
proof -
  assume v: "entsValid plans rows"
  have a: "activeIn g w (demoteUnlimited now u pc rows)" if "activeIn g w rows" for g w
    using that unfolding activeIn_def atMostOne_def demoteUnlimited_def
    by (rule le_trans [OF filter_updWhere_le, rotated]) (simp add: activeRow_def)
  have pc: "pePlanCode r \<in> set plans" if "r \<in> set (demoteUnlimited now u pc rows)" for r
    using v that by (auto simp: demoteUnlimited_def set_updWhere entsValid_def list_all_iff)
  show ?thesis
    using v a pc unfolding entsValid_def demote_cols
    by (auto simp: list_all_iff demoteUnlimited_def set_updWhere)
qed

lemma planCodes_pgEnts [simp]: "planCodes (s\<lparr>pgEnts := rows\<rparr>) = planCodes s"
  by (simp add: planCodes_def)

lemma byPlanCode_goodWrite:
  assumes "entsInv s"
  shows "goodWrite (ceGenfityUserID item) s (fst (upsertEntitlementByPlanCode now item s))"
proof -
  let ?u = "ceGenfityUserID item"
  let ?d = "demoteUnlimited now ?u (cePlanCode item) (pgEnts s)"
  have g: "list_all gridRow (pgEnts s)" and up: "pgUp s" using entsInvD [OF assms] entsOk_grid by auto
  have v: "entsValid (planCodes s) (pgEnts s)" using entsInvD [OF assms] by simp
  have i: "goodWrite ?u (s\<lparr>pgEnts := ?d\<rparr>) (fst (insertEntitlementByPlanCode now item (s\<lparr>pgEnts := ?d\<rparr>)))"
    by (intro insert_goodWrite) (simp add: demote_grid g)
  have "goodWrite ?u s (fst (insertEntitlementByPlanCode now item (s\<lparr>pgEnts := ?d\<rparr>)))"
    using i linked_trans [OF demote_linked] demote_grid [OF g] demote_valid [OF v] demote_linked
    by (auto simp: goodWrite_def)
  then show ?thesis
    using insert_goodWrite [OF g] up
    by (auto simp: upsertEntitlementByPlanCode_def split: prod.splits sum.splits)
qed

lemma upsert_goodWrite:
  "entsInv s \<Longrightarrow> goodWrite (ceGenfityUserID item) s (fst (upsertEntitlement now item s))"
  by (simp add: upsertEntitlement_def Let_def single_goodWrite byPlanCode_goodWrite)

section \<open>Properties\<close>

text \<open>An unlimited plan with id 1 and an older, expired purchase of the same plan, for the examples.\<close>

definition sampleItem :: "string \<Rightarrow> string \<Rightarrow> time \<Rightarrow> uuid \<Rightarrow> CustomerEntitlement" where
  "sampleItem pc st start i = \<lparr>ceID = i, ceGenfityUserID = ''u'', ceGenfityTenantID = None, cePlanCode = pc,
     ceStatus = st, cePeriodStart = Some start, cePeriodEnd = None, ceQuotaTokensMonthly = None,
     ceBalanceSnapshot = None, ceBalanceReserved = None, ceCreditBalance = None, ceCreditBalanceReserved = None,
     ceCreditExpiresAt = None, cePaygUsdBalance = None, cePaygUsdBalanceReserved = None,
     cePricingGroup = Some ''unlimited_plan'', ceMetadata = None, ceUpdatedFromGenfityAt = 0\<rparr>"

definition samplePlan :: "string \<Rightarrow> SubscriptionPlanSnapshot" where
  "samplePlan c = \<lparr>spID = 1, spPlanCode = c, spDisplayName = c, spStatus = ''active'', spMonthlyPrice = ''0'',
     spCurrency = ''USD'', spQuotaTokensMonthly = None, spRateLimitRPM = None, spRateLimitTPM = None,
     spConcurrentLimit = None, spMaxRequestsPerPeriod = None, spRateLimitRPD = None, spCreditLimitPerDay = None,
     spCreditLimitPerPeriod = None, spMetadata = None, spSyncedFromGenfityAt = 0, spCreatedAt = 0, spUpdatedAt = 0\<rparr>"

text \<open>A user on the unlimited plan \<^verbatim>\<open>lite\<close> who also holds credits; plan \<^verbatim>\<open>plus\<close> is in the catalogue.\<close>

definition sampleSubs :: pg_state where
  "sampleSubs = pgEmpty\<lparr>
     pgPlans := [samplePlan ''lite'', samplePlan ''plus'', samplePlan ''credits''],
     pgEnts := [(sampleEnt ''u'' ''unlimited_plan'')\<lparr>peID := 7, pePlanCode := ''lite''\<rparr>,
                (sampleEnt ''u'' ''credit_package'')\<lparr>peID := 8, pePlanCode := ''credits''\<rparr>]\<rparr>"

lemma sampleSubs_inv: "entsInv sampleSubs"
  by (simp add: entsInv_def pgOk_def pgUp_def entsOk_def rowOk_def entsValid_def activeIn_def atMostOne_def
      activeRow_def planCodes_def sampleSubs_def samplePlan_def sampleEnt_def pgEmpty_def)



lemma byPlanCode_unlimited:
  assumes "pgUp s" "itemStatus item = ''active''" "itemGroup item = ''unlimited'' \<or> itemGroup item = ''unlimited_plan''"
    and "upsertEntitlement now item s = (s', Inr saved)"
  shows "insertEntitlementByPlanCode now item
     (s\<lparr>pgEnts := demoteUnlimited now (ceGenfityUserID item) (cePlanCode item) (pgEnts s)\<rparr>) = (s', Inr saved)"
proof -
  have "upsertEntitlementByPlanCode now item s = (s', Inr saved)"
    using assms(3,4) by (elim disjE) (simp_all add: upsertEntitlement_def)
  moreover have "upsertEntitlementByPlanCode now item s =
      (case insertEntitlementByPlanCode now item
         (s\<lparr>pgEnts := demoteUnlimited now (ceGenfityUserID item) (cePlanCode item) (pgEnts s)\<rparr>) of
         (s1, Inl e) \<Rightarrow> (s, Inl e) | (s1, Inr saved) \<Rightarrow> (s1, Inr saved))"
    unfolding upsertEntitlementByPlanCode_def using assms(1-3) by (simp only: simp_thms if_True pgRun_up)
  ultimately show ?thesis by (auto split: prod.splits sum.splits)
qed

lemma demoted_only_slot:
  assumes "r \<in> set (demoteUnlimited now u pc rows)" "peUser r = u" "peStatus r = ''active''" "unlimitedRow r"
  shows "pePlanCode r = pc"
proof -
  let ?P = "\<lambda>r. peUser r = u \<and> peStatus r = ''active'' \<and> pePlanCode r \<noteq> pc \<and> unlimitedRow r"
  obtain x where x: "r = (if ?P x then x\<lparr>peStatus := ''replaced'', peUpdatedAt := now\<rparr> else x)"
    using assms(1) unfolding demoteUnlimited_def set_updWhere by blast
  show ?thesis
  proof (cases "?P x")
    case True
    then have "peStatus r = ''replaced''" using x by simp
    then show ?thesis using assms(3) by simp
  next
    case False
    then have "r = x" using x by (metis (no_types, lifting))
    then show ?thesis using False assms(2-4) by blast
  qed
qed

lemma distinct_singleton_image: "distinct (map f xs) \<Longrightarrow> f ` set xs \<subseteq> {a} \<Longrightarrow> length xs \<le> 1"
  using card_mono [of "{a}" "set (map f xs)"] distinct_card [of "map f xs"] by simp

text \<open>
  C7.  No ghost subscription: once an active unlimited plan has been synchronised, every active
  unlimited row of that user carries its plan code, and there is at most one such row.
\<close>

theorem no_ghost_subscription:
  assumes "entsInv s" "itemStatus item = ''active''"
    and "itemGroup item = ''unlimited'' \<or> itemGroup item = ''unlimited_plan''"
    and "upsertEntitlement now item s = (s', Inr saved)"
  shows "(\<forall>r \<in> set (pgEnts s'). peUser r = ceGenfityUserID item \<longrightarrow> peStatus r = ''active'' \<longrightarrow> unlimitedRow r \<longrightarrow>
            pePlanCode r = cePlanCode item)
    \<and> length (filter (\<lambda>r. peUser r = ceGenfityUserID item \<and> peStatus r = ''active'' \<and> unlimitedRow r) (pgEnts s')) \<le> 1"
proof -
  let ?u = "ceGenfityUserID item" and ?pc = "cePlanCode item"
  let ?d = "demoteUnlimited now ?u ?pc (pgEnts s)"
  let ?Q = "\<lambda>r. peUser r = ?u \<and> peStatus r = ''active'' \<and> unlimitedRow r"
  have "insertEntitlementByPlanCode now item (s\<lparr>pgEnts := ?d\<rparr>) = (s', Inr saved)"
    using byPlanCode_unlimited [OF _ assms(2,3,4)] entsInvD [OF assms(1)] by simp
  then have "set (pgEnts s') \<subseteq> set ?d \<union> {r. slotOf item r}"
    by (rule insert_success) (auto simp: set_updWhere slotOf_def)
  then have plan: "pePlanCode r = ?pc" if "r \<in> set (pgEnts s')" "?Q r" for r
    using that demoted_only_slot [of r now ?u ?pc "pgEnts s"] by (auto simp: slotOf_def)
  have "entsInv s'" using goodWrite_inv(1) [OF assms(1) upsert_goodWrite [OF assms(1), of item now]] assms(4) by simp
  then have "distinct (map (\<lambda>r. (peUser r, pePlanCode r)) (filter ?Q (pgEnts s')))"
    using entsInvD distinct_map_filter unfolding entsValid_def by blast
  moreover have "(\<lambda>r. (peUser r, pePlanCode r)) ` set (filter ?Q (pgEnts s')) \<subseteq> {(?u, ?pc)}"
    using plan by auto
  ultimately show ?thesis
    using plan distinct_singleton_image [of "\<lambda>r. (peUser r, pePlanCode r)" "filter ?Q (pgEnts s')" "(?u, ?pc)"] by blast
qed

lemma sampleItem_simps [simp]:
  "itemStatus (sampleItem pc st a i) = trimSpace (defaultString st ''active'')"
  "itemGroup (sampleItem pc st a i) = ''unlimited_plan''"
  "ceGenfityUserID (sampleItem pc st a i) = ''u''" "cePlanCode (sampleItem pc st a i) = pc"
  by (simp_all add: sampleItem_def itemStatus_def itemGroup_def trimSpace_def isSpace_def)

theorem no_ghost_subscription_witness:
  "length (filter (\<lambda>r. peUser r = ''u'' \<and> peStatus r = ''active'' \<and> unlimitedRow r)
     (pgEnts (fst (upsertEntitlement 9 (sampleItem ''plus'' ''active'' 5 3) sampleSubs)))) \<le> 1"
proof -
  let ?i = "sampleItem ''plus'' ''active'' 5 3"
  have "\<not> isl (snd (upsertEntitlement 9 ?i sampleSubs))" by code_simp
  then obtain s' saved where r: "upsertEntitlement 9 ?i sampleSubs = (s', Inr saved)"
    by (cases "upsertEntitlement 9 ?i sampleSubs", cases "snd (upsertEntitlement 9 ?i sampleSubs)") auto
  have "itemStatus ?i = ''active''" by code_simp
  then show ?thesis using no_ghost_subscription [OF sampleSubs_inv _ _ r] by (simp add: r)
qed

text \<open>What a purchase says about its slot.\<close>

definition entView :: "pg_ent \<Rightarrow> _" where
  "entView r = (peTenant r, peStatus r, pePeriodStart r, pePeriodEnd r, peQuota r, peSnapshot r, peCredit r,
     peCreditExpires r, pePayg r, pePricingGroup r, peMetadata r)"

definition incomingView :: "CustomerEntitlement \<Rightarrow> _" where
  "incomingView item = entView (newEnt 0 item (defaultString (ceStatus item) ''active'') (cePricingGroup item)
     (orElse (numText (ceBalanceSnapshot item)) None) (orElse (numText (ceCreditBalance item)) None)
     (orElse (numText (cePaygUsdBalance item)) None))"

definition slotView :: "CustomerEntitlement \<Rightarrow> pg_state \<Rightarrow> _" where
  "slotView item s = map_option entView (find (slotOf item) (pgEnts s))"

lemma entView_conflict [simp]: "entView (conflictUpdate new r) = entView new"
  by (simp add: entView_def conflictUpdate_def)

definition wellFormedItem :: "CustomerEntitlement \<Rightarrow> bool" where
  "wellFormedItem item \<longleftrightarrow> ceID item \<noteq> nilUUID \<and> numText (ceBalanceSnapshot item) \<noteq> None
     \<and> numText (ceCreditBalance item) \<noteq> None \<and> numText (cePaygUsdBalance item) \<noteq> None"

lemma slotOf_abs: "(\<lambda>r. peUser r = ceGenfityUserID item \<and> pePlanCode r = cePlanCode item) = slotOf item"
  by (simp add: slotOf_def fun_eq_iff)

lemma insert_wellFormed: "insertEntitlementByPlanCode now item s = (s', Inr saved) \<Longrightarrow> wellFormedItem item"
  by (auto simp: insertEntitlementByPlanCode_def wellFormedItem_def pgRun_def Let_def split: option.splits if_splits)

lemma find_slot_updWhere: "find (slotOf item) (updWhere (slotOf item) (conflictUpdate new) rows)
    = map_option (conflictUpdate new) (find (slotOf item) rows)"
  by (subst find_updWhere) (auto simp: slotOf_def dest: find_SomeD intro!: option.map_cong)

lemma find_new_last: "find P xs = None \<Longrightarrow> P x \<Longrightarrow> find P (xs @ [x]) = Some x"
  by (induction xs) (auto split: if_splits)

lemma insert_slotView:
  assumes "insertEntitlementByPlanCode now item s = (s', Inr saved)"
    and "\<And>ce. find (slotOf item) (pgEnts s) = Some ce \<Longrightarrow> \<not> staleIncoming (newEnt 0 item (defaultString (ceStatus item) ''active'') None None None None) ce"
  shows "slotView item s' = Some (incomingView item)"
proof -
  obtain snap credit payg where n: "numText (ceBalanceSnapshot item) = Some snap"
    "numText (ceCreditBalance item) = Some credit" "numText (cePaygUsdBalance item) = Some payg"
    using insert_wellFormed [OF assms(1)] by (auto simp: wellFormedItem_def)
  let ?new = "newEnt now item (defaultString (ceStatus item) ''active'') (cePricingGroup item) snap credit payg"
  have view: "entView ?new = incomingView item"
    using n by (simp add: incomingView_def orElse_def entView_def newEnt_def)
  have fresh: "\<not> staleIncoming ?new ce" if "find (slotOf item) (pgEnts s) = Some ce" for ce
    using assms(2) [OF that] by (simp add: staleIncoming_def)
  show ?thesis
  proof (cases "find (slotOf item) (pgEnts s)")
    case None
    then have "s' = s\<lparr>pgEnts := pgEnts s @ [?new]\<rparr>"
      using assms(1) n by (auto simp: insertEntitlementByPlanCode_def pgRun_def Let_def slotOf_abs split: option.splits if_splits)
    moreover have "find (slotOf item) (pgEnts s @ [?new]) = Some ?new"
      by (rule find_new_last [OF None]) (simp add: slotOf_def)
    ultimately show ?thesis using view by (simp add: slotView_def)
  next
    case (Some ce)
    then have "s' = s\<lparr>pgEnts := updWhere (slotOf item) (conflictUpdate ?new) (pgEnts s)\<rparr>"
      using assms(1) n fresh [OF Some]
      by (auto simp: insertEntitlementByPlanCode_def pgRun_def Let_def slotOf_abs split: option.splits if_splits)
    then show ?thesis using view Some by (simp add: slotView_def find_slot_updWhere)
  qed
qed

lemma insert_stale_noop:
  assumes "pgUp s" "wellFormedItem item" "find (slotOf item) (pgEnts s) = Some ce"
    and "staleIncoming (newEnt 0 item (defaultString (ceStatus item) ''active'') None None None None) ce"
  shows "insertEntitlementByPlanCode now item s = (s, Inr item)"
proof -
  have "staleIncoming (newEnt now item (defaultString (ceStatus item) ''active'') g snap credit payg) ce"
    for g snap credit payg using assms(4) by (simp add: staleIncoming_def)
  then show ?thesis
    using assms(1-3) by (auto simp: insertEntitlementByPlanCode_def wellFormedItem_def Let_def slotOf_abs)
qed

lemma upsert_inactive: "itemStatus item \<noteq> ''active'' \<Longrightarrow> upsertEntitlement now item s = insertEntitlementByPlanCode now item s"
  by (simp add: upsertEntitlement_def upsertEntitlementByPlanCode_def Let_def)

lemma active_not_stale: "defaultString (ceStatus item) ''active'' = ''active'' \<Longrightarrow>
    \<not> staleIncoming (newEnt 0 item (defaultString (ceStatus item) ''active'') None None None None) ce"
  by (simp add: staleIncoming_def)

lemma itemStatus_active: "defaultString (ceStatus item) ''active'' = ''active'' \<Longrightarrow> itemStatus item = ''active''"
  by (simp add: itemStatus_def trimSpace_def isSpace_def)

lemma upsert_active_slot:
  assumes "pgUp s" "defaultString (ceStatus item) ''active'' = ''active''"
    and "itemGroup item \<noteq> ''credit_package''" "itemGroup item \<noteq> ''payg_topup''"
    and "upsertEntitlement now item s = (s', Inr saved)"
  shows "slotView item s' = Some (incomingView item)"
proof (cases "itemGroup item = ''unlimited'' \<or> itemGroup item = ''unlimited_plan''")
  case True
  have "insertEntitlementByPlanCode now item
     (s\<lparr>pgEnts := demoteUnlimited now (ceGenfityUserID item) (cePlanCode item) (pgEnts s)\<rparr>) = (s', Inr saved)"
    by (rule byPlanCode_unlimited [OF assms(1) itemStatus_active [OF assms(2)] True assms(5)])
  then show ?thesis by (rule insert_slotView) (rule active_not_stale [OF assms(2)])
next
  case False
  then have "insertEntitlementByPlanCode now item s = (s', Inr saved)"
    using assms(3-5) by (simp add: upsertEntitlement_def upsertEntitlementByPlanCode_def Let_def)
  then show ?thesis by (rule insert_slotView) (rule active_not_stale [OF assms(2)])
qed

lemma goodWrite_up: "pgUp s \<Longrightarrow> goodWrite u s s' \<Longrightarrow> pgUp s'"
  by (auto simp: goodWrite_def pgUp_def)

text \<open>
  The order of a sync does not matter: when an expired purchase and a later, active purchase of the
  same plan arrive, the expired one after the active one is a successful no-op, and the two orders
  leave the same contents in the slot, those of the active purchase.
\<close>

theorem purchase_sync_order:
  assumes "entsInv s" "ceGenfityUserID old = ceGenfityUserID new" "cePlanCode old = cePlanCode new"
    and "defaultString (ceStatus new) ''active'' = ''active''" "itemStatus old \<noteq> ''active''"
    and "itemGroup new \<noteq> ''credit_package''" "itemGroup new \<noteq> ''payg_topup''"
    and "cePeriodStart old = Some a" "cePeriodStart new = Some b" "pgTs a < pgTs b"
    and "upsertEntitlement t1 new s = (s1, Inr saved1)"
    and "upsertEntitlement t2 old s = (s2, Inr saved2)" "upsertEntitlement t3 new s2 = (s3, Inr saved3)"
  shows "upsertEntitlement t4 old s1 = (s1, Inr old)
    \<and> slotView new s1 = Some (incomingView new) \<and> slotView new s3 = slotView new s1"
proof -
  have slot: "slotOf old = slotOf new" using assms(2,3) by (simp add: slotOf_def fun_eq_iff)
  have up: "pgUp s" using entsInvD [OF assms(1)] by simp
  have up1: "pgUp s1" "pgUp s2"
    using goodWrite_up [OF up upsert_goodWrite [OF assms(1)]] assms(11,12) by (metis fst_conv)+
  have v1: "slotView new s1 = Some (incomingView new)" by (rule upsert_active_slot [OF up assms(4,6,7,11)])
  have v3: "slotView new s3 = Some (incomingView new)" by (rule upsert_active_slot [OF up1(2) assms(4,6,7,13)])
  obtain ce where ce: "find (slotOf new) (pgEnts s1) = Some ce" "entView ce = incomingView new"
    using v1 by (auto simp: slotView_def)
  have "pePeriodStart ce = Some (pgTs b)" using ce(2) assms(9) by (simp add: entView_def incomingView_def)
  moreover have "defaultString (ceStatus old) ''active'' \<noteq> ''active''" using assms(5) itemStatus_active by blast
  ultimately have "staleIncoming (newEnt 0 old (defaultString (ceStatus old) ''active'') None None None None) ce"
    using assms(8,10) by (simp add: staleIncoming_def)
  moreover have "wellFormedItem old" using insert_wellFormed assms(5,12) by (simp add: upsert_inactive)
  ultimately have "insertEntitlementByPlanCode t4 old s1 = (s1, Inr old)"
    using insert_stale_noop up1(1) ce(1) slot by simp
  then show ?thesis using v1 v3 assms(5) by (simp add: upsert_inactive)
qed

theorem purchase_sync_order_witness:
  "\<exists>s1 s3. slotView (sampleItem ''plus'' ''active'' 9000 3) s3 = slotView (sampleItem ''plus'' ''active'' 9000 3) s1
     \<and> upsertEntitlement 9 (sampleItem ''plus'' ''expired'' 5000 4) s1 = (s1, Inr (sampleItem ''plus'' ''expired'' 5000 4))
     \<and> s1 = fst (upsertEntitlement 9 (sampleItem ''plus'' ''active'' 9000 3) sampleSubs)"
proof -
  let ?n = "sampleItem ''plus'' ''active'' 9000 3" and ?o = "sampleItem ''plus'' ''expired'' 5000 4"
  let ?s2 = "fst (upsertEntitlement 9 ?o sampleSubs)"
  have ok: "\<not> isl r \<Longrightarrow> \<exists>v. (x, r) = (x, Inr v)" for r :: "CustomerEntitlement result" and x :: pg_state
    by (cases r) auto
  have "\<not> isl (snd (upsertEntitlement 9 ?n sampleSubs))" "\<not> isl (snd (upsertEntitlement 9 ?o sampleSubs))"
    "\<not> isl (snd (upsertEntitlement 9 ?n ?s2))" by code_simp+
  then obtain s1 v1 v2 s3 v3 where r: "upsertEntitlement 9 ?n sampleSubs = (s1, Inr v1)"
    "upsertEntitlement 9 ?o sampleSubs = (?s2, Inr v2)" "upsertEntitlement 9 ?n ?s2 = (s3, Inr v3)"
    using ok by (metis prod.collapse)
  have "upsertEntitlement 9 ?o s1 = (s1, Inr ?o) \<and> slotView ?n s1 = Some (incomingView ?n) \<and> slotView ?n s3 = slotView ?n s1"
    by (rule purchase_sync_order [OF sampleSubs_inv _ _ _ _ _ _ _ _ _ r, of 5000 9000])
      (simp_all add: sampleItem_def itemStatus_def itemGroup_def trimSpace_def isSpace_def defaultString_def pgTs_def)
  then show ?thesis using r(1) by auto
qed

lemma single_success:
  assumes "pgUp s" "upsertSingleRowEntitlement now item grp s = (s', Inr saved)"
  obtains snap credit payg rows1 where "numText (ceCreditBalance item) = Some credit"
    "numText (cePaygUsdBalance item) = Some payg" "rows1 = freePlanSlot (ceGenfityUserID item) (cePlanCode item) (pgEnts s)"
    "(find (activeRow grp (ceGenfityUserID item)) rows1 = None
        \<and> s' = s\<lparr>pgEnts := rows1 @ [newEnt now item ''active'' (Some grp) snap credit payg]\<rparr>)
     \<or> (\<exists>e. find (activeRow grp (ceGenfityUserID item)) rows1 = Some e
        \<and> s' = s\<lparr>pgEnts := updWhere (\<lambda>r. peID r = peID e) (singleRowUpdate now item grp snap credit payg) rows1\<rparr>)"
proof -
  obtain snap credit payg where n: "numText (ceBalanceSnapshot item) = Some snap"
    "numText (ceCreditBalance item) = Some credit" "numText (cePaygUsdBalance item) = Some payg"
    using assms by (auto simp: upsertSingleRowEntitlement_def Let_def split: option.splits)
  show ?thesis
    by (rule that [OF n(2,3) refl, of snap], insert assms)
      (auto simp: upsertSingleRowEntitlement_def Let_def n split: option.splits if_splits)
qed

lemma find_freePlanSlot: "find (activeRow g u) (freePlanSlot w pc rows) = find (activeRow g u) rows"
  unfolding freePlanSlot_def by (induction rows) (auto simp: activeRow_def)

lemma find_by_id:
  "find Q rows = Some e \<Longrightarrow> (\<And>r. r \<in> set rows \<Longrightarrow> peID r = peID e \<Longrightarrow> r = e) \<Longrightarrow> Q (f e)
    \<Longrightarrow> find Q (updWhere (\<lambda>r. peID r = peID e) f rows) = Some (f e)"
  by (induction rows) (auto simp: updWhere_def split: if_splits)

text \<open>
  A credit purchase lands on the one active credit row of the user, whatever its plan code: the
  balance becomes the synchronised one, or stays when none is sent, and what in-flight requests
  have reserved on that row is kept.
\<close>

theorem credit_topup_single_row:
  assumes "entsInv s" "itemStatus item = ''active''" "itemGroup item = ''credit_package''"
    and "upsertEntitlement now item s = (s', Inr saved)"
  shows "\<exists>credit. numText (ceCreditBalance item) = Some credit
    \<and> creditAccount (ceGenfityUserID item) s' = (case creditAccount (ceGenfityUserID item) s of
         None \<Rightarrow> Some (toScale 4 (orElse credit 0), 0)
       | Some (b, r) \<Rightarrow> Some (toScale 4 (orElse credit b), r))"
proof -
  let ?u = "ceGenfityUserID item" and ?g = "''credit_package''"
  have up: "pgUp s" and v: "entsValid (planCodes s) (pgEnts s)" using entsInvD [OF assms(1)] by auto
  have run: "upsertSingleRowEntitlement now item ?g s = (s', Inr saved)"
    using assms(2-4) by (simp add: upsertEntitlement_def Let_def)
  obtain snap credit payg rows1 where c: "numText (ceCreditBalance item) = Some credit"
    and rows1: "rows1 = freePlanSlot ?u (cePlanCode item) (pgEnts s)"
    and o: "(find (activeRow ?g ?u) rows1 = None \<and> s' = s\<lparr>pgEnts := rows1 @ [newEnt now item ''active'' (Some ?g) snap credit payg]\<rparr>)
     \<or> (\<exists>e. find (activeRow ?g ?u) rows1 = Some e
        \<and> s' = s\<lparr>pgEnts := updWhere (\<lambda>r. peID r = peID e) (singleRowUpdate now item ?g snap credit payg) rows1\<rparr>)"
    using single_success [OF up run] .
  have same: "find (activeRow ?g ?u) rows1 = find (activeRow ?g ?u) (pgEnts s)"
    by (simp add: rows1 find_freePlanSlot)
  show ?thesis
  proof (intro exI conjI)
    show "numText (ceCreditBalance item) = Some credit" by (rule c)
    from o show "creditAccount ?u s' = (case creditAccount ?u s of None \<Rightarrow> Some (toScale 4 (orElse credit 0), 0)
       | Some (b, r) \<Rightarrow> Some (toScale 4 (orElse credit b), r))"
    proof (elim disjE exE conjE)
      assume a: "find (activeRow ?g ?u) rows1 = None" "s' = s\<lparr>pgEnts := rows1 @ [newEnt now item ''active'' (Some ?g) snap credit payg]\<rparr>"
      have "find (activeRow ?g ?u) (rows1 @ [newEnt now item ''active'' (Some ?g) snap credit payg])
          = Some (newEnt now item ''active'' (Some ?g) snap credit payg)"
        by (rule find_new_last [OF a(1)]) (simp add: activeRow_def)
      then show ?thesis using a same by (simp add: creditAccount_def) (simp add: newEnt_def)
    next
      fix e
      let ?f = "singleRowUpdate now item ?g snap credit payg"
      assume a: "find (activeRow ?g ?u) rows1 = Some e" "s' = s\<lparr>pgEnts := updWhere (\<lambda>r. peID r = peID e) ?f rows1\<rparr>"
      have e: "e \<in> set rows1" "activeRow ?g ?u e" using find_SomeD [OF a(1)] by auto
      have "set rows1 \<subseteq> set (pgEnts s)" by (auto simp: rows1 freePlanSlot_def)
      then have "r = e" if "r \<in> set rows1" "peID r = peID e" for r
        using entsValid_idUnique [OF v] that e by blast
      then have "find (activeRow ?g ?u) (updWhere (\<lambda>r. peID r = peID e) ?f rows1) = Some (?f e)"
        using e(2) by (intro find_by_id [OF a(1)]) (auto simp: activeRow_def singleRowUpdate_def)
      then show ?thesis using a same by (simp add: creditAccount_def) (simp add: singleRowUpdate_def)
    qed
  qed
qed

definition sampleTopup :: CustomerEntitlement where
  "sampleTopup = (sampleItem ''plus'' ''active'' 5 3)\<lparr>cePricingGroup := Some ''credit_package'', ceCreditBalance := Some ''12''\<rparr>"

theorem credit_topup_single_row_witness:
  "creditAccount ''u'' (fst (upsertEntitlement 9 sampleTopup sampleSubs)) = Some (12, 2)"
proof -
  have i: "itemStatus sampleTopup = ''active''" "itemGroup sampleTopup = ''credit_package''"
    "ceGenfityUserID sampleTopup = ''u''" "cePlanCode sampleTopup = ''plus''" "ceID sampleTopup = 3"
    "numText (ceBalanceSnapshot sampleTopup) = Some None" "numText (cePaygUsdBalance sampleTopup) = Some None" by code_simp+
  have n: "numText (ceCreditBalance sampleTopup) = Some (Some 12)" by code_simp
  have "\<not> isl (snd (upsertSingleRowEntitlement 9 sampleTopup ''credit_package'' sampleSubs))"
    using sampleSubs_inv [THEN entsInvD]
    by (simp add: upsertSingleRowEntitlement_def i n Let_def freePlanSlot_def orElse_def)
      (simp add: sampleSubs_def sampleEnt_def samplePlan_def pgEmpty_def activeRow_def singleRowUpdate_def i updWhere_def
        entsValid_def activeIn_def atMostOne_def planCodes_def orElse_def)
  then obtain s' saved where r: "upsertEntitlement 9 sampleTopup sampleSubs = (s', Inr saved)"
    using i by (cases "upsertEntitlement 9 sampleTopup sampleSubs", cases "snd (upsertEntitlement 9 sampleTopup sampleSubs)")
      (auto simp: upsertEntitlement_def)
  have a: "creditAccount ''u'' sampleSubs = Some (5, 2)" by code_simp
  show ?thesis using credit_topup_single_row [OF sampleSubs_inv i(1,2) r] i n a by (auto simp: r orElse_def)
qed

lemma push_active [simp]:
  "activeRow g w (pushCredit now b ex r) = activeRow g w r" "activeRow g w (pushPayg now p r) = activeRow g w r"
  by (simp_all add: pushCredit_def pushPayg_def activeRow_def)

lemma push_cols [simp]:
  "peCredit (pushCredit now b ex r) = toScale 4 b" "peCreditReserved (pushCredit now b ex r) = peCreditReserved r"
  "pePayg (pushPayg now p r) = toScale 6 p" "pePaygReserved (pushPayg now p r) = pePaygReserved r"
  by (simp_all add: pushCredit_def pushPayg_def)

lemma activeRow_group: "activeRow g u r \<Longrightarrow> activeRow g' u' r \<Longrightarrow> g = g'"
  by (simp add: activeRow_def)

lemma find_updSelf: "(\<And>r. Q r \<Longrightarrow> Q (f r)) \<Longrightarrow> find Q (updWhere Q f rows) = map_option f (find Q rows)"
  by (subst find_updWhere) (auto dest: find_SomeD intro!: option.map_cong)

lemma push_finds:
  "find (activeRow ''credit_package'' u) (updWhere (activeRow ''credit_package'' u) (pushCredit now b ex) rows)
     = map_option (pushCredit now b ex) (find (activeRow ''credit_package'' u) rows)"
  "find (activeRow ''payg_topup'' u) (updWhere (activeRow ''payg_topup'' u) (pushPayg now p) rows)
     = map_option (pushPayg now p) (find (activeRow ''payg_topup'' u) rows)"
  "find (activeRow ''payg_topup'' u) (updWhere (activeRow ''credit_package'' u) (pushCredit now b ex) rows)
     = find (activeRow ''payg_topup'' u) rows"
  "find (activeRow ''credit_package'' u) (updWhere (activeRow ''payg_topup'' u) (pushPayg now p) rows)
     = find (activeRow ''credit_package'' u) rows"
  by (simp_all add: find_updSelf) (rule find_updWhere_other, auto dest: activeRow_group)+

lemma push_rest:
  "filter (\<lambda>r. \<not> activeRow ''credit_package'' u r \<and> \<not> activeRow ''payg_topup'' u r)
     (updWhere (activeRow ''credit_package'' u) (pushCredit now b ex) rows)
   = filter (\<lambda>r. \<not> activeRow ''credit_package'' u r \<and> \<not> activeRow ''payg_topup'' u r) rows"
  "filter (\<lambda>r. \<not> activeRow ''credit_package'' u r \<and> \<not> activeRow ''payg_topup'' u r)
     (updWhere (activeRow ''payg_topup'' u) (pushPayg now p) rows)
   = filter (\<lambda>r. \<not> activeRow ''credit_package'' u r \<and> \<not> activeRow ''payg_topup'' u r) rows"
  by (induction rows) (simp_all add: updWhere_def)

lemma affected_find: "affected Q rows = 0 \<longleftrightarrow> find Q rows = None"
  by (simp add: affected_0 find_None_iff_all)

lemma push_run:
  assumes "pgUp s" "parseDecimal bal = Some b" "0 \<le> b"
  shows "UpsertBalanceSnapshot now u bal None ex s = (if find (activeRow ''credit_package'' u) (pgEnts s) = None
      then (s, Inl ErrNotFound)
      else (s\<lparr>pgEnts := updWhere (activeRow ''credit_package'' u) (pushCredit now b ex) (pgEnts s)\<rparr>,
            Inr (map_option (pushCredit now b ex) (find (activeRow ''credit_package'' u) (pgEnts s)))))"
    and "parseDecimal pt = Some p \<Longrightarrow> 0 \<le> p \<Longrightarrow> UpsertBalanceSnapshot now u bal (Some pt) ex s =
      (if find (activeRow ''credit_package'' u) (pgEnts s) = None \<and> find (activeRow ''payg_topup'' u) (pgEnts s) = None
      then (s, Inl ErrNotFound)
      else (s\<lparr>pgEnts := updWhere (activeRow ''payg_topup'' u) (pushPayg now p)
              (updWhere (activeRow ''credit_package'' u) (pushCredit now b ex) (pgEnts s))\<rparr>,
            Inr (map_option (pushCredit now b ex) (find (activeRow ''credit_package'' u) (pgEnts s)))))"
  using assms toScale_nonneg [OF assms(3), of 4] toScale_nonneg [of p 6]
  by (simp_all add: UpsertBalanceSnapshot_def Let_def affected_find push_finds)

text \<open>
  A balance push reaches the accounts the request path bills: when it succeeds, the credit row holds
  the pushed credits and the PAYG row the pushed dollars, both with their reservations kept, every other
  column of billing and every other row is as before; a user with neither row gets
  \<^verbatim>\<open>ErrNotFound\<close> and nothing is written.
\<close>

theorem balance_push_exact:
  assumes "pgUp s" "parseDecimal bal = Some b" "0 \<le> b" "\<forall>pt. pb = Some pt \<longrightarrow> (\<exists>p \<ge> 0. parseDecimal pt = Some p)"
  shows "creditAccount u (fst (UpsertBalanceSnapshot now u bal pb ex s)) = map_option (\<lambda>(_, r). (toScale 4 b, r)) (creditAccount u s)
    \<and> paygAccount u (fst (UpsertBalanceSnapshot now u bal pb ex s)) = (case pb of
         None \<Rightarrow> paygAccount u s
       | Some pt \<Rightarrow> map_option (\<lambda>(_, r). (toScale 6 (the (parseDecimal pt)), r)) (paygAccount u s))
    \<and> filter (\<lambda>r. \<not> activeRow ''credit_package'' u r \<and> \<not> activeRow ''payg_topup'' u r) (pgEnts (fst (UpsertBalanceSnapshot now u bal pb ex s)))
        = filter (\<lambda>r. \<not> activeRow ''credit_package'' u r \<and> \<not> activeRow ''payg_topup'' u r) (pgEnts s)
    \<and> (snd (UpsertBalanceSnapshot now u bal pb ex s) = Inl ErrNotFound
        \<longleftrightarrow> creditAccount u s = None \<and> (pb = None \<or> paygAccount u s = None))"
proof (cases pb)
  case None
  show ?thesis unfolding None push_run(1) [OF assms(1-3)]
    by (cases "find (activeRow ''credit_package'' u) (pgEnts s)")
      (simp_all add: creditAccount_def paygAccount_def push_finds push_rest)
next
  case (Some pt)
  then obtain p where p: "parseDecimal pt = Some p" "0 \<le> p" using assms(4) by auto
  show ?thesis unfolding Some push_run(2) [OF assms(1-3) p]
    by (cases "find (activeRow ''credit_package'' u) (pgEnts s)"; cases "find (activeRow ''payg_topup'' u) (pgEnts s)")
      (simp_all add: creditAccount_def paygAccount_def push_finds push_rest p)
qed

theorem balance_push_exact_witness:
  "creditAccount ''u'' (fst (UpsertBalanceSnapshot 9 ''u'' ''12'' None None sampleSubs)) = Some (12, 2)"
proof -
  have "parseDecimal ''12'' = Some 12" "creditAccount ''u'' sampleSubs = Some (5, 2)" by code_simp+
  then show ?thesis
    using balance_push_exact [of sampleSubs "''12''" 12 None "''u''" 9 None] entsInvD [OF sampleSubs_inv] by simp
qed

text \<open>
  The entitlement a request is served under is active and unexpired, belongs to the user, and no
  other live row comes before it: an unlimited plan wins over credits, credits over the rest, and within a
  class the later purchase wins.  \<^verbatim>\<open>ErrNotFound\<close> means exactly that no row is live.
\<close>

theorem entitlement_choice:
  assumes "pgUp s"
  shows "case GetEntitlementByUser now u s of
      Inl e \<Rightarrow> e = ErrNotFound \<and> (\<forall>r \<in> set (pgEnts s). \<not> liveEnt now u r)
    | Inr item \<Rightarrow> \<exists>r \<in> set (pgEnts s). item = entOfRow r \<and> liveEnt now u r
        \<and> (\<forall>r' \<in> set (pgEnts s). liveEnt now u r' \<longrightarrow> entClass r \<le> entClass r'
             \<and> (entClass r = entClass r' \<longrightarrow> descKey (pePeriodStart r) \<le> descKey (pePeriodStart r')))"
proof (cases "sort_key entOrder (filter (liveEnt now u) (pgEnts s))")
  case Nil
  then have "filter (liveEnt now u) (pgEnts s) = []"
    by (metis length_0_conv length_sort)
  then show ?thesis using assms Nil by (auto simp: GetEntitlementByUser_def pgUp_def filter_empty_conv)
next
  case (Cons r rest)
  have set: "set (r # rest) = {x \<in> set (pgEnts s). liveEnt now u x}" using Cons by (metis set_filter set_sort)
  have "sorted (map entOrder (r # rest))" by (metis Cons sorted_sort_key)
  then have "entOrder r \<le> entOrder r'" if "r' \<in> set (pgEnts s)" "liveEnt now u r'" for r'
    using that set by auto
  then have "entClass r \<le> entClass r' \<and> (entClass r = entClass r' \<longrightarrow> descKey (pePeriodStart r) \<le> descKey (pePeriodStart r'))"
    if "r' \<in> set (pgEnts s)" "liveEnt now u r'" for r'
    using that by (fastforce simp: entOrder_def less_eq_prod_def less_prod_def)
  then show ?thesis using assms Cons set by (auto simp: GetEntitlementByUser_def pgUp_def)
qed

theorem entitlement_choice_witness:
  "\<exists>r. GetEntitlementByUser 9 ''u'' sampleSubs = Inr (entOfRow r) \<and> entClass r = 0"
proof -
  have "list_ex (\<lambda>r. liveEnt 9 ''u'' r \<and> entClass r = 0) (pgEnts sampleSubs)" by code_simp
  then obtain x where x: "x \<in> set (pgEnts sampleSubs)" "liveEnt 9 ''u'' x" "entClass x = 0" by (auto simp: list_ex_iff)
  note c = entitlement_choice [of sampleSubs 9 "''u''"]
  have up: "pgUp sampleSubs" using entsInvD [OF sampleSubs_inv] by simp
  show ?thesis
  proof (cases "GetEntitlementByUser 9 ''u'' sampleSubs")
    case (Inl e)
    then show ?thesis using c [OF up] x by auto
  next
    case (Inr item)
    then obtain r where "item = entOfRow r" "entClass r \<le> entClass x" using c [OF up] x by auto
    moreover have "0 \<le> entClass r" by (simp add: entClass_def)
    ultimately show ?thesis using Inr x(3) by (intro exI [of _ r]) simp
  qed
qed

end
