(* ===== verification/GoTime.thy ===== *)
theory GoTime
  imports Prelude
begin

text \<open>
  The calendar computations of Go's \<^verbatim>\<open>time\<close> package that the gateway relies on: the UTC civil
  date of an instant, the layout \<^verbatim>\<open>20060102\<close> of the daily counter keys, and the first instant
  of the UTC month that contains an instant.
\<close>

definition dayOf :: "time \<Rightarrow> int" where
  "dayOf t = t div nsDay"

text \<open>
  Proleptic Gregorian date of a day count since 1970-01-01, by eras of 400 years of 146097
  days that begin on the first of March.
\<close>

definition civil :: "int \<Rightarrow> int \<times> int \<times> int" where
  "civil days =
     (let z = days + 719468;
          era = z div 146097;
          doe = z - era * 146097;
          yoe = (doe - doe div 1460 + doe div 36524 - doe div 146096) div 365;
          doy = doe - (365 * yoe + yoe div 4 - yoe div 100);
          mp = (5 * doy + 2) div 153;
          d = doy - (153 * mp + 2) div 5 + 1;
          m = (if mp < 10 then mp + 3 else mp - 9);
          y = yoe + era * 400
      in (if m \<le> 2 then y + 1 else y, m, d))"

definition pad2 :: "int \<Rightarrow> string" where
  "pad2 n = (if n < 10 then CHR ''0'' # itoa n else itoa n)"

definition pad4 :: "int \<Rightarrow> string" where
  "pad4 n = (let s = itoa n in replicate (4 - length s) (CHR ''0'') @ s)"

text \<open>\<^verbatim>\<open>t.UTC().Format("20060102")\<close>, for the years 0 to 9999.\<close>

definition dayText :: "time \<Rightarrow> string" where
  "dayText t = (case civil (dayOf t) of (y, m, d) \<Rightarrow> pad4 y @ pad2 m @ pad2 d)"

text \<open>\<^verbatim>\<open>time.Date(t.Year(), t.Month(), 1, 0, 0, 0, 0, time.UTC)\<close>.\<close>

definition monthStart :: "time \<Rightarrow> time" where
  "monthStart t = (case civil (dayOf t) of (y, m, d) \<Rightarrow> (dayOf t - (d - 1)) * nsDay)"

text \<open>\<^verbatim>\<open>start.AddDate(0, 1, 0)\<close> for the first instant of a month.\<close>

definition leapYear :: "int \<Rightarrow> bool" where
  "leapYear y \<longleftrightarrow> (y mod 4 = 0 \<and> y mod 100 \<noteq> 0) \<or> y mod 400 = 0"

definition daysInMonth :: "int \<Rightarrow> int \<Rightarrow> int" where
  "daysInMonth y m =
     (if m = 2 then (if leapYear y then 29 else 28)
      else if m = 4 \<or> m = 6 \<or> m = 9 \<or> m = 11 then 30 else 31)"

definition nextMonthStart :: "time \<Rightarrow> time" where
  "nextMonthStart t = (case civil (dayOf t) of (y, m, d) \<Rightarrow> monthStart t + daysInMonth y m * nsDay)"

text \<open>\<^verbatim>\<open>t.Unix()\<close>, whole seconds since the epoch.\<close>

definition unixSeconds :: "time \<Rightarrow> int" where
  "unixSeconds t = t div nsSecond"

lemma nsDay_pos [simp]: "0 < nsDay"
  by (simp add: time_defs)

text \<open>The era-based date is a day of a month: the day number is at least 1 and at most 31.\<close>

lemma civil_day: "civil days = (y, m, d) \<Longrightarrow> 1 \<le> d \<and> d \<le> 31"
proof -
  assume ymd: "civil days = (y, m, d)"
  obtain doy :: int where d: "d = doy - (153 * ((5 * doy + 2) div 153) + 2) div 5 + 1"
    using ymd unfolding civil_def Let_def prod.inject by blast
  define mp where "mp = (5 * doy + 2) div 153"
  have mp: "153 * mp \<le> 5 * doy + 2" "5 * doy + 2 < 153 * mp + 153" by (auto simp: mp_def)
  define w where "w = (153 * mp + 2) div 5"
  have w: "5 * w \<le> 153 * mp + 2" "153 * mp + 2 < 5 * w + 5" by (auto simp: w_def)
  have "d = doy - w + 1" by (simp add: d w_def mp_def)
  then show ?thesis using w mp by linarith
qed

lemma monthStart_le: "monthStart t \<le> t"
proof -
  obtain y m d where c: "civil (dayOf t) = (y, m, d)" by (cases "civil (dayOf t)") auto
  have "(dayOf t - (d - 1)) * nsDay \<le> dayOf t * nsDay"
    using civil_day [OF c] by (intro mult_right_mono) (auto simp: less_imp_le)
  also have "\<dots> \<le> t"
    unfolding dayOf_def
    using minus_mod_eq_div_mult [of t nsDay] pos_mod_sign [OF nsDay_pos, of t] by linarith
  finally show ?thesis by (simp add: monthStart_def c)
qed

lemma monthStart_lt_next: "monthStart t < nextMonthStart t"
  by (auto simp: nextMonthStart_def daysInMonth_def split: prod.splits)

lemma dayText_same_day: "dayOf a = dayOf b \<Longrightarrow> dayText a = dayText b"
  by (simp add: dayText_def)

end
