(* ===== verification/Redis.thy ===== *)
theory Redis
  imports GoFloat
begin

text \<open>
  The Redis server the gateway talks to through \<^verbatim>\<open>go-redis\<close>.  The server is not part of the
  repository: it is a parameter of the model, a record of the commands the source issues, each
  a function from the server's state to its next state and a reply or an error.  The locale
  \<^verbatim>\<open>redis_server\<close> states the documented behaviour of these commands on a view of the live keys;
  \<^verbatim>\<open>mapRedis\<close> is a server kept in a map, on which the locale is interpreted.
\<close>

section \<open>Values and commands\<close>

text \<open>
  A Redis string value, read by the client as a number or a text: \<^verbatim>\<open>RInt i\<close> is the decimal
  text of an integer, \<^verbatim>\<open>RFloat f\<close> the text of a decimal number, \<^verbatim>\<open>RText s\<close> any other text.
\<close>

datatype rval = RInt int | RFloat float64 | RText string

type_synonym rcell = "rval \<times> duration option"

record 'r redis_api =
  redisIncrBy :: "string \<Rightarrow> int \<Rightarrow> 'r \<Rightarrow> 'r \<times> int result"
  redisIncrByFloat :: "string \<Rightarrow> float64 \<Rightarrow> 'r \<Rightarrow> 'r \<times> float64 result"
  redisExpire :: "string \<Rightarrow> duration \<Rightarrow> 'r \<Rightarrow> 'r \<times> unit result"
  redisGet :: "string \<Rightarrow> 'r \<Rightarrow> 'r \<times> rval option result"
  redisPttl :: "string \<Rightarrow> 'r \<Rightarrow> 'r \<times> int result"
  redisSet :: "string \<Rightarrow> rval \<Rightarrow> duration \<Rightarrow> 'r \<Rightarrow> 'r \<times> unit result"
  redisSetNX :: "string \<Rightarrow> rval \<Rightarrow> duration \<Rightarrow> 'r \<Rightarrow> 'r \<times> bool result"
  redisDel :: "string \<Rightarrow> 'r \<Rightarrow> 'r \<times> unit result"
  redisEval :: "('r \<Rightarrow> 'r \<times> int result) \<Rightarrow> 'r \<Rightarrow> 'r \<times> int result"

text \<open>The client-side conversions \<^verbatim>\<open>.Int()\<close> and \<^verbatim>\<open>.Float64()\<close>, and Lua's \<^verbatim>\<open>tonumber\<close>.\<close>

fun replyInt :: "rval \<Rightarrow> int option" where
  "replyInt (RInt i) = (if in64 i then Some i else None)"
| "replyInt (RFloat (Fin q)) = (if of_int \<lfloor>q\<rfloor> = q \<and> in64 \<lfloor>q\<rfloor> then Some \<lfloor>q\<rfloor> else None)"
| "replyInt _ = None"

fun replyFloat :: "rval \<Rightarrow> float64 option" where
  "replyFloat (RInt i) = Some (fOfInt i)"
| "replyFloat (RFloat f) = Some f"
| "replyFloat (RText _) = None"

definition luaToNumber :: "rval \<Rightarrow> float64 option" where
  "luaToNumber v = replyFloat v"

section \<open>Documented behaviour\<close>

text \<open>
  The integer a counter key stands for, an absent key standing for 0, and the remaining time to
  live.
\<close>

fun cntOf :: "rcell option \<Rightarrow> int option" where
  "cntOf None = Some 0"
| "cntOf (Some (RInt i, _)) = Some i"
| "cntOf (Some _) = None"

fun ttlOf :: "rcell option \<Rightarrow> duration option" where
  "ttlOf None = None"
| "ttlOf (Some (_, t)) = t"

fun withTtl :: "duration option \<Rightarrow> rcell option \<Rightarrow> rcell option" where
  "withTtl t None = None"
| "withTtl t (Some (v, _)) = Some (v, t)"

lemma cntOf_withTtl [simp]: "cntOf (withTtl t c) = cntOf c"
  by (cases c rule: cntOf.cases) auto

text \<open>The value of a counter as an integer, 0 for a key that holds no integer.\<close>

definition cntVal :: "rcell option \<Rightarrow> int" where
  "cntVal c = (case cntOf c of Some v \<Rightarrow> v | None \<Rightarrow> 0)"

definition isCounter :: "rcell option \<Rightarrow> bool" where
  "isCounter c \<longleftrightarrow> cntOf c \<noteq> None"

text \<open>The reply of \<^verbatim>\<open>PTTL\<close>: -2 for no key, -1 for no expiry, else the milliseconds left.\<close>

fun pttlOf :: "rcell option \<Rightarrow> int" where
  "pttlOf None = -2"
| "pttlOf (Some (_, None)) = -1"
| "pttlOf (Some (_, Some d)) = milliseconds d"

text \<open>A positive expiry argument sets a time to live, zero sets none.\<close>

definition setTtl :: "duration \<Rightarrow> duration option" where
  "setTtl d = (if 0 < d then Some d else None)"

locale redis_server =
  fixes R :: "'r redis_api"
    and alive :: "'r \<Rightarrow> bool"
    and view :: "'r \<Rightarrow> string \<Rightarrow> rcell option"
  assumes incr_reply: "\<lbrakk>alive r; cntOf (view r k) = Some v; in64 (v + (n :: int))\<rbrakk> \<Longrightarrow>
      snd (redisIncrBy R k n r) = Inr (v + n)"
    and incr_view: "\<lbrakk>alive r; cntOf (view r k) = Some v; in64 (v + (n :: int))\<rbrakk> \<Longrightarrow>
      view (fst (redisIncrBy R k n r)) = (view r)(k \<mapsto> (RInt (v + n), ttlOf (view r k)))"
    and incr_alive: "alive r \<Longrightarrow> alive (fst (redisIncrBy R k n r))"
    and expire_view: "\<lbrakk>alive r; 0 < d\<rbrakk> \<Longrightarrow>
      view (fst (redisExpire R k d r)) = (view r)(k := withTtl (Some d) (view r k))"
    and expire_alive: "alive r \<Longrightarrow> alive (fst (redisExpire R k d r))"
    and get_reply: "alive r \<Longrightarrow> redisGet R k r = (r, Inr (map_option fst (view r k)))"
    and pttl_reply: "alive r \<Longrightarrow> redisPttl R k r = (r, Inr (pttlOf (view r k)))"
    and set_reply: "\<lbrakk>alive r; 0 \<le> d\<rbrakk> \<Longrightarrow> snd (redisSet R k w d r) = Inr ()"
    and set_view: "\<lbrakk>alive r; 0 \<le> d\<rbrakk> \<Longrightarrow>
      view (fst (redisSet R k w d r)) = (view r)(k \<mapsto> (w, setTtl d))"
    and set_alive: "alive r \<Longrightarrow> alive (fst (redisSet R k w d r))"
    and setnx_reply: "\<lbrakk>alive r; 0 \<le> d\<rbrakk> \<Longrightarrow> snd (redisSetNX R k w d r) = Inr (view r k = None)"
    and setnx_view: "\<lbrakk>alive r; 0 \<le> d\<rbrakk> \<Longrightarrow> view (fst (redisSetNX R k w d r)) =
      (if view r k = None then (view r)(k \<mapsto> (w, setTtl d)) else view r)"
    and setnx_alive: "alive r \<Longrightarrow> alive (fst (redisSetNX R k w d r))"
    and del_view: "alive r \<Longrightarrow> view (fst (redisDel R k r)) = (view r)(k := None)"
    and del_alive: "alive r \<Longrightarrow> alive (fst (redisDel R k r))"
    and incrf_view: "\<lbrakk>alive r; redisIncrByFloat R k a r = (r', Inr f)\<rbrakk> \<Longrightarrow>
      view r' = (view r)(k \<mapsto> (RFloat f, ttlOf (view r k)))"
    and incrf_alive: "alive r \<Longrightarrow> alive (fst (redisIncrByFloat R k a r))"
    and eval_script: "alive r \<Longrightarrow> redisEval R g r = g r"
begin

abbreviation count :: "'r \<Rightarrow> string \<Rightarrow> int" where
  "count r k \<equiv> cntVal (view r k)"

abbreviation counter :: "'r \<Rightarrow> string \<Rightarrow> bool" where
  "counter r k \<equiv> isCounter (view r k)"

lemma counter_cnt: "counter r k \<Longrightarrow> cntOf (view r k) = Some (count r k)"
  by (auto simp: isCounter_def cntVal_def)

lemma incr_counter:
  assumes "alive r" "counter r k" "in64 (count r k + n)"
  shows "redisIncrBy R k n r = (fst (redisIncrBy R k n r), Inr (count r k + n))"
    and "count (fst (redisIncrBy R k n r)) k = count r k + n"
    and "counter (fst (redisIncrBy R k n r)) k"
    and "j \<noteq> k \<Longrightarrow> view (fst (redisIncrBy R k n r)) j = view r j"
  using incr_reply [OF assms(1) counter_cnt [OF assms(2)] assms(3)]
    incr_view [OF assms(1) counter_cnt [OF assms(2)] assms(3)]
  by (simp_all add: prod_eq_iff isCounter_def cntVal_def)

lemma expire_counter:
  assumes "alive r" "0 < d"
  shows "count (fst (redisExpire R k d r)) j = count r j"
    and "counter (fst (redisExpire R k d r)) j = counter r j"
    and "j \<noteq> k \<Longrightarrow> view (fst (redisExpire R k d r)) j = view r j"
  using expire_view [OF assms] by (auto simp: cntVal_def isCounter_def)

end

section \<open>A server kept in a map\<close>

record map_redis =
  mrKeys :: "string \<Rightarrow> rcell option"
  mrFault :: "gerror option"

definition mrRun :: "(map_redis \<Rightarrow> map_redis \<times> 'a result) \<Rightarrow> map_redis \<Rightarrow> map_redis \<times> 'a result" where
  "mrRun f r = (case mrFault r of Some e \<Rightarrow> (r, Inl e) | None \<Rightarrow> f r)"

definition mrPut :: "string \<Rightarrow> rcell option \<Rightarrow> map_redis \<Rightarrow> map_redis" where
  "mrPut k c r = r\<lparr>mrKeys := (mrKeys r)(k := c)\<rparr>"

definition mrIncrBy :: "string \<Rightarrow> int \<Rightarrow> map_redis \<Rightarrow> map_redis \<times> int result" where
  "mrIncrBy k n = mrRun (\<lambda>r. case cntOf (mrKeys r k) of
       Some v \<Rightarrow> if in64 (v + n) then (mrPut k (Some (RInt (v + n), ttlOf (mrKeys r k))) r, Inr (v + n))
                else (r, Inl (ErrText ''ERR increment or decrement would overflow''))
     | None \<Rightarrow> (r, Inl (ErrText ''ERR value is not an integer or out of range'')))"

definition mrIncrByFloat :: "string \<Rightarrow> float64 \<Rightarrow> map_redis \<Rightarrow> map_redis \<times> float64 result" where
  "mrIncrByFloat k a = mrRun (\<lambda>r.
     case (case mrKeys r k of None \<Rightarrow> Some fzero | Some (v, _) \<Rightarrow> replyFloat v) of
       Some v \<Rightarrow> (mrPut k (Some (RFloat (fadd v a), ttlOf (mrKeys r k))) r, Inr (fadd v a))
     | None \<Rightarrow> (r, Inl (ErrText ''ERR value is not a valid float'')))"

definition mapRedis :: "map_redis redis_api" where
  "mapRedis = \<lparr>
     redisIncrBy = mrIncrBy,
     redisIncrByFloat = mrIncrByFloat,
     redisExpire = (\<lambda>k d. mrRun (\<lambda>r. (mrPut k (withTtl (Some d) (mrKeys r k)) r, Inr ()))),
     redisGet = (\<lambda>k. mrRun (\<lambda>r. (r, Inr (map_option fst (mrKeys r k))))),
     redisPttl = (\<lambda>k. mrRun (\<lambda>r. (r, Inr (pttlOf (mrKeys r k))))),
     redisSet = (\<lambda>k v d. mrRun (\<lambda>r. (mrPut k (Some (v, setTtl d)) r, Inr ()))),
     redisSetNX = (\<lambda>k v d. mrRun (\<lambda>r. if mrKeys r k = None
        then (mrPut k (Some (v, setTtl d)) r, Inr True) else (r, Inr False))),
     redisDel = (\<lambda>k. mrRun (\<lambda>r. (mrPut k None r, Inr ()))),
     redisEval = (\<lambda>f. mrRun f) \<rparr>"

definition mrAlive :: "map_redis \<Rightarrow> bool" where
  "mrAlive r \<longleftrightarrow> mrFault r = None"

definition mrEmpty :: map_redis where
  "mrEmpty = \<lparr>mrKeys = Map.empty, mrFault = None\<rparr>"

lemmas map_redis_defs = mapRedis_def mrRun_def mrPut_def mrIncrBy_def mrIncrByFloat_def mrAlive_def mrEmpty_def

interpretation mapServer: redis_server mapRedis mrAlive mrKeys
  by unfold_locales (auto simp: map_redis_defs split: option.splits)

end
