(* ===== verification/RateLimit.thy ===== *)
theory RateLimit
  imports Redis GoTime
begin

text \<open>
  The rate-limit service, \<^verbatim>\<open>internal/service/rate_limit_service.go\<close>: the counters per minute,
  per day, per subscription period and per free model, the concurrency slots and the credit
  counters, kept in Redis.  Each operation takes the Redis commands \<^verbatim>\<open>R\<close>, the key prefix of the
  service and, where the code reads the clock, the instant \<^verbatim>\<open>now\<close>, and returns the server's
  next state with the operation's result.  The lemmas show that no counter ever admits more
  than its limit, that a rejected check puts its counter back, and that the per-minute script
  replaces counters without an expiry.
\<close>

section \<open>Plan limits\<close>

record plan_limits =
  plRPM :: int
  plTPM :: int
  plConcurrentLimit :: int
  plMaxRequestsPerPeriod :: int
  plRPD :: int
  plCreditLimitPerDay :: float64
  plCreditLimitPerPeriod :: float64

definition HasRPM :: "plan_limits \<Rightarrow> bool" where
  "HasRPM l \<longleftrightarrow> plRPM l > 0"

definition HasTPM :: "plan_limits \<Rightarrow> bool" where
  "HasTPM l \<longleftrightarrow> plTPM l > 0"

definition HasConcurrency :: "plan_limits \<Rightarrow> bool" where
  "HasConcurrency l \<longleftrightarrow> plConcurrentLimit l > 0"

definition HasAny :: "plan_limits \<Rightarrow> bool" where
  "HasAny l \<longleftrightarrow> HasRPM l \<or> HasTPM l \<or> HasConcurrency l"

definition HasMaxRequestsPerPeriod :: "plan_limits \<Rightarrow> bool" where
  "HasMaxRequestsPerPeriod l \<longleftrightarrow> plMaxRequestsPerPeriod l > 0"

definition HasRPD :: "plan_limits \<Rightarrow> bool" where
  "HasRPD l \<longleftrightarrow> plRPD l > 0"

definition HasCreditPerDay :: "plan_limits \<Rightarrow> bool" where
  "HasCreditPerDay l \<longleftrightarrow> flt fzero (plCreditLimitPerDay l)"

definition HasCreditPerPeriod :: "plan_limits \<Rightarrow> bool" where
  "HasCreditPerPeriod l \<longleftrightarrow> flt fzero (plCreditLimitPerPeriod l)"

definition TPMAllowance :: "plan_limits \<Rightarrow> int \<Rightarrow> int" where
  "TPMAllowance l estimatedTokens =
     (if \<not> HasTPM l then 0 else if estimatedTokens > 0 then estimatedTokens else 1)"

definition TPMExceeded :: "plan_limits \<Rightarrow> int \<Rightarrow> bool" where
  "TPMExceeded l actualTotalTokens \<longleftrightarrow> HasTPM l \<and> actualTotalTokens > plTPM l"

section \<open>Keys\<close>

definition rpmKey :: "string \<Rightarrow> string \<Rightarrow> string" where
  "rpmKey pfx userID = pfx @ '':rl:api-key:'' @ userID @ '':rpm''"

definition tpmKey :: "string \<Rightarrow> string \<Rightarrow> string" where
  "tpmKey pfx accountID = pfx @ '':rl:account:'' @ accountID @ '':tpm''"

definition concurrentKey :: "string \<Rightarrow> string \<Rightarrow> string" where
  "concurrentKey pfx accountID = pfx @ '':concurrent:account:'' @ accountID"

definition planDayKey :: "string \<Rightarrow> string \<Rightarrow> string \<Rightarrow> time \<Rightarrow> string" where
  "planDayKey pfx userID periodKey now =
     pfx @ '':rl:plan-day:'' @ userID @ '':'' @ periodKey @ '':'' @ dayText now"

definition planDayResetKey :: "string \<Rightarrow> string \<Rightarrow> string \<Rightarrow> string \<Rightarrow> string" where
  "planDayResetKey pfx userID periodKey resetID =
     pfx @ '':rl:plan-day-reset:'' @ userID @ '':'' @ periodKey @ '':'' @ resetID"

definition planPeriodKey :: "string \<Rightarrow> string \<Rightarrow> string \<Rightarrow> string" where
  "planPeriodKey pfx userID periodKey =
     pfx @ '':rl:plan-period:'' @ userID @ '':'' @ periodKey"

definition planPeriodResetKey :: "string \<Rightarrow> string \<Rightarrow> string \<Rightarrow> string" where
  "planPeriodResetKey pfx userID periodKey =
     pfx @ '':rl:plan-period-reset:'' @ userID @ '':'' @ periodKey"

definition creditDayKey :: "string \<Rightarrow> string \<Rightarrow> string \<Rightarrow> time \<Rightarrow> string" where
  "creditDayKey pfx userID periodKey now =
     pfx @ '':rl:plan-credit-day:'' @ userID @ '':'' @ periodKey @ '':'' @ dayText now"

definition creditPeriodKey :: "string \<Rightarrow> string \<Rightarrow> string \<Rightarrow> string" where
  "creditPeriodKey pfx userID periodKey =
     pfx @ '':rl:plan-credit-period:'' @ userID @ '':'' @ periodKey"

definition freeRpmKey :: "string \<Rightarrow> string \<Rightarrow> string \<Rightarrow> string" where
  "freeRpmKey pfx userID publicModel =
     pfx @ '':rl:free-model:'' @ userID @ '':'' @ publicModel @ '':rpm''"

definition freeRpdKey :: "string \<Rightarrow> string \<Rightarrow> string \<Rightarrow> time \<Rightarrow> string" where
  "freeRpdKey pfx userID publicModel now =
     pfx @ '':rl:free-model:'' @ userID @ '':'' @ publicModel @ '':rpd:'' @ dayText now"

definition freeTpdKey :: "string \<Rightarrow> string \<Rightarrow> string \<Rightarrow> time \<Rightarrow> string" where
  "freeTpdKey pfx userID publicModel now =
     pfx @ '':rl:free-model:'' @ userID @ '':'' @ publicModel @ '':tpd:'' @ dayText now"

section \<open>The requests-per-minute window\<close>

definition rpmWindow :: duration where
  "rpmWindow = nsMinute"

text \<open>
  The Lua script: its commands run on the server in one atomic step; a failing command aborts
  it.  Lua reads numbers as doubles, and the number it returns is truncated to an integer reply.
\<close>

definition rpmCheckScript :: "'r redis_api \<Rightarrow> string \<Rightarrow> int \<Rightarrow> int \<Rightarrow> 'r \<Rightarrow> 'r \<times> int result" where
  "rpmCheckScript R key limit windowMs r =
     (case redisGet R key r of
        (r1, Inl e) \<Rightarrow> (r1, Inl e)
      | (r1, Inr current) \<Rightarrow>
     (case redisPttl R key r1 of
        (r2, Inl e) \<Rightarrow> (r2, Inl e)
      | (r2, Inr ttl) \<Rightarrow>
        (let fresh = (case redisSet R key (RInt 1) (windowMs * nsMilli) r2 of
               (r3, Inl e) \<Rightarrow> (r3, Inl e)
             | (r3, Inr _) \<Rightarrow> (r3, Inr 1))
         in case current of
              None \<Rightarrow> fresh
            | Some v \<Rightarrow>
                if ttl < 0 then fresh
                else (case luaToNumber v of
                        None \<Rightarrow> fresh
                      | Some c \<Rightarrow>
                          if fle (fOfInt limit) c then (r2, Inr (fToInt (fneg c)))
                          else (case redisIncrBy R key 1 r2 of
                                  (r3, Inl e) \<Rightarrow> (r3, Inl e)
                                | (r3, Inr n) \<Rightarrow> (r3, Inr (fToInt (fOfInt n))))))))"

definition rpmReadScript :: "'r redis_api \<Rightarrow> string \<Rightarrow> 'r \<Rightarrow> 'r \<times> int result" where
  "rpmReadScript R key r =
     (case redisGet R key r of
        (r1, Inl e) \<Rightarrow> (r1, Inl e)
      | (r1, Inr None) \<Rightarrow> (r1, Inr 0)
      | (r1, Inr (Some v)) \<Rightarrow>
     (case redisPttl R key r1 of
        (r2, Inl e) \<Rightarrow> (r2, Inl e)
      | (r2, Inr ttl) \<Rightarrow>
          if ttl < 0 then
            (case redisDel R key r2 of (r3, Inl e) \<Rightarrow> (r3, Inl e) | (r3, Inr _) \<Rightarrow> (r3, Inr 0))
          else (case luaToNumber v of
                  None \<Rightarrow> (r2, Inr 0)
                | Some c \<Rightarrow> if flt c fzero then (r2, Inr 0) else (r2, Inr (fToInt c)))))"

definition CheckRPM :: "'r redis_api \<Rightarrow> string \<Rightarrow> string \<Rightarrow> int \<Rightarrow> 'r \<Rightarrow> 'r \<times> unit result" where
  "CheckRPM R pfx userID limit r =
     (if limit \<le> 0 then (r, Inr ())
      else case redisEval R (rpmCheckScript R (rpmKey pfx userID) limit (milliseconds rpmWindow)) r of
             (r1, Inl e) \<Rightarrow> (r1, Inl e)
           | (r1, Inr count) \<Rightarrow>
               if count < 0 then (r1, Inl (ErrText ''rate_limit_exceeded'')) else (r1, Inr ()))"

definition GetRPMCount :: "'r redis_api \<Rightarrow> string \<Rightarrow> string \<Rightarrow> 'r \<Rightarrow> 'r \<times> int" where
  "GetRPMCount R pfx userID r =
     (if userID = [] then (r, 0)
      else case redisEval R (rpmReadScript R (rpmKey pfx userID)) r of
             (r1, Inl _) \<Rightarrow> (r1, 0)
           | (r1, Inr n) \<Rightarrow> (r1, if n < 0 then 0 else n))"

section \<open>Incremented counters\<close>

text \<open>
  The shape the remaining checks share: increment by \<open>amount\<close>, let \<open>expiry\<close> decide from the new
  count whether to set a time to live (its error is ignored), and take the increment back (its
  error ignored too) when the count exceeds the limit.
\<close>

definition incrChecked ::
  "'r redis_api \<Rightarrow> string \<Rightarrow> int \<Rightarrow> (int \<Rightarrow> duration option) \<Rightarrow> int \<Rightarrow> string \<Rightarrow> 'r \<Rightarrow> 'r \<times> unit result" where
  "incrChecked R key amount expiry limit msg r =
     (case redisIncrBy R key amount r of
        (r1, Inl e) \<Rightarrow> (r1, Inl e)
      | (r1, Inr count) \<Rightarrow>
          let r2 = (case expiry count of None \<Rightarrow> r1 | Some d \<Rightarrow> fst (redisExpire R key d r1))
          in if count > limit then (fst (redisIncrBy R key (- amount) r2), Inl (ErrText msg))
             else (r2, Inr ()))"

definition onFirst :: "int \<Rightarrow> duration \<Rightarrow> int \<Rightarrow> duration option" where
  "onFirst amount d count = (if count = amount then Some d else None)"

definition CheckTPM :: "'r redis_api \<Rightarrow> string \<Rightarrow> string \<Rightarrow> int \<Rightarrow> int \<Rightarrow> 'r \<Rightarrow> 'r \<times> unit result" where
  "CheckTPM R pfx accountID estimatedTokens limit r =
     (if limit \<le> 0 then (r, Inr ())
      else incrChecked R (tpmKey pfx accountID) estimatedTokens (onFirst estimatedTokens nsMinute)
             limit ''rate_limit_exceeded'' r)"

text \<open>
  \<^verbatim>\<open>AcquireConcurrency\<close> returns the release closure; here the result says whether the closure
  holds a slot, and \<^verbatim>\<open>releaseConcurrency\<close> is what calling it does.
\<close>

definition AcquireConcurrency :: "'r redis_api \<Rightarrow> string \<Rightarrow> string \<Rightarrow> int \<Rightarrow> 'r \<Rightarrow> 'r \<times> bool result" where
  "AcquireConcurrency R pfx accountID limit r =
     (if limit \<le> 0 then (r, Inr False)
      else case incrChecked R (concurrentKey pfx accountID) 1 (onFirst 1 (10 * nsMinute))
                  limit ''rate_limit_exceeded'' r of
             (r1, Inl e) \<Rightarrow> (r1, Inl e)
           | (r1, Inr _) \<Rightarrow> (r1, Inr True))"

definition releaseConcurrency :: "'r redis_api \<Rightarrow> string \<Rightarrow> string \<Rightarrow> bool \<Rightarrow> 'r \<Rightarrow> 'r" where
  "releaseConcurrency R pfx accountID held r =
     (if \<not> held then r
      else case redisIncrBy R (concurrentKey pfx accountID) (-1) r of
             (r1, Inl _) \<Rightarrow> r1
           | (r1, Inr n) \<Rightarrow>
               if n \<le> 0 then fst (redisDel R (concurrentKey pfx accountID) r1) else r1)"

definition CheckPlanRPD :: "'r redis_api \<Rightarrow> string \<Rightarrow> time \<Rightarrow> string \<Rightarrow> string \<Rightarrow> int \<Rightarrow> 'r \<Rightarrow> 'r \<times> unit result" where
  "CheckPlanRPD R pfx now userID periodKey limit r =
     (if limit \<le> 0 \<or> userID = [] \<or> periodKey = [] then (r, Inr ())
      else incrChecked R (planDayKey pfx userID periodKey now) 1 (onFirst 1 (25 * nsHour))
             limit ''plan_rpd_exceeded'' r)"

definition CheckRequestsPerPeriod ::
  "'r redis_api \<Rightarrow> string \<Rightarrow> string \<Rightarrow> string \<Rightarrow> duration \<Rightarrow> int \<Rightarrow> 'r \<Rightarrow> 'r \<times> unit result" where
  "CheckRequestsPerPeriod R pfx userID periodKey ttl limit r =
     (if limit \<le> 0 then (r, Inr ())
      else if userID = [] \<or> periodKey = [] then (r, Inr ())
      else incrChecked R (planPeriodKey pfx userID periodKey) 1
             (\<lambda>_. if ttl > 0 then Some ttl else None) limit ''plan_period_limit_exceeded'' r)"

definition CheckFreeModelRPM :: "'r redis_api \<Rightarrow> string \<Rightarrow> string \<Rightarrow> string \<Rightarrow> int \<Rightarrow> 'r \<Rightarrow> 'r \<times> unit result" where
  "CheckFreeModelRPM R pfx userID publicModel limit r =
     (if limit \<le> 0 \<or> userID = [] \<or> publicModel = [] then (r, Inr ())
      else incrChecked R (freeRpmKey pfx userID publicModel) 1 (onFirst 1 nsMinute)
             limit ''free_model_rpm_exceeded'' r)"

definition CheckFreeModelRPD :: "'r redis_api \<Rightarrow> string \<Rightarrow> time \<Rightarrow> string \<Rightarrow> string \<Rightarrow> int \<Rightarrow> 'r \<Rightarrow> 'r \<times> unit result" where
  "CheckFreeModelRPD R pfx now userID publicModel limit r =
     (if limit \<le> 0 \<or> userID = [] \<or> publicModel = [] then (r, Inr ())
      else incrChecked R (freeRpdKey pfx userID publicModel now) 1 (onFirst 1 (25 * nsHour))
             limit ''free_model_rpd_exceeded'' r)"

definition CheckFreeModelTPD ::
  "'r redis_api \<Rightarrow> string \<Rightarrow> time \<Rightarrow> string \<Rightarrow> string \<Rightarrow> int \<Rightarrow> int \<Rightarrow> 'r \<Rightarrow> 'r \<times> unit result" where
  "CheckFreeModelTPD R pfx now userID publicModel estimatedTokens limit r =
     (if limit \<le> 0 \<or> userID = [] \<or> publicModel = [] then (r, Inr ())
      else let est = (if estimatedTokens \<le> 0 then 1 else estimatedTokens)
           in incrChecked R (freeTpdKey pfx userID publicModel now) est (onFirst est (25 * nsHour))
                limit ''free_model_tpd_exceeded'' r)"

section \<open>Reading and rolling back\<close>

definition getInt :: "'r redis_api \<Rightarrow> string \<Rightarrow> 'r \<Rightarrow> 'r \<times> int" where
  "getInt R key r =
     (case redisGet R key r of
        (r1, Inr (Some v)) \<Rightarrow>
          (r1, case replyInt v of Some n \<Rightarrow> if n < 0 then 0 else n | None \<Rightarrow> 0)
      | (r1, _) \<Rightarrow> (r1, 0))"

definition GetConcurrencyCount :: "'r redis_api \<Rightarrow> string \<Rightarrow> string \<Rightarrow> 'r \<Rightarrow> 'r \<times> int" where
  "GetConcurrencyCount R pfx userID r =
     (if userID = [] then (r, 0) else getInt R (concurrentKey pfx userID) r)"

definition GetPlanRPDCount :: "'r redis_api \<Rightarrow> string \<Rightarrow> time \<Rightarrow> string \<Rightarrow> string \<Rightarrow> 'r \<Rightarrow> 'r \<times> int" where
  "GetPlanRPDCount R pfx now userID periodKey r =
     (if userID = [] \<or> periodKey = [] then (r, 0) else getInt R (planDayKey pfx userID periodKey now) r)"

definition GetRequestsPerPeriodCount :: "'r redis_api \<Rightarrow> string \<Rightarrow> string \<Rightarrow> string \<Rightarrow> 'r \<Rightarrow> 'r \<times> int" where
  "GetRequestsPerPeriodCount R pfx userID periodKey r =
     (if userID = [] \<or> periodKey = [] then (r, 0) else getInt R (planPeriodKey pfx userID periodKey) r)"

definition RollbackRequestsPerPeriod :: "'r redis_api \<Rightarrow> string \<Rightarrow> string \<Rightarrow> string \<Rightarrow> 'r \<Rightarrow> 'r" where
  "RollbackRequestsPerPeriod R pfx userID periodKey r =
     (if userID = [] \<or> periodKey = [] then r
      else fst (redisIncrBy R (planPeriodKey pfx userID periodKey) (-1) r))"

definition RollbackPlanRPD :: "'r redis_api \<Rightarrow> string \<Rightarrow> time \<Rightarrow> string \<Rightarrow> string \<Rightarrow> 'r \<Rightarrow> 'r" where
  "RollbackPlanRPD R pfx now userID periodKey r =
     (if userID = [] \<or> periodKey = [] then r
      else fst (redisIncrBy R (planDayKey pfx userID periodKey now) (-1) r))"

definition RollbackFreeModelRPM :: "'r redis_api \<Rightarrow> string \<Rightarrow> string \<Rightarrow> string \<Rightarrow> 'r \<Rightarrow> 'r" where
  "RollbackFreeModelRPM R pfx userID publicModel r =
     (if userID = [] \<or> publicModel = [] then r
      else fst (redisIncrBy R (freeRpmKey pfx userID publicModel) (-1) r))"

definition RollbackFreeModelRPD :: "'r redis_api \<Rightarrow> string \<Rightarrow> time \<Rightarrow> string \<Rightarrow> string \<Rightarrow> 'r \<Rightarrow> 'r" where
  "RollbackFreeModelRPD R pfx now userID publicModel r =
     (if userID = [] \<or> publicModel = [] then r
      else fst (redisIncrBy R (freeRpdKey pfx userID publicModel now) (-1) r))"

definition FinalizeFreeModelTPD :: "'r redis_api \<Rightarrow> string \<Rightarrow> time \<Rightarrow> string \<Rightarrow> string \<Rightarrow> int \<Rightarrow> 'r \<Rightarrow> 'r" where
  "FinalizeFreeModelTPD R pfx now userID publicModel delta r =
     (if delta = 0 \<or> userID = [] \<or> publicModel = [] then r
      else fst (redisIncrBy R (freeTpdKey pfx userID publicModel now) delta r))"

section \<open>Administrative writes\<close>

definition SetPlanRPD :: "'r redis_api \<Rightarrow> string \<Rightarrow> time \<Rightarrow> string \<Rightarrow> string \<Rightarrow> int \<Rightarrow> 'r \<Rightarrow> 'r \<times> unit result" where
  "SetPlanRPD R pfx now userID periodKey value r =
     (if userID = [] \<or> periodKey = [] then (r, Inl (ErrText ''userID and periodKey are required''))
      else let v = (if value < 0 then 0 else value)
           in redisSet R (planDayKey pfx userID periodKey now) (RInt v) (25 * nsHour) r)"

definition SetRequestsPerPeriod ::
  "'r redis_api \<Rightarrow> string \<Rightarrow> string \<Rightarrow> string \<Rightarrow> duration \<Rightarrow> int \<Rightarrow> 'r \<Rightarrow> 'r \<times> unit result" where
  "SetRequestsPerPeriod R pfx userID periodKey ttl value r =
     (if userID = [] \<or> periodKey = [] then (r, Inl (ErrText ''userID and periodKey are required''))
      else let v = (if value < 0 then 0 else value)
           in redisSet R (planPeriodKey pfx userID periodKey) (RInt v) ttl r)"

text \<open>Both one-shot resets: claim the sentinel with \<^verbatim>\<open>SETNX\<close>, then write 0 to the counter.\<close>

definition resetOnce ::
  "'r redis_api \<Rightarrow> string \<Rightarrow> duration \<Rightarrow> string \<Rightarrow> duration \<Rightarrow> 'r \<Rightarrow> 'r \<times> bool result" where
  "resetOnce R sentinel sentinelTTL key ttl r =
     (case redisSetNX R sentinel (RInt 1) sentinelTTL r of
        (r1, Inl e) \<Rightarrow> (r1, Inl e)
      | (r1, Inr ok) \<Rightarrow>
          if \<not> ok then (r1, Inr False)
          else (case redisSet R key (RInt 0) ttl r1 of
                  (r2, Inl e) \<Rightarrow> (r2, Inl e)
                | (r2, Inr _) \<Rightarrow> (r2, Inr True)))"

definition ResetPlanRPDOnce ::
  "'r redis_api \<Rightarrow> string \<Rightarrow> time \<Rightarrow> string \<Rightarrow> string \<Rightarrow> string \<Rightarrow> 'r \<Rightarrow> 'r \<times> bool result" where
  "ResetPlanRPDOnce R pfx now userID periodKey resetID r =
     (if userID = [] \<or> periodKey = [] \<or> resetID = []
      then (r, Inl (ErrText ''userID, periodKey, and resetID are required''))
      else resetOnce R (planDayResetKey pfx userID periodKey resetID) (90 * 24 * nsHour)
             (planDayKey pfx userID periodKey now) (25 * nsHour) r)"

definition ResetRequestsPerPeriodOnce ::
  "'r redis_api \<Rightarrow> string \<Rightarrow> string \<Rightarrow> string \<Rightarrow> duration \<Rightarrow> 'r \<Rightarrow> 'r \<times> bool result" where
  "ResetRequestsPerPeriodOnce R pfx userID periodKey ttl r =
     (if userID = [] \<or> periodKey = [] then (r, Inl (ErrText ''userID and periodKey are required''))
      else resetOnce R (planPeriodResetKey pfx userID periodKey) (if ttl \<le> 0 then 24 * nsHour else ttl)
             (planPeriodKey pfx userID periodKey) ttl r)"

section \<open>Credit counters of unlimited plans\<close>

definition SetPlanCreditsPerPeriod ::
  "'r redis_api \<Rightarrow> string \<Rightarrow> string \<Rightarrow> string \<Rightarrow> duration \<Rightarrow> float64 \<Rightarrow> 'r \<Rightarrow> 'r \<times> unit result" where
  "SetPlanCreditsPerPeriod R pfx userID periodKey ttl value r =
     (if userID = [] \<or> periodKey = [] then (r, Inl (ErrText ''userID and periodKey are required''))
      else let v = (if flt value fzero then fzero else value)
           in redisSet R (creditPeriodKey pfx userID periodKey) (RFloat v) ttl r)"

definition incrFloatChecked ::
  "'r redis_api \<Rightarrow> string \<Rightarrow> float64 \<Rightarrow> (float64 \<Rightarrow> duration option) \<Rightarrow> float64 \<Rightarrow> string \<Rightarrow> 'r \<Rightarrow> 'r \<times> unit result" where
  "incrFloatChecked R key amount expiry limit msg r =
     (case redisIncrByFloat R key amount r of
        (r1, Inl e) \<Rightarrow> (r1, Inl e)
      | (r1, Inr count) \<Rightarrow>
          let r2 = (case expiry count of None \<Rightarrow> r1 | Some d \<Rightarrow> fst (redisExpire R key d r1))
          in if flt limit count
             then (fst (redisIncrByFloat R key (fneg amount) r2), Inl (ErrText msg))
             else (r2, Inr ()))"

definition CheckPlanCreditRPD ::
  "'r redis_api \<Rightarrow> string \<Rightarrow> time \<Rightarrow> string \<Rightarrow> string \<Rightarrow> float64 \<Rightarrow> float64 \<Rightarrow> 'r \<Rightarrow> 'r \<times> unit result" where
  "CheckPlanCreditRPD R pfx now userID periodKey amount limit r =
     (if fle amount fzero \<or> fle limit fzero \<or> userID = [] \<or> periodKey = [] then (r, Inr ())
      else incrFloatChecked R (creditDayKey pfx userID periodKey now) amount
             (\<lambda>count. if feq count amount then Some (25 * nsHour) else None)
             limit ''plan_credit_rpd_exceeded'' r)"

definition CheckPlanCreditsPerPeriod ::
  "'r redis_api \<Rightarrow> string \<Rightarrow> string \<Rightarrow> string \<Rightarrow> duration \<Rightarrow> float64 \<Rightarrow> float64 \<Rightarrow> 'r \<Rightarrow> 'r \<times> unit result" where
  "CheckPlanCreditsPerPeriod R pfx userID periodKey ttl amount limit r =
     (if fle amount fzero \<or> fle limit fzero \<or> userID = [] \<or> periodKey = [] then (r, Inr ())
      else incrFloatChecked R (creditPeriodKey pfx userID periodKey) amount
             (\<lambda>_. if ttl > 0 then Some ttl else None) limit ''plan_credit_period_exceeded'' r)"

definition finalizeCredits ::
  "'r redis_api \<Rightarrow> string \<Rightarrow> float64 \<Rightarrow> float64 \<Rightarrow> 'r \<Rightarrow> 'r \<times> unit result" where
  "finalizeCredits R key reserved actual r =
     (let delta = fsub actual reserved in
      if feq delta fzero then (r, Inr ())
      else case redisIncrByFloat R key delta r of
             (r1, Inl e) \<Rightarrow> (r1, Inl e)
           | (r1, Inr _) \<Rightarrow> (r1, Inr ()))"

definition FinalizePlanCreditRPD ::
  "'r redis_api \<Rightarrow> string \<Rightarrow> time \<Rightarrow> string \<Rightarrow> string \<Rightarrow> float64 \<Rightarrow> float64 \<Rightarrow> 'r \<Rightarrow> 'r \<times> unit result" where
  "FinalizePlanCreditRPD R pfx now userID periodKey reserved actual r =
     (if fle reserved fzero \<or> userID = [] \<or> periodKey = [] then (r, Inr ())
      else finalizeCredits R (creditDayKey pfx userID periodKey now) reserved actual r)"

definition FinalizePlanCreditsPerPeriod ::
  "'r redis_api \<Rightarrow> string \<Rightarrow> string \<Rightarrow> string \<Rightarrow> float64 \<Rightarrow> float64 \<Rightarrow> 'r \<Rightarrow> 'r \<times> unit result" where
  "FinalizePlanCreditsPerPeriod R pfx userID periodKey reserved actual r =
     (if fle reserved fzero \<or> userID = [] \<or> periodKey = [] then (r, Inr ())
      else finalizeCredits R (creditPeriodKey pfx userID periodKey) reserved actual r)"

definition getFloat :: "'r redis_api \<Rightarrow> string \<Rightarrow> 'r \<Rightarrow> 'r \<times> float64" where
  "getFloat R key r =
     (case redisGet R key r of
        (r1, Inr (Some v)) \<Rightarrow>
          (r1, case replyFloat v of Some n \<Rightarrow> if flt n fzero then fzero else n | None \<Rightarrow> fzero)
      | (r1, _) \<Rightarrow> (r1, fzero))"

definition GetPlanCreditRPDCount :: "'r redis_api \<Rightarrow> string \<Rightarrow> time \<Rightarrow> string \<Rightarrow> string \<Rightarrow> 'r \<Rightarrow> 'r \<times> float64" where
  "GetPlanCreditRPDCount R pfx now userID periodKey r =
     (if userID = [] \<or> periodKey = [] then (r, fzero)
      else getFloat R (creditDayKey pfx userID periodKey now) r)"

definition GetPlanCreditsPerPeriodCount :: "'r redis_api \<Rightarrow> string \<Rightarrow> string \<Rightarrow> string \<Rightarrow> 'r \<Rightarrow> 'r \<times> float64" where
  "GetPlanCreditsPerPeriodCount R pfx userID periodKey r =
     (if userID = [] \<or> periodKey = [] then (r, fzero)
      else getFloat R (creditPeriodKey pfx userID periodKey) r)"

section \<open>What the counters guarantee\<close>

text \<open>A window is stale when its key is absent or has no expiry.\<close>

fun staleWindow :: "rcell option \<Rightarrow> bool" where
  "staleWindow None = True"
| "staleWindow (Some (_, None)) = True"
| "staleWindow (Some (_, Some d)) = (milliseconds d < 0)"

lemma staleWindow_pttl: "staleWindow c \<longleftrightarrow> c = None \<or> pttlOf c < 0"
  by (cases c rule: staleWindow.cases) auto

lemma fToInt_of_int: "\<bar>i\<bar> \<le> 2 ^ 53 \<Longrightarrow> fToInt (fOfInt i) = i"
  by (auto simp: fOfInt_small truncRat_def in64_def)

text \<open>Every time to live that the checks set is positive.\<close>

definition positiveTtl :: "('c \<Rightarrow> duration option) \<Rightarrow> bool" where
  "positiveTtl expiry \<longleftrightarrow> (\<forall>c d. expiry c = Some d \<longrightarrow> 0 < d)"

lemma positiveTtlD: "positiveTtl expiry \<Longrightarrow> expiry c = Some d \<Longrightarrow> 0 < d"
  by (simp add: positiveTtl_def)

lemma positiveTtl_onFirst [simp]: "0 < d \<Longrightarrow> positiveTtl (onFirst a d)"
  by (simp add: positiveTtl_def onFirst_def)

lemma positiveTtl_if [simp]: "positiveTtl (\<lambda>_. if t > 0 then Some t else None)"
  by (simp add: positiveTtl_def)

context redis_server
begin

lemma rpmCheck_fresh:
  assumes "alive r" "staleWindow (view r k)" "0 < ms"
  shows "snd (rpmCheckScript R k limit ms r) = Inr 1"
    and "view (fst (rpmCheckScript R k limit ms r)) = (view r)(k \<mapsto> (RInt 1, Some (ms * nsMilli)))"
    and "alive (fst (rpmCheckScript R k limit ms r))"
proof -
  have d: "0 < ms * nsMilli" using assms(3) by (simp add: nsMilli_def)
  have run: "rpmCheckScript R k limit ms r = (fst (redisSet R k (RInt 1) (ms * nsMilli) r), Inr 1)"
    using assms(2) set_reply [OF assms(1), of "ms * nsMilli" k "RInt 1"] d
    by (auto simp: rpmCheckScript_def get_reply [OF assms(1)] pttl_reply [OF assms(1)]
        staleWindow_pttl Let_def split: prod.splits option.splits)
  show "snd (rpmCheckScript R k limit ms r) = Inr 1" by (simp add: run)
  show "view (fst (rpmCheckScript R k limit ms r)) = (view r)(k \<mapsto> (RInt 1, Some (ms * nsMilli)))"
    using set_view [OF assms(1), of "ms * nsMilli" k "RInt 1"] d by (simp add: run setTtl_def)
  show "alive (fst (rpmCheckScript R k limit ms r))"
    by (simp add: run set_alive [OF assms(1)])
qed

lemma rpmCheck_live:
  assumes "alive r" "view r k = Some (RInt c, Some d)" "0 \<le> milliseconds d"
    and "\<bar>c\<bar> < 2 ^ 53" "\<bar>limit\<bar> \<le> 2 ^ 53"
  shows "limit \<le> c \<Longrightarrow> rpmCheckScript R k limit ms r = (r, Inr (- c))"
    and "c < limit \<Longrightarrow> snd (rpmCheckScript R k limit ms r) = Inr (c + 1)"
    and "c < limit \<Longrightarrow> view (fst (rpmCheckScript R k limit ms r)) = (view r)(k \<mapsto> (RInt (c + 1), Some d))"
    and "c < limit \<Longrightarrow> alive (fst (rpmCheckScript R k limit ms r))"
proof -
  have c: "fOfInt c = Fin (of_int c)" and l: "fOfInt limit = Fin (of_int limit)"
    using assms by (auto intro: fOfInt_small)
  have neg: "fToInt (Fin (- of_int c)) = - c"
    using assms(4) fToInt_of_int [of "- c"] fOfInt_small [of "- c"] by simp
  show "rpmCheckScript R k limit ms r = (r, Inr (- c))" if "limit \<le> c"
    using assms(2,3) that neg
    by (simp add: rpmCheckScript_def get_reply [OF assms(1)] pttl_reply [OF assms(1)] Let_def
        luaToNumber_def c l)
  have i64: "in64 (c + 1)" using assms(4) by (auto simp: in64_def)
  have cnt: "cntOf (view r k) = Some c" using assms(2) by simp
  have bk: "fToInt (fOfInt (c + 1)) = c + 1"
    using assms(4) by (intro fToInt_of_int) simp
  have run: "rpmCheckScript R k limit ms r = (fst (redisIncrBy R k 1 r), Inr (c + 1))" if "c < limit"
    using assms(2,3) that incr_reply [OF assms(1) cnt i64] bk
    by (auto simp: rpmCheckScript_def get_reply [OF assms(1)] pttl_reply [OF assms(1)] Let_def
        luaToNumber_def c l split: prod.splits)
  show "snd (rpmCheckScript R k limit ms r) = Inr (c + 1)" if "c < limit"
    by (simp add: run [OF that])
  show "view (fst (rpmCheckScript R k limit ms r)) = (view r)(k \<mapsto> (RInt (c + 1), Some d))" if "c < limit"
    using incr_view [OF assms(1) cnt i64] by (simp add: run [OF that] assms(2))
  show "alive (fst (rpmCheckScript R k limit ms r))" if "c < limit"
    by (simp add: run [OF that] incr_alive [OF assms(1)])
qed

lemma incrChecked_spec:
  fixes limit a :: int and msg :: string
  assumes "alive r" "counter r k" "in64 (count r k)" "in64 (count r k + a)"
    and expiry: "positiveTtl expiry"
  defines "r' \<equiv> fst (incrChecked R k a expiry limit msg r)"
  shows "snd (incrChecked R k a expiry limit msg r)
           = (if count r k + a > limit then Inl (ErrText msg) else Inr ())"
    and "count r' k = (if count r k + a > limit then count r k else count r k + a)"
    and "counter r' k" and "alive r'"
    and "j \<noteq> k \<Longrightarrow> view r' j = view r j"
proof -
  define r1 where "r1 = fst (redisIncrBy R k a r)"
  define n where "n = count r k + a"
  define r2 where "r2 = (case expiry n of None \<Rightarrow> r1 | Some d \<Rightarrow> fst (redisExpire R k d r1))"
  note i1 = incr_counter [OF assms(1,2,4), folded r1_def n_def]
  have a1: "alive r1" by (simp add: r1_def incr_alive [OF assms(1)])
  have r2: "alive r2" "count r2 k = n" "counter r2 k" "j \<noteq> k \<Longrightarrow> view r2 j = view r j" for j
    using a1 i1 expire_counter [OF a1 positiveTtlD [OF expiry]] expire_alive [OF a1]
    by (auto simp: r2_def split: option.splits)
  have "in64 (count r2 k + - a)" using assms(3) by (simp add: r2 n_def)
  note i2 = incr_counter [OF r2(1,3) this]
  have run: "incrChecked R k a expiry limit msg r =
      (if n > limit then (fst (redisIncrBy R k (- a) r2), Inl (ErrText msg)) else (r2, Inr ()))"
    by (subst incrChecked_def, subst i1(1)) (simp add: r2_def Let_def)
  show "snd (incrChecked R k a expiry limit msg r) = (if count r k + a > limit then Inl (ErrText msg) else Inr ())"
    by (simp add: run n_def)
  show "count r' k = (if count r k + a > limit then count r k else count r k + a)"
    using i2(2) by (simp add: r'_def run r2 n_def)
  show "counter r' k" using i2(3) r2 by (simp add: r'_def run)
  show "alive r'" using r2(1) by (simp add: r'_def run incr_alive)
  show "j \<noteq> k \<Longrightarrow> view r' j = view r j" using i2(4) r2(4) by (simp add: r'_def run)
qed

lemma incrFloatChecked_admits:
  assumes "alive r" and expiry: "positiveTtl expiry"
    and ok: "incrFloatChecked R k a expiry limit msg r = (r', Inr ())"
  shows "\<exists>f t. view r' k = Some (RFloat f, t) \<and> \<not> flt limit f"
proof -
  obtain r1 f where i: "redisIncrByFloat R k a r = (r1, Inr f)"
    using ok by (auto simp: incrFloatChecked_def split: prod.splits sum.splits)
  have a1: "alive r1" using incrf_alive [OF assms(1), of k a] i by simp
  have v1: "view r1 k = Some (RFloat f, ttlOf (view r k))" by (simp add: incrf_view [OF assms(1) i])
  show ?thesis
    using ok i v1 expire_view [OF a1 positiveTtlD [OF expiry]]
    by (auto simp: incrFloatChecked_def Let_def split: if_splits option.splits)
qed

lemma resetOnce_first:
  assumes "alive r" "view r s = None" "0 \<le> st" "0 \<le> t" "s \<noteq> k"
  shows "snd (resetOnce R s st k t r) = Inr True"
    and "view (fst (resetOnce R s st k t r)) = (view r)(s \<mapsto> (RInt 1, setTtl st), k \<mapsto> (RInt 0, setTtl t))"
    and "alive (fst (resetOnce R s st k t r))"
proof -
  define r1 where "r1 = fst (redisSetNX R s (RInt 1) st r)"
  have nx: "redisSetNX R s (RInt 1) st r = (r1, Inr True)"
    using setnx_reply [OF assms(1,3), of s "RInt 1"] assms(2) by (simp add: prod_eq_iff r1_def)
  have a1: "alive r1" by (simp add: r1_def setnx_alive [OF assms(1)])
  have v1: "view r1 = (view r)(s \<mapsto> (RInt 1, setTtl st))"
    using setnx_view [OF assms(1,3), of s "RInt 1"] assms(2) by (simp add: r1_def)
  have run: "resetOnce R s st k t r = (fst (redisSet R k (RInt 0) t r1), Inr True)"
    using set_reply [OF a1 assms(4), of k "RInt 0"] by (auto simp: resetOnce_def nx split: prod.splits)
  show "snd (resetOnce R s st k t r) = Inr True" by (simp add: run)
  show "view (fst (resetOnce R s st k t r)) = (view r)(s \<mapsto> (RInt 1, setTtl st), k \<mapsto> (RInt 0, setTtl t))"
    using set_view [OF a1 assms(4), of k "RInt 0"] by (simp add: run v1)
  show "alive (fst (resetOnce R s st k t r))" by (simp add: run set_alive [OF a1])
qed

lemma resetOnce_again:
  assumes "alive r" "view r s \<noteq> None" "0 \<le> st"
  shows "snd (resetOnce R s st k t r) = Inr False" and "view (fst (resetOnce R s st k t r)) = view r"
proof -
  have nx: "redisSetNX R s (RInt 1) st r = (fst (redisSetNX R s (RInt 1) st r), Inr False)"
    using setnx_reply [OF assms(1,3), of s "RInt 1"] assms(2) by (simp add: prod_eq_iff)
  show "snd (resetOnce R s st k t r) = Inr False" by (subst resetOnce_def, subst nx) simp
  show "view (fst (resetOnce R s st k t r)) = view r"
    using setnx_view [OF assms(1,3), of s "RInt 1"] assms(2) by (subst resetOnce_def, subst nx) simp
qed

end

section \<open>Runs of one user's window\<close>

text \<open>
  What can happen to a user's per-minute window between the call that opens it and its expiry:
  further calls of \<^verbatim>\<open>CheckRPM\<close> for the user, admitted or rejected, and anything else that leaves
  the key's value alone while its time to live lasts (other keys' traffic, the passing of time).
  The number is the count of admitted calls.
\<close>

inductive rpm_run ::
  "'r redis_api \<Rightarrow> ('r \<Rightarrow> bool) \<Rightarrow> ('r \<Rightarrow> string \<Rightarrow> rcell option) \<Rightarrow> string \<Rightarrow> string \<Rightarrow> int \<Rightarrow> nat \<Rightarrow> 'r \<Rightarrow> bool"
  for R :: "'r redis_api" and alive and view and pfx and userID and limit where
  rr_open: "\<lbrakk>alive r; staleWindow (view r (rpmKey pfx userID)); CheckRPM R pfx userID limit r = (r', Inr ())\<rbrakk>
     \<Longrightarrow> rpm_run R alive view pfx userID limit 1 r'"
| rr_admit: "\<lbrakk>rpm_run R alive view pfx userID limit n r; CheckRPM R pfx userID limit r = (r', Inr ())\<rbrakk>
     \<Longrightarrow> rpm_run R alive view pfx userID limit (Suc n) r'"
| rr_reject: "\<lbrakk>rpm_run R alive view pfx userID limit n r; CheckRPM R pfx userID limit r = (r', Inl e)\<rbrakk>
     \<Longrightarrow> rpm_run R alive view pfx userID limit n r'"
| rr_other: "\<lbrakk>rpm_run R alive view pfx userID limit n r; alive r';
     view r (rpmKey pfx userID) = Some (v, Some d); view r' (rpmKey pfx userID) = Some (v, Some d');
     0 \<le> milliseconds d'\<rbrakk>
     \<Longrightarrow> rpm_run R alive view pfx userID limit n r'"

context redis_server
begin

lemma CheckRPM_fresh:
  assumes "alive r" "staleWindow (view r (rpmKey pfx u))" "0 < limit"
  shows "snd (CheckRPM R pfx u limit r) = Inr ()"
    and "view (fst (CheckRPM R pfx u limit r)) = (view r)(rpmKey pfx u \<mapsto> (RInt 1, Some nsMinute))"
    and "alive (fst (CheckRPM R pfx u limit r))"
proof -
  have ms: "milliseconds rpmWindow = 60000" by (simp add: milliseconds_def truncDiv_def rpmWindow_def time_defs)
  note f = rpmCheck_fresh [OF assms(1,2), of "milliseconds rpmWindow" limit]
  define r1 where "r1 = fst (rpmCheckScript R (rpmKey pfx u) limit (milliseconds rpmWindow) r)"
  have s: "rpmCheckScript R (rpmKey pfx u) limit (milliseconds rpmWindow) r = (r1, Inr 1)"
    using f(1) by (simp add: ms prod_eq_iff r1_def)
  have run: "CheckRPM R pfx u limit r = (r1, Inr ())"
    using assms(3) by (simp add: CheckRPM_def eval_script [OF assms(1)] s)
  show "snd (CheckRPM R pfx u limit r) = Inr ()" by (simp add: run)
  show "view (fst (CheckRPM R pfx u limit r)) = (view r)(rpmKey pfx u \<mapsto> (RInt 1, Some nsMinute))"
    using f(2) by (simp add: run r1_def ms time_defs)
  show "alive (fst (CheckRPM R pfx u limit r))" using f(3) by (simp add: run r1_def ms)
qed

lemma CheckRPM_live:
  assumes "alive r" "view r (rpmKey pfx u) = Some (RInt c, Some d)" "0 \<le> milliseconds d"
    and "0 < c" "c < 2 ^ 53" "0 < limit" "limit \<le> 2 ^ 53"
  shows "limit \<le> c \<Longrightarrow> CheckRPM R pfx u limit r = (r, Inl (ErrText ''rate_limit_exceeded''))"
    and "c < limit \<Longrightarrow> snd (CheckRPM R pfx u limit r) = Inr ()"
    and "c < limit \<Longrightarrow> view (fst (CheckRPM R pfx u limit r)) = (view r)(rpmKey pfx u \<mapsto> (RInt (c + 1), Some d))"
    and "c < limit \<Longrightarrow> alive (fst (CheckRPM R pfx u limit r))"
proof -
  have "\<bar>c\<bar> < 2 ^ 53" "\<bar>limit\<bar> \<le> 2 ^ 53" using assms by auto
  note l = rpmCheck_live [OF assms(1-3) this]
  let ?s = "\<lambda>ms. rpmCheckScript R (rpmKey pfx u) limit ms r"
  show "CheckRPM R pfx u limit r = (r, Inl (ErrText ''rate_limit_exceeded''))" if "limit \<le> c"
    using l(1) [OF that] assms(4,6) by (simp add: CheckRPM_def eval_script [OF assms(1)])
  have run: "CheckRPM R pfx u limit r = (fst (?s (milliseconds rpmWindow)), Inr ())" if "c < limit"
    using l(2) [OF that, of "milliseconds rpmWindow"] assms(4,6)
    by (auto simp: CheckRPM_def eval_script [OF assms(1)] split: prod.splits)
  show "snd (CheckRPM R pfx u limit r) = Inr ()" if "c < limit" by (simp add: run [OF that])
  show "view (fst (CheckRPM R pfx u limit r)) = (view r)(rpmKey pfx u \<mapsto> (RInt (c + 1), Some d))" if "c < limit"
    using l(3) [OF that] by (simp add: run [OF that])
  show "alive (fst (CheckRPM R pfx u limit r))" if "c < limit"
    using l(4) [OF that] by (simp add: run [OF that])
qed

lemma rpm_run_invariant:
  assumes "0 < limit" "limit < 2 ^ 53" "rpm_run R alive view pfx u limit n r"
  shows "alive r \<and> 0 < n \<and> int n \<le> limit \<and>
    (\<exists>d. view r (rpmKey pfx u) = Some (RInt (int n), Some d) \<and> 0 \<le> milliseconds d)"
  using assms(3)
proof (induction rule: rpm_run.induct)
  case (rr_open r r')
  then show ?case
    using CheckRPM_fresh [OF rr_open(1,2) assms(1)] assms(1)
    by (simp add: milliseconds_def truncDiv_def time_defs)
next
  case (rr_admit n r r')
  then obtain d where d: "view r (rpmKey pfx u) = Some (RInt (int n), Some d)" "0 \<le> milliseconds d"
    and n: "alive r" "0 < int n" "int n \<le> limit" by auto
  have "int n < 2 ^ 53" "limit \<le> 2 ^ 53" using n assms(2) by simp_all
  note live = CheckRPM_live [OF n(1) d n(2) this(1) assms(1) this(2)]
  have "int n < limit" using live(1) rr_admit(2) by (cases "limit \<le> int n") simp_all
  then show ?case using live(3,4) rr_admit(2) d(2) by (simp add: add.commute)
next
  case (rr_reject n r r' e)
  then obtain d where d: "view r (rpmKey pfx u) = Some (RInt (int n), Some d)" "0 \<le> milliseconds d"
    and n: "alive r" "0 < int n" "int n \<le> limit" by auto
  have "int n < 2 ^ 53" "limit \<le> 2 ^ 53" using n assms(2) by simp_all
  note live = CheckRPM_live [OF n(1) d n(2) this(1) assms(1) this(2)]
  have "limit \<le> int n" using live(2) rr_reject(2) by (cases "int n < limit") simp_all
  then show ?case using live(1) rr_reject(2) d n by simp
next
  case (rr_other n r r' v d d')
  then show ?case by auto
qed

lemma acquire_spec:
  assumes "alive r" "counter r k" "0 \<le> count r k" "count r k \<le> limit" "0 < limit" "limit < 2 ^ 62"
    and k: "k = concurrentKey pfx u"
  defines "r' \<equiv> fst (AcquireConcurrency R pfx u limit r)"
  shows "snd (AcquireConcurrency R pfx u limit r) =
           (if count r k < limit then Inr True else Inl (ErrText ''rate_limit_exceeded''))"
    and "count r' k = (if count r k < limit then count r k + 1 else count r k)"
    and "counter r' k" "alive r'" "\<And>j. j \<noteq> k \<Longrightarrow> view r' j = view r j"
proof -
  have i64: "in64 (count r k)" "in64 (count r k + 1)" using assms by (auto simp: in64_def)
  have ex: "positiveTtl (onFirst 1 (10 * nsMinute))" by (simp add: time_defs)
  note s = incrChecked_spec [where limit = limit and msg = "''rate_limit_exceeded''"
      and expiry = "onFirst 1 (10 * nsMinute)", OF assms(1,2) i64 ex]
  have run: "AcquireConcurrency R pfx u limit r =
     (fst (incrChecked R k 1 (onFirst 1 (10 * nsMinute)) limit ''rate_limit_exceeded'' r),
      if count r k < limit then Inr True else Inl (ErrText ''rate_limit_exceeded''))"
    using s(1) assms(5) unfolding AcquireConcurrency_def k
    by (auto split: prod.splits sum.splits if_splits)
  show "snd (AcquireConcurrency R pfx u limit r) =
      (if count r k < limit then Inr True else Inl (ErrText ''rate_limit_exceeded''))" by (simp add: run)
  show "count r' k = (if count r k < limit then count r k + 1 else count r k)"
    using s(2) by (simp add: r'_def run)
  show "counter r' k" "alive r'" using s(3,4) by (simp_all add: r'_def run)
  show "\<And>j. j \<noteq> k \<Longrightarrow> view r' j = view r j" using s(5) by (simp add: r'_def run)
qed

lemma release_spec:
  assumes "alive r" "counter r k" "0 < count r k" "count r k < 2 ^ 62" and k: "k = concurrentKey pfx u"
  shows "count (releaseConcurrency R pfx u True r) k = count r k - 1"
    and "alive (releaseConcurrency R pfx u True r)"
    and "\<And>j. j \<noteq> k \<Longrightarrow> view (releaseConcurrency R pfx u True r) j = view r j"
proof -
  have i64: "in64 (count r k + -1)" using assms by (auto simp: in64_def)
  define r1 where "r1 = fst (redisIncrBy R k (-1) r)"
  note i = incr_counter [OF assms(1,2) i64, folded r1_def]
  have a1: "alive r1" by (simp add: r1_def incr_alive [OF assms(1)])
  have run: "releaseConcurrency R pfx u True r = (if count r k + -1 \<le> 0 then fst (redisDel R k r1) else r1)"
    using i(1) by (simp add: releaseConcurrency_def k)
  show "count (releaseConcurrency R pfx u True r) k = count r k - 1"
    using i(2) assms(3) del_view [OF a1, of k] by (auto simp: run cntVal_def)
  show "alive (releaseConcurrency R pfx u True r)" using a1 by (simp add: run del_alive)
  show "\<And>j. j \<noteq> k \<Longrightarrow> view (releaseConcurrency R pfx u True r) j = view r j"
    using i(4) del_view [OF a1, of k] by (simp add: run)
qed

end

section \<open>Properties\<close>

text \<open>
  C6.  Within one live per-minute window a user is admitted at most \<open>limit\<close> times, whatever
  rejected calls and other traffic come in between.
\<close>

theorem rpm_window_bound:
  assumes "redis_server R alive view" "0 < limit" "limit < 2 ^ 53"
    and "rpm_run R alive view pfx userID limit n r"
  shows "int n \<le> limit"
  using redis_server.rpm_run_invariant [OF assms] by simp

theorem rpm_window_bound_witness:
  "rpm_run mapRedis mrAlive mrKeys ''g'' ''u'' 1 1 (fst (CheckRPM mapRedis ''g'' ''u'' 1 mrEmpty))
   \<and> int 1 \<le> 1"
proof -
  have "snd (CheckRPM mapRedis ''g'' ''u'' 1 mrEmpty) = Inr ()"
    by (rule mapServer.CheckRPM_fresh) (simp_all add: mrAlive_def mrEmpty_def)
  then have "rpm_run mapRedis mrAlive mrKeys ''g'' ''u'' 1 1 (fst (CheckRPM mapRedis ''g'' ''u'' 1 mrEmpty))"
    by (intro rr_open [where r = mrEmpty]) (simp_all add: mrAlive_def mrEmpty_def prod_eq_iff)
  with rpm_window_bound [OF mapServer.redis_server_axioms _ _ this] show ?thesis by simp
qed

text \<open>
  A per-minute counter without an expiry, which an interrupted older version could leave
  behind, does not block its user: whatever it counts, the next check admits the request and
  installs a fresh window of one request that expires after a minute, touching no other key.
\<close>

theorem rpm_heals_permanent_counter:
  assumes "redis_server R alive view" "alive r" "view r (rpmKey pfx userID) = Some (v, None)" "0 < limit"
  shows "snd (CheckRPM R pfx userID limit r) = Inr () \<and>
    view (fst (CheckRPM R pfx userID limit r)) = (view r)(rpmKey pfx userID \<mapsto> (RInt 1, Some nsMinute))"
  using redis_server.CheckRPM_fresh(1,2) [OF assms(1,2), of pfx userID limit] assms(3,4) by simp_all

theorem rpm_heals_permanent_counter_witness:
  "snd (CheckRPM mapRedis ''g'' ''u'' 120
     (mrPut (rpmKey ''g'' ''u'') (Some (RInt 180, None)) mrEmpty)) = Inr ()"
  by (rule rpm_heals_permanent_counter [OF mapServer.redis_server_axioms, THEN conjunct1])
    (simp_all add: mrAlive_def mrEmpty_def mrPut_def)

text \<open>
  \<^verbatim>\<open>CheckRequestsPerPeriod\<close> on a positive limit admits a request exactly when the period's
  counter is below the limit, and then counts it; a rejected request leaves the counter where
  it was.  No other key changes.
\<close>

theorem period_check_exact:
  assumes "redis_server R alive view" "alive r" "isCounter (view r k)"
    and "k = planPeriodKey pfx userID periodKey" "userID \<noteq> []" "periodKey \<noteq> []"
    and "0 < limit" "in64 (cntVal (view r k))" "in64 (cntVal (view r k) + 1)"
  shows "snd (CheckRequestsPerPeriod R pfx userID periodKey ttl limit r) =
           (if cntVal (view r k) < limit then Inr () else Inl (ErrText ''plan_period_limit_exceeded''))
    \<and> cntVal (view (fst (CheckRequestsPerPeriod R pfx userID periodKey ttl limit r)) k) =
           (if cntVal (view r k) < limit then cntVal (view r k) + 1 else cntVal (view r k))
    \<and> (\<forall>j. j \<noteq> k \<longrightarrow> view (fst (CheckRequestsPerPeriod R pfx userID periodKey ttl limit r)) j = view r j)"
proof -
  note s = redis_server.incrChecked_spec [OF assms(1,2,3,8,9) positiveTtl_if [of ttl],
      where limit = limit and msg = "''plan_period_limit_exceeded''"]
  have run: "CheckRequestsPerPeriod R pfx userID periodKey ttl limit r =
      incrChecked R k 1 (\<lambda>_. if ttl > 0 then Some ttl else None) limit ''plan_period_limit_exceeded'' r"
    using assms(4-7) by (simp add: CheckRequestsPerPeriod_def)
  show ?thesis unfolding run using s(1,2,5) by auto
qed

theorem period_check_exact_witness:
  "snd (CheckRequestsPerPeriod mapRedis ''g'' ''u'' ''p'' nsDay 5 mrEmpty) = Inr ()"
  using period_check_exact [OF mapServer.redis_server_axioms, where r = mrEmpty and pfx = "''g''"
      and userID = "''u''" and periodKey = "''p''" and limit = 5 and ttl = nsDay, OF _ _ refl]
  by (simp add: mrAlive_def mrEmpty_def isCounter_def cntVal_def in64_def)

text \<open>
  A user never holds more concurrency slots than the limit, an acquired slot is counted
  once, and releasing it after any number of slots of others puts the count one down again.
\<close>

theorem concurrency_slots:
  assumes "redis_server R alive view" "alive r" "k = concurrentKey pfx accountID" "isCounter (view r k)"
    and "0 \<le> cntVal (view r k)" "cntVal (view r k) \<le> limit" "0 < limit" "limit < 2 ^ 62"
  defines "r' \<equiv> fst (AcquireConcurrency R pfx accountID limit r)"
  shows "cntVal (view r' k) \<le> limit
    \<and> (snd (AcquireConcurrency R pfx accountID limit r) = Inr True \<longleftrightarrow> cntVal (view r k) < limit)
    \<and> (cntVal (view r k) < limit \<longrightarrow>
         cntVal (view (releaseConcurrency R pfx accountID True r') k) = cntVal (view r k))"
proof -
  note a = redis_server.acquire_spec [OF assms(1,2,4-8,3), folded r'_def]
  show ?thesis
  proof (cases "cntVal (view r k) < limit")
    case True
    then have "0 < cntVal (view r' k)" "cntVal (view r' k) < 2 ^ 62" using a(2) assms by auto
    from redis_server.release_spec(1) [OF assms(1) a(4) a(3) this assms(3)] show ?thesis
      using True a by simp
  next
    case False
    then show ?thesis using a assms by simp
  qed
qed

theorem concurrency_slots_witness:
  "cntVal (mrKeys (fst (AcquireConcurrency mapRedis ''g'' ''u'' 2 mrEmpty)) (concurrentKey ''g'' ''u'')) \<le> 2"
  using concurrency_slots [OF mapServer.redis_server_axioms, where r = mrEmpty and pfx = "''g''"
      and accountID = "''u''" and limit = 2, OF _ refl]
  by (simp add: mrAlive_def mrEmpty_def isCounter_def cntVal_def)

text \<open>
  The one-shot reset of the period counter zeroes it the first time; a repetition while the
  sentinel lives reports \<^verbatim>\<open>false\<close> and changes nothing, so that requests counted in between stay
  counted.
\<close>

theorem period_reset_only_once:
  assumes "redis_server R alive view" "alive r" "userID \<noteq> []" "periodKey \<noteq> []" "0 < ttl"
    and "view r (planPeriodResetKey pfx userID periodKey) = None"
  defines "r1 \<equiv> fst (ResetRequestsPerPeriodOnce R pfx userID periodKey ttl r)"
  shows "cntVal (view r1 (planPeriodKey pfx userID periodKey)) = 0
    \<and> (\<forall>r2. alive r2 \<longrightarrow>
         view r2 (planPeriodResetKey pfx userID periodKey) = view r1 (planPeriodResetKey pfx userID periodKey) \<longrightarrow>
         snd (ResetRequestsPerPeriodOnce R pfx userID periodKey ttl r2) = Inr False
         \<and> view (fst (ResetRequestsPerPeriodOnce R pfx userID periodKey ttl r2)) = view r2)"
proof -
  let ?s = "planPeriodResetKey pfx userID periodKey" and ?k = "planPeriodKey pfx userID periodKey"
  have ne: "?s \<noteq> ?k" by (simp add: planPeriodResetKey_def planPeriodKey_def)
  have t: "0 \<le> ttl" using assms by simp
  have run: "ResetRequestsPerPeriodOnce R pfx userID periodKey ttl q = resetOnce R ?s ttl ?k ttl q" for q
    using assms(3-5) by (simp add: ResetRequestsPerPeriodOnce_def)
  note first = redis_server.resetOnce_first [OF assms(1,2,6) t t ne]
  have "cntVal (view r1 ?k) = 0" using first(2) by (simp add: r1_def run cntVal_def)
  moreover have "view r1 ?s \<noteq> None" using first(2) ne by (simp add: r1_def run)
  ultimately show ?thesis
    using redis_server.resetOnce_again [OF assms(1) _ _ t, where s = ?s and k = ?k and t = ttl]
    by (simp add: run)
qed

theorem period_reset_only_once_witness:
  "cntVal (mrKeys (fst (ResetRequestsPerPeriodOnce mapRedis ''g'' ''u'' ''p'' nsDay mrEmpty))
     (planPeriodKey ''g'' ''u'' ''p'')) = 0"
  using period_reset_only_once [OF mapServer.redis_server_axioms, where r = mrEmpty
      and userID = "''u''" and periodKey = "''p''" and ttl = nsDay and pfx = "''g''"]
  by (simp add: mrAlive_def mrEmpty_def)

text \<open>
  A request that passes the daily credit check of an unlimited plan leaves the day's credit
  counter at a value that does not exceed the plan's daily credit limit.
\<close>

theorem credit_day_check_bound:
  assumes "redis_server R alive view" "alive r" "flt fzero amount" "flt fzero limit"
    and "userID \<noteq> []" "periodKey \<noteq> []"
    and "CheckPlanCreditRPD R pfx now userID periodKey amount limit r = (r', Inr ())"
  shows "\<exists>f t. view r' (creditDayKey pfx userID periodKey now) = Some (RFloat f, t) \<and> \<not> flt limit f"
proof -
  have pos: "\<not> fle amount fzero" "\<not> fle limit fzero"
    using assms(3,4) by (cases amount; cases limit; simp)+
  have ex: "positiveTtl (\<lambda>c. if feq c amount then Some (25 * nsHour) else None)"
    by (simp add: positiveTtl_def time_defs)
  show ?thesis
    using redis_server.incrFloatChecked_admits [OF assms(1,2) ex] assms(5-7) pos
    by (simp add: CheckPlanCreditRPD_def)
qed

theorem credit_day_check_bound_witness:
  "\<exists>f t. mrKeys (fst (CheckPlanCreditRPD mapRedis ''g'' 0 ''u'' ''p'' (Fin 1) (Fin 2) mrEmpty))
       (creditDayKey ''g'' ''u'' ''p'' 0) = Some (RFloat f, t) \<and> \<not> flt (Fin 2) f"
proof (rule credit_day_check_bound [OF mapServer.redis_server_axioms, where r = mrEmpty and amount = "Fin 1"])
  have "rnd 1 = 1" using rnd_int [of 1] by simp
  then show "CheckPlanCreditRPD mapRedis ''g'' 0 ''u'' ''p'' (Fin 1) (Fin 2) mrEmpty =
      (fst (CheckPlanCreditRPD mapRedis ''g'' 0 ''u'' ''p'' (Fin 1) (Fin 2) mrEmpty), Inr ())"
    by (simp add: CheckPlanCreditRPD_def incrFloatChecked_def map_redis_defs fin_def)
qed (simp_all add: mrAlive_def mrEmpty_def)

text \<open>
  The daily rollback recomputes the UTC day.  When the request was counted on one day and is
  rolled back on another, the counter of the first day keeps the request and the counter of the
  second day is decremented below its true value.
\<close>

theorem rpd_rollback_after_midnight:
  assumes "redis_server R alive view" "alive r" "userID \<noteq> []" "periodKey \<noteq> []"
    and days: "dayText t1 \<noteq> dayText t2"
    and d1: "d1 = planDayKey pfx userID periodKey t1" "view r d1 = Some (RInt a, w)"
    and lim: "0 \<le> a" "a < limit" "limit < 2 ^ 62"
    and d2: "d2 = planDayKey pfx userID periodKey t2" "view r d2 = None"
  defines "r' \<equiv> RollbackPlanRPD R pfx t2 userID periodKey
                  (fst (CheckPlanRPD R pfx t1 userID periodKey limit r))"
  shows "cntVal (view r' d1) = a + 1 \<and> cntVal (view r' d2) = -1"
proof -
  have ne: "d2 \<noteq> d1" using days by (auto simp: d1 d2 planDayKey_def)
  have c: "isCounter (view r d1)" "cntVal (view r d1) = a" using d1 by (simp_all add: isCounter_def cntVal_def)
  have i64: "in64 (cntVal (view r d1))" "in64 (cntVal (view r d1) + 1)" using lim by (auto simp: c in64_def)
  have ex: "positiveTtl (onFirst 1 (25 * nsHour))" by (simp add: time_defs)
  define r1 where "r1 = fst (CheckPlanRPD R pfx t1 userID periodKey limit r)"
  have run: "CheckPlanRPD R pfx t1 userID periodKey limit r
      = incrChecked R d1 1 (onFirst 1 (25 * nsHour)) limit ''plan_rpd_exceeded'' r"
    using assms(3,4) lim by (simp add: CheckPlanRPD_def d1)
  note s = redis_server.incrChecked_spec [where limit = limit and msg = "''plan_rpd_exceeded''"
      and expiry = "onFirst 1 (25 * nsHour)", OF assms(1,2) c(1) i64 ex, folded run, folded r1_def]
  have v2: "cntVal (view r1 d2) = 0" "isCounter (view r1 d2)"
    using s(5) [OF ne] d2 by (simp_all add: cntVal_def isCounter_def)
  then have "in64 (cntVal (view r1 d2) + -1)" by (simp add: in64_def)
  note i = redis_server.incr_counter [OF assms(1) s(4) v2(2) this]
  have "r' = fst (redisIncrBy R d2 (-1) r1)"
    using assms(3,4) by (simp add: r'_def RollbackPlanRPD_def r1_def d2)
  then show ?thesis using i(2,4) ne s(2) c lim v2 by simp
qed

theorem rpd_rollback_after_midnight_witness:
  "cntVal (mrKeys (RollbackPlanRPD mapRedis ''g'' nsDay ''u'' ''p''
      (fst (CheckPlanRPD mapRedis ''g'' 0 ''u'' ''p'' 9
        (mrPut (planDayKey ''g'' ''u'' ''p'' 0) (Some (RInt 3, Some nsHour)) mrEmpty))))
     (planDayKey ''g'' ''u'' ''p'' nsDay)) = -1"
proof -
  have "dayText 0 \<noteq> dayText nsDay" by code_simp
  then show ?thesis
    using rpd_rollback_after_midnight [OF mapServer.redis_server_axioms, where userID = "''u''"
        and periodKey = "''p''" and pfx = "''g''" and limit = 9 and a = 3 and w = "Some nsHour"
        and r = "mrPut (planDayKey ''g'' ''u'' ''p'' 0) (Some (RInt 3, Some nsHour)) mrEmpty",
        OF _ _ _ _ refl _ _ _ _ refl]
    by (simp add: mrAlive_def mrEmpty_def mrPut_def planDayKey_def)
qed

end
