(* ===== verification/Policy.thy ===== *)
theory Policy
  imports Types Decimal GoTime RateLimit
begin

text \<open>
  The subscription policy of the gateway, the pure functions of
  \<^verbatim>\<open>internal/handler/gateway_handler.go\<close> that read a subscription: its pricing group, the models it
  allows, its period, quota and debt, and the gates that decide whether a request may use the
  unlimited plan.  The live plan snapshot comes first, the entitlement's own metadata second.
  The lemmas relate the gates to one another.
\<close>

section \<open>Active subscriptions\<close>

record ActiveSubscription =
  asEntitlement :: "CustomerEntitlement option"
  asPlan :: "SubscriptionPlanSnapshot option"

text \<open>
  \<^verbatim>\<open>json.Unmarshal\<close> into a \<^verbatim>\<open>map[string]any\<close>: an object gives its members, \<^verbatim>\<open>null\<close> leaves the
  map empty, anything else is an error.
\<close>

fun metaObject :: "raw_json \<Rightarrow> jobject option" where
  "metaObject (Some (JObj m)) = Some m"
| "metaObject (Some JNull) = Some []"
| "metaObject _ = None"

definition subscriptionPlan :: "ActiveSubscription option \<Rightarrow> SubscriptionPlanSnapshot option" where
  "subscriptionPlan sub = (case sub of None \<Rightarrow> None | Some s \<Rightarrow> asPlan s)"

definition optInt :: "int option \<Rightarrow> int" where
  "optInt v = (case v of Some n \<Rightarrow> n | None \<Rightarrow> 0)"

definition optFloat :: "float64 option \<Rightarrow> float64" where
  "optFloat v = (case v of Some f \<Rightarrow> f | None \<Rightarrow> fzero)"

definition PlanLimitsFromSnapshot :: "SubscriptionPlanSnapshot option \<Rightarrow> plan_limits" where
  "PlanLimitsFromSnapshot plan = (case plan of
       None \<Rightarrow> \<lparr>plRPM = 0, plTPM = 0, plConcurrentLimit = 0, plMaxRequestsPerPeriod = 0, plRPD = 0,
               plCreditLimitPerDay = fzero, plCreditLimitPerPeriod = fzero\<rparr>
     | Some p \<Rightarrow> \<lparr>plRPM = optInt (spRateLimitRPM p), plTPM = optInt (spRateLimitTPM p),
               plConcurrentLimit = optInt (spConcurrentLimit p),
               plMaxRequestsPerPeriod = optInt (spMaxRequestsPerPeriod p),
               plRPD = optInt (spRateLimitRPD p),
               plCreditLimitPerDay = optFloat (spCreditLimitPerDay p),
               plCreditLimitPerPeriod = optFloat (spCreditLimitPerPeriod p)\<rparr>)"

definition shouldEnforceUnlimitedAllowlist :: "APIKey \<Rightarrow> bool" where
  "shouldEnforceUnlimitedAllowlist apiKey \<longleftrightarrow>
     (let source = (if akBillingSource apiKey = [] then ''subscription'' else akBillingSource apiKey)
      in source = ''subscription'')"

section \<open>Pricing group\<close>

definition pricingGroup :: "ActiveSubscription option \<Rightarrow> string" where
  "pricingGroup sub = (case sub of
       None \<Rightarrow> []
     | Some s \<Rightarrow> (case asEntitlement s of
         None \<Rightarrow> []
       | Some e \<Rightarrow>
           (case cePricingGroup e of
              Some g \<Rightarrow> if g \<noteq> [] then g else (case metaObject (ceMetadata e) of Some m \<Rightarrow> jgetStr m ''pricingGroup'' | None \<Rightarrow> [])
            | None \<Rightarrow> (case metaObject (ceMetadata e) of Some m \<Rightarrow> jgetStr m ''pricingGroup'' | None \<Rightarrow> []))))"

definition planPricingGroup :: "SubscriptionPlanSnapshot option \<Rightarrow> string" where
  "planPricingGroup plan = (case plan of
       None \<Rightarrow> []
     | Some p \<Rightarrow> (case metaObject (spMetadata p) of
         None \<Rightarrow> []
       | Some m \<Rightarrow> if jgetStr m ''pricingGroup'' \<noteq> [] then jgetStr m ''pricingGroup''
                   else jgetStr m ''pricing_group''))"

definition entitlementPricingGroup' :: "CustomerEntitlement option \<Rightarrow> string" where
  "entitlementPricingGroup' ent = (case ent of
       None \<Rightarrow> []
     | Some e \<Rightarrow>
         if cePricingGroup e \<noteq> None \<and> cePricingGroup e \<noteq> Some [] then the (cePricingGroup e)
         else (case metaObject (ceMetadata e) of None \<Rightarrow> [] | Some m \<Rightarrow> jgetStr m ''pricingGroup''))"

definition resolveSubscriptionPricingGroup :: "ActiveSubscription option \<Rightarrow> string" where
  "resolveSubscriptionPricingGroup sub = (case sub of
       None \<Rightarrow> []
     | Some s \<Rightarrow>
         if planPricingGroup (asPlan s) \<noteq> [] then planPricingGroup (asPlan s)
         else entitlementPricingGroup' (asEntitlement s))"

definition isUnlimitedGroup :: "string \<Rightarrow> bool" where
  "isUnlimitedGroup g \<longleftrightarrow> g = ''unlimited'' \<or> g = ''unlimited_plan''"

text \<open>The pricing group a gate works with: the resolved one, else the entitlement's.\<close>

definition gateGroup :: "ActiveSubscription option \<Rightarrow> string" where
  "gateGroup sub = (let group = resolveSubscriptionPricingGroup sub in
     if group = [] then pricingGroup sub else group)"

definition hasEntitlement :: "ActiveSubscription option \<Rightarrow> bool" where
  "hasEntitlement sub \<longleftrightarrow> (case sub of None \<Rightarrow> False | Some s \<Rightarrow> asEntitlement s \<noteq> None)"

definition isUnlimitedSubscription :: "ActiveSubscription option \<Rightarrow> bool" where
  "isUnlimitedSubscription sub \<longleftrightarrow> hasEntitlement sub \<and> isUnlimitedGroup (gateGroup sub)"

section \<open>Allowed models\<close>

definition extractAllowedModels :: "jobject \<Rightarrow> string list option" where
  "extractAllowedModels meta =
     (case (case jget meta ''allowedModels'' of Some v \<Rightarrow> Some v | None \<Rightarrow> jget meta ''allowed_models'') of
        Some (JArr arr) \<Rightarrow> Some (List.map_filter asString arr)
      | _ \<Rightarrow> None)"

definition metaAllowed :: "raw_json \<Rightarrow> string list option" where
  "metaAllowed raw = (case metaObject raw of None \<Rightarrow> None | Some m \<Rightarrow> extractAllowedModels m)"

definition resolveAllowedModels :: "ActiveSubscription option \<Rightarrow> string list" where
  "resolveAllowedModels sub = (case sub of
       None \<Rightarrow> []
     | Some s \<Rightarrow>
         (case (case asPlan s of None \<Rightarrow> None | Some p \<Rightarrow> metaAllowed (spMetadata p)) of
            Some l \<Rightarrow> l
          | None \<Rightarrow> (case (case asEntitlement s of None \<Rightarrow> None | Some e \<Rightarrow> metaAllowed (ceMetadata e)) of
                       Some l \<Rightarrow> l | None \<Rightarrow> [])))"

definition modelCoveredByUnlimited :: "ActiveSubscription option \<Rightarrow> AIModel option \<Rightarrow> bool" where
  "modelCoveredByUnlimited sub model = (case model of
       None \<Rightarrow> False
     | Some m \<Rightarrow>
         hasEntitlement sub \<and>
         (let allowed = resolveAllowedModels sub; pm = amPublicModel m in
            allowed = [] \<or>
            list_ex (\<lambda>s. s = pm \<or> (\<not> containsStr pm ''/'' \<and> equalFold s (''genfity/'' @ pm))) allowed))"

definition entitlementAllowsModel :: "ActiveSubscription option \<Rightarrow> string \<Rightarrow> bool" where
  "entitlementAllowsModel sub publicModel \<longleftrightarrow>
     hasEntitlement sub \<and>
     (\<not> isUnlimitedGroup (resolveSubscriptionPricingGroup sub) \<or>
      (let allowed = resolveAllowedModels sub in
         allowed = [] \<or>
         list_ex (\<lambda>s. equalFold s publicModel \<or>
            (\<not> containsStr publicModel ''/'' \<and> equalFold s (''genfity/'' @ publicModel))) allowed))"

definition requestWillUseUnlimited :: "APIKey \<Rightarrow> ActiveSubscription option \<Rightarrow> AIModel option \<Rightarrow> bool" where
  "requestWillUseUnlimited apiKey sub model \<longleftrightarrow>
     hasEntitlement sub \<and> model \<noteq> None \<and>
     (let source = (if akBillingSource apiKey = [] then ''subscription'' else akBillingSource apiKey) in
        source = ''subscription'' \<and> isUnlimitedGroup (gateGroup sub) \<and> modelCoveredByUnlimited sub model)"

section \<open>Errors of the subscription check\<close>

fun mapSubscriptionError :: "gerror \<Rightarrow> string" where
  "mapSubscriptionError ErrNotFound = ''subscription_inactive''"
| "mapSubscriptionError (ErrText msg) =
     (if msg = ''subscription_inactive'' \<or> msg = ''quota_exceeded'' \<or> msg = ''insufficient_balance''
      then msg else ''subscription_inactive'')"
| "mapSubscriptionError _ = ''subscription_inactive''"

section \<open>Period, multiplier, debt and quota\<close>

definition activePeriod :: "time \<Rightarrow> CustomerEntitlement option \<Rightarrow> time \<times> time" where
  "activePeriod now ent =
     (let start = monthStart now; fin = nextMonthStart now in
      case ent of
        None \<Rightarrow> (start, fin)
      | Some e \<Rightarrow> (case cePeriodStart e of Some t \<Rightarrow> t | None \<Rightarrow> start,
                   case cePeriodEnd e of Some t \<Rightarrow> t | None \<Rightarrow> fin))"

definition periodKey :: "time \<Rightarrow> CustomerEntitlement option \<Rightarrow> string" where
  "periodKey now ent = (case ent of None \<Rightarrow> [] | Some e \<Rightarrow> itoa (unixSeconds (fst (activePeriod now (Some e)))))"

text \<open>\<^verbatim>\<open>time.Duration.Seconds\<close>.\<close>

definition durSeconds :: "duration \<Rightarrow> float64" where
  "durSeconds d = (let sec = truncDiv d nsSecond; nsec = d - sec * nsSecond in
     fadd (fOfInt sec) (fdiv (fOfInt nsec) (Fin 1000000000)))"

definition planBaseDurationDays :: "ActiveSubscription option \<Rightarrow> int" where
  "planBaseDurationDays sub = (case subscriptionPlan sub of
       None \<Rightarrow> 0
     | Some p \<Rightarrow> (case metaObject (spMetadata p) of
         None \<Rightarrow> 0
       | Some m \<Rightarrow> (case jget m ''durationDays'' of
           Some (JNum v) \<Rightarrow> if flt fzero v then fToInt v else 0
         | _ \<Rightarrow> 0)))"

definition periodRPPMultiplier :: "time \<Rightarrow> ActiveSubscription option \<Rightarrow> int" where
  "periodRPPMultiplier now sub = (case sub of
       None \<Rightarrow> 1
     | Some s \<Rightarrow> (case asEntitlement s of
         None \<Rightarrow> 1
       | Some e \<Rightarrow>
           let baseDays = planBaseDurationDays sub in
           if baseDays \<le> 0 then 1
           else let (start, fin) = activePeriod now (Some e);
                    windowSeconds = durSeconds (fin - start);
                    baseSeconds = fmul (fmul (fOfInt baseDays) (Fin 24)) (Fin 3600)
                in if fle windowSeconds fzero \<or> fle baseSeconds fzero then 1
                   else let multiplier = fToInt (fround (fdiv windowSeconds baseSeconds))
                        in if multiplier < 1 then 1 else multiplier))"

text \<open>The anti-abuse block: flagged, remaining debt, pending reset.\<close>

definition resolveAbuseDebt :: "ActiveSubscription option \<Rightarrow> bool \<times> int \<times> bool" where
  "resolveAbuseDebt sub = (case sub of
       None \<Rightarrow> (False, 0, False)
     | Some s \<Rightarrow> (case asEntitlement s of
         None \<Rightarrow> (False, 0, False)
       | Some e \<Rightarrow> (case metaObject (ceMetadata e) of
           None \<Rightarrow> (False, 0, False)
         | Some m \<Rightarrow> (case jget m ''abuseDebt'' of
             Some (JObj d) \<Rightarrow>
               (jget d ''flagged'' = Some (JBool True),
                (case jget d ''debtRemaining'' of
                   Some (JNum v) \<Rightarrow> if flt fzero v then fToInt v else 0
                 | _ \<Rightarrow> 0),
                jget d ''needsRppReset'' = Some (JBool True))
           | _ \<Rightarrow> (False, 0, False)))))"

definition quotaLimitPtr :: "ActiveSubscription option \<Rightarrow> int option" where
  "quotaLimitPtr sub = (case sub of
       None \<Rightarrow> None
     | Some s \<Rightarrow>
         let planQuota = (case asPlan s of None \<Rightarrow> None | Some p \<Rightarrow> spQuotaTokensMonthly p);
             entQuota = (case asEntitlement s of None \<Rightarrow> None | Some e \<Rightarrow> ceQuotaTokensMonthly e)
         in case (planQuota, entQuota) of
              (Some p, Some e) \<Rightarrow> if e > p then Some e else Some p
            | (Some p, None) \<Rightarrow> Some p
            | (None, e) \<Rightarrow> e)"

definition quotaLimit :: "ActiveSubscription option \<Rightarrow> int" where
  "quotaLimit sub = (case quotaLimitPtr sub of None \<Rightarrow> 0 | Some n \<Rightarrow> n)"

text \<open>\<^verbatim>\<open>strconv.ParseFloat\<close> with its error ignored: 0 for a text that is no number, the
  infinity for one out of range.\<close>

definition parseFloatLoose :: "string \<Rightarrow> float64" where
  "parseFloatLoose s = (case parseFloat s of Some f \<Rightarrow> f
     | None \<Rightarrow> (case parseDecimal s of Some q \<Rightarrow> fin q | None \<Rightarrow> fzero))"

definition parseFloatPtr :: "string option \<Rightarrow> float64" where
  "parseFloatPtr value = (case value of None \<Rightarrow> fzero
     | Some s \<Rightarrow> (case parseFloat s of None \<Rightarrow> fzero | Some v \<Rightarrow> v))"

definition formatAmount :: "float64 \<Rightarrow> string" where
  "formatAmount value = sprintfF 6 value"

definition balanceAmount :: "ActiveSubscription option \<Rightarrow> float64" where
  "balanceAmount sub = (case sub of
       None \<Rightarrow> fzero
     | Some s \<Rightarrow> (case asEntitlement s of
         None \<Rightarrow> fzero
       | Some e \<Rightarrow>
           let snapshot = (case ceBalanceSnapshot e of None \<Rightarrow> fzero | Some b \<Rightarrow> parseFloatLoose b) in
           case ceCreditBalance e of
             None \<Rightarrow> snapshot
           | Some c \<Rightarrow> if flt fzero (parseFloatLoose c) then parseFloatLoose c else snapshot))"

section \<open>How the gates relate\<close>

lemma entitlementPricingGroup'_eq:
  "pricingGroup (Some s) = entitlementPricingGroup' (asEntitlement s)"
  by (auto simp: pricingGroup_def entitlementPricingGroup'_def split: option.splits)

text \<open>
  The second lookup of the pricing group after an empty first one finds nothing more, so that all
  gates work with the resolved group.
\<close>

lemma gateGroup_resolved: "gateGroup sub = resolveSubscriptionPricingGroup sub"
proof (cases sub)
  case None
  then show ?thesis by (simp add: gateGroup_def resolveSubscriptionPricingGroup_def pricingGroup_def)
next
  case (Some s)
  then show ?thesis
    using entitlementPricingGroup'_eq [of s]
    by (auto simp: gateGroup_def resolveSubscriptionPricingGroup_def Let_def)
qed

lemma covered_allows:
  "modelCoveredByUnlimited sub (Some m) \<Longrightarrow> entitlementAllowsModel sub (amPublicModel m)"
  unfolding modelCoveredByUnlimited_def entitlementAllowsModel_def Let_def list_ex_iff option.case
  using equalFold_refl by blast

lemma periodRPPMultiplier_ge1: "1 \<le> periodRPPMultiplier now sub"
  by (auto simp: periodRPPMultiplier_def Let_def split: option.splits prod.splits)

section \<open>Properties\<close>

text \<open>A subscription that allows the models of a list, for the examples.\<close>

definition sampleEntitlement :: CustomerEntitlement where
  "sampleEntitlement = \<lparr>ceID = 1, ceGenfityUserID = ''u'', ceGenfityTenantID = None, cePlanCode = ''pro'',
     ceStatus = ''active'', cePeriodStart = Some 0, cePeriodEnd = Some (30 * nsDay), ceQuotaTokensMonthly = None,
     ceBalanceSnapshot = None, ceBalanceReserved = None, ceCreditBalance = None, ceCreditBalanceReserved = None,
     ceCreditExpiresAt = None, cePaygUsdBalance = None, cePaygUsdBalanceReserved = None,
     cePricingGroup = Some ''unlimited'', ceMetadata = None, ceUpdatedFromGenfityAt = 0\<rparr>"

definition sampleSub :: "string list \<Rightarrow> ActiveSubscription option" where
  "sampleSub models = Some \<lparr>asEntitlement = Some (sampleEntitlement\<lparr>ceMetadata :=
     Some (JObj [(''allowedModels'', JArr (map JStr models))])\<rparr>), asPlan = None\<rparr>"

definition sampleKey :: "string \<Rightarrow> APIKey" where
  "sampleKey source = \<lparr>akID = 1, akGenfityUserID = ''u'', akGenfityTenantID = None, akName = ''k'', akKeyPrefix = ''p'',
     akKeyHash = ''h'', akStatus = ''active'', akBillingSource = source, akLastUsedAt = None, akExpiresAt = None,
     akCreatedAt = 0, akRegeneratedAt = None, akRevokedAt = None\<rparr>"

definition sampleModel :: "string \<Rightarrow> AIModel" where
  "sampleModel name = \<lparr>amID = 1, amPublicModel = name, amDisplayName = name, amDescription = [], amStatus = ''active'',
     amModelType = ''text'', amContextWindow = None, amSupportsStreaming = True, amSupportsTools = False,
     amSupportsVision = False, amPaygExposed = False, amIsFree = False, amFreeLimitRPD = None, amFreeLimitRPM = None,
     amFreeLimitTPD = None, amCreatedAt = 0, amUpdatedAt = 0\<rparr>"

text \<open>
  A request that the counters treat as paid by the unlimited plan comes from a key pinned to
  the subscription, belongs to a subscription on an unlimited plan, and also passes the
  allow-list gate of the handlers: no request is counted against the plan and then refused by
  its allow-list.
\<close>

theorem unlimited_gates_agree:
  assumes "requestWillUseUnlimited apiKey sub (Some m)"
  shows "shouldEnforceUnlimitedAllowlist apiKey \<and> isUnlimitedSubscription sub
    \<and> modelCoveredByUnlimited sub (Some m) \<and> entitlementAllowsModel sub (amPublicModel m)"
  using assms covered_allows [of sub m]
  by (auto simp: requestWillUseUnlimited_def shouldEnforceUnlimitedAllowlist_def isUnlimitedSubscription_def Let_def)

theorem unlimited_gates_agree_witness:
  "entitlementAllowsModel (sampleSub [''gpt'']) ''gpt''"
proof -
  have "requestWillUseUnlimited (sampleKey ''subscription'') (sampleSub [''gpt'']) (Some (sampleModel ''gpt''))"
    by code_simp
  from unlimited_gates_agree [OF this] show ?thesis by (simp add: sampleModel_def)
qed

text \<open>
  The two allow-list gates differ in letter case: an allow-list entry that differs from the
  public model only in case passes the handlers' gate, yet the billing gate does not cover it,
  so the request is refused with \<^verbatim>\<open>subscription_not_covering_model\<close>.
\<close>

theorem allowlist_gates_differ_in_case:
  "entitlementAllowsModel (sampleSub [''genfity/GPT'']) ''genfity/gpt''
   \<and> \<not> modelCoveredByUnlimited (sampleSub [''genfity/GPT'']) (Some (sampleModel ''genfity/gpt''))"
  by code_simp

text \<open>
  The Redis key of a period's counters depends only on the start of the entitlement's period:
  extending the period, renaming the plan or changing the pricing group keeps the counters.
\<close>

theorem periodKey_stable:
  assumes "cePeriodStart e = Some t" "cePeriodStart e' = Some t"
  shows "periodKey now (Some e) = periodKey now' (Some e')"
  using assms by (simp add: periodKey_def activePeriod_def)

theorem periodKey_stable_witness:
  "periodKey 5 (Some sampleEntitlement) = periodKey 9 (Some (sampleEntitlement\<lparr>cePeriodEnd := None, cePlanCode := ''x''\<rparr>))"
  by (rule periodKey_stable [where t = 0]) (simp_all add: sampleEntitlement_def)

end
