(* ===== verification/Billing.thy ===== *)
theory Billing
  imports Policy
begin

text \<open>
  What a request costs and whether it is charged, from \<^verbatim>\<open>gateway_handler.go\<close>: the token estimate
  made before the upstream call, the credit price in buckets of 20000 tokens, the PAYG price per
  million tokens, and the decision, once the upstream has answered or the client has left,
  whether the request is billed and counted.
\<close>

section \<open>Records\<close>

record tokenReservationEstimate =
  tePromptTokens :: int
  teCompletionTokens :: int
  teTotalTokens :: int
  teBounded :: bool

record runtimeReservation =
  rrPeriodStart :: time
  rrPeriodEnd :: time
  rrQuotaTokens :: int
  rrPlanCode :: string
  rrCreditUSD :: float64
  rrCreditPlanCode :: string
  rrBillingMode :: string
  rrRequestCredits :: float64
  rrCreditPricePer20k :: float64
  rrPaygUSD :: float64
  rrPlanCreditPricePer20k :: float64
  rrPlanCreditsPerDay :: float64
  rrPlanCreditsPerPeriod :: float64
  rrPlanCreditPeriodKey :: string

definition zeroReservation :: runtimeReservation where
  "zeroReservation = \<lparr>rrPeriodStart = zeroTime, rrPeriodEnd = zeroTime, rrQuotaTokens = 0, rrPlanCode = [],
     rrCreditUSD = fzero, rrCreditPlanCode = [], rrBillingMode = [], rrRequestCredits = fzero,
     rrCreditPricePer20k = fzero, rrPaygUSD = fzero, rrPlanCreditPricePer20k = fzero,
     rrPlanCreditsPerDay = fzero, rrPlanCreditsPerPeriod = fzero, rrPlanCreditPeriodKey = []\<rparr>"

record usageSettlement =
  usPromptTokens :: int
  usCompletionTokens :: int
  usTotalTokens :: int
  usTotalCostUSD :: float64
  usActualCredits :: float64
  usSuccess :: bool
  usProviderStarted :: bool
  usProviderCompleted :: bool
  usBillable :: bool
  usChargeUsage :: bool
  usCountRequest :: bool
  usBillingReason :: string
  usErrorCode :: string
  usRequestID :: string

definition zeroSettlement :: usageSettlement where
  "zeroSettlement = \<lparr>usPromptTokens = 0, usCompletionTokens = 0, usTotalTokens = 0, usTotalCostUSD = fzero,
     usActualCredits = fzero, usSuccess = False, usProviderStarted = False, usProviderCompleted = False,
     usBillable = False, usChargeUsage = False, usCountRequest = False, usBillingReason = [],
     usErrorCode = [], usRequestID = []\<rparr>"

record settlementBillingDecision =
  sdBillable :: bool
  sdChargeUsage :: bool
  sdCountRequest :: bool
  sdBillingReason :: string

section \<open>The billing decision\<close>

definition statusClientClosedRequest :: int where
  "statusClientClosedRequest = 499"

definition decideSettlementBilling ::
  "runtimeReservation option \<Rightarrow> bool \<Rightarrow> int \<Rightarrow> int \<Rightarrow> bool \<Rightarrow> settlementBillingDecision" where
  "decideSettlementBilling reservation success statusCode totalTokens providerStarted =
     (if success then
        \<lparr>sdBillable = True, sdChargeUsage = True, sdCountRequest = True, sdBillingReason = ''completed''\<rparr>
      else if statusCode \<noteq> statusClientClosedRequest then
        \<lparr>sdBillable = False, sdChargeUsage = False, sdCountRequest = False, sdBillingReason = ''not_billable_failure''\<rparr>
      else if totalTokens > 0 then
        \<lparr>sdBillable = True, sdChargeUsage = True, sdCountRequest = True,
         sdBillingReason = ''client_disconnected_with_usage''\<rparr>
      else if providerStarted \<and> (case reservation of None \<Rightarrow> False | Some r \<Rightarrow> rrBillingMode r = ''unlimited'') then
        \<lparr>sdBillable = True, sdChargeUsage = False, sdCountRequest = True,
         sdBillingReason = ''client_disconnected_after_provider_started''\<rparr>
      else
        \<lparr>sdBillable = False, sdChargeUsage = False, sdCountRequest = False,
         sdBillingReason = ''client_disconnected_without_usage''\<rparr>)"

definition reservationNeedsFinalize :: "runtimeReservation \<Rightarrow> bool" where
  "reservationNeedsFinalize r \<longleftrightarrow>
     rrBillingMode r \<noteq> [] \<or> rrQuotaTokens r > 0 \<or> flt fzero (rrCreditUSD r) \<or> flt fzero (rrRequestCredits r)
     \<or> flt fzero (rrPaygUSD r) \<or> flt fzero (rrPlanCreditsPerDay r) \<or> flt fzero (rrPlanCreditsPerPeriod r)"

section \<open>Credits\<close>

definition creditBillingBucketTokens :: int where
  "creditBillingBucketTokens = 20000"

definition roundCredits :: "float64 \<Rightarrow> float64" where
  "roundCredits value = fdiv (fround (fmul value (Fin 10000))) (Fin 10000)"

definition creditBillingBuckets :: "int \<Rightarrow> int" where
  "creditBillingBuckets totalTokens =
     (if totalTokens \<le> 0 then 0
      else fToInt (fceil (fdiv (fOfInt totalTokens) (fOfInt creditBillingBucketTokens))))"

definition calculateActualRequestCredits :: "float64 \<Rightarrow> int \<Rightarrow> float64" where
  "calculateActualRequestCredits creditsPer20k totalTokens =
     (let buckets = creditBillingBuckets totalTokens in
      if buckets \<le> 0 \<or> fle creditsPer20k fzero then fzero
      else roundCredits (fmul (fOfInt buckets) creditsPer20k))"

definition estimateReservedRequestCredits :: "float64 \<Rightarrow> tokenReservationEstimate \<Rightarrow> float64" where
  "estimateReservedRequestCredits creditsPer20k estimate =
     (if fle creditsPer20k fzero then fzero
      else let totalTokens = (if teTotalTokens estimate \<le> 0 then creditBillingBucketTokens else teTotalTokens estimate)
           in calculateActualRequestCredits creditsPer20k totalTokens)"

section \<open>Prices\<close>

definition modelPrice :: "AIModelPrice list \<Rightarrow> uuid \<Rightarrow> AIModelPrice option" where
  "modelPrice prices modelID = find (\<lambda>item. apModelID item = modelID \<and> apActive item) prices"

definition estimatedPromptReservationPrice :: "AIModelPrice option \<Rightarrow> float64" where
  "estimatedPromptReservationPrice price = (case price of
       None \<Rightarrow> fzero
     | Some p \<Rightarrow>
         let inputPrice = parseFloatPtr (Some (apInputPricePer1M p)) in
         if flt fzero inputPrice then inputPrice
         else (case apCachedPricePer1M p of None \<Rightarrow> fzero | Some c \<Rightarrow> parseFloatPtr (Some c)))"

definition perMillion :: "int \<Rightarrow> float64 \<Rightarrow> float64" where
  "perMillion tokens price = fmul (fdiv (fOfInt tokens) (Fin 1000000)) price"

definition reserveUSDFor :: "tokenReservationEstimate \<Rightarrow> AIModelPrice \<Rightarrow> float64" where
  "reserveUSDFor estimate price =
     fadd (perMillion (tePromptTokens estimate) (estimatedPromptReservationPrice (Some price)))
          (perMillion (teCompletionTokens estimate) (parseFloatPtr (Some (apOutputPricePer1M price))))"

section \<open>Token estimate\<close>

text \<open>\<^verbatim>\<open>strconv.ParseInt(s, 10, 64)\<close> with its error ignored: clamped when out of range, else 0.\<close>

definition parseInt64Loose :: "string \<Rightarrow> int" where
  "parseInt64Loose s = (case parseInt s of
       None \<Rightarrow> 0
     | Some i \<Rightarrow> if i > maxInt64 then maxInt64 else if i < - (2 ^ 63) then - (2 ^ 63) else i)"

fun anyToInt64 :: "json option \<Rightarrow> int" where
  "anyToInt64 (Some (JNum f)) = fToInt f"
| "anyToInt64 (Some (JStr s)) = parseInt64Loose s"
| "anyToInt64 _ = 0"

fun payloadChars :: "json \<Rightarrow> int" and payloadCharsList :: "json list \<Rightarrow> int"
  and payloadCharsObj :: "jobject \<Rightarrow> int" where
  "payloadChars (JStr s) = int (length s)"
| "payloadChars (JArr xs) = payloadCharsList xs"
| "payloadChars (JObj m) = payloadCharsObj m"
| "payloadChars JNull = 0"
| "payloadChars (JBool b) = 0"
| "payloadChars (JNum f) = 0"
| "payloadCharsList [] = 0"
| "payloadCharsList (x # xs) = payloadChars x + payloadCharsList xs"
| "payloadCharsObj [] = 0"
| "payloadCharsObj ((k, v) # m) =
     (if k = ''model'' \<or> k = ''stream'' \<or> k = ''stream_options'' then 0 else payloadChars v) + payloadCharsObj m"

definition estimatePayloadTokens :: "json \<Rightarrow> int" where
  "estimatePayloadTokens value = (let chars = payloadChars value in
     if chars = 0 then 1 else (chars + 3) div 4)"

definition estimateRequestTokens :: "jobject \<Rightarrow> AIModel option \<Rightarrow> tokenReservationEstimate" where
  "estimateRequestTokens payload model =
     (let prompt = estimatePayloadTokens (JObj payload);
          c1 = anyToInt64 (jget payload ''max_tokens'');
          c2 = (if c1 = 0 then anyToInt64 (jget payload ''max_completion_tokens'') else c1);
          completion =
            (if c2 = 0 then
               (case model of
                  None \<Rightarrow> 4096
                | Some m \<Rightarrow> (case amContextWindow m of
                    None \<Rightarrow> 4096
                  | Some w \<Rightarrow> let remaining = wrap64 (w - prompt)
                              in if remaining > 0 \<and> remaining < 4096 then remaining else 4096))
             else c2);
          sum = wrap64 (prompt + completion);
          total = (if sum \<le> 0 then 1 else sum)
      in \<lparr>tePromptTokens = prompt, teCompletionTokens = completion, teTotalTokens = total,
          teBounded = (completion > 0)\<rparr>)"

definition isStreamingPayload :: "jobject \<Rightarrow> bool" where
  "isStreamingPayload payload \<longleftrightarrow> jget payload ''stream'' = Some (JBool True)"

definition ensureNonStreaming :: "jobject \<Rightarrow> jobject" where
  "ensureNonStreaming payload = filter (\<lambda>(k, v). k \<noteq> ''stream_options'') (jset payload ''stream'' (JBool False))"

definition ensureStreamUsageOption :: "jobject \<Rightarrow> jobject" where
  "ensureStreamUsageOption payload =
     (let options = (case jget payload ''stream_options'' of Some (JObj o1) \<Rightarrow> o1 | _ \<Rightarrow> [])
      in jset payload ''stream_options'' (JObj (jset options ''include_usage'' (JBool True))))"

section \<open>Buckets and credits\<close>

lemma rnd_ratio_ceiling:
  fixes t d :: int
  assumes "0 < t" "t \<le> 2 ^ 50" "d = 20000"
  shows "\<lceil>rnd (of_int t / of_int d)\<rceil> = \<lceil>of_int t / of_int d :: rat\<rceil>"
proof -
  define k where "k = (t - 1) div d"
  have k: "k * d < t" "t \<le> k * d + d" "0 \<le> k"
    using assms unfolding k_def by (auto simp: div_mult_mod_eq algebra_simps pos_imp_zdiv_nonneg_iff)
  have kb: "k < 2 ^ 37" using k assms by simp
  define x :: rat where "x = of_int t / of_int d"
  have "x \<le> of_int (k + 1)"
  proof -
    have "of_int t \<le> (of_int (k * d + d) :: rat)" using k(2) by (simp only: of_int_le_iff)
    then show ?thesis using assms(3) by (simp add: x_def field_simps)
  qed
  then have up: "rnd x \<le> of_int (k + 1)"
    using rnd_mono [of x "of_int (k + 1)"] rnd_int [of "k + 1"] kb k(3) by simp
  have "of_int (k * 2 ^ 15 + 1) / 2 ^ 15 \<le> x"
  proof -
    have "of_int (k * d + 1) \<le> (of_int t :: rat)" using k(1) by (simp only: of_int_le_iff)
    then have "of_int k + 1 / 20000 \<le> x" using assms(3) by (simp add: x_def field_simps)
    moreover have "(of_int (k * 2 ^ 15 + 1) / 2 ^ 15 :: rat) = of_int k + 1 / 32768" by (simp add: field_simps)
    moreover have "(1 / 32768 :: rat) \<le> 1 / 20000" by simp
    ultimately show ?thesis by linarith
  qed
  then have "rnd (of_int (k * 2 ^ 15 + 1) / 2 ^ 15) \<le> rnd x" by (rule rnd_mono)
  moreover have "rnd (of_int (k * 2 ^ 15 + 1) / 2 ^ 15) = of_int (k * 2 ^ 15 + 1) / 2 ^ 15"
    using kb k(3) by (intro rnd_dyadic) auto
  ultimately have lo: "of_int k < rnd x" by (simp add: field_simps)
  have c1: "\<lceil>rnd x\<rceil> = k + 1" using up lo by (intro ceiling_unique) auto
  have "of_int k < x" 
  proof -
    have "of_int (k * d) < (of_int t :: rat)" using k(1) by (simp only: of_int_less_iff)
    then show ?thesis using assms(3) by (simp add: x_def field_simps)
  qed
  then have c2: "\<lceil>x\<rceil> = k + 1" using \<open>x \<le> of_int (k + 1)\<close> by (intro ceiling_unique) auto
  show ?thesis using c1 c2 by (simp add: x_def)
qed

lemma fdiv_bucket: "0 < t \<Longrightarrow> t \<le> 2 ^ 50 \<Longrightarrow>
    fdiv (fOfInt t) (fOfInt creditBillingBucketTokens) = Fin (rnd (of_int t / 20000))"
proof -
  assume t: "0 < t" "t \<le> 2 ^ 50"
  have e: "fOfInt t = Fin (of_int t)" "fOfInt creditBillingBucketTokens = Fin 20000"
    using t by (simp_all add: fOfInt_small creditBillingBucketTokens_def)
  have "(of_int t / 20000 :: rat) \<le> of_int (2 ^ 50)"
  proof -
    have "(of_int t :: rat) \<le> of_int (2 ^ 50)" using t by (simp only: of_int_le_iff)
    then show ?thesis using t by simp
  qed
  then have "rnd (of_int t / 20000) \<le> rnd (of_int (2 ^ 50))" by (rule rnd_mono)
  also have "rnd (of_int (2 ^ 50)) = (2 ^ 50 :: rat)" using rnd_int [of "2 ^ 50"] by simp
  also have "\<dots> < (2 ^ 1024 :: rat)" by (rule power_strict_increasing) simp_all
  finally have "rnd (of_int t / 20000) < 2 ^ 1024" .
  moreover have "0 \<le> rnd (of_int t / 20000)" using t by (simp add: rnd_nonneg)
  ultimately show ?thesis unfolding e by (simp add: fin_def Let_def)
qed

text \<open>Up to \<open>2 ^ 50\<close> tokens the floating-point bucket count is the exact one.\<close>

lemma creditBillingBuckets_exact:
  assumes "0 < t" "t \<le> 2 ^ 50"
  shows "creditBillingBuckets t = (t + 19999) div 20000"
proof -
  have c: "\<lceil>rnd (of_int t / 20000)\<rceil> = \<lceil>of_int t / 20000 :: rat\<rceil>"
    using rnd_ratio_ceiling [OF assms refl] by simp
  have d: "\<lceil>of_int t / 20000 :: rat\<rceil> = (t + 19999) div 20000"
  proof (rule ceiling_unique)
    define k where "k = (t + 19999) div 20000"
    have k: "20000 * k \<le> t + 19999" "t + 19999 < 20000 * k + 20000" by (auto simp: k_def)
    have "of_int (20000 * k) \<le> (of_int (t + 19999) :: rat)" using k(1) by (simp only: of_int_le_iff)
    then show "of_int ((t + 19999) div 20000) - 1 < (of_int t / 20000 :: rat)" by (simp add: k_def [symmetric] field_simps)
    have "of_int t \<le> (of_int (20000 * k) :: rat)" using k(2) by (simp only: of_int_le_iff)
    then show "(of_int t / 20000 :: rat) \<le> of_int ((t + 19999) div 20000)" by (simp add: k_def [symmetric] field_simps)
  qed
  have r: "0 \<le> (t + 19999) div 20000" "(t + 19999) div 20000 \<le> 2 ^ 50" using assms by auto
  then have "in64 ((t + 19999) div 20000)" by (auto simp: in64_def)
  then show ?thesis
    using assms r c d by (simp add: creditBillingBuckets_def fdiv_bucket truncRat_def)
qed

lemma fToInt_small: "\<bar>i\<bar> < 2 ^ 62 \<Longrightarrow> fToInt (Fin (of_int i)) = i"
  by (auto simp: truncRat_def in64_def)

lemma credits_mono:
  assumes "0 < p" "t1 \<le> t2" "t2 \<le> 2 ^ 50"
  shows "fle (calculateActualRequestCredits (Fin p) t1) (calculateActualRequestCredits (Fin p) t2)"
proof (cases "0 < t1")
  case True
  define b1 b2 where "b1 = (t1 + 19999) div 20000" and "b2 = (t2 + 19999) div 20000"
  have b: "creditBillingBuckets t1 = b1" "creditBillingBuckets t2 = b2" "0 < b1" "b1 \<le> b2" "b2 \<le> 2 ^ 50"
    using True assms by (auto simp: b1_def b2_def creditBillingBuckets_exact zdiv_mono1 pos_imp_zdiv_pos_iff)
  have "fle (fOfInt b1) (fOfInt b2)" unfolding fOfInt_def using b(4) by (intro fin_mono) simp
  then have "fle (roundCredits (fmul (fOfInt b1) (Fin p))) (roundCredits (fmul (fOfInt b2) (Fin p)))"
    unfolding roundCredits_def using assms(1) by (intro fdiv_mono fround_mono fmul_mono) simp_all
  then show ?thesis using b assms(1) by (simp add: calculateActualRequestCredits_def)
next
  case False
  have nonneg: "fle fzero (calculateActualRequestCredits (Fin p) t2)"
  proof (cases "0 < t2")
    case True
    define b2 where "b2 = (t2 + 19999) div 20000"
    have b: "creditBillingBuckets t2 = b2" "0 < b2"
      using True assms by (auto simp: b2_def creditBillingBuckets_exact pos_imp_zdiv_pos_iff)
    have "fle (roundCredits (fmul (fOfInt 0) (Fin p))) (roundCredits (fmul (fOfInt b2) (Fin p)))"
      unfolding roundCredits_def fOfInt_def using assms(1) b(2) by (intro fdiv_mono fround_mono fmul_mono fin_mono) simp_all
    moreover have "roundCredits (fmul (fOfInt 0) (Fin p)) = fzero" by (simp add: roundCredits_def fOfInt_def fin_def)
    ultimately show ?thesis using b assms(1) by (simp add: calculateActualRequestCredits_def)
  next
    case False
    then show ?thesis by (simp add: calculateActualRequestCredits_def creditBillingBuckets_def)
  qed
  moreover have "calculateActualRequestCredits (Fin p) t1 = fzero"
    using False by (simp add: calculateActualRequestCredits_def creditBillingBuckets_def)
  ultimately show ?thesis by simp
qed

lemma payloadChars_nonneg: "0 \<le> payloadChars v" "0 \<le> payloadCharsList l" "0 \<le> payloadCharsObj m"
  by (induction v and l and m rule: payloadChars_payloadCharsList_payloadCharsObj.induct) auto

lemma estimatePayloadTokens_pos: "1 \<le> estimatePayloadTokens v"
  using payloadChars_nonneg(1) [of v] by (auto simp: estimatePayloadTokens_def Let_def)

section \<open>Properties\<close>



text \<open>
  Up to \<open>2 ^ 50\<close> tokens the bucket count, computed in floating point, is the number of
  started blocks of 20000 tokens.
\<close>

theorem credit_buckets_exact:
  assumes "0 < t" "t \<le> 2 ^ 50"
  shows "creditBillingBuckets t = (t + 19999) div 20000
    \<and> (creditBillingBuckets t - 1) * 20000 < t \<and> t \<le> creditBillingBuckets t * 20000"
  using creditBillingBuckets_exact [OF assms] by auto

theorem credit_buckets_exact_witness: "creditBillingBuckets 20001 = 2"
  using credit_buckets_exact [of 20001] by simp

text \<open>
  C29.  A request never costs more credits than it reserved when it stays within its token
  estimate: the price is monotone in the tokens, rounding and floating point included.
\<close>

theorem reserved_credits_cover:
  assumes "0 < p" "tokens \<le> teTotalTokens est" "0 < teTotalTokens est" "teTotalTokens est \<le> 2 ^ 50"
  shows "fle (calculateActualRequestCredits (Fin p) tokens) (estimateReservedRequestCredits (Fin p) est)"
  using credits_mono [OF assms(1,2,4)] assms(1,3) by (simp add: estimateReservedRequestCredits_def)

theorem reserved_credits_cover_witness:
  "fle (calculateActualRequestCredits (Fin 2) 30000)
     (estimateReservedRequestCredits (Fin 2)
       \<lparr>tePromptTokens = 10, teCompletionTokens = 45000, teTotalTokens = 45010, teBounded = True\<rparr>)"
  by (rule reserved_credits_cover) simp_all

text \<open>
  The token estimate is positive and, whenever prompt plus completion fits 64 bits and is
  positive, it is their sum; without a bound from the client it reserves at most 4096 completion
  tokens and is always bounded.
\<close>

theorem token_estimate_shape:
  shows "let e = estimateRequestTokens payload model in
    1 \<le> tePromptTokens e \<and> 1 \<le> teTotalTokens e
    \<and> (in64 (tePromptTokens e + teCompletionTokens e) \<and> 0 < tePromptTokens e + teCompletionTokens e
         \<longrightarrow> teTotalTokens e = tePromptTokens e + teCompletionTokens e)
    \<and> (anyToInt64 (jget payload ''max_tokens'') = 0 \<and> anyToInt64 (jget payload ''max_completion_tokens'') = 0
         \<longrightarrow> teBounded e \<and> teCompletionTokens e \<le> 4096)"
  using estimatePayloadTokens_pos [of "JObj payload"]
  by (auto simp: estimateRequestTokens_def Let_def split: option.splits)

theorem token_estimate_shape_witness:
  "teTotalTokens (estimateRequestTokens [(''messages'', JStr ''hello'')] None) = 4098"
  using token_estimate_shape [of "[(''messages'', JStr ''hello'')]" None]
  by (simp add: estimateRequestTokens_def estimatePayloadTokens_def jget_def in64_def)

text \<open>
  A client that sends a huge completion bound as text makes the 64-bit sum wrap to a negative
  number: the estimate becomes one token and still counts as bounded, so one token is reserved
  against the quota and one bucket of credits.
\<close>

theorem token_estimate_wraps:
  "let e = estimateRequestTokens [(''max_tokens'', JStr ''9223372036854775807'')] None in
     teTotalTokens e = 1 \<and> teBounded e \<and> teCompletionTokens e = maxInt64"
  by (simp add: estimateRequestTokens_def estimatePayloadTokens_def jget_def parseInt64Loose_def parseInt_def
      parseNat_def digitsVal_def isDigit_def digitVal_def maxInt64_def wrap64_def Let_def)

end
