(* ===== verification/PgCatalog.thy ===== *)
theory PgCatalog
  imports PgEntitlements Billing "HOL-Library.List_Lexorder" "HOL-Library.Char_ord"
begin

text \<open>
  The catalogue tables of \<^verbatim>\<open>postgres_store.go\<close>: plans, models, prices, routes, router instances,
  credit costs and the usage ledger, with the services in front of them (\<^verbatim>\<open>model_service.go\<close>,
  \<^verbatim>\<open>router_service.go\<close>).  A table is the list of rows a \<^verbatim>\<open>SELECT\<close> would return; the schema's
  unique indexes and foreign keys are the predicates \<^verbatim>\<open>plansOk\<close>, \<^verbatim>\<open>modelsOk\<close>, ... and a statement
  that breaks one is an error that leaves the table as it was.  The locale \<^verbatim>\<open>catalog_table\<close> is the
  contract the synchronisation relies on, interpreted on plans and models: what was written last
  under a key is what is read.  The range of \<^verbatim>\<open>integer\<close> columns is not modelled.
\<close>

section \<open>Statements\<close>

text \<open>\<^verbatim>\<open>INSERT ... ON CONFLICT (key) DO UPDATE ... RETURNING\<close> under the constraints of the table.\<close>

definition upsertBy :: "('a \<Rightarrow> bool) \<Rightarrow> 'a \<Rightarrow> ('a \<Rightarrow> 'a) \<Rightarrow> ('a list \<Rightarrow> bool) \<Rightarrow> 'a list \<Rightarrow> ('a list \<times> 'a) option" where
  "upsertBy key new merge valid rows =
     (let rows' = (case find key rows of None \<Rightarrow> rows @ [new] | Some _ \<Rightarrow> updWhere key merge rows);
          saved = (case find key rows of None \<Rightarrow> new | Some r \<Rightarrow> merge r)
      in if valid rows' then Some (rows', saved) else None)"

text \<open>\<^verbatim>\<open>UPDATE ... WHERE id = $1 RETURNING\<close>: \<open>Inl False\<close> for no row, \<open>Inl True\<close> for a broken constraint.\<close>

definition updateBy :: "('a \<Rightarrow> bool) \<Rightarrow> ('a \<Rightarrow> 'a) \<Rightarrow> ('a list \<Rightarrow> bool) \<Rightarrow> 'a list \<Rightarrow> bool + ('a list \<times> 'a)" where
  "updateBy key merge valid rows = (case find key rows of
       None \<Rightarrow> Inl False
     | Some r \<Rightarrow> let rows' = updWhere key merge rows in if valid rows' then Inr (rows', merge r) else Inl True)"

definition firstRow :: "('a \<Rightarrow> bool) \<Rightarrow> 'a list \<Rightarrow> 'a result" where
  "firstRow P rows = (case find P rows of None \<Rightarrow> Inl ErrNotFound | Some r \<Rightarrow> Inr r)"

definition pgRead :: "(pg_state \<Rightarrow> 'a result) \<Rightarrow> pg_state \<Rightarrow> 'a result" where
  "pgRead f s = (case pgFault s of Some e \<Rightarrow> Inl e | None \<Rightarrow> f s)"

definition pgList :: "(pg_state \<Rightarrow> 'a list) \<Rightarrow> pg_state \<Rightarrow> 'a list" where
  "pgList f s = (case pgFault s of Some e \<Rightarrow> [] | None \<Rightarrow> f s)"

lemma pgRead_up [simp]: "pgUp s \<Longrightarrow> pgRead f s = f s"
  by (simp add: pgRead_def pgUp_def)

lemma pgList_up [simp]: "pgUp s \<Longrightarrow> pgList f s = f s"
  by (simp add: pgList_def pgUp_def)

text \<open>A decimal text stored in a \<^verbatim>\<open>numeric(p, n)\<close> column and selected as text again.\<close>

definition numericText :: "nat \<Rightarrow> string \<Rightarrow> string option" where
  "numericText n t = map_option (\<lambda>q. fixedText n (toScale n q)) (parseDecimal t)"

definition numericTextPtr :: "nat \<Rightarrow> string option \<Rightarrow> string option option" where
  "numericTextPtr n t = (case t of None \<Rightarrow> Some None | Some x \<Rightarrow> map_option Some (numericText n x))"

text \<open>A \<^verbatim>\<open>float64\<close> stored in a \<^verbatim>\<open>numeric(p, n)\<close> column and scanned back.\<close>

definition numericFloatPtr :: "(float64 \<Rightarrow> rat option) \<Rightarrow> nat \<Rightarrow> float64 option \<Rightarrow> float64 option option" where
  "numericFloatPtr N n x = (case x of None \<Rightarrow> Some None | Some f \<Rightarrow> map_option (\<lambda>v. Some (fin (toScale n v))) (N f))"

section \<open>Plans\<close>

definition plansOk :: "SubscriptionPlanSnapshot list \<Rightarrow> bool" where
  "plansOk rows \<longleftrightarrow> distinct (map spID rows) \<and> distinct (map spPlanCode rows)"

definition planRow :: "(float64 \<Rightarrow> rat option) \<Rightarrow> time \<Rightarrow> SubscriptionPlanSnapshot \<Rightarrow> SubscriptionPlanSnapshot option" where
  "planRow N now item =
     (case (numericText 6 (spMonthlyPrice item), numericFloatPtr N 4 (spCreditLimitPerDay item),
            numericFloatPtr N 4 (spCreditLimitPerPeriod item)) of
        (Some mp, Some d, Some p) \<Rightarrow>
          Some (item\<lparr>spStatus := defaultString (spStatus item) ''active'', spMonthlyPrice := mp,
            spCurrency := defaultString (spCurrency item) ''IDR'', spCreditLimitPerDay := d, spCreditLimitPerPeriod := p,
            spMetadata := rawJSON (spMetadata item),
            spSyncedFromGenfityAt := pgTs (defaultTime now (spSyncedFromGenfityAt item)),
            spCreatedAt := now, spUpdatedAt := now\<rparr>)
      | _ \<Rightarrow> None)"

definition UpsertPlan :: "(float64 \<Rightarrow> rat option) \<Rightarrow> time \<Rightarrow> SubscriptionPlanSnapshot \<Rightarrow> pg_state \<Rightarrow> pg_state \<times> SubscriptionPlanSnapshot result" where
  "UpsertPlan N now item = pgRun (\<lambda>s.
     case planRow N now item of
       None \<Rightarrow> (s, Inl (ErrText ''invalid input syntax for type numeric''))
     | Some new \<Rightarrow>
         if spID item = nilUUID then (s, Inl constraintError)
         else (case upsertBy (\<lambda>r. spPlanCode r = spPlanCode item) new
                 (\<lambda>r. new\<lparr>spID := spID r, spCreatedAt := spCreatedAt r\<rparr>) plansOk (pgPlans s) of
                 None \<Rightarrow> (s, Inl constraintError)
               | Some (rows, saved) \<Rightarrow> (s\<lparr>pgPlans := rows\<rparr>, Inr saved)))"

definition ListPlans :: "pg_state \<Rightarrow> SubscriptionPlanSnapshot list" where
  "ListPlans = pgList (\<lambda>s. sort_key spPlanCode (pgPlans s))"

definition GetPlanByCode :: "string \<Rightarrow> pg_state \<Rightarrow> SubscriptionPlanSnapshot result" where
  "GetPlanByCode planCode = pgRead (\<lambda>s. firstRow (\<lambda>r. spPlanCode r = planCode) (pgPlans s))"

section \<open>Models\<close>

definition modelsOk :: "AIModel list \<Rightarrow> bool" where
  "modelsOk rows \<longleftrightarrow> distinct (map amID rows) \<and> distinct (map amPublicModel rows)"

definition modelRow :: "time \<Rightarrow> AIModel \<Rightarrow> AIModel" where
  "modelRow now item = item\<lparr>amStatus := defaultString (amStatus item) ''active'',
     amModelType := defaultString (amModelType item) ''text'', amCreatedAt := now, amUpdatedAt := now\<rparr>"

definition UpsertModel :: "time \<Rightarrow> AIModel \<Rightarrow> pg_state \<Rightarrow> pg_state \<times> AIModel result" where
  "UpsertModel now item = pgRun (\<lambda>s.
     let new = modelRow now item in
     if amID item = nilUUID then (s, Inl constraintError)
     else (case upsertBy (\<lambda>r. amPublicModel r = amPublicModel item) new
             (\<lambda>r. new\<lparr>amID := amID r, amCreatedAt := amCreatedAt r\<rparr>) modelsOk (pgModels s) of
             None \<Rightarrow> (s, Inl constraintError)
           | Some (rows, saved) \<Rightarrow> (s\<lparr>pgModels := rows\<rparr>, Inr saved)))"

definition UpdateModel :: "time \<Rightarrow> AIModel \<Rightarrow> pg_state \<Rightarrow> pg_state \<times> AIModel result" where
  "UpdateModel now item = pgRun (\<lambda>s.
     case updateBy (\<lambda>r. amID r = amID item) (\<lambda>r. (modelRow now item)\<lparr>amCreatedAt := amCreatedAt r\<rparr>) modelsOk (pgModels s) of
       Inl broken \<Rightarrow> (s, Inl (if broken then constraintError else ErrNotFound))
     | Inr (rows, saved) \<Rightarrow> (s\<lparr>pgModels := rows\<rparr>, Inr saved))"

definition UpdateModelStatus :: "time \<Rightarrow> uuid \<Rightarrow> string \<Rightarrow> pg_state \<Rightarrow> pg_state \<times> unit result" where
  "UpdateModelStatus now i status = pgRun (\<lambda>s.
     if affected (\<lambda>r. amID r = i) (pgModels s) = 0 then (s, Inl ErrNotFound)
     else (s\<lparr>pgModels := updWhere (\<lambda>r. amID r = i) (\<lambda>r. r\<lparr>amStatus := status, amUpdatedAt := now\<rparr>) (pgModels s)\<rparr>, Inr ()))"

definition ListAllModels :: "pg_state \<Rightarrow> AIModel list" where
  "ListAllModels = pgList (\<lambda>s. sort_key amPublicModel (pgModels s))"

text \<open>Prices and routes of a deleted model go with it (\<^verbatim>\<open>ON DELETE CASCADE\<close>).\<close>

definition DeleteModel :: "uuid \<Rightarrow> pg_state \<Rightarrow> pg_state \<times> unit result" where
  "DeleteModel i = pgRun (\<lambda>s.
     if affected (\<lambda>r. amID r = i) (pgModels s) = 0 then (s, Inl ErrNotFound)
     else (s\<lparr>pgModels := filter (\<lambda>r. amID r \<noteq> i) (pgModels s),
             pgPrices := filter (\<lambda>r. apModelID r \<noteq> i) (pgPrices s),
             pgRoutes := filter (\<lambda>r. arModelID r \<noteq> i) (pgRoutes s)\<rparr>, Inr ()))"

definition ListModels :: "pg_state \<Rightarrow> AIModel list" where
  "ListModels = pgList (\<lambda>s. sort_key amDisplayName (pgModels s))"

definition GetModelByID :: "uuid \<Rightarrow> pg_state \<Rightarrow> AIModel result" where
  "GetModelByID i = pgRead (\<lambda>s. firstRow (\<lambda>r. amID r = i) (pgModels s))"

text \<open>\<^verbatim>\<open>ORDER BY (status = 'active') DESC LIMIT 1\<close>.\<close>

definition GetModelByPublicName :: "string \<Rightarrow> pg_state \<Rightarrow> AIModel result" where
  "GetModelByPublicName publicModel = pgRead (\<lambda>s.
     case sort_key (\<lambda>r. if amStatus r = ''active'' then 0 else 1 :: int)
            (filter (\<lambda>r. amPublicModel r = publicModel) (pgModels s)) of
       [] \<Rightarrow> Inl ErrNotFound | r # _ \<Rightarrow> Inr r)"

section \<open>Prices\<close>

definition pricesOk :: "AIModel list \<Rightarrow> AIModelPrice list \<Rightarrow> bool" where
  "pricesOk models rows \<longleftrightarrow> distinct (map apID rows) \<and> list_all (\<lambda>r. apModelID r \<in> amID ` set models) rows
     \<and> distinct (map apModelID (filter apActive rows))"

definition priceRow :: "time \<Rightarrow> AIModelPrice \<Rightarrow> AIModelPrice option" where
  "priceRow now item =
     (case (numericText 6 (apInputPricePer1M item), numericText 6 (apOutputPricePer1M item),
            numericTextPtr 6 (apCachedPricePer1M item), numericTextPtr 6 (apReasoningPricePer1M item)) of
        (Some i, Some out, Some c, Some r) \<Rightarrow>
          Some (item\<lparr>apInputPricePer1M := i, apOutputPricePer1M := out, apCachedPricePer1M := c,
            apReasoningPricePer1M := r, apCurrency := defaultString (apCurrency item) ''IDR'', apCreatedAt := now\<rparr>)
      | _ \<Rightarrow> None)"

definition UpsertPrice :: "time \<Rightarrow> AIModelPrice \<Rightarrow> pg_state \<Rightarrow> pg_state \<times> AIModelPrice result" where
  "UpsertPrice now item = pgRun (\<lambda>s.
     case priceRow now item of
       None \<Rightarrow> (s, Inl (ErrText ''invalid input syntax for type numeric''))
     | Some new \<Rightarrow>
         if apID item = nilUUID then (s, Inl constraintError)
         else (case upsertBy (\<lambda>r. apID r = apID item) new
                 (\<lambda>r. new\<lparr>apModelID := apModelID r, apCreatedAt := apCreatedAt r\<rparr>) (pricesOk (pgModels s)) (pgPrices s) of
                 None \<Rightarrow> (s, Inl constraintError)
               | Some (rows, saved) \<Rightarrow> (s\<lparr>pgPrices := rows\<rparr>, Inr saved)))"

definition GetPriceByID :: "uuid \<Rightarrow> pg_state \<Rightarrow> AIModelPrice result" where
  "GetPriceByID i = pgRead (\<lambda>s. firstRow (\<lambda>r. apID r = i) (pgPrices s))"

definition UpdatePrice :: "time \<Rightarrow> AIModelPrice \<Rightarrow> pg_state \<Rightarrow> pg_state \<times> AIModelPrice result" where
  "UpdatePrice now item = pgRun (\<lambda>s.
     case priceRow now item of
       None \<Rightarrow> (s, Inl (ErrText ''invalid input syntax for type numeric''))
     | Some new \<Rightarrow>
         (case updateBy (\<lambda>r. apID r = apID item) (\<lambda>r. new\<lparr>apCreatedAt := apCreatedAt r\<rparr>) (pricesOk (pgModels s)) (pgPrices s) of
            Inl broken \<Rightarrow> (s, Inl (if broken then constraintError else ErrNotFound))
          | Inr (rows, saved) \<Rightarrow> (s\<lparr>pgPrices := rows\<rparr>, Inr saved)))"

definition DeletePrice :: "uuid \<Rightarrow> pg_state \<Rightarrow> pg_state \<times> unit result" where
  "DeletePrice i = pgRun (\<lambda>s.
     if affected (\<lambda>r. apID r = i) (pgPrices s) = 0 then (s, Inl ErrNotFound)
     else (s\<lparr>pgPrices := filter (\<lambda>r. apID r \<noteq> i) (pgPrices s)\<rparr>, Inr ()))"

definition ListPrices :: "pg_state \<Rightarrow> AIModelPrice list" where
  "ListPrices = pgList (\<lambda>s. sort_key (\<lambda>r. - apCreatedAt r) (pgPrices s))"

section \<open>Routes and router instances\<close>

definition routesOk :: "AIModel list \<Rightarrow> RouterInstance list \<Rightarrow> AIModelRoute list \<Rightarrow> bool" where
  "routesOk models routers rows \<longleftrightarrow> distinct (map arID rows)
     \<and> list_all (\<lambda>r. arModelID r \<in> amID ` set models \<and> arRouterInstanceCode r \<in> riCode ` set routers) rows
     \<and> distinct (map arModelID (filter (\<lambda>r. arStatus r = ''active'') rows))"

definition routeRow :: "time \<Rightarrow> AIModelRoute \<Rightarrow> AIModelRoute" where
  "routeRow now item = item\<lparr>arStatus := defaultString (arStatus item) ''active'', arMetadata := rawJSON (arMetadata item),
     arCreatedAt := now\<rparr>"

definition UpsertRoute :: "time \<Rightarrow> AIModelRoute \<Rightarrow> pg_state \<Rightarrow> pg_state \<times> AIModelRoute result" where
  "UpsertRoute now item = pgRun (\<lambda>s.
     let new = routeRow now item in
     if arID item = nilUUID then (s, Inl constraintError)
     else (case upsertBy (\<lambda>r. arID r = arID item) new
             (\<lambda>r. new\<lparr>arModelID := arModelID r, arCreatedAt := arCreatedAt r\<rparr>) (routesOk (pgModels s) (pgRouters s)) (pgRoutes s) of
             None \<Rightarrow> (s, Inl constraintError)
           | Some (rows, saved) \<Rightarrow> (s\<lparr>pgRoutes := rows\<rparr>, Inr saved)))"

definition GetRouteByID :: "uuid \<Rightarrow> pg_state \<Rightarrow> AIModelRoute result" where
  "GetRouteByID i = pgRead (\<lambda>s. firstRow (\<lambda>r. arID r = i) (pgRoutes s))"

definition UpdateRoute :: "time \<Rightarrow> AIModelRoute \<Rightarrow> pg_state \<Rightarrow> pg_state \<times> AIModelRoute result" where
  "UpdateRoute now item = pgRun (\<lambda>s.
     case updateBy (\<lambda>r. arID r = arID item) (\<lambda>r. (routeRow now item)\<lparr>arCreatedAt := arCreatedAt r\<rparr>)
            (routesOk (pgModels s) (pgRouters s)) (pgRoutes s) of
       Inl broken \<Rightarrow> (s, Inl (if broken then constraintError else ErrNotFound))
     | Inr (rows, saved) \<Rightarrow> (s\<lparr>pgRoutes := rows\<rparr>, Inr saved))"

definition DeleteRoute :: "uuid \<Rightarrow> pg_state \<Rightarrow> pg_state \<times> unit result" where
  "DeleteRoute i = pgRun (\<lambda>s.
     if affected (\<lambda>r. arID r = i) (pgRoutes s) = 0 then (s, Inl ErrNotFound)
     else (s\<lparr>pgRoutes := filter (\<lambda>r. arID r \<noteq> i) (pgRoutes s)\<rparr>, Inr ()))"

definition ListRoutes :: "pg_state \<Rightarrow> AIModelRoute list" where
  "ListRoutes = pgList (\<lambda>s. sort_key (\<lambda>r. - arCreatedAt r) (pgRoutes s))"

definition GetRouteByModelID :: "uuid \<Rightarrow> pg_state \<Rightarrow> AIModelRoute result" where
  "GetRouteByModelID m = pgRead (\<lambda>s. firstRow (\<lambda>r. arModelID r = m \<and> arStatus r = ''active'') (pgRoutes s))"

definition routersOk :: "RouterInstance list \<Rightarrow> bool" where
  "routersOk rows \<longleftrightarrow> distinct (map riID rows) \<and> distinct (map riCode rows)"

definition routerRow :: "time \<Rightarrow> RouterInstance \<Rightarrow> RouterInstance" where
  "routerRow now item = item\<lparr>riStatus := defaultString (riStatus item) ''active'',
     riLastHealthCheckAt := map_option pgTs (riLastHealthCheckAt item), riMetadata := rawJSON (riMetadata item), riCreatedAt := now\<rparr>"

definition UpsertRouterInstance :: "time \<Rightarrow> RouterInstance \<Rightarrow> pg_state \<Rightarrow> pg_state \<times> RouterInstance result" where
  "UpsertRouterInstance now item = pgRun (\<lambda>s.
     let new = routerRow now item in
     if riID item = nilUUID then (s, Inl constraintError)
     else (case upsertBy (\<lambda>r. riCode r = riCode item) new
             (\<lambda>r. new\<lparr>riID := riID r, riCreatedAt := riCreatedAt r\<rparr>) routersOk (pgRouters s) of
             None \<Rightarrow> (s, Inl constraintError)
           | Some (rows, saved) \<Rightarrow> (s\<lparr>pgRouters := rows\<rparr>, Inr saved)))"

definition GetRouterInstanceByID :: "uuid \<Rightarrow> pg_state \<Rightarrow> RouterInstance result" where
  "GetRouterInstanceByID i = pgRead (\<lambda>s. firstRow (\<lambda>r. riID r = i) (pgRouters s))"

text \<open>Routes refer to a router by its code: a rename or a delete that strands one is refused.\<close>

definition routersServe :: "AIModelRoute list \<Rightarrow> RouterInstance list \<Rightarrow> bool" where
  "routersServe routes rows \<longleftrightarrow> list_all (\<lambda>r. arRouterInstanceCode r \<in> riCode ` set rows) routes"

definition UpdateRouterInstance :: "time \<Rightarrow> RouterInstance \<Rightarrow> pg_state \<Rightarrow> pg_state \<times> RouterInstance result" where
  "UpdateRouterInstance now item = pgRun (\<lambda>s.
     case updateBy (\<lambda>r. riID r = riID item) (\<lambda>r. (routerRow now item)\<lparr>riCreatedAt := riCreatedAt r\<rparr>)
            (\<lambda>rows. routersOk rows \<and> routersServe (pgRoutes s) rows) (pgRouters s) of
       Inl broken \<Rightarrow> (s, Inl (if broken then constraintError else ErrNotFound))
     | Inr (rows, saved) \<Rightarrow> (s\<lparr>pgRouters := rows\<rparr>, Inr saved))"

definition DeleteRouterInstance :: "uuid \<Rightarrow> pg_state \<Rightarrow> pg_state \<times> unit result" where
  "DeleteRouterInstance i = pgRun (\<lambda>s.
     let rows = filter (\<lambda>r. riID r \<noteq> i) (pgRouters s) in
     if affected (\<lambda>r. riID r = i) (pgRouters s) = 0 then (s, Inl ErrNotFound)
     else if \<not> routersServe (pgRoutes s) rows then (s, Inl constraintError)
     else (s\<lparr>pgRouters := rows\<rparr>, Inr ()))"

definition ListRouterInstances :: "pg_state \<Rightarrow> RouterInstance list" where
  "ListRouterInstances = pgList (\<lambda>s. sort_key riCode (pgRouters s))"

definition GetRouterInstance :: "string \<Rightarrow> pg_state \<Rightarrow> RouterInstance result" where
  "GetRouterInstance code = pgRead (\<lambda>s. firstRow (\<lambda>r. riCode r = code) (pgRouters s))"

section \<open>Credit costs and the ledger\<close>

text \<open>\<open>fresh\<close> is the id the database generates for a new row.\<close>

definition costsOk :: "ModelCreditCost list \<Rightarrow> bool" where
  "costsOk rows \<longleftrightarrow> distinct (map mcID rows) \<and> distinct (map mcFullModelID rows)"

definition UpsertModelCreditCost :: "uuid \<Rightarrow> time \<Rightarrow> ModelCreditCost \<Rightarrow> pg_state \<Rightarrow> pg_state \<times> ModelCreditCost result" where
  "UpsertModelCreditCost fresh now cost = pgRun (\<lambda>s.
     case parseDecimal (mcCreditsPerReq cost) of
       None \<Rightarrow> (s, Inl (ErrText ''invalid input syntax for type numeric''))
     | Some c \<Rightarrow>
         let new = cost\<lparr>mcID := fresh, mcCreditsPerReq := fixedText 6 (toScale 6 c), mcMetadata := rawJSON (mcMetadata cost),
                        mcSyncedAt := now, mcCreatedAt := now, mcUpdatedAt := now\<rparr>
         in if toScale 6 c < 0 then (s, Inl constraintError)
            else (case upsertBy (\<lambda>r. mcFullModelID r = mcFullModelID cost) new
                    (\<lambda>r. new\<lparr>mcID := mcID r, mcCreatedAt := mcCreatedAt r\<rparr>) costsOk (pgCosts s) of
                    None \<Rightarrow> (s, Inl constraintError)
                  | Some (rows, saved) \<Rightarrow> (s\<lparr>pgCosts := rows\<rparr>, Inr saved)))"

text \<open>An absent cost is no error: the source returns a nil pointer.\<close>

definition GetModelCreditCost :: "string \<Rightarrow> pg_state \<Rightarrow> ModelCreditCost option result" where
  "GetModelCreditCost m = pgRead (\<lambda>s. Inr (find (\<lambda>r. mcFullModelID r = m) (pgCosts s)))"

definition ListModelCreditCosts :: "pg_state \<Rightarrow> ModelCreditCost list" where
  "ListModelCreditCosts = pgList (\<lambda>s. sort_key mcFullModelID (pgCosts s))"

definition ledgerOk :: "APIKey list \<Rightarrow> UsageLedgerEntry list \<Rightarrow> bool" where
  "ledgerOk keys rows \<longleftrightarrow> distinct (map ueID rows) \<and> distinct (map ueRequestID rows)
     \<and> list_all (\<lambda>r. case ueAPIKeyID r of None \<Rightarrow> True | Some k \<Rightarrow> k \<in> akID ` set keys) rows"

definition usageRow :: "time \<Rightarrow> UsageLedgerEntry \<Rightarrow> UsageLedgerEntry option" where
  "usageRow now item =
     (case (numericText 6 (ueInputCost item), numericText 6 (ueOutputCost item), numericText 6 (ueTotalCost item),
            numericTextPtr 4 (ueAmountCredits item), numericTextPtr 4 (ueBalanceAfterCredits item),
            numericTextPtr 6 (ueBalanceAfterUsd item)) of
        (Some i, Some out, Some t, Some c, Some bc, Some bu) \<Rightarrow>
          Some (item\<lparr>ueInputCost := i, ueOutputCost := out, ueTotalCost := t, ueAmountCredits := c,
            ueBalanceAfterCredits := bc, ueBalanceAfterUsd := bu,
            ueStartedAt := pgTs (defaultTime now (ueStartedAt item)), ueFinishedAt := map_option pgTs (ueFinishedAt item),
            ueMetadata := rawJSON (ueMetadata item)\<rparr>)
      | _ \<Rightarrow> None)"

definition AppendUsage :: "time \<Rightarrow> UsageLedgerEntry \<Rightarrow> pg_state \<Rightarrow> pg_state \<times> UsageLedgerEntry result" where
  "AppendUsage now item = pgRun (\<lambda>s.
     case usageRow now item of
       None \<Rightarrow> (s, Inl (ErrText ''invalid input syntax for type numeric''))
     | Some new \<Rightarrow>
         if ueID item = nilUUID \<or> \<not> ledgerOk (pgKeys s) (pgLedger s @ [new]) then (s, Inl constraintError)
         else (s\<lparr>pgLedger := pgLedger s @ [new]\<rparr>, Inr new))"

definition ListUsageByUserSince :: "string \<Rightarrow> time \<Rightarrow> pg_state \<Rightarrow> UsageLedgerEntry list" where
  "ListUsageByUserSince userID since = pgList (\<lambda>s. sort_key (\<lambda>r. - ueStartedAt r)
     (filter (\<lambda>r. ueGenfityUserID r = userID \<and> ueStartedAt r \<ge> pgTs since) (pgLedger s)))"

definition ListUsageByUser :: "string \<Rightarrow> pg_state \<Rightarrow> UsageLedgerEntry list" where
  "ListUsageByUser userID = pgList (\<lambda>s. sort_key (\<lambda>r. - ueStartedAt r)
     (filter (\<lambda>r. ueGenfityUserID r = userID) (pgLedger s)))"

section \<open>Services\<close>

text \<open>\<open>fresh\<close> is the value of \<^verbatim>\<open>uuid.New()\<close>.\<close>

definition orNew :: "uuid \<Rightarrow> uuid \<Rightarrow> uuid" where
  "orNew fresh i = (if i = nilUUID then fresh else i)"

definition CreateModel :: "uuid \<Rightarrow> time \<Rightarrow> AIModel \<Rightarrow> pg_state \<Rightarrow> pg_state \<times> AIModel result" where
  "CreateModel fresh now model s =
     (if amPublicModel model = [] \<or> amDisplayName model = [] then (s, Inl (ErrText ''public_model and display_name are required''))
      else UpsertModel now (model\<lparr>amID := orNew fresh (amID model), amStatus := defaultString (amStatus model) ''active'',
             amCreatedAt := now, amUpdatedAt := now\<rparr>) s)"

definition serviceUpdateModel :: "time \<Rightarrow> AIModel \<Rightarrow> pg_state \<Rightarrow> pg_state \<times> AIModel result" where
  "serviceUpdateModel now model s =
     (if amID model = nilUUID then (s, Inl (ErrText ''model_id is required''))
      else if amPublicModel model = [] \<or> amDisplayName model = [] then (s, Inl (ErrText ''public_model and display_name are required''))
      else UpdateModel now (model\<lparr>amStatus := defaultString (amStatus model) ''active''\<rparr>) s)"

definition serviceDeleteModel :: "uuid \<Rightarrow> pg_state \<Rightarrow> pg_state \<times> unit result" where
  "serviceDeleteModel i s = (if i = nilUUID then (s, Inl (ErrText ''model_id is required'')) else DeleteModel i s)"

definition serviceUpsertPrice :: "uuid \<Rightarrow> time \<Rightarrow> AIModelPrice \<Rightarrow> pg_state \<Rightarrow> pg_state \<times> AIModelPrice result" where
  "serviceUpsertPrice fresh now price s =
     (if apModelID price = nilUUID then (s, Inl (ErrText ''model_id is required''))
      else UpsertPrice now (price\<lparr>apID := orNew fresh (apID price), apCurrency := defaultString (apCurrency price) ''IDR''\<rparr>) s)"

definition serviceUpdatePrice :: "time \<Rightarrow> AIModelPrice \<Rightarrow> pg_state \<Rightarrow> pg_state \<times> AIModelPrice result" where
  "serviceUpdatePrice now price s =
     (if apID price = nilUUID then (s, Inl (ErrText ''model_price_id is required''))
      else if apModelID price = nilUUID then (s, Inl (ErrText ''model_id is required''))
      else UpdatePrice now (price\<lparr>apCurrency := defaultString (apCurrency price) ''IDR''\<rparr>) s)"

definition routeDefaults :: "AIModelRoute \<Rightarrow> AIModelRoute" where
  "routeDefaults route = route\<lparr>arStatus := defaultString (arStatus route) ''active'',
     arRouterInstanceCode := defaultString (arRouterInstanceCode route) ''ai-core2''\<rparr>"

definition serviceUpsertRoute :: "uuid \<Rightarrow> time \<Rightarrow> AIModelRoute \<Rightarrow> pg_state \<Rightarrow> pg_state \<times> AIModelRoute result" where
  "serviceUpsertRoute fresh now route s =
     (if arModelID route = nilUUID then (s, Inl (ErrText ''model_id is required''))
      else if arRouterModel route = [] then (s, Inl (ErrText ''router_model is required''))
      else UpsertRoute now (routeDefaults (route\<lparr>arID := orNew fresh (arID route)\<rparr>)) s)"

definition serviceUpdateRoute :: "time \<Rightarrow> AIModelRoute \<Rightarrow> pg_state \<Rightarrow> pg_state \<times> AIModelRoute result" where
  "serviceUpdateRoute now route s =
     (if arID route = nilUUID then (s, Inl (ErrText ''model_route_id is required''))
      else if arModelID route = nilUUID then (s, Inl (ErrText ''model_id is required''))
      else if arRouterModel route = [] then (s, Inl (ErrText ''router_model is required''))
      else UpdateRoute now (routeDefaults route) s)"

definition UpsertInstance :: "uuid \<Rightarrow> time \<Rightarrow> RouterInstance \<Rightarrow> pg_state \<Rightarrow> pg_state \<times> RouterInstance result" where
  "UpsertInstance fresh now instance' s =
     (if riCode instance' = [] \<or> riInternalBaseURL instance' = [] then (s, Inl (ErrText ''code and internal_base_url are required''))
      else UpsertRouterInstance now (instance'\<lparr>riID := orNew fresh (riID instance'),
             riStatus := defaultString (riStatus instance') ''active''\<rparr>) s)"

definition UpdateInstance :: "time \<Rightarrow> RouterInstance \<Rightarrow> pg_state \<Rightarrow> pg_state \<times> RouterInstance result" where
  "UpdateInstance now instance' s =
     (if riID instance' = nilUUID then (s, Inl (ErrText ''router_instance_id is required''))
      else if riCode instance' = [] \<or> riInternalBaseURL instance' = [] then (s, Inl (ErrText ''code and internal_base_url are required''))
      else UpdateRouterInstance now (instance'\<lparr>riStatus := defaultString (riStatus instance') ''active''\<rparr>) s)"

text \<open>The route of a request: a bare name that is unknown or retired is tried again as \<^verbatim>\<open>genfity/name\<close>.\<close>

definition ResolveRouteByPublicModel :: "string \<Rightarrow> pg_state \<Rightarrow> (AIModelRoute \<times> AIModel) result" where
  "ResolveRouteByPublicModel publicModel s =
     (let first = GetModelByPublicName publicModel s;
          retry = (\<not> containsStr publicModel ''/''
                   \<and> (case first of Inl _ \<Rightarrow> True | Inr m \<Rightarrow> amStatus m = ''retired''));
          model = (if retry then GetModelByPublicName (''genfity/'' @ publicModel) s else first)
      in case model of
           Inl e \<Rightarrow> Inl e
         | Inr m \<Rightarrow>
             if amStatus m = ''retired'' then Inl ErrModelRetired
             else (case GetRouteByModelID (amID m) s of Inl e \<Rightarrow> Inl e | Inr route \<Rightarrow> Inr (route, m)))"

section \<open>The contract of a catalogue table\<close>

primrec putAll :: "('a \<Rightarrow> 's \<Rightarrow> 's \<times> 'a result) \<Rightarrow> 'a list \<Rightarrow> 's \<Rightarrow> 's \<times> 'a result list" where
  "putAll put [] s = (s, [])"
| "putAll put (x # xs) s = (case put x s of (s1, r) \<Rightarrow> (case putAll put xs s1 of (s2, rs) \<Rightarrow> (s2, r # rs)))"

text \<open>The last row written under a key, or what was there before.\<close>

fun lastWritten :: "('a \<Rightarrow> string) \<Rightarrow> string \<Rightarrow> 'a result \<Rightarrow> 'a list \<Rightarrow> 'a result list \<Rightarrow> 'a result" where
  "lastWritten key k d (x # xs) (r # rs) = lastWritten key k (if key x = k \<and> \<not> isl r then r else d) xs rs"
| "lastWritten key k d _ _ = d"

locale catalog_table =
  fixes put :: "'a \<Rightarrow> 's \<Rightarrow> 's \<times> 'a result"
    and get :: "string \<Rightarrow> 's \<Rightarrow> 'a result"
    and key :: "'a \<Rightarrow> string"
    and ok :: "'s \<Rightarrow> bool"
  assumes put_get: "\<lbrakk>ok s; put x s = (s', Inr y)\<rbrakk> \<Longrightarrow> get (key x) s' = Inr y"
    and put_other: "\<lbrakk>ok s; put x s = (s', Inr y); k \<noteq> key x\<rbrakk> \<Longrightarrow> get k s' = get k s"
    and put_fail: "put x s = (s', Inl e) \<Longrightarrow> s' = s"
    and put_ok: "\<lbrakk>ok s; put x s = (s', r)\<rbrakk> \<Longrightarrow> ok s'"
begin

lemma put_lookup:
  assumes "ok s" "put x s = (s', r)"
  shows "get k s' = (if key x = k \<and> \<not> isl r then r else get k s)"
  using put_get [OF assms(1), of x s'] put_other [OF assms(1), of x s' _ k] put_fail [of x s s'] assms(2)
  by (cases r) auto

lemma putAll_ok: "ok s \<Longrightarrow> ok (fst (putAll put xs s))"
proof (induction xs arbitrary: s)
  case (Cons x xs)
  obtain s1 r where p: "put x s = (s1, r)" by force
  show ?case using Cons.IH [OF put_ok [OF Cons.prems p]] p by (cases "putAll put xs s1") simp
qed simp

lemma putAll_lookup:
  "ok s \<Longrightarrow> get k (fst (putAll put xs s)) = lastWritten key k (get k s) xs (snd (putAll put xs s))"
proof (induction xs arbitrary: s)
  case (Cons x xs)
  obtain s1 r where p: "put x s = (s1, r)" by force
  show ?case
    using Cons.IH [OF put_ok [OF Cons.prems p]] p put_lookup [OF Cons.prems p, of k]
    by (cases "putAll put xs s1") (simp split: if_splits)
qed simp

end

text \<open>What \<^verbatim>\<open>upsertBy\<close> does to lookups by the key.\<close>

lemma upsertBy_spec:
  assumes "upsertBy (\<lambda>r. kf r = k) new merge valid rows = Some (rows', y)" "kf new = k" "\<And>r. kf (merge r) = k"
  shows "find (\<lambda>r. kf r = k) rows' = Some y" "j \<noteq> k \<Longrightarrow> find (\<lambda>r. kf r = j) rows' = find (\<lambda>r. kf r = j) rows" "valid rows'"
proof -
  let ?K = "\<lambda>r. kf r = k"
  have v: "valid rows'" and o: "(find ?K rows = None \<and> rows' = rows @ [new] \<and> y = new)
      \<or> (\<exists>r. find ?K rows = Some r \<and> rows' = updWhere ?K merge rows \<and> y = merge r)"
    using assms(1) by (auto simp: upsertBy_def Let_def split: if_splits option.splits)
  have a: "find ?K (updWhere ?K merge rows) = map_option merge (find ?K rows)"
    by (rule find_updSelf) (use assms(3) in auto)
  show "find ?K rows' = Some y" using o a assms(2) by (auto intro: find_new_last)
  show "valid rows'" by (rule v)
  assume j: "j \<noteq> k"
  have b: "find (\<lambda>r. kf r = j) (updWhere ?K merge rows) = find (\<lambda>r. kf r = j) rows"
    by (rule find_updWhere_other) (use j assms(3) in auto)
  have c: "find (\<lambda>r. kf r = j) (rows @ [new]) = find (\<lambda>r. kf r = j) rows"
    using j assms(2) by (induction rows) auto
  show "find (\<lambda>r. kf r = j) rows' = find (\<lambda>r. kf r = j) rows" using o b c by auto
qed

section \<open>The catalogue invariant\<close>

definition catalogOk :: "pg_state \<Rightarrow> bool" where
  "catalogOk s \<longleftrightarrow> pgUp s \<and> plansOk (pgPlans s) \<and> modelsOk (pgModels s) \<and> pricesOk (pgModels s) (pgPrices s)
     \<and> routesOk (pgModels s) (pgRouters s) (pgRoutes s) \<and> routersOk (pgRouters s) \<and> costsOk (pgCosts s)"

lemma catalogUp: "catalogOk s \<Longrightarrow> pgUp s"
  by (simp add: catalogOk_def)

lemma pricesOk_mono: "pricesOk ms rows \<Longrightarrow> amID ` set ms \<subseteq> amID ` set ms' \<Longrightarrow> pricesOk ms' rows"
  by (auto simp: pricesOk_def list_all_iff)

lemma routesOk_mono:
  "routesOk ms rs rows \<Longrightarrow> amID ` set ms \<subseteq> amID ` set ms' \<Longrightarrow> routersServe rows rs' \<Longrightarrow> routesOk ms' rs' rows"
  by (auto simp: routesOk_def routersServe_def list_all_iff)

lemma routesOk_serve: "routesOk ms rs rows \<Longrightarrow> riCode ` set rs \<subseteq> riCode ` set rs' \<Longrightarrow> routersServe rows rs'"
  by (auto simp: routesOk_def routersServe_def list_all_iff)

lemma upsertBy_image:
  assumes "upsertBy key new merge valid rows = Some (rows', y)" "\<And>r. key r \<Longrightarrow> g (merge r) = g r"
  shows "g ` set rows \<subseteq> g ` set rows'" "valid rows'"
proof -
  have "g ` set rows = g ` set (updWhere key merge rows)"
    unfolding set_updWhere image_image using assms(2) by (intro image_cong) auto
  then show "g ` set rows \<subseteq> g ` set rows'" "valid rows'"
    using assms(1) by (auto simp: upsertBy_def Let_def split: if_splits option.splits)
qed

lemma updateBy_image:
  assumes "updateBy key merge valid rows = Inr (rows', y)" "\<And>r. key r \<Longrightarrow> g (merge r) = g r"
  shows "g ` set rows \<subseteq> g ` set rows'"
proof -
  have "g ` set rows = g ` set (updWhere key merge rows)"
    unfolding set_updWhere image_image using assms(2) by (intro image_cong) auto
  then show ?thesis
    using assms(1) by (auto simp: updateBy_def Let_def split: if_splits option.splits)
qed

lemma updateBy_valid: "updateBy key merge valid rows = Inr (rows', y) \<Longrightarrow> valid rows'"
  by (auto simp: updateBy_def Let_def split: if_splits option.splits)

lemma setModels_ok:
  assumes "catalogOk s" "modelsOk rows" "amID ` set (pgModels s) \<subseteq> amID ` set rows"
  shows "catalogOk (s\<lparr>pgModels := rows\<rparr>)"
  using assms pricesOk_mono [of "pgModels s" "pgPrices s" rows]
    routesOk_mono [of "pgModels s" "pgRouters s" "pgRoutes s" rows "pgRouters s"] routesOk_serve
  by (auto simp: catalogOk_def pgUp_def)

lemma setRouters_ok:
  assumes "catalogOk s" "routersOk rows" "routersServe (pgRoutes s) rows"
  shows "catalogOk (s\<lparr>pgRouters := rows\<rparr>)"
  using assms routesOk_mono [of "pgModels s" "pgRouters s" "pgRoutes s" "pgModels s" rows]
  by (auto simp: catalogOk_def pgUp_def)

lemma setOther_ok:
  "catalogOk s \<Longrightarrow> plansOk ps \<Longrightarrow> catalogOk (s\<lparr>pgPlans := ps\<rparr>)"
  "catalogOk s \<Longrightarrow> pricesOk (pgModels s) prs \<Longrightarrow> catalogOk (s\<lparr>pgPrices := prs\<rparr>)"
  "catalogOk s \<Longrightarrow> routesOk (pgModels s) (pgRouters s) rts \<Longrightarrow> catalogOk (s\<lparr>pgRoutes := rts\<rparr>)"
  "catalogOk s \<Longrightarrow> costsOk cs \<Longrightarrow> catalogOk (s\<lparr>pgCosts := cs\<rparr>)"
  "catalogOk s \<Longrightarrow> catalogOk (s\<lparr>pgLedger := es\<rparr>)"
  by (auto simp: catalogOk_def pgUp_def)

lemma UpsertModel_ok [inv_intros]: "catalogOk s \<Longrightarrow> catalogOk (fst (UpsertModel now item s))"
proof -
  assume c: "catalogOk s"
  have "catalogOk (s\<lparr>pgModels := rows\<rparr>)"
    if "upsertBy (\<lambda>r. amPublicModel r = amPublicModel item) (modelRow now item)
      (\<lambda>r. (modelRow now item)\<lparr>amID := amID r, amCreatedAt := amCreatedAt r\<rparr>) modelsOk (pgModels s) = Some (rows, saved)" for rows saved
    using upsertBy_image [OF that, of amID] by (intro setModels_ok [OF c]) auto
  then show ?thesis
    using c catalogUp [OF c] by (auto simp: UpsertModel_def Let_def split: option.splits)
qed

lemma UpdateModel_ok [inv_intros]: "catalogOk s \<Longrightarrow> catalogOk (fst (UpdateModel now item s))"
proof -
  assume c: "catalogOk s"
  have "catalogOk (s\<lparr>pgModels := rows\<rparr>)"
    if "updateBy (\<lambda>r. amID r = amID item) (\<lambda>r. (modelRow now item)\<lparr>amCreatedAt := amCreatedAt r\<rparr>) modelsOk (pgModels s)
      = Inr (rows, saved)" for rows saved
    using updateBy_image [OF that, of amID] updateBy_valid [OF that]
    by (intro setModels_ok [OF c]) (auto simp: modelRow_def)
  then show ?thesis
    using c catalogUp [OF c] by (auto simp: UpdateModel_def split: sum.splits)
qed

lemma UpdateModelStatus_ok [inv_intros]: "catalogOk s \<Longrightarrow> catalogOk (fst (UpdateModelStatus now i st s))"
proof -
  assume c: "catalogOk s"
  let ?rows = "updWhere (\<lambda>r. amID r = i) (\<lambda>r. r\<lparr>amStatus := st, amUpdatedAt := now\<rparr>) (pgModels s)"
  have m: "map amID ?rows = map amID (pgModels s)" "map amPublicModel ?rows = map amPublicModel (pgModels s)"
    by (auto simp: updWhere_def)
  then have "modelsOk ?rows" using c by (simp add: catalogOk_def modelsOk_def)
  moreover have "amID ` set (pgModels s) \<subseteq> amID ` set ?rows" using m(1) by (metis list.set_map order_refl)
  ultimately show ?thesis
    using c catalogUp [OF c] setModels_ok [OF c] by (simp add: UpdateModelStatus_def)
qed

lemma distinct_map_filter2: "distinct (map f (filter Q rows)) \<Longrightarrow> distinct (map f (filter Q (filter P rows)))"
  by (induction rows) auto

lemma DeleteModel_ok [inv_intros]: "catalogOk s \<Longrightarrow> catalogOk (fst (DeleteModel i s))"
  using catalogUp [of s]
  by (auto simp: DeleteModel_def catalogOk_def pgUp_def modelsOk_def pricesOk_def routesOk_def list_all_iff image_iff
      distinct_map_filter distinct_map_filter2 simp del: filter_filter)

lemma upsertBy_valid: "upsertBy key new merge valid rows = Some (rows', y) \<Longrightarrow> valid rows'"
  by (auto simp: upsertBy_def Let_def split: if_splits)

lemma UpsertPlan_ok [inv_intros]: "catalogOk s \<Longrightarrow> catalogOk (fst (UpsertPlan N now item s))"
  using catalogUp [of s] setOther_ok(1) [of s]
  by (auto simp: UpsertPlan_def split: option.splits dest: upsertBy_valid)

lemma UpsertPrice_ok [inv_intros]: "catalogOk s \<Longrightarrow> catalogOk (fst (UpsertPrice now price s))"
  using catalogUp [of s] setOther_ok(2) [of s]
  by (auto simp: UpsertPrice_def split: option.splits dest: upsertBy_valid)

lemma UpdatePrice_ok [inv_intros]: "catalogOk s \<Longrightarrow> catalogOk (fst (UpdatePrice now price s))"
  using catalogUp [of s] setOther_ok(2) [of s]
  by (auto simp: UpdatePrice_def split: option.splits sum.splits dest: updateBy_valid)

lemma DeletePrice_ok [inv_intros]: "catalogOk s \<Longrightarrow> catalogOk (fst (DeletePrice i s))"
  using catalogUp [of s]
  by (auto simp: DeletePrice_def catalogOk_def pgUp_def pricesOk_def list_all_iff distinct_map_filter distinct_map_filter2
      simp del: filter_filter)

lemma UpsertRoute_ok [inv_intros]: "catalogOk s \<Longrightarrow> catalogOk (fst (UpsertRoute now route s))"
  using catalogUp [of s] setOther_ok(3) [of s]
  by (auto simp: UpsertRoute_def Let_def split: option.splits dest: upsertBy_valid)

lemma UpdateRoute_ok [inv_intros]: "catalogOk s \<Longrightarrow> catalogOk (fst (UpdateRoute now route s))"
  using catalogUp [of s] setOther_ok(3) [of s]
  by (auto simp: UpdateRoute_def split: sum.splits dest: updateBy_valid)

lemma DeleteRoute_ok [inv_intros]: "catalogOk s \<Longrightarrow> catalogOk (fst (DeleteRoute i s))"
  using catalogUp [of s]
  by (auto simp: DeleteRoute_def catalogOk_def pgUp_def routesOk_def list_all_iff distinct_map_filter distinct_map_filter2
      simp del: filter_filter)

lemma UpsertRouterInstance_ok [inv_intros]: "catalogOk s \<Longrightarrow> catalogOk (fst (UpsertRouterInstance now item s))"
proof -
  assume c: "catalogOk s"
  have "catalogOk (s\<lparr>pgRouters := rows\<rparr>)"
    if "upsertBy (\<lambda>r. riCode r = riCode item) (routerRow now item)
      (\<lambda>r. (routerRow now item)\<lparr>riID := riID r, riCreatedAt := riCreatedAt r\<rparr>) routersOk (pgRouters s) = Some (rows, saved)" for rows saved
    using upsertBy_image [OF that, of riCode] c
    by (intro setRouters_ok [OF c] routesOk_serve [of "pgModels s" "pgRouters s"]) (auto simp: routerRow_def catalogOk_def)
  then show ?thesis
    using c catalogUp [OF c] by (auto simp: UpsertRouterInstance_def Let_def split: option.splits)
qed

lemma UpdateRouterInstance_ok [inv_intros]: "catalogOk s \<Longrightarrow> catalogOk (fst (UpdateRouterInstance now item s))"
  using catalogUp [of s] setRouters_ok [of s]
  by (auto simp: UpdateRouterInstance_def split: sum.splits dest: updateBy_valid)

lemma DeleteRouterInstance_ok [inv_intros]: "catalogOk s \<Longrightarrow> catalogOk (fst (DeleteRouterInstance i s))"
proof -
  assume c: "catalogOk s"
  then have "routersOk (filter (\<lambda>r. riID r \<noteq> i) (pgRouters s))"
    by (simp add: catalogOk_def routersOk_def distinct_map_filter)
  then show ?thesis using c catalogUp [OF c] setRouters_ok [OF c] by (simp add: DeleteRouterInstance_def Let_def)
qed

lemma UpsertModelCreditCost_ok [inv_intros]: "catalogOk s \<Longrightarrow> catalogOk (fst (UpsertModelCreditCost fresh now cost s))"
  using catalogUp [of s] setOther_ok(4) [of s]
  by (auto simp: UpsertModelCreditCost_def Let_def split: option.splits dest: upsertBy_valid)

lemma AppendUsage_ok [inv_intros]: "catalogOk s \<Longrightarrow> catalogOk (fst (AppendUsage now e s))"
  using catalogUp [of s] setOther_ok(5) [of s] by (auto simp: AppendUsage_def split: option.splits)

text \<open>One administrative or synchronisation request on the catalogue.\<close>

inductive catalogStep :: "pg_state \<Rightarrow> pg_state \<Rightarrow> bool" where
  cs_plan: "catalogStep s (fst (UpsertPlan N now plan s))"
| cs_create: "catalogStep s (fst (CreateModel fresh now model s))"
| cs_model: "catalogStep s (fst (serviceUpdateModel now model s))"
| cs_status: "catalogStep s (fst (UpdateModelStatus now i status s))"
| cs_delete: "catalogStep s (fst (serviceDeleteModel i s))"
| cs_price: "catalogStep s (fst (serviceUpsertPrice fresh now price s))"
| cs_reprice: "catalogStep s (fst (serviceUpdatePrice now price s))"
| cs_unprice: "catalogStep s (fst (DeletePrice i s))"
| cs_route: "catalogStep s (fst (serviceUpsertRoute fresh now route s))"
| cs_reroute: "catalogStep s (fst (serviceUpdateRoute now route s))"
| cs_unroute: "catalogStep s (fst (DeleteRoute i s))"
| cs_router: "catalogStep s (fst (UpsertInstance fresh now inst s))"
| cs_rerouter: "catalogStep s (fst (UpdateInstance now inst s))"
| cs_unrouter: "catalogStep s (fst (DeleteRouterInstance i s))"
| cs_cost: "catalogStep s (fst (UpsertModelCreditCost fresh now cost s))"
| cs_usage: "catalogStep s (fst (AppendUsage now entry s))"

lemma catalogStep_ok: "catalogStep s s' \<Longrightarrow> catalogOk s \<Longrightarrow> catalogOk s'"
  by (induction rule: catalogStep.induct)
    (auto simp: CreateModel_def serviceUpdateModel_def serviceDeleteModel_def serviceUpsertPrice_def serviceUpdatePrice_def
      serviceUpsertRoute_def serviceUpdateRoute_def UpsertInstance_def UpdateInstance_def intro: inv_intros)

lemma catalogSteps_ok: "catalogStep\<^sup>*\<^sup>* s s' \<Longrightarrow> catalogOk s \<Longrightarrow> catalogOk s'"
  by (induction rule: rtranclp_induct) (auto intro: catalogStep_ok)

section \<open>Interpretations\<close>

lemma firstRow_find: "firstRow P rows = (case find P rows of None \<Rightarrow> Inl ErrNotFound | Some r \<Rightarrow> Inr r)"
  by (simp add: firstRow_def)

lemma planRow_code: "planRow N now item = Some new \<Longrightarrow> spPlanCode new = spPlanCode item"
  by (auto simp: planRow_def split: option.splits)

interpretation planTable: catalog_table "UpsertPlan N now" GetPlanByCode spPlanCode catalogOk for N now
proof (unfold_locales, goal_cases)
  case (1 s x s' y)
  then have up: "pgUp s" by (simp add: catalogUp)
  obtain new rows where n: "planRow N now x = Some new" and u: "s' = s\<lparr>pgPlans := rows\<rparr>"
    "upsertBy (\<lambda>r. spPlanCode r = spPlanCode x) new (\<lambda>r. new\<lparr>spID := spID r, spCreatedAt := spCreatedAt r\<rparr>) plansOk (pgPlans s) = Some (rows, y)"
    using 1 up by (auto simp: UpsertPlan_def split: option.splits if_splits)
  have "find (\<lambda>r. spPlanCode r = spPlanCode x) rows = Some y"
    by (rule upsertBy_spec(1) [OF u(2)]) (simp_all add: planRow_code [OF n])
  then show ?case using up u(1) by (simp add: GetPlanByCode_def firstRow_def pgRead_def pgUp_def)
next
  case (2 s x s' y k)
  then have up: "pgUp s" by (simp add: catalogUp)
  obtain new rows where n: "planRow N now x = Some new" and u: "s' = s\<lparr>pgPlans := rows\<rparr>"
    "upsertBy (\<lambda>r. spPlanCode r = spPlanCode x) new (\<lambda>r. new\<lparr>spID := spID r, spCreatedAt := spCreatedAt r\<rparr>) plansOk (pgPlans s) = Some (rows, y)"
    using 2 up by (auto simp: UpsertPlan_def split: option.splits if_splits)
  have "find (\<lambda>r. spPlanCode r = k) rows = find (\<lambda>r. spPlanCode r = k) (pgPlans s)"
    by (rule upsertBy_spec(2) [OF u(2)]) (simp_all add: planRow_code [OF n] 2)
  then show ?case using u(1) up by (simp add: GetPlanByCode_def firstRow_def pgRead_def pgUp_def)
next
  case (3 x s s' e)
  then show ?case by (auto simp: UpsertPlan_def pgRun_def split: option.splits if_splits)
next
  case (4 s x s' r)
  then show ?case using UpsertPlan_ok by (metis fst_conv)
qed

lemma modelRow_name [simp]: "amPublicModel (modelRow now m) = amPublicModel m"
  by (simp add: modelRow_def)

lemma distinct_filter_single: "distinct (map f rows) \<Longrightarrow> filter (\<lambda>r. f r = k) rows
    = (case find (\<lambda>r. f r = k) rows of None \<Rightarrow> [] | Some r \<Rightarrow> [r])"
  by (induction rows) (auto simp: filter_empty_conv split: option.splits dest!: find_SomeD)

text \<open>With unique names the preference for active rows has nothing to choose from.\<close>

lemma GetModelByPublicName_first:
  "modelsOk (pgModels s) \<Longrightarrow> GetModelByPublicName m s = pgRead (\<lambda>s. firstRow (\<lambda>r. amPublicModel r = m) (pgModels s)) s"
  by (simp add: GetModelByPublicName_def pgRead_def firstRow_def modelsOk_def distinct_filter_single split: option.splits)

lemma UpsertModel_success:
  assumes "catalogOk s" "UpsertModel now x s = (s', Inr y)"
  obtains rows where "s' = s\<lparr>pgModels := rows\<rparr>" "upsertBy (\<lambda>r. amPublicModel r = amPublicModel x) (modelRow now x)
      (\<lambda>r. (modelRow now x)\<lparr>amID := amID r, amCreatedAt := amCreatedAt r\<rparr>) modelsOk (pgModels s) = Some (rows, y)"
  using assms catalogUp [OF assms(1)] by (auto simp: UpsertModel_def Let_def split: option.splits if_splits)

interpretation modelTable: catalog_table "UpsertModel now" GetModelByPublicName amPublicModel catalogOk for now
proof (unfold_locales, goal_cases)
  case (1 s x s' y)
  obtain rows where u: "s' = s\<lparr>pgModels := rows\<rparr>" "upsertBy (\<lambda>r. amPublicModel r = amPublicModel x) (modelRow now x)
      (\<lambda>r. (modelRow now x)\<lparr>amID := amID r, amCreatedAt := amCreatedAt r\<rparr>) modelsOk (pgModels s) = Some (rows, y)"
    using UpsertModel_success [OF 1] .
  have "find (\<lambda>r. amPublicModel r = amPublicModel x) rows = Some y" "modelsOk rows"
    by (rule upsertBy_spec [OF u(2)]; simp)+
  then show ?case
    using catalogUp [OF 1(1)] u(1) by (simp add: GetModelByPublicName_first firstRow_def pgRead_def pgUp_def)
next
  case (2 s x s' y k)
  obtain rows where u: "s' = s\<lparr>pgModels := rows\<rparr>" "upsertBy (\<lambda>r. amPublicModel r = amPublicModel x) (modelRow now x)
      (\<lambda>r. (modelRow now x)\<lparr>amID := amID r, amCreatedAt := amCreatedAt r\<rparr>) modelsOk (pgModels s) = Some (rows, y)"
    using UpsertModel_success [OF 2(1,2)] .
  have "find (\<lambda>r. amPublicModel r = k) rows = find (\<lambda>r. amPublicModel r = k) (pgModels s)"
    by (rule upsertBy_spec(2) [OF u(2)]) (simp_all add: 2)
  moreover have "modelsOk rows" by (rule upsertBy_valid [OF u(2)])
  ultimately show ?case using 2(1) u(1) by (simp add: GetModelByPublicName_first firstRow_def pgRead_def catalogOk_def pgUp_def)
next
  case (3 x s s' e)
  then show ?case by (auto simp: UpsertModel_def pgRun_def Let_def split: option.splits if_splits)
next
  case (4 s x s' r)
  then show ?case using UpsertModel_ok by (metis fst_conv)
qed

section \<open>Properties\<close>

lemma firstRow_Inr: "firstRow P rows = Inr r \<longleftrightarrow> find P rows = Some r"
  by (auto simp: firstRow_def split: option.splits)

lemma resolve_sound:
  assumes "catalogOk s" "ResolveRouteByPublicModel m s = Inr (route, model)"
  shows "model \<in> set (pgModels s) \<and> amStatus model \<noteq> ''retired'' \<and> (amPublicModel model = m \<or> amPublicModel model = ''genfity/'' @ m)
    \<and> route \<in> set (pgRoutes s) \<and> arStatus route = ''active'' \<and> arModelID route = amID model"
proof -
  have up: "pgUp s" and mo: "modelsOk (pgModels s)" using assms(1) by (auto simp: catalogOk_def)
  have nm: "model \<in> set (pgModels s) \<and> amPublicModel model = n" if "GetModelByPublicName n s = Inr model" for n
    using that up by (auto simp: GetModelByPublicName_first [OF mo] firstRow_Inr dest: find_SomeD)
  have "GetModelByPublicName m s = Inr model \<or> GetModelByPublicName (''genfity/'' @ m) s = Inr model"
    "amStatus model \<noteq> ''retired''" "GetRouteByModelID (amID model) s = Inr route"
    using assms(2) by (auto simp: ResolveRouteByPublicModel_def Let_def split: sum.splits if_splits)
  then show ?thesis
    using nm up by (auto simp: GetRouteByModelID_def firstRow_Inr dest: find_SomeD)
qed

text \<open>A catalogue with one active model, a retired bare name and one router, for the examples.\<close>

definition sampleAIModel :: "uuid \<Rightarrow> string \<Rightarrow> string \<Rightarrow> AIModel" where
  "sampleAIModel i name st = \<lparr>amID = i, amPublicModel = name, amDisplayName = name, amDescription = [], amStatus = st,
     amModelType = ''text'', amContextWindow = None, amSupportsStreaming = True, amSupportsTools = True, amSupportsVision = False,
     amPaygExposed = True, amIsFree = False, amFreeLimitRPD = None, amFreeLimitRPM = None, amFreeLimitTPD = None,
     amCreatedAt = 0, amUpdatedAt = 0\<rparr>"

definition sampleCatalog :: pg_state where
  "sampleCatalog = pgEmpty\<lparr>
     pgModels := [sampleAIModel 1 ''sonnet'' ''retired'', sampleAIModel 2 ''genfity/sonnet'' ''active''],
     pgRouters := [\<lparr>riID = 3, riCode = ''ai-core2'', riPublicBaseURL = None, riInternalBaseURL = ''http://core'',
       riStatus = ''active'', riEncryptedAPIKey = None, riHealthStatus = None, riLastHealthCheckAt = None,
       riMetadata = None, riCreatedAt = 0\<rparr>],
     pgRoutes := [\<lparr>arID = 4, arModelID = 2, arRouterInstanceCode = ''ai-core2'', arRouterModel = ''claude'',
       arStatus = ''active'', arMetadata = None, arCreatedAt = 0\<rparr>]\<rparr>"

lemma sampleCatalog_ok: "catalogOk sampleCatalog"
  by code_simp

text \<open>
  C25.  Whatever administrators and the synchronisation do to the catalogue, one request at a time, a model
  name that resolves resolves to a model that is not retired, under that name or its \<^verbatim>\<open>genfity/\<close>
  form, to that model's only active route, and to a router instance that exists.
\<close>

theorem routing_sound:
  assumes "catalogOk s0" "catalogStep\<^sup>*\<^sup>* s0 s" "ResolveRouteByPublicModel m s = Inr (route, model)"
  shows "amStatus model \<noteq> ''retired'' \<and> (amPublicModel model = m \<or> amPublicModel model = ''genfity/'' @ m)
    \<and> filter (\<lambda>r. arModelID r = amID model \<and> arStatus r = ''active'') (pgRoutes s) = [route]
    \<and> (\<exists>inst. GetRouterInstance (arRouterInstanceCode route) s = Inr inst)"
proof -
  have c: "catalogOk s" by (rule catalogSteps_ok [OF assms(2,1)])
  then have up: "pgUp s" and ro: "routesOk (pgModels s) (pgRouters s) (pgRoutes s)" by (auto simp: catalogOk_def)
  note r = resolve_sound [OF c assms(3)]
  let ?act = "filter (\<lambda>r. arStatus r = ''active'') (pgRoutes s)"
  have split: "filter (\<lambda>r. arModelID r = amID model \<and> arStatus r = ''active'') (pgRoutes s) = filter (\<lambda>r. arModelID r = amID model) ?act"
    by (simp add: conj_commute)
  have "filter (\<lambda>r. arModelID r = amID model) ?act
      = (case find (\<lambda>r. arModelID r = amID model) ?act of None \<Rightarrow> [] | Some x \<Rightarrow> [x])"
    using ro by (intro distinct_filter_single) (simp add: routesOk_def)
  moreover have "route \<in> set (filter (\<lambda>r. arModelID r = amID model) ?act)" using r by simp
  ultimately have one: "filter (\<lambda>r. arModelID r = amID model) ?act = [route]" by (auto split: option.splits)
  have "arRouterInstanceCode route \<in> riCode ` set (pgRouters s)" using ro r by (auto simp: routesOk_def list_all_iff)
  then obtain inst where "find (\<lambda>x. riCode x = arRouterInstanceCode route) (pgRouters s) = Some inst"
    by (cases "find (\<lambda>x. riCode x = arRouterInstanceCode route) (pgRouters s)") (auto simp: find_None_iff_all)
  then have "GetRouterInstance (arRouterInstanceCode route) s = Inr inst"
    using up by (simp add: GetRouterInstance_def firstRow_def)
  then show ?thesis using r one split by auto
qed

theorem routing_sound_witness:
  "\<exists>route model. ResolveRouteByPublicModel ''sonnet'' sampleCatalog = Inr (route, model)
     \<and> amPublicModel model = ''genfity/sonnet'' \<and> amStatus model \<noteq> ''retired''"
proof -
  have "\<not> isl (ResolveRouteByPublicModel ''sonnet'' sampleCatalog)
    \<and> amID (snd (projr (ResolveRouteByPublicModel ''sonnet'' sampleCatalog))) = 2
    \<and> amPublicModel (snd (projr (ResolveRouteByPublicModel ''sonnet'' sampleCatalog))) = ''genfity/sonnet''" by code_simp
  then obtain route model where r: "ResolveRouteByPublicModel ''sonnet'' sampleCatalog = Inr (route, model)"
    "amPublicModel model = ''genfity/sonnet''"
    by (cases "ResolveRouteByPublicModel ''sonnet'' sampleCatalog") auto
  then show ?thesis using routing_sound [OF sampleCatalog_ok rtranclp.rtrancl_refl r(1)] by auto
qed

text \<open>
  A batch of models, written one after the other with failures skipped, leaves under each name exactly the
  last version that was saved, and what was there before where none was.
\<close>

theorem model_batch_last_wins:
  assumes "catalogOk s"
  shows "GetModelByPublicName m (fst (putAll (UpsertModel now) items s))
    = lastWritten amPublicModel m (GetModelByPublicName m s) items (snd (putAll (UpsertModel now) items s))"
  by (rule modelTable.putAll_lookup [OF assms])

theorem model_batch_last_wins_witness:
  "GetModelByPublicName ''sonnet'' (fst (putAll (UpsertModel 5) [sampleAIModel 9 ''sonnet'' ''active''] sampleCatalog))
     = lastWritten amPublicModel ''sonnet'' (GetModelByPublicName ''sonnet'' sampleCatalog) [sampleAIModel 9 ''sonnet'' ''active'']
         (snd (putAll (UpsertModel 5) [sampleAIModel 9 ''sonnet'' ''active''] sampleCatalog))"
  by (rule model_batch_last_wins [OF sampleCatalog_ok])

end
