(* ===== verification/ApiKeys.thy ===== *)
theory ApiKeys
  imports PgCatalog Redis
begin

text \<open>
  API keys: the statements on the \<^verbatim>\<open>api_keys\<close> table (\<^verbatim>\<open>postgres_store.go\<close>), the Redis read-through
  cache (\<^verbatim>\<open>cache.go\<close>) and the key service (\<^verbatim>\<open>api_key_service.go\<close>).  HMAC-SHA256 keyed with the pepper is the
  parameter \<^verbatim>\<open>mac\<close>, the JSON coding of a cached key the pair of functions in the cache record, and the random
  bytes of a new key an argument.  The lemmas show that a key is accepted only on a matching hash of a
  record that is active and unexpired, that a created key works, and that a revoked or regenerated key stops
  working at once, cached or not.
\<close>

section \<open>The table\<close>

definition keysOk :: "APIKey list \<Rightarrow> bool" where
  "keysOk rows \<longleftrightarrow> distinct (map akID rows) \<and> distinct (map akKeyPrefix rows)
     \<and> list_all (\<lambda>r. akBillingSource r = ''subscription'' \<or> akBillingSource r = ''credit'' \<or> akBillingSource r = ''payg'') rows"

definition keyRow :: "time \<Rightarrow> APIKey \<Rightarrow> APIKey" where
  "keyRow now item = item\<lparr>akStatus := defaultString (akStatus item) ''active'',
     akBillingSource := defaultString (akBillingSource item) ''subscription'',
     akLastUsedAt := map_option pgTs (akLastUsedAt item), akExpiresAt := map_option pgTs (akExpiresAt item),
     akCreatedAt := pgTs (defaultTime now (akCreatedAt item)), akRegeneratedAt := map_option pgTs (akRegeneratedAt item),
     akRevokedAt := map_option pgTs (akRevokedAt item)\<rparr>"

definition UpsertAPIKey :: "time \<Rightarrow> APIKey \<Rightarrow> pg_state \<Rightarrow> pg_state \<times> APIKey result" where
  "UpsertAPIKey now item = pgRun (\<lambda>s.
     let new = keyRow now item in
     if akID item = nilUUID then (s, Inl constraintError)
     else (case upsertBy (\<lambda>r. akID r = akID item) new
             (\<lambda>r. new\<lparr>akGenfityUserID := akGenfityUserID r, akGenfityTenantID := akGenfityTenantID r, akCreatedAt := akCreatedAt r\<rparr>)
             keysOk (pgKeys s) of
             None \<Rightarrow> (s, Inl constraintError)
           | Some (rows, saved) \<Rightarrow> (s\<lparr>pgKeys := rows\<rparr>, Inr saved)))"

definition ListAPIKeysByUser :: "string \<Rightarrow> pg_state \<Rightarrow> APIKey list" where
  "ListAPIKeysByUser userID = pgList (\<lambda>s. sort_key (\<lambda>r. - akCreatedAt r) (filter (\<lambda>r. akGenfityUserID r = userID) (pgKeys s)))"

definition FindAPIKeyByPrefix :: "string \<Rightarrow> pg_state \<Rightarrow> APIKey result" where
  "FindAPIKeyByPrefix p = pgRead (\<lambda>s. firstRow (\<lambda>r. akKeyPrefix r = p) (pgKeys s))"

definition GetAPIKeyByID :: "uuid \<Rightarrow> pg_state \<Rightarrow> APIKey result" where
  "GetAPIKeyByID i = pgRead (\<lambda>s. firstRow (\<lambda>r. akID r = i) (pgKeys s))"

definition execKeys :: "uuid \<Rightarrow> (APIKey \<Rightarrow> APIKey) \<Rightarrow> pg_state \<Rightarrow> pg_state \<times> unit result" where
  "execKeys i f = pgRun (\<lambda>s.
     let rows = updWhere (\<lambda>r. akID r = i) f (pgKeys s) in
     if affected (\<lambda>r. akID r = i) (pgKeys s) = 0 then (s, Inl ErrNotFound)
     else if \<not> keysOk rows then (s, Inl constraintError)
     else (s\<lparr>pgKeys := rows\<rparr>, Inr ()))"

definition RevokeAPIKey :: "uuid \<Rightarrow> time \<Rightarrow> pg_state \<Rightarrow> pg_state \<times> unit result" where
  "RevokeAPIKey i revokedAt = execKeys i (\<lambda>r. r\<lparr>akStatus := ''revoked'', akRevokedAt := Some (pgTs revokedAt)\<rparr>)"

definition UpdateAPIKeyStatus :: "time \<Rightarrow> uuid \<Rightarrow> string \<Rightarrow> pg_state \<Rightarrow> pg_state \<times> unit result" where
  "UpdateAPIKeyStatus now i status = execKeys i (\<lambda>r. r\<lparr>akStatus := status,
     akRevokedAt := (if status = ''revoked'' then Some now else None)\<rparr>)"

definition UpdateAPIKeyBillingSource :: "uuid \<Rightarrow> string \<Rightarrow> pg_state \<Rightarrow> pg_state \<times> unit result" where
  "UpdateAPIKeyBillingSource i source = execKeys i (\<lambda>r. r\<lparr>akBillingSource := source\<rparr>)"

text \<open>No error when the key does not exist.\<close>

definition UpdateAPIKeyLastUsedAt :: "uuid \<Rightarrow> time \<Rightarrow> pg_state \<Rightarrow> pg_state \<times> unit result" where
  "UpdateAPIKeyLastUsedAt i ts = pgRun (\<lambda>s.
     (s\<lparr>pgKeys := updWhere (\<lambda>r. akID r = i) (\<lambda>r. r\<lparr>akLastUsedAt := Some (pgTs ts)\<rparr>) (pgKeys s)\<rparr>, Inr ()))"

section \<open>The cache\<close>

text \<open>A cache is a Redis server, a key prefix and a JSON coding; \<open>None\<close> is the disabled cache.\<close>

record ('r, 'a) Cache =
  caRedis :: "'r redis_api"
  caPrefix :: string
  caMarshal :: "'a \<Rightarrow> string"
  caUnmarshal :: "string \<Rightarrow> 'a option"

definition cacheKey :: "('r, 'a) Cache \<Rightarrow> string \<Rightarrow> string \<Rightarrow> string" where
  "cacheKey c namespace i = caPrefix c @ '':v1:'' @ namespace @ '':'' @ i"

definition decodeCell :: "('r, 'a) Cache \<Rightarrow> rval \<Rightarrow> 'a option" where
  "decodeCell c v = (case v of RText t \<Rightarrow> caUnmarshal c t | _ \<Rightarrow> None)"

definition cacheGet :: "('r, 'a) Cache option \<Rightarrow> string \<Rightarrow> string \<Rightarrow> 'r \<Rightarrow> 'r \<times> 'a result" where
  "cacheGet co namespace i r = (case co of
       None \<Rightarrow> (r, Inl ErrMiss)
     | Some c \<Rightarrow>
         (case redisGet (caRedis c) (cacheKey c namespace i) r of
            (r1, Inr (Some v)) \<Rightarrow>
              (case decodeCell c v of
                 Some x \<Rightarrow> (r1, Inr x)
               | None \<Rightarrow> (fst (redisDel (caRedis c) (cacheKey c namespace i) r1), Inl ErrMiss))
          | (r1, _) \<Rightarrow> (r1, Inl ErrMiss)))"

definition cacheSet :: "('r, 'a) Cache option \<Rightarrow> string \<Rightarrow> string \<Rightarrow> 'a \<Rightarrow> duration \<Rightarrow> 'r \<Rightarrow> 'r" where
  "cacheSet co namespace i v ttl r = (case co of
       None \<Rightarrow> r
     | Some c \<Rightarrow> if ttl \<le> 0 then r else fst (redisSet (caRedis c) (cacheKey c namespace i) (RText (caMarshal c v)) ttl r))"

definition cacheDel :: "('r, 'a) Cache option \<Rightarrow> string \<Rightarrow> string \<Rightarrow> 'r \<Rightarrow> 'r" where
  "cacheDel co namespace i r = (case co of None \<Rightarrow> r | Some c \<Rightarrow> fst (redisDel (caRedis c) (cacheKey c namespace i) r))"

section \<open>The key service\<close>

type_synonym 'r keyCache = "('r, APIKey) Cache option"

definition apiKeyCacheNamespace :: string where
  "apiKeyCacheNamespace = ''apikey''"

definition apiKeyCacheTTL :: duration where
  "apiKeyCacheTTL = 30 * nsSecond"

definition apiKeyPrefixLen :: nat where
  "apiKeyPrefixLen = 16"

definition hexDigit :: "nat \<Rightarrow> char" where
  "hexDigit n = ''0123456789abcdef'' ! (n mod 16)"

definition hexEncode :: "nat list \<Rightarrow> string" where
  "hexEncode bytes = concat (map (\<lambda>b. [hexDigit (b div 16), hexDigit b]) bytes)"

text \<open>\<open>buf\<close> is what \<^verbatim>\<open>rand.Read\<close> delivered: 20 bytes, or an error.\<close>

definition generateRawAPIKey :: "nat list option \<Rightarrow> (string \<times> string) result" where
  "generateRawAPIKey buf = (case buf of
       None \<Rightarrow> Inl (ErrText ''generate api key'')
     | Some bytes \<Rightarrow> let raw = ''genfity_'' @ hexEncode bytes in Inr (raw, take apiKeyPrefixLen raw))"

definition defaultStatus :: "string \<Rightarrow> string" where
  "defaultStatus status = (let st = toLower (trimSpace status) in
     if st = ''inactive'' \<or> st = ''revoked'' then st else ''active'')"

definition validBillingSource :: "string \<Rightarrow> bool" where
  "validBillingSource source \<longleftrightarrow> source = ''subscription'' \<or> source = ''credit'' \<or> source = ''payg''"

definition defaultBillingSource :: "string \<Rightarrow> string" where
  "defaultBillingSource source = (let src = toLower (trimSpace source) in
     if validBillingSource src then src else ''subscription'')"

definition extractPrefix :: "string \<Rightarrow> string" where
  "extractPrefix raw =
     (if hasPrefix raw ''genfity_'' \<and> length raw > apiKeyPrefixLen then take apiKeyPrefixLen raw
      else if hasPrefix raw ''sk_genfity_live_'' \<and> length raw > 20 then take 20 raw
      else [])"

record CreateAPIKeyInput =
  ciUserID :: string
  ciTenantID :: "string option"
  ciName :: string
  ciStatus :: string
  ciBillingSource :: string
  ciExpiresAt :: "time option"

definition newAPIKey :: "uuid \<Rightarrow> time \<Rightarrow> CreateAPIKeyInput \<Rightarrow> string \<Rightarrow> string \<Rightarrow> APIKey" where
  "newAPIKey fresh now input pfx hash =
     \<lparr>akID = fresh, akGenfityUserID = ciUserID input, akGenfityTenantID = ciTenantID input,
      akName = trimSpace (ciName input), akKeyPrefix = pfx, akKeyHash = hash, akStatus = defaultStatus (ciStatus input),
      akBillingSource = defaultBillingSource (ciBillingSource input), akLastUsedAt = None, akExpiresAt = ciExpiresAt input,
      akCreatedAt = now, akRegeneratedAt = None, akRevokedAt = None\<rparr>"

definition CreateKey :: "(string \<Rightarrow> string) \<Rightarrow> nat list option \<Rightarrow> uuid \<Rightarrow> time \<Rightarrow> CreateAPIKeyInput \<Rightarrow> pg_state
    \<Rightarrow> pg_state \<times> (APIKey \<times> string) result" where
  "CreateKey mac buf fresh now input s = (case generateRawAPIKey buf of
       Inl e \<Rightarrow> (s, Inl e)
     | Inr (raw, pfx) \<Rightarrow>
         (case UpsertAPIKey now (newAPIKey fresh now input pfx (mac raw)) s of
            (s1, Inl e) \<Rightarrow> (s1, Inl e)
          | (s1, Inr record') \<Rightarrow> (s1, Inr (record', raw))))"

text \<open>The record a request is checked against: the cached one when it carries a hash, else the stored one.\<close>

definition lookupKey :: "'r keyCache \<Rightarrow> string \<Rightarrow> pg_state \<times> 'r \<Rightarrow> (pg_state \<times> 'r) \<times> APIKey result" where
  "lookupKey co p = (\<lambda>(s, r).
     case cacheGet co apiKeyCacheNamespace p r of
       (r1, got) \<Rightarrow>
         (case (case got of Inr k \<Rightarrow> if akKeyHash k \<noteq> [] then Some k else None | Inl _ \<Rightarrow> None) of
            Some k \<Rightarrow> ((s, r1), Inr k)
          | None \<Rightarrow>
              (case FindAPIKeyByPrefix p s of
                 Inl e \<Rightarrow> ((s, r1), Inl e)
               | Inr k \<Rightarrow> ((s, cacheSet co apiKeyCacheNamespace p k apiKeyCacheTTL r1), Inr k))))"

definition Validate :: "'r keyCache \<Rightarrow> (string \<Rightarrow> string) \<Rightarrow> time \<Rightarrow> string \<Rightarrow> pg_state \<times> 'r
    \<Rightarrow> (pg_state \<times> 'r) \<times> APIKey result" where
  "Validate co mac now rawKey st =
     (let p = extractPrefix rawKey in
      if p = [] then (st, Inl ErrNotFound)
      else (case lookupKey co p st of
              (st1, Inl e) \<Rightarrow> (st1, Inl e)
            | (st1, Inr k) \<Rightarrow>
                if akStatus k \<noteq> ''active'' then (st1, Inl ErrNotFound)
                else if (case akExpiresAt k of None \<Rightarrow> False | Some e \<Rightarrow> e < now) then (st1, Inl ErrNotFound)
                else if mac rawKey \<noteq> akKeyHash k then (st1, Inl ErrNotFound)
                else (case UpdateAPIKeyLastUsedAt (akID k) now (fst st1) of
                        (s2, Inl e) \<Rightarrow> ((s2, snd st1), Inl e)
                      | (s2, Inr _) \<Rightarrow> ((s2, snd st1), Inr (k\<lparr>akLastUsedAt := Some now\<rparr>)))))"

definition prefixForID :: "'r keyCache \<Rightarrow> uuid \<Rightarrow> pg_state \<Rightarrow> string" where
  "prefixForID co i s = (case co of
       None \<Rightarrow> []
     | Some _ \<Rightarrow> (case GetAPIKeyByID i s of Inl _ \<Rightarrow> [] | Inr k \<Rightarrow> akKeyPrefix k))"

definition bustPrefix :: "'r keyCache \<Rightarrow> string \<Rightarrow> 'r \<Rightarrow> 'r" where
  "bustPrefix co p r = (if p \<noteq> [] then cacheDel co apiKeyCacheNamespace p r else r)"

text \<open>A store mutation followed by the removal of the cached entry, as all three mutators do.\<close>

definition mutateKey :: "'r keyCache \<Rightarrow> uuid \<Rightarrow> (pg_state \<Rightarrow> pg_state \<times> unit result) \<Rightarrow> pg_state \<times> 'r \<Rightarrow> (pg_state \<times> 'r) \<times> unit result" where
  "mutateKey co i f = (\<lambda>(s, r).
     let p = prefixForID co i s in
     case f s of (s1, Inl e) \<Rightarrow> ((s1, r), Inl e) | (s1, Inr _) \<Rightarrow> ((s1, bustPrefix co p r), Inr ()))"

definition RevokeKey :: "'r keyCache \<Rightarrow> time \<Rightarrow> uuid \<Rightarrow> pg_state \<times> 'r \<Rightarrow> (pg_state \<times> 'r) \<times> unit result" where
  "RevokeKey co now i = mutateKey co i (RevokeAPIKey i now)"

definition UpdateStatus :: "'r keyCache \<Rightarrow> time \<Rightarrow> uuid \<Rightarrow> string \<Rightarrow> pg_state \<times> 'r \<Rightarrow> (pg_state \<times> 'r) \<times> unit result" where
  "UpdateStatus co now i status st =
     (let sta = toLower (trimSpace status) in
      if sta \<noteq> ''active'' \<and> sta \<noteq> ''inactive'' \<and> sta \<noteq> ''revoked'' then (st, Inl (ErrText ''invalid_status''))
      else mutateKey co i (UpdateAPIKeyStatus now i sta) st)"

definition UpdateBillingSource :: "'r keyCache \<Rightarrow> uuid \<Rightarrow> string \<Rightarrow> pg_state \<times> 'r \<Rightarrow> (pg_state \<times> 'r) \<times> unit result" where
  "UpdateBillingSource co i source st =
     (let src = toLower (trimSpace source) in
      if \<not> validBillingSource src then (st, Inl (ErrText ''invalid_billing_source''))
      else mutateKey co i (UpdateAPIKeyBillingSource i src) st)"

definition Regenerate :: "'r keyCache \<Rightarrow> (string \<Rightarrow> string) \<Rightarrow> nat list option \<Rightarrow> time \<Rightarrow> uuid \<Rightarrow> string \<Rightarrow> pg_state \<times> 'r
    \<Rightarrow> (pg_state \<times> 'r) \<times> (APIKey \<times> string) result" where
  "Regenerate co mac buf now i userID = (\<lambda>(s, r).
     case find (\<lambda>k. akID k = i) (ListAPIKeysByUser userID s) of
       None \<Rightarrow> ((s, r), Inl ErrNotFound)
     | Some existing \<Rightarrow>
         (case generateRawAPIKey buf of
            Inl e \<Rightarrow> ((s, r), Inl e)
          | Inr (raw, pfx) \<Rightarrow>
              (case UpsertAPIKey now (existing\<lparr>akKeyPrefix := pfx, akKeyHash := mac raw, akLastUsedAt := None,
                      akRegeneratedAt := Some now, akRevokedAt := None\<rparr>) s of
                 (s1, Inl e) \<Rightarrow> ((s1, r), Inl e)
               | (s1, Inr saved) \<Rightarrow>
                   ((s1, cacheDel co apiKeyCacheNamespace pfx (cacheDel co apiKeyCacheNamespace (akKeyPrefix existing) r)),
                    Inr (saved, raw)))))"

section \<open>Lemmas\<close>

text \<open>The cache answers: it is disabled, or its server is up.\<close>

definition cacheUp :: "('r, 'a) Cache option \<Rightarrow> ('r \<Rightarrow> bool) \<Rightarrow> ('r \<Rightarrow> string \<Rightarrow> rcell option) \<Rightarrow> 'r \<Rightarrow> bool" where
  "cacheUp co alive view r \<longleftrightarrow> (case co of None \<Rightarrow> True | Some c \<Rightarrow> redis_server (caRedis c) alive view \<and> alive r)"

definition notCached :: "('r, 'a) Cache option \<Rightarrow> ('r \<Rightarrow> string \<Rightarrow> rcell option) \<Rightarrow> string \<Rightarrow> string \<Rightarrow> 'r \<Rightarrow> bool" where
  "notCached co view namespace i r \<longleftrightarrow> (case co of None \<Rightarrow> True | Some c \<Rightarrow> view r (cacheKey c namespace i) = None)"

lemma cacheDel_spec:
  assumes "cacheUp co alive view r"
  shows "cacheUp co alive view (cacheDel co n i r)" "notCached co view n i (cacheDel co n i r)"
    "notCached co view n j r \<Longrightarrow> notCached co view n j (cacheDel co n i r)"
  using assms redis_server.del_view [of _ alive view r] redis_server.del_alive [of _ alive view r]
  by (auto simp: cacheUp_def notCached_def cacheDel_def split: option.splits)

lemma cacheGet_miss:
  assumes "cacheUp co alive view r" "notCached co view n i r"
  shows "cacheGet co n i r = (r, Inl ErrMiss)"
  using assms redis_server.get_reply [of _ alive view r]
  by (auto simp: cacheUp_def notCached_def cacheGet_def split: option.splits)

lemma lookupKey_miss:
  assumes "cacheUp co alive view r" "notCached co view apiKeyCacheNamespace p r"
  shows "lookupKey co p (s, r) = (case FindAPIKeyByPrefix p s of
      Inl e \<Rightarrow> ((s, r), Inl e)
    | Inr k \<Rightarrow> ((s, cacheSet co apiKeyCacheNamespace p k apiKeyCacheTTL r), Inr k))"
  by (simp add: lookupKey_def cacheGet_miss [OF assms] split: sum.splits)

lemma FindAPIKeyByPrefix_up: "pgUp s \<Longrightarrow> FindAPIKeyByPrefix p s = firstRow (\<lambda>r. akKeyPrefix r = p) (pgKeys s)"
  by (simp add: FindAPIKeyByPrefix_def)

lemma execKeys_success:
  assumes "pgUp s" "execKeys i f s = (s', Inr ())"
  shows "s' = s\<lparr>pgKeys := updWhere (\<lambda>r. akID r = i) f (pgKeys s)\<rparr>"
  using assms by (auto simp: execKeys_def Let_def split: if_splits)

lemma find_unique_key:
  assumes "distinct (map g rows)" "k \<in> set rows"
  shows "find (\<lambda>r. g r = g k) rows = Some k"
  using assms by (induction rows) (auto simp: image_iff)

lemma bustPrefix_spec:
  assumes "cacheUp co alive view r" "k \<in> set (pgKeys s)" "pgUp s" "keysOk (pgKeys s)" "akKeyPrefix k \<noteq> []"
  shows "cacheUp co alive view (bustPrefix co (prefixForID co (akID k) s) r)"
    "notCached co view apiKeyCacheNamespace (akKeyPrefix k) (bustPrefix co (prefixForID co (akID k) s) r)"
proof -
  have "find (\<lambda>r. akID r = akID k) (pgKeys s) = Some k"
    using assms(2,4) by (intro find_unique_key) (auto simp: keysOk_def)
  then have p: "prefixForID co (akID k) s = akKeyPrefix k \<or> co = None"
    using assms(3) by (cases co) (auto simp: prefixForID_def GetAPIKeyByID_def firstRow_def)
  show "cacheUp co alive view (bustPrefix co (prefixForID co (akID k) s) r)"
    using cacheDel_spec(1) [OF assms(1)] assms(1) by (simp add: bustPrefix_def)
  show "notCached co view apiKeyCacheNamespace (akKeyPrefix k) (bustPrefix co (prefixForID co (akID k) s) r)"
    using p
  proof
    assume "prefixForID co (akID k) s = akKeyPrefix k"
    then show ?thesis using cacheDel_spec(2) [OF assms(1)] assms(5) by (simp add: bustPrefix_def)
  next
    assume "co = None"
    then show ?thesis by (simp add: notCached_def)
  qed
qed

text \<open>A mutation that keeps prefixes is what the next request sees, whatever was cached.\<close>

lemma mutateKey_lookup:
  assumes "pgUp s" "keysOk (pgKeys s)" "cacheUp co alive view r" "k \<in> set (pgKeys s)" "akKeyPrefix k \<noteq> []"
    and "mutateKey co (akID k) (execKeys (akID k) f) (s, r) = (st, Inr ())" "akKeyPrefix (f k) = akKeyPrefix k"
  shows "\<exists>st'. lookupKey co (akKeyPrefix k) st = (st', Inr (f k))"
proof -
  let ?r = "bustPrefix co (prefixForID co (akID k) s) r"
  obtain s1 where s1: "execKeys (akID k) f s = (s1, Inr ())" "st = (s1, ?r)"
    using assms(6) by (auto simp: mutateKey_def Let_def split: prod.splits sum.splits)
  have rows: "s1 = s\<lparr>pgKeys := updWhere (\<lambda>r. akID r = akID k) f (pgKeys s)\<rparr>"
    by (rule execKeys_success [OF assms(1) s1(1)])
  have only: "r' = k" if "r' \<in> set (pgKeys s)" "akID r' = akID k" for r'
    using assms(2,4) that by (auto simp: keysOk_def distinct_map inj_on_def)
  have "updWhere (\<lambda>r. akID r = akID k) f (pgKeys s) = updWhere (\<lambda>r. r = k) f (pgKeys s)"
    unfolding updWhere_def using only by (intro map_cong) auto
  moreover have "find (\<lambda>r. akKeyPrefix r = akKeyPrefix k) (updWhere (\<lambda>r. r = k) f (pgKeys s))
      = map_option (\<lambda>r. if r = k then f r else r) (find (\<lambda>r. akKeyPrefix r = akKeyPrefix k) (pgKeys s))"
    using assms(7) by (intro find_updWhere) simp
  moreover have "find (\<lambda>r. akKeyPrefix r = akKeyPrefix k) (pgKeys s) = Some k"
    using assms(2,4) by (intro find_unique_key) (auto simp: keysOk_def)
  ultimately have "FindAPIKeyByPrefix (akKeyPrefix k) s1 = Inr (f k)"
    using assms(1) rows by (simp add: FindAPIKeyByPrefix_def pgRead_def firstRow_def pgUp_def)
  then show ?thesis
    using lookupKey_miss [OF bustPrefix_spec [OF assms(3,4,1,2,5)]] s1(2) by simp
qed

lemma Validate_lookup:
  assumes "extractPrefix raw \<noteq> []" "lookupKey co (extractPrefix raw) st = (st1, Inr k)"
  shows "\<not> (akStatus k = ''active'' \<and> mac raw = akKeyHash k) \<Longrightarrow> Validate co mac now raw st = (st1, Inl ErrNotFound)"
    "akStatus k = ''active'' \<Longrightarrow> mac raw = akKeyHash k \<Longrightarrow> (\<forall>e. akExpiresAt k = Some e \<longrightarrow> now \<le> e) \<Longrightarrow> pgUp (fst st1)
      \<Longrightarrow> \<exists>st2. Validate co mac now raw st = (st2, Inr (k\<lparr>akLastUsedAt := Some now\<rparr>))"
  using assms by (auto simp: Validate_def Let_def UpdateAPIKeyLastUsedAt_def split: option.splits)

lemma lookupKey_state: "lookupKey co p (s, r) = (st, x) \<Longrightarrow> fst st = s"
  by (auto simp: lookupKey_def split: prod.splits sum.splits option.splits if_splits)

lemma UpsertAPIKey_success:
  assumes "pgUp s" "UpsertAPIKey now item s = (s', Inr saved)"
  obtains rows where "s' = s\<lparr>pgKeys := rows\<rparr>" "akID item \<noteq> nilUUID"
    "upsertBy (\<lambda>r. akID r = akID item) (keyRow now item)
      (\<lambda>r. (keyRow now item)\<lparr>akGenfityUserID := akGenfityUserID r, akGenfityTenantID := akGenfityTenantID r, akCreatedAt := akCreatedAt r\<rparr>)
      keysOk (pgKeys s) = Some (rows, saved)"
  using assms by (auto simp: UpsertAPIKey_def Let_def split: option.splits if_splits)

lemma keyRow_cols [simp]:
  "akID (keyRow now k) = akID k" "akKeyPrefix (keyRow now k) = akKeyPrefix k" "akKeyHash (keyRow now k) = akKeyHash k"
  "akGenfityUserID (keyRow now k) = akGenfityUserID k" "akStatus (keyRow now k) = defaultString (akStatus k) ''active''"
  "akExpiresAt (keyRow now k) = map_option pgTs (akExpiresAt k)"
  by (simp_all add: keyRow_def)

lemma upsertBy_saved: "upsertBy key new merge valid rows = Some (rows', y) \<Longrightarrow> y = new \<or> (\<exists>r. y = merge r)"
  unfolding upsertBy_def Let_def by (cases "find key rows") (auto split: if_splits)

text \<open>What an upsert by id means for lookups by prefix.\<close>

lemma UpsertAPIKey_prefix:
  assumes "pgUp s" "keysOk (pgKeys s)" "UpsertAPIKey now item s = (s', Inr saved)"
  shows "akKeyPrefix saved = akKeyPrefix item \<and> akKeyHash saved = akKeyHash item \<and> akID saved = akID item
      \<and> akStatus saved = defaultString (akStatus item) ''active'' \<and> akExpiresAt saved = map_option pgTs (akExpiresAt item)
      \<and> pgUp s' \<and> keysOk (pgKeys s') \<and> FindAPIKeyByPrefix (akKeyPrefix item) s' = Inr saved"
    and "\<And>k. k \<in> set (pgKeys s) \<Longrightarrow> akID k = akID item \<Longrightarrow> akKeyPrefix k \<noteq> akKeyPrefix item
      \<Longrightarrow> FindAPIKeyByPrefix (akKeyPrefix k) s' = Inl ErrNotFound"
proof -
  let ?m = "\<lambda>r :: APIKey. (keyRow now item)\<lparr>akGenfityUserID := akGenfityUserID r, akGenfityTenantID := akGenfityTenantID r, akCreatedAt := akCreatedAt r\<rparr>"
  obtain rows where u: "s' = s\<lparr>pgKeys := rows\<rparr>"
    "upsertBy (\<lambda>r. akID r = akID item) (keyRow now item) ?m keysOk (pgKeys s) = Some (rows, saved)"
    by (rule UpsertAPIKey_success [OF assms(1,3)])
  have sv: "saved = keyRow now item \<or> (\<exists>r. saved = ?m r)" by (rule upsertBy_saved [OF u(2)])
  have ok: "keysOk rows" and fi: "find (\<lambda>r. akID r = akID item) rows = Some saved"
    using upsertBy_spec(1,3) [OF u(2)] by simp_all
  have inrows: "saved \<in> set rows" using find_SomeD [OF fi] by simp
  have up: "pgUp s'" using assms(1) u(1) by (simp add: pgUp_def)
  have cols: "akKeyPrefix saved = akKeyPrefix item" "akKeyHash saved = akKeyHash item" "akID saved = akID item"
    "akStatus saved = defaultString (akStatus item) ''active''" "akExpiresAt saved = map_option pgTs (akExpiresAt item)"
    using sv by auto
  have fp: "find (\<lambda>r. akKeyPrefix r = akKeyPrefix item) rows = Some saved"
    using find_unique_key [OF _ inrows, of akKeyPrefix] ok cols(1) by (simp add: keysOk_def)
  show "akKeyPrefix saved = akKeyPrefix item \<and> akKeyHash saved = akKeyHash item \<and> akID saved = akID item
      \<and> akStatus saved = defaultString (akStatus item) ''active'' \<and> akExpiresAt saved = map_option pgTs (akExpiresAt item)
      \<and> pgUp s' \<and> keysOk (pgKeys s') \<and> FindAPIKeyByPrefix (akKeyPrefix item) s' = Inr saved"
    using cols up ok fp u(1) by (simp add: FindAPIKeyByPrefix_up firstRow_def)
  fix k assume k: "k \<in> set (pgKeys s)" "akID k = akID item" "akKeyPrefix k \<noteq> akKeyPrefix item"
  have "rows = updWhere (\<lambda>r. akID r = akID item) ?m (pgKeys s)"
    using u(2) k(1,2) by (auto simp: upsertBy_def Let_def find_None_iff_all split: if_splits option.splits)
  moreover have "akKeyPrefix r \<noteq> akKeyPrefix k" if "r \<in> set (pgKeys s)" "akID r \<noteq> akID item" for r
    using assms(2) k(1,2) that by (auto simp: keysOk_def distinct_map inj_on_def)
  ultimately have "find (\<lambda>r. akKeyPrefix r = akKeyPrefix k) rows = None"
    using k(3) unfolding find_None_iff_all by (auto simp: set_updWhere)
  then show "FindAPIKeyByPrefix (akKeyPrefix k) s' = Inl ErrNotFound"
    using up u(1) by (simp add: FindAPIKeyByPrefix_up firstRow_def)
qed

section \<open>Properties\<close>

text \<open>
  A request is let in only with a secret whose MAC is the stored hash of a record that is active
  and not expired; the record is the one stored under the key's prefix, or the one cached under it.
\<close>

theorem validate_sound:
  assumes "Validate co mac now raw (s, r) = (st, Inr k)"
  shows "extractPrefix raw \<noteq> [] \<and> mac raw = akKeyHash k \<and> akStatus k = ''active''
    \<and> (case akExpiresAt k of None \<Rightarrow> True | Some e \<Rightarrow> now \<le> e) \<and> akLastUsedAt k = Some now
    \<and> (\<exists>k0. k = k0\<lparr>akLastUsedAt := Some now\<rparr>
         \<and> (FindAPIKeyByPrefix (extractPrefix raw) s = Inr k0
            \<or> snd (cacheGet co apiKeyCacheNamespace (extractPrefix raw) r) = Inr k0))"
proof -
  have p: "extractPrefix raw \<noteq> []" using assms by (auto simp: Validate_def Let_def)
  obtain st1 k0 where l: "lookupKey co (extractPrefix raw) (s, r) = (st1, Inr k0)"
    using assms p by (cases "lookupKey co (extractPrefix raw) (s, r)"; cases "snd (lookupKey co (extractPrefix raw) (s, r))")
      (auto simp: Validate_def Let_def)
  have src: "FindAPIKeyByPrefix (extractPrefix raw) s = Inr k0 \<or> snd (cacheGet co apiKeyCacheNamespace (extractPrefix raw) r) = Inr k0"
    using l by (auto simp: lookupKey_def split: prod.splits sum.splits option.splits if_splits)
  have "k = k0\<lparr>akLastUsedAt := Some now\<rparr> \<and> akStatus k0 = ''active'' \<and> mac raw = akKeyHash k0
      \<and> (case akExpiresAt k0 of None \<Rightarrow> True | Some e \<Rightarrow> now \<le> e)"
    using assms p by (auto simp: Validate_def Let_def l split: if_splits prod.splits sum.splits option.splits)
  then show ?thesis using p src by auto
qed

text \<open>One stored key of user \<^verbatim>\<open>u\<close>, for the examples; the MAC there is the identity.\<close>

definition sampleRaw :: string where
  "sampleRaw = ''genfity_0123456789''"

definition sampleKeyRow :: APIKey where
  "sampleKeyRow = \<lparr>akID = 7, akGenfityUserID = ''u'', akGenfityTenantID = None, akName = ''k'',
     akKeyPrefix = ''genfity_01234567'', akKeyHash = sampleRaw, akStatus = ''active'', akBillingSource = ''credit'',
     akLastUsedAt = None, akExpiresAt = None, akCreatedAt = 1, akRegeneratedAt = None, akRevokedAt = None\<rparr>"

definition sampleKeys :: pg_state where
  "sampleKeys = pgEmpty\<lparr>pgKeys := [sampleKeyRow]\<rparr>"

definition sampleCache :: "(map_redis, APIKey) Cache option" where
  "sampleCache = Some \<lparr>caRedis = mapRedis, caPrefix = ''g'', caMarshal = (\<lambda>_. ''k''), caUnmarshal = (\<lambda>_. Some sampleKeyRow)\<rparr>"

lemma sampleKeys_ok: "pgUp sampleKeys" "keysOk (pgKeys sampleKeys)" "pgKeys sampleKeys = [sampleKeyRow]"
  by (simp_all add: sampleKeys_def pgEmpty_def pgUp_def keysOk_def sampleKeyRow_def)

lemma sampleCache_up: "cacheUp sampleCache mrAlive mrKeys mrEmpty"
  using mapServer.redis_server_axioms by (simp add: sampleCache_def cacheUp_def mrAlive_def mrEmpty_def)

lemma sampleRaw_prefix: "extractPrefix sampleRaw = ''genfity_01234567''"
  by code_simp

theorem validate_sound_witness:
  "\<exists>k. snd (Validate None id 5 sampleRaw (sampleKeys, ())) = Inr k \<and> id sampleRaw = akKeyHash k"
proof -
  have "\<not> isl (snd (Validate None id 5 sampleRaw (sampleKeys, ())))" by code_simp
  then obtain st k where v: "Validate None id 5 sampleRaw (sampleKeys, ()) = (st, Inr k)"
    by (cases "Validate None id 5 sampleRaw (sampleKeys, ())"; cases "snd (Validate None id 5 sampleRaw (sampleKeys, ()))") auto
  then show ?thesis using validate_sound [OF v] by auto
qed



text \<open>
  Regenerating a key retires the old secret at once: any secret with the old prefix whose MAC differs
  from the new one's is refused afterwards, even when the old record was cached.
\<close>

theorem regenerated_key_retires_old:
  assumes "pgUp s" "keysOk (pgKeys s)" "cacheUp co alive view r" "k \<in> set (pgKeys s)"
    and "extractPrefix raw = akKeyPrefix k" "akKeyPrefix k \<noteq> []"
    and "Regenerate co mac buf t1 (akID k) u (s, r) = (st, Inr (saved, raw'))" "mac raw \<noteq> mac raw'"
  shows "snd (Validate co mac t2 raw st) = Inl ErrNotFound"
proof -
  obtain ex pfx s1 where ex: "find (\<lambda>x. akID x = akID k) (ListAPIKeysByUser u s) = Some ex"
    and g: "generateRawAPIKey buf = Inr (raw', pfx)"
    and up: "UpsertAPIKey t1 (ex\<lparr>akKeyPrefix := pfx, akKeyHash := mac raw', akLastUsedAt := None,
                      akRegeneratedAt := Some t1, akRevokedAt := None\<rparr>) s = (s1, Inr saved)"
    and st: "st = (s1, cacheDel co apiKeyCacheNamespace pfx (cacheDel co apiKeyCacheNamespace (akKeyPrefix ex) r))"
    using assms(7) by (auto simp: Regenerate_def split: option.splits sum.splits prod.splits)
  have "ex \<in> set (pgKeys s)" "akID ex = akID k"
    using find_SomeD [OF ex] assms(1) by (auto simp: ListAPIKeysByUser_def)
  then have exk: "ex = k" using assms(2,4) by (auto simp: keysOk_def distinct_map inj_on_def)
  let ?item = "k\<lparr>akKeyPrefix := pfx, akKeyHash := mac raw', akLastUsedAt := None, akRegeneratedAt := Some t1, akRevokedAt := None\<rparr>"
  let ?r = "cacheDel co apiKeyCacheNamespace pfx (cacheDel co apiKeyCacheNamespace (akKeyPrefix k) r)"
  have cu: "cacheUp co alive view ?r" "notCached co view apiKeyCacheNamespace (akKeyPrefix k) ?r"
    using cacheDel_spec [OF assms(3)] cacheDel_spec [OF cacheDel_spec(1) [OF assms(3)]] by blast+
  have look: "lookupKey co (akKeyPrefix k) st = (case FindAPIKeyByPrefix (akKeyPrefix k) s1 of
      Inl e \<Rightarrow> ((s1, ?r), Inl e) | Inr x \<Rightarrow> ((s1, cacheSet co apiKeyCacheNamespace (akKeyPrefix k) x apiKeyCacheTTL ?r), Inr x))"
    using lookupKey_miss [OF cu] st exk by simp
  note new = UpsertAPIKey_prefix [OF assms(1,2) up [unfolded exk]]
  show ?thesis
  proof (cases "pfx = akKeyPrefix k")
    case True
    then obtain st1 where l: "lookupKey co (akKeyPrefix k) st = (st1, Inr saved)" using new(1) look by simp
    have "akKeyHash saved = mac raw'" using new(1) by simp
    then have "Validate co mac t2 raw st = (st1, Inl ErrNotFound)"
      using l assms(8) by (intro Validate_lookup(1) [of raw co st st1 saved]) (auto simp: assms(5,6))
    then show ?thesis by simp
  next
    case False
    then have "FindAPIKeyByPrefix (akKeyPrefix k) s1 = Inl ErrNotFound" using new(2) [OF assms(4)] by simp
    then show ?thesis using look assms(5,6) by (simp add: Validate_def Let_def)
  qed
qed

theorem regenerated_key_retires_old_witness:
  "snd (Validate sampleCache id 9 sampleRaw (fst (Regenerate sampleCache id (Some (replicate 20 3)) 5 7 ''u'' (sampleKeys, mrEmpty))))
     = Inl ErrNotFound"
proof -
  let ?R = "Regenerate sampleCache id (Some (replicate 20 3)) 5 7 ''u'' (sampleKeys, mrEmpty)"
  have k: "sampleKeyRow \<in> set (pgKeys sampleKeys)" "akID sampleKeyRow = 7" "akKeyPrefix sampleKeyRow = ''genfity_01234567''"
    by (simp_all add: sampleKeys_ok) (simp_all add: sampleKeyRow_def)
  have "isl (snd ?R) = False" by code_simp
  then obtain saved raw' where r: "?R = (fst ?R, Inr (saved, raw'))"
    by (cases ?R; cases "snd ?R") auto
  have "snd (projr (snd ?R)) \<noteq> sampleRaw" by code_simp
  then have ne: "id sampleRaw \<noteq> id raw'" using r by (metis id_apply snd_conv sum.sel(2))
  show ?thesis
    by (rule regenerated_key_retires_old [OF sampleKeys_ok(1,2) sampleCache_up k(1), where raw = sampleRaw and raw' = raw'
          and buf = "Some (replicate 20 3)" and ?t1.0 = 5 and u = "''u''" and saved = saved])
      (use ne r in \<open>simp_all add: k sampleRaw_prefix\<close>)
qed

text \<open>
  A created key works: the secret that is shown once is accepted on the next request, as a key of the
  user it was created for and with the billing source asked for, unless it was created inactive or has expired.
\<close>

theorem created_key_validates:
  assumes "pgUp s" "keysOk (pgKeys s)" "length bytes = 20" "fresh \<notin> akID ` set (pgKeys s)"
    and "CreateKey mac (Some bytes) fresh t1 input s = (s1, Inr (rec, raw))"
    and "defaultStatus (ciStatus input) = ''active''" "\<forall>e. ciExpiresAt input = Some e \<longrightarrow> t2 \<le> pgTs e"
    and "cacheUp co alive view r" "notCached co view apiKeyCacheNamespace (extractPrefix raw) r"
  shows "\<exists>st k. Validate co mac t2 raw (s1, r) = (st, Inr k) \<and> akID k = fresh \<and> akGenfityUserID k = ciUserID input
    \<and> akBillingSource k = defaultBillingSource (ciBillingSource input)"
proof -
  let ?raw = "''genfity_'' @ hexEncode bytes"
  let ?new = "newAPIKey fresh t1 input (take 16 ?raw) (mac ?raw)"
  have c: "UpsertAPIKey t1 ?new s = (s1, Inr rec)" and raw: "raw = ?raw"
    using assms(5) by (auto simp: CreateKey_def generateRawAPIKey_def Let_def apiKeyPrefixLen_def split: prod.splits sum.splits)
  have len: "length (hexEncode bytes) = 2 * length bytes"
    unfolding hexEncode_def by (induction bytes) auto
  have p: "extractPrefix raw = take 16 ?raw" "extractPrefix raw \<noteq> []"
    using assms(3) len by (simp_all add: extractPrefix_def raw hasPrefix_def apiKeyPrefixLen_def)
  have n: "akKeyPrefix ?new = extractPrefix raw" "akKeyHash ?new = mac raw" "akStatus ?new = ''active''" "akID ?new = fresh"
    "akGenfityUserID ?new = ciUserID input" "akBillingSource ?new = defaultBillingSource (ciBillingSource input)" "akExpiresAt ?new = ciExpiresAt input"
    using assms(6) p raw by (simp_all add: newAPIKey_def)
  note new = UpsertAPIKey_prefix(1) [OF assms(1,2) c, unfolded n]
  obtain rows where u: "upsertBy (\<lambda>r. akID r = akID ?new) (keyRow t1 ?new)
      (\<lambda>r. (keyRow t1 ?new)\<lparr>akGenfityUserID := akGenfityUserID r, akGenfityTenantID := akGenfityTenantID r, akCreatedAt := akCreatedAt r\<rparr>)
      keysOk (pgKeys s) = Some (rows, rec)"
    by (rule UpsertAPIKey_success [OF assms(1) c])
  have "find (\<lambda>r. akID r = akID ?new) (pgKeys s) = None"
    using assms(4) n(4) by (auto simp: find_None_iff_all)
  then have rec: "rec = keyRow t1 ?new" using u by (auto simp: upsertBy_def Let_def split: if_splits)
  have bs: "akBillingSource rec = defaultBillingSource (ciBillingSource input)"
    using n(6) by (simp add: rec keyRow_def defaultString_def defaultBillingSource_def validBillingSource_def Let_def)
  have l: "lookupKey co (extractPrefix raw) (s1, r) = ((s1, cacheSet co apiKeyCacheNamespace (extractPrefix raw) rec apiKeyCacheTTL r), Inr rec)"
    using lookupKey_miss [OF assms(8,9)] new by simp
  have "\<exists>st2. Validate co mac t2 raw (s1, r) = (st2, Inr (rec\<lparr>akLastUsedAt := Some t2\<rparr>))"
    using new assms(7) by (intro Validate_lookup(2) [OF p(2) l]) (auto simp: defaultString_def)
  moreover have "akGenfityUserID rec = ciUserID input" using n(5) by (simp add: rec)
  ultimately show ?thesis using new bs by auto
qed

definition sampleInput :: CreateAPIKeyInput where
  "sampleInput = \<lparr>ciUserID = ''v'', ciTenantID = None, ciName = '' my key '', ciStatus = [], ciBillingSource = ''PAYG'', ciExpiresAt = None\<rparr>"

theorem created_key_validates_witness:
  "\<exists>st k raw. Validate sampleCache id 9 raw (fst (CreateKey id (Some (replicate 20 3)) 8 5 sampleInput sampleKeys), mrEmpty) = (st, Inr k)
     \<and> akGenfityUserID k = ''v'' \<and> akBillingSource k = ''payg''"
proof -
  let ?R = "CreateKey id (Some (replicate 20 3)) 8 5 sampleInput sampleKeys"
  have "isl (snd ?R) = False" by code_simp
  then obtain rec raw where r: "?R = (fst ?R, Inr (rec, raw))" by (cases ?R; cases "snd ?R") auto
  have d: "defaultStatus (ciStatus sampleInput) = ''active''" "defaultBillingSource (ciBillingSource sampleInput) = ''payg''"
    by code_simp+
  have nc: "notCached sampleCache mrKeys apiKeyCacheNamespace (extractPrefix raw) mrEmpty"
    by (simp add: notCached_def sampleCache_def mrEmpty_def)
  have "8 \<notin> akID ` set (pgKeys sampleKeys)" by (simp add: sampleKeys_ok sampleKeyRow_def)
  then show ?thesis
    using created_key_validates [OF sampleKeys_ok(1,2) _ _ r d(1) _ sampleCache_up nc, of 9] d(2)
    by (fastforce simp: sampleInput_def)
qed

end
