(* ===== verification/PgQuota.thy ===== *)
theory PgQuota
  imports PgTables
begin

text \<open>
  The durable token quota of a subscription period, table \<^verbatim>\<open>quota_counters\<close> of
  \<^verbatim>\<open>postgres_store.go\<close>: reserving tokens against the plan's limit, settling them, the sweep of
  stale reservations, and the consolidation of the rows that earlier expiries of the same period
  left behind.  The lemmas show that the limit is never passed by reservations, that a sound
  settlement keeps it, and that consolidation loses no usage and can be repeated.
\<close>

section \<open>Operations\<close>

definition bigintError :: gerror where
  "bigintError = ErrText ''bigint out of range''"

definition quotaKey :: "string \<Rightarrow> time \<Rightarrow> time \<Rightarrow> pg_quota \<Rightarrow> bool" where
  "quotaKey userID periodStart periodEnd r \<longleftrightarrow>
     pqUser r = userID \<and> pqStart r = pgTs periodStart \<and> pqEnd r = pgTs periodEnd"

definition SumUsageTokensByUserSince :: "string \<Rightarrow> time \<Rightarrow> pg_state \<Rightarrow> int" where
  "SumUsageTokensByUserSince userID since s =
     (if pgFault s \<noteq> None then 0
      else let total = sum_list (map ueTotalTokens (filter (\<lambda>e. ueGenfityUserID e = userID
             \<and> ueStatus e = ''success'' \<and> ueStartedAt e \<ge> pgTs since) (pgLedger s)))
           in if in64 total then total else 0)"

definition ReserveQuotaTokens ::
  "time \<Rightarrow> string \<Rightarrow> string option \<Rightarrow> time \<Rightarrow> time \<Rightarrow> int \<Rightarrow> int \<Rightarrow> pg_state \<Rightarrow> pg_state \<times> unit result" where
  "ReserveQuotaTokens now userID tenantID periodStart periodEnd tokens limit s =
     (if tokens \<le> 0 \<or> limit \<le> 0 then (s, Inr ())
      else if tokens > limit then (s, Inl ErrQuotaExceeded)
      else pgRun (\<lambda>s.
        let key = quotaKey userID periodStart periodEnd;
            overflow = (\<lambda>r. key r \<and> \<not> (in64 (pqUsed r + pqReserved r) \<and> in64 (pqUsed r + pqReserved r + tokens)));
            new = \<lparr>pqUser = userID, pqTenant = tenantID, pqStart = pgTs periodStart, pqEnd = pgTs periodEnd,
                   pqUsed = 0, pqReserved = tokens, pqRequests = 0, pqUpdatedAt = now\<rparr>;
            guard = (\<lambda>r. pqUsed r + pqReserved r + tokens \<le> limit);
            upd = (\<lambda>r. r\<lparr>pqReserved := pqReserved r + tokens, pqUpdatedAt := now\<rparr>)
        in if list_ex overflow (pgQuotas s) then (s, Inl bigintError)
           else case onConflict key new guard upd (pgQuotas s) of
                  (rows, n) \<Rightarrow> if n = 0 then (s, Inl ErrQuotaExceeded)
                               else (s\<lparr>pgQuotas := rows\<rparr>, Inr ())) s)"

definition FinalizeQuotaTokens ::
  "time \<Rightarrow> string \<Rightarrow> time \<Rightarrow> time \<Rightarrow> int \<Rightarrow> int \<Rightarrow> bool \<Rightarrow> pg_state \<Rightarrow> pg_state \<times> unit result" where
  "FinalizeQuotaTokens now userID periodStart periodEnd reservedTokens usedTokens countRequest s =
     (if reservedTokens \<le> 0 \<and> usedTokens \<le> 0 \<and> \<not> countRequest then (s, Inr ())
      else pgRun (\<lambda>s.
        let requestCount = (if countRequest then 1 else 0);
            key = quotaKey userID periodStart periodEnd;
            overflow = (\<lambda>r. key r \<and> \<not> (in64 (pqReserved r - reservedTokens) \<and> in64 (pqUsed r + usedTokens)
                                       \<and> in64 (pqRequests r + requestCount)));
            new = \<lparr>pqUser = userID, pqTenant = None, pqStart = pgTs periodStart, pqEnd = pgTs periodEnd,
                   pqUsed = usedTokens, pqReserved = 0, pqRequests = requestCount, pqUpdatedAt = now\<rparr>;
            upd = (\<lambda>r. r\<lparr>pqReserved := max (pqReserved r - reservedTokens) 0,
                         pqUsed := pqUsed r + usedTokens,
                         pqRequests := pqRequests r + requestCount, pqUpdatedAt := now\<rparr>)
        in if list_ex overflow (pgQuotas s) then (s, Inl bigintError)
           else (s\<lparr>pgQuotas := fst (onConflict key new (\<lambda>_. True) upd (pgQuotas s))\<rparr>, Inr ())) s)"

definition IncrementQuotaCounter ::
  "time \<Rightarrow> string \<Rightarrow> string option \<Rightarrow> time \<Rightarrow> time \<Rightarrow> int \<Rightarrow> pg_state \<Rightarrow> pg_state \<times> unit result" where
  "IncrementQuotaCounter now userID tenantID periodStart periodEnd tokens s =
     (if tokens \<le> 0 then (s, Inr ())
      else pgRun (\<lambda>s.
        let key = quotaKey userID periodStart periodEnd;
            overflow = (\<lambda>r. key r \<and> \<not> (in64 (pqUsed r + tokens) \<and> in64 (pqRequests r + 1)));
            new = \<lparr>pqUser = userID, pqTenant = tenantID, pqStart = pgTs periodStart, pqEnd = pgTs periodEnd,
                   pqUsed = tokens, pqReserved = 0, pqRequests = 1, pqUpdatedAt = now\<rparr>;
            upd = (\<lambda>r. r\<lparr>pqUsed := pqUsed r + tokens, pqRequests := pqRequests r + 1, pqUpdatedAt := now\<rparr>)
        in if list_ex overflow (pgQuotas s) then (s, Inl bigintError)
           else (s\<lparr>pgQuotas := fst (onConflict key new (\<lambda>_. True) upd (pgQuotas s))\<rparr>, Inr ())) s)"

definition staleQuota :: "time \<Rightarrow> duration \<Rightarrow> pg_quota \<Rightarrow> bool" where
  "staleQuota now age r \<longleftrightarrow> pqReserved r > 0 \<and> pqUpdatedAt r < now - milliseconds age * nsMilli"

definition ReleaseStaleQuotaReservations :: "time \<Rightarrow> duration \<Rightarrow> pg_state \<Rightarrow> pg_state \<times> int result" where
  "ReleaseStaleQuotaReservations now olderThan s =
     (let age = (if olderThan \<le> 0 then 5 * nsMinute else olderThan) in
      pgRun (\<lambda>s. (s\<lparr>pgQuotas := updWhere (staleQuota now age) (\<lambda>r. r\<lparr>pqReserved := 0, pqUpdatedAt := now\<rparr>) (pgQuotas s)\<rparr>,
                  Inr (int (affected (staleQuota now age) (pgQuotas s))))) s)"

definition GetQuotaCounter :: "string \<Rightarrow> time \<Rightarrow> time \<Rightarrow> pg_state \<Rightarrow> QuotaCounter option result" where
  "GetQuotaCounter userID periodStart periodEnd s =
     (case pgFault s of
        Some e \<Rightarrow> Inl e
      | None \<Rightarrow> Inr (map_option
          (\<lambda>r. \<lparr>qcTokensUsed = pqUsed r, qcTokensReserved = pqReserved r, qcRequestCount = pqRequests r\<rparr>)
          (find (quotaKey userID periodStart periodEnd) (pgQuotas s))))"

text \<open>
  Consolidation of all rows of one user and period start onto the current period end.  The
  tenant of the aggregate is the first one present, in the order the rows are read.
\<close>

definition staleEnd :: "string \<Rightarrow> time \<Rightarrow> time \<Rightarrow> pg_quota \<Rightarrow> bool" where
  "staleEnd userID periodStart newEnd r \<longleftrightarrow>
     pqUser r = userID \<and> pqStart r = pgTs periodStart \<and> pqEnd r \<noteq> pgTs newEnd"

definition firstTenant :: "pg_quota list \<Rightarrow> string option" where
  "firstTenant rows = (case find (\<lambda>r. pqTenant r \<noteq> None) rows of Some r \<Rightarrow> pqTenant r | None \<Rightarrow> None)"

definition MigrateQuotaCounterPeriodEnd ::
  "time \<Rightarrow> string \<Rightarrow> time \<Rightarrow> time \<Rightarrow> pg_state \<Rightarrow> pg_state \<times> bool result" where
  "MigrateQuotaCounterPeriodEnd now userID periodStart newEnd = pgRun (\<lambda>s.
     let old = filter (staleEnd userID periodStart newEnd) (pgQuotas s);
         used = sum_list (map pqUsed old);
         reqs = sum_list (map pqRequests old);
         key = quotaKey userID periodStart newEnd;
         overflow = (\<not> (in64 used \<and> in64 reqs) \<or>
           list_ex (\<lambda>r. key r \<and> \<not> (in64 (pqUsed r + used) \<and> in64 (pqRequests r + reqs))) (pgQuotas s));
         new = \<lparr>pqUser = userID, pqTenant = firstTenant old, pqStart = pgTs periodStart, pqEnd = pgTs newEnd,
                pqUsed = used, pqReserved = 0, pqRequests = reqs, pqUpdatedAt = now\<rparr>;
         upd = (\<lambda>r. r\<lparr>pqUsed := pqUsed r + used, pqRequests := pqRequests r + reqs, pqUpdatedAt := now\<rparr>);
         (rows, n) = (if used > 0 \<or> reqs > 0 then onConflict key new (\<lambda>_. True) upd (pgQuotas s)
                      else (pgQuotas s, 0))
     in if (used > 0 \<or> reqs > 0) \<and> overflow then (s, Inl bigintError)
        else (s\<lparr>pgQuotas := filter (\<lambda>r. \<not> staleEnd userID periodStart newEnd r) rows\<rparr>, Inr (n > 0)))"

definition SetQuotaTokensUsed :: "time \<Rightarrow> string \<Rightarrow> time \<Rightarrow> time \<Rightarrow> int \<Rightarrow> pg_state \<Rightarrow> pg_state \<times> unit result" where
  "SetQuotaTokensUsed now userID periodStart periodEnd value = pgRun (\<lambda>s.
     let v = (if value < 0 then 0 else value);
         key = quotaKey userID periodStart periodEnd;
         new = \<lparr>pqUser = userID, pqTenant = None, pqStart = pgTs periodStart, pqEnd = pgTs periodEnd,
                pqUsed = v, pqReserved = 0, pqRequests = 0, pqUpdatedAt = now\<rparr>
     in (s\<lparr>pgQuotas := fst (onConflict key new (\<lambda>_. True) (\<lambda>r. r\<lparr>pqUsed := v, pqUpdatedAt := now\<rparr>) (pgQuotas s))\<rparr>, Inr ()))"

section \<open>Well-formed counters\<close>

definition quotaRowOk :: "pg_quota \<Rightarrow> bool" where
  "quotaRowOk r \<longleftrightarrow> 0 \<le> pqUsed r \<and> 0 \<le> pqReserved r \<and> 0 \<le> pqRequests r
     \<and> in64 (pqUsed r) \<and> in64 (pqReserved r) \<and> in64 (pqRequests r)
     \<and> pgTs (pqStart r) = pqStart r \<and> pgTs (pqEnd r) = pqEnd r"

definition quotaId :: "pg_quota \<Rightarrow> string \<times> time \<times> time" where
  "quotaId r = (pqUser r, pqStart r, pqEnd r)"

definition quotasOk :: "pg_quota list \<Rightarrow> bool" where
  "quotasOk rows \<longleftrightarrow> list_all quotaRowOk rows \<and> distinct (map quotaId rows)"

lemma quotaKey_id: "quotaKey u ps pe r \<longleftrightarrow> quotaId r = (u, pgTs ps, pgTs pe)"
  by (auto simp: quotaKey_def quotaId_def)

lemma quotaKey_unique:
  assumes "quotasOk rows" "r \<in> set rows" "r' \<in> set rows" "quotaKey u ps pe r" "quotaKey u ps pe r'"
  shows "r = r'"
proof -
  have "inj_on quotaId (set rows)" using assms(1) by (simp add: quotasOk_def distinct_map)
  then show ?thesis using assms(2-5) by (auto simp: quotaKey_id inj_on_def)
qed

lemma find_quota_in: "quotasOk rows \<Longrightarrow> r \<in> set rows \<Longrightarrow> quotaKey u ps pe r \<Longrightarrow> find (quotaKey u ps pe) rows = Some r"
proof -
  assume a: "quotasOk rows" "r \<in> set rows" "quotaKey u ps pe r"
  obtain r' where r': "find (quotaKey u ps pe) rows = Some r'"
    using a(2,3) by (cases "find (quotaKey u ps pe) rows") (auto simp: find_None_iff_all)
  then show ?thesis using quotaKey_unique [OF a(1)] a(2,3) find_SomeD [OF r'] by auto
qed

text \<open>An insert that keeps identities keeps the table well formed.\<close>

lemma onConflict_ok:
  assumes "quotasOk rows" "quotaRowOk new" "quotaKey u ps pe new"
    and "\<And>r. r \<in> set rows \<Longrightarrow> quotaKey u ps pe r \<Longrightarrow> guard r \<Longrightarrow> quotaRowOk (upd r) \<and> quotaId (upd r) = quotaId r"
  shows "quotasOk (fst (onConflict (quotaKey u ps pe) new guard upd rows))"
proof (cases "list_ex (quotaKey u ps pe) rows")
  case True
  have ids: "map quotaId (updWhere (\<lambda>r. quotaKey u ps pe r \<and> guard r) upd rows) = map quotaId rows"
    using assms(4) by (simp add: updWhere_def)
  have "list_all quotaRowOk (updWhere (\<lambda>r. quotaKey u ps pe r \<and> guard r) upd rows)"
    using assms(1,4) by (auto simp: list_all_iff set_updWhere quotasOk_def)
  then show ?thesis using True ids assms(1) by (simp add: onConflict_def quotasOk_def)
next
  case False
  then have "quotaId new \<notin> quotaId ` set rows"
    using assms(3) by (auto simp: list_ex_iff quotaKey_id)
  then show ?thesis using False assms by (auto simp: onConflict_def quotasOk_def)
qed

text \<open>What a period's counter stands for: used, reserved and requests, an absent row being zero.\<close>

definition quotaOf :: "string \<Rightarrow> time \<Rightarrow> time \<Rightarrow> pg_state \<Rightarrow> int \<times> int \<times> int" where
  "quotaOf u ps pe s = (case find (quotaKey u ps pe) (pgQuotas s) of
     Some r \<Rightarrow> (pqUsed r, pqReserved r, pqRequests r) | None \<Rightarrow> (0, 0, 0))"

definition quotaState :: "pg_state \<Rightarrow> bool" where
  "quotaState s \<longleftrightarrow> pgUp s \<and> quotasOk (pgQuotas s)"

lemma quotaOf_nonneg: "quotaState s \<Longrightarrow> quotaOf u ps pe s = (x, y, z) \<Longrightarrow>
    0 \<le> x \<and> 0 \<le> y \<and> 0 \<le> z \<and> in64 x \<and> in64 y \<and> in64 z"
  by (auto simp: quotaOf_def quotaState_def quotasOk_def list_all_iff quotaRowOk_def in64_def
      split: option.splits dest!: find_SomeD)

lemma find_snoc_new: "\<not> list_ex P rows \<Longrightarrow> P new \<Longrightarrow> find P (rows @ [new]) = Some new"
  by (induction rows) auto

lemma find_onConflict:
  assumes "quotaKey u ps pe new"
    and "\<And>r. quotaKey u ps pe r \<Longrightarrow> quotaKey u ps pe (upd r)"
  shows "find (quotaKey u ps pe) (fst (onConflict (quotaKey u ps pe) new guard upd rows)) =
    (case find (quotaKey u ps pe) rows of None \<Rightarrow> Some new | Some r \<Rightarrow> Some (if guard r then upd r else r))"
proof (cases "list_ex (quotaKey u ps pe) rows")
  case True
  then obtain r where r: "find (quotaKey u ps pe) rows = Some r"
    by (cases "find (quotaKey u ps pe) rows") (auto simp: find_None_iff_all list_ex_iff)
  have "find (quotaKey u ps pe) (updWhere (\<lambda>r. quotaKey u ps pe r \<and> guard r) upd rows)
      = map_option (\<lambda>r. if quotaKey u ps pe r \<and> guard r then upd r else r) (find (quotaKey u ps pe) rows)"
    using assms(2) by (intro find_updWhere) blast
  then show ?thesis using True r find_SomeD [OF r] by (simp add: onConflict_def)
next
  case False
  then have "find (quotaKey u ps pe) rows = None" by (auto simp: find_None_iff_all list_ex_iff)
  then show ?thesis using False assms(1) by (simp add: onConflict_def find_snoc_new)
qed

lemma quota_overflow_none:
  assumes "quotasOk rows" "\<And>r. find (quotaKey u ps pe) rows = Some r \<Longrightarrow> good r"
  shows "\<not> list_ex (\<lambda>r. quotaKey u ps pe r \<and> \<not> good r) rows"
  using assms find_quota_in by (fastforce simp: list_ex_iff)

lemma affected_key:
  assumes "quotasOk rows" "find (quotaKey u ps pe) rows = Some r"
  shows "affected (\<lambda>r. quotaKey u ps pe r \<and> g r) rows = 0 \<longleftrightarrow> \<not> g r"
  unfolding affected_0 using find_SomeD [OF assms(2)] quotaKey_unique [OF assms(1)] by blast

lemma reserve_quota_fits:
  assumes "quotaState s" "quotaOf u ps pe s = (x, y, z)" "0 < t" "x + y + t \<le> limit" "in64 limit"
  shows "\<exists>s'. ReserveQuotaTokens now u tn ps pe t limit s = (s', Inr ()) \<and> quotaState s'
    \<and> quotaOf u ps pe s' = (x, y + t, z)"
proof -
  have nn: "0 \<le> x" "0 \<le> y" "in64 x" "in64 y" "in64 z" using quotaOf_nonneg [OF assms(1,2)] by auto
  define key where "key = quotaKey u ps pe"
  define new where "new = \<lparr>pqUser = u, pqTenant = tn, pqStart = pgTs ps, pqEnd = pgTs pe,
     pqUsed = 0, pqReserved = t, pqRequests = 0, pqUpdatedAt = now\<rparr>"
  define upd where "upd = (\<lambda>r :: pg_quota. r\<lparr>pqReserved := pqReserved r + t, pqUpdatedAt := now\<rparr>)"
  define guard where "guard = (\<lambda>r :: pg_quota. pqUsed r + pqReserved r + t \<le> limit)"
  have small: "in64 (x + y)" "in64 (x + y + t)" "in64 t" "in64 (y + t)" "0 < limit" "t \<le> limit"
    using nn assms(3-5) by (auto simp: in64_def)
  have q: "quotasOk (pgQuotas s)" "pgUp s" using assms(1) by (simp_all add: quotaState_def)
  have noov: "\<not> list_ex (\<lambda>r. key r \<and> \<not> (in64 (pqUsed r + pqReserved r) \<and> in64 (pqUsed r + pqReserved r + t))) (pgQuotas s)"
    unfolding key_def using assms(2) small by (intro quota_overflow_none [OF q(1)]) (auto simp: quotaOf_def)
  have hit: "snd (onConflict key new guard upd (pgQuotas s)) \<noteq> 0"
  proof (cases "find key (pgQuotas s)")
    case None
    then show ?thesis by (auto simp: onConflict_def find_None_iff_all list_ex_iff)
  next
    case (Some r)
    then have "guard r" using assms(2,4) by (simp add: quotaOf_def key_def guard_def)
    then have "affected (\<lambda>r. key r \<and> guard r) (pgQuotas s) \<noteq> 0"
      using affected_key [OF q(1) Some [unfolded key_def], of guard] by (simp add: key_def)
    then show ?thesis by (simp add: onConflict_def)
  qed
  define rows where "rows = fst (onConflict key new guard upd (pgQuotas s))"
  have run: "ReserveQuotaTokens now u tn ps pe t limit s = (s\<lparr>pgQuotas := rows\<rparr>, Inr ())"
    using assms(3) small noov hit q(2)
    by (auto simp: ReserveQuotaTokens_def Let_def key_def new_def upd_def guard_def rows_def split: prod.splits)
  have newkey: "quotaKey u ps pe new" "quotaRowOk new"
    using small assms(3) by (simp_all add: quotaKey_def new_def quotaRowOk_def in64_def)
  have updk: "\<And>r. quotaKey u ps pe r \<Longrightarrow> quotaKey u ps pe (upd r)" by (simp add: quotaKey_def upd_def)
  have ok: "quotasOk rows"
    unfolding rows_def key_def
  proof (rule onConflict_ok [OF q(1) newkey(2,1)])
    fix r assume r: "r \<in> set (pgQuotas s)" "quotaKey u ps pe r" "guard r"
    then have "quotaRowOk r" "pqReserved r = y"
      using q(1) find_quota_in [OF q(1) r(1,2)] assms(2) by (auto simp: quotasOk_def list_all_iff quotaOf_def)
    then show "quotaRowOk (upd r) \<and> quotaId (upd r) = quotaId r"
      using small(4) nn assms(3) by (simp add: upd_def quotaRowOk_def quotaId_def)
  qed
  have "quotaOf u ps pe (s\<lparr>pgQuotas := rows\<rparr>) = (x, y + t, z)"
    using assms(2,4) find_onConflict [OF newkey(1) updk, of _ guard "pgQuotas s"]
    by (auto simp: quotaOf_def rows_def key_def guard_def new_def upd_def split: option.splits if_splits)
  then show ?thesis using run ok q(2) by (auto simp: quotaState_def pgUp_def)
qed

lemma reserve_quota_over:
  assumes "quotaState s" "quotaOf u ps pe s = (x, y, z)" "0 < t" "limit < x + y + t" "0 < limit"
  shows "\<exists>e. ReserveQuotaTokens now u tn ps pe t limit s = (s, Inl e)"
proof -
  have q: "quotasOk (pgQuotas s)" "pgUp s" using assms(1) by (simp_all add: quotaState_def)
  show ?thesis
  proof (cases "find (quotaKey u ps pe) (pgQuotas s)")
    case None
    then show ?thesis using assms(2-5) by (simp add: ReserveQuotaTokens_def quotaOf_def)
  next
    case (Some r)
    have "\<not> pqUsed r + pqReserved r + t \<le> limit" using Some assms(2,4) by (simp add: quotaOf_def)
    then have "affected (\<lambda>r. quotaKey u ps pe r \<and> pqUsed r + pqReserved r + t \<le> limit) (pgQuotas s) = 0"
      using affected_key [OF q(1) Some, of "\<lambda>r. pqUsed r + pqReserved r + t \<le> limit"] by simp
    moreover have "list_ex (quotaKey u ps pe) (pgQuotas s)"
      using find_SomeD [OF Some] by (auto simp: list_ex_iff)
    ultimately show ?thesis
      using assms(3,5) q(2) by (simp add: ReserveQuotaTokens_def Let_def onConflict_def)
  qed
qed

lemma finalize_quota_spec:
  assumes "quotaState s" "quotaOf u ps pe s = (x, y, z)" "0 \<le> rt" "0 \<le> ut"
    and "in64 rt" "in64 (x + ut)" "in64 (z + (if c then 1 else 0))"
  shows "\<exists>s'. FinalizeQuotaTokens now u ps pe rt ut c s = (s', Inr ()) \<and> quotaState s'
    \<and> quotaOf u ps pe s' = (x + ut, max (y - rt) 0, z + (if c then 1 else 0))"
proof (cases "rt = 0 \<and> ut = 0 \<and> \<not> c")
  case True
  then show ?thesis using assms quotaOf_nonneg [OF assms(1,2)] by (simp add: FinalizeQuotaTokens_def)
next
  case False
  define k where "k = (if c then 1 else 0 :: int)"
  define new where "new = \<lparr>pqUser = u, pqTenant = None, pqStart = pgTs ps, pqEnd = pgTs pe,
     pqUsed = ut, pqReserved = 0, pqRequests = k, pqUpdatedAt = now\<rparr>"
  define upd where "upd = (\<lambda>r :: pg_quota. r\<lparr>pqReserved := max (pqReserved r - rt) 0, pqUsed := pqUsed r + ut,
     pqRequests := pqRequests r + k, pqUpdatedAt := now\<rparr>)"
  have nn: "0 \<le> x" "0 \<le> y" "0 \<le> z" "in64 x" "in64 y" "in64 z" using quotaOf_nonneg [OF assms(1,2)] by auto
  have k: "0 \<le> k" "k \<le> 1" by (auto simp: k_def)
  have zk: "in64 (z + k)" using assms(7) by (simp only: k_def)
  have small: "in64 (y - rt)" "in64 (z + k)" "in64 ut" "in64 (max (y - rt) 0)" "in64 k"
    using nn assms(3-6) k zk by (auto simp: in64_def max_def)
  have q: "quotasOk (pgQuotas s)" "pgUp s" using assms(1) by (simp_all add: quotaState_def)
  have noov: "\<not> list_ex (\<lambda>r. quotaKey u ps pe r \<and> \<not> (in64 (pqReserved r - rt) \<and> in64 (pqUsed r + ut) \<and> in64 (pqRequests r + k))) (pgQuotas s)"
    using assms(2,6) small by (intro quota_overflow_none [OF q(1)]) (auto simp: quotaOf_def)
  define rows where "rows = fst (onConflict (quotaKey u ps pe) new (\<lambda>_. True) upd (pgQuotas s))"
  have run: "FinalizeQuotaTokens now u ps pe rt ut c s = (s\<lparr>pgQuotas := rows\<rparr>, Inr ())"
    using False assms(3,4) noov q(2)
    by (auto simp: FinalizeQuotaTokens_def Let_def k_def new_def upd_def rows_def)
  have newkey: "quotaKey u ps pe new" "quotaRowOk new"
    using small assms(4) k by (simp_all add: quotaKey_def new_def quotaRowOk_def in64_def)
  have updk: "\<And>r. quotaKey u ps pe r \<Longrightarrow> quotaKey u ps pe (upd r)" by (simp add: quotaKey_def upd_def)
  have ok: "quotasOk rows"
    unfolding rows_def
  proof (rule onConflict_ok [OF q(1) newkey(2,1)])
    fix r assume r: "r \<in> set (pgQuotas s)" "quotaKey u ps pe r"
    then have "quotaRowOk r" "pqReserved r = y" "pqUsed r = x" "pqRequests r = z"
      using q(1) find_quota_in [OF q(1) r(1,2)] assms(2) by (auto simp: quotasOk_def list_all_iff quotaOf_def)
    then show "quotaRowOk (upd r) \<and> quotaId (upd r) = quotaId r"
      using small nn assms(4,6) k by (simp add: upd_def quotaRowOk_def quotaId_def)
  qed
  have "quotaOf u ps pe (s\<lparr>pgQuotas := rows\<rparr>) = (x + ut, max (y - rt) 0, z + k)"
    using assms(2,3) find_onConflict [OF newkey(1) updk, of _ "\<lambda>_. True" "pgQuotas s"]
    by (auto simp: quotaOf_def rows_def new_def upd_def split: option.splits)
  then show ?thesis using run ok q(2) by (auto simp: quotaState_def pgUp_def k_def)
qed

section \<open>Requests against one period\<close>

text \<open>
  The requests of one user and period, with the reservations that are open: a request reserves or
  is refused, and settles an open reservation with at most the tokens it reserved.
\<close>

lemma finalize_quota_overflow:
  assumes "quotaState s" "quotaOf u ps pe s = (x, y, z)" "c" "\<not> in64 (z + 1)"
  shows "FinalizeQuotaTokens now u ps pe rt ut c s = (s, Inl bigintError)"
proof -
  obtain r where r: "find (quotaKey u ps pe) (pgQuotas s) = Some r" "pqRequests r = z"
    using assms(2,4) by (auto simp: quotaOf_def in64_def split: option.splits)
  then have "list_ex (\<lambda>r. quotaKey u ps pe r \<and> \<not> (in64 (pqReserved r - rt) \<and> in64 (pqUsed r + ut) \<and> in64 (pqRequests r + 1))) (pgQuotas s)"
    using find_SomeD [OF r(1)] assms(4) by (auto simp: list_ex_iff)
  then show ?thesis using assms(1,3) by (simp add: FinalizeQuotaTokens_def Let_def quotaState_def)
qed

inductive quota_run :: "string \<Rightarrow> time \<Rightarrow> time \<Rightarrow> int \<Rightarrow> pg_state \<Rightarrow> int list \<Rightarrow> pg_state \<Rightarrow> bool"
  for u ps pe limit s0 where
  qr_start: "quota_run u ps pe limit s0 [] s0"
| qr_reserve: "\<lbrakk>quota_run u ps pe limit s0 opn s; 0 < t; ReserveQuotaTokens now u tn ps pe t limit s = (s', Inr ())\<rbrakk>
    \<Longrightarrow> quota_run u ps pe limit s0 (t # opn) s'"
| qr_refuse: "\<lbrakk>quota_run u ps pe limit s0 opn s; ReserveQuotaTokens now u tn ps pe t limit s = (s', Inl e)\<rbrakk>
    \<Longrightarrow> quota_run u ps pe limit s0 opn s'"
| qr_settle: "\<lbrakk>quota_run u ps pe limit s0 opn s; t \<in> set opn; 0 \<le> used; used \<le> t;
      FinalizeQuotaTokens now u ps pe t used c s = (s', Inr ())\<rbrakk>
    \<Longrightarrow> quota_run u ps pe limit s0 (remove1 t opn) s'"

lemma quota_reserve_Inl_same: "ReserveQuotaTokens now u tn ps pe t limit s = (s', Inl e) \<Longrightarrow> s' = s"
  by (auto simp: ReserveQuotaTokens_def pgRun_def Let_def split: if_splits option.splits prod.splits)

lemma sum_list_remove1_int: "t \<in> set xs \<Longrightarrow> sum_list (remove1 t xs) = sum_list xs - (t :: int)"
  by (induction xs) auto

lemma sum_list_ge_mem: "t \<in> set xs \<Longrightarrow> \<forall>x \<in> set xs. 0 \<le> x \<Longrightarrow> t \<le> sum_list (xs :: int list)"
  by (induction xs) (auto simp: sum_list_nonneg)

lemma quota_run_invariant:
  assumes "quota_run u ps pe limit s0 opn s" "quotaState s0" "quotaOf u ps pe s0 = (x0, 0, z0)"
    and "x0 \<le> limit" "0 < limit" "in64 limit"
  shows "quotaState s \<and> (\<forall>t \<in> set opn. 0 < t) \<and>
    (\<exists>x z. quotaOf u ps pe s = (x, sum_list opn, z) \<and> x + sum_list opn \<le> limit)"
  using assms(1)
proof (induction rule: quota_run.induct)
  case qr_start
  then show ?case using assms by auto
next
  case (qr_reserve opn s t now tn s')
  then obtain x z where q: "quotaState s" "quotaOf u ps pe s = (x, sum_list opn, z)" by auto
  have fits: "x + sum_list opn + t \<le> limit"
    using reserve_quota_over [OF q qr_reserve(2) _ assms(5), of now tn] qr_reserve(3) by fastforce
  show ?case
    using reserve_quota_fits [OF q qr_reserve(2) fits assms(6), of now tn] qr_reserve fits
    by (auto simp: algebra_simps)
next
  case (qr_refuse opn s now tn t s' e)
  then show ?case using quota_reserve_Inl_same by blast
next
  case (qr_settle opn s t used now c s')
  then obtain x z where q: "quotaState s" "quotaOf u ps pe s = (x, sum_list opn, z)"
    and le: "x + sum_list opn \<le> limit" and pos: "\<forall>t \<in> set opn. 0 < t" by auto
  have nn: "0 \<le> x" "0 \<le> z" "in64 z" using quotaOf_nonneg [OF q] by auto
  have t: "0 < t" "t \<le> sum_list opn"
    using pos qr_settle(2) sum_list_ge_mem [of t opn] by (auto intro: less_imp_le)
  have i: "in64 t" "in64 (x + used)" using le t nn qr_settle(3,4) assms(6) by (auto simp: in64_def)
  have z1: "in64 (z + (if c then 1 else 0))"
    using finalize_quota_overflow [OF q, where c = c and now = now and rt = t and ut = used] qr_settle(5) nn(3) by (cases c) auto
  show ?case
    using finalize_quota_spec [OF q, where rt = t and ut = used and now = now and c = c] t i z1 qr_settle(2-5) le pos
    by (auto simp: sum_list_remove1_int max_def algebra_simps dest: notin_set_remove1 in_set_remove1 [THEN iffD1] set_remove1_subset [THEN subsetD])
qed

section \<open>Consolidation of a period's rows\<close>

definition periodRows :: "string \<Rightarrow> time \<Rightarrow> pg_quota list \<Rightarrow> pg_quota list" where
  "periodRows u ps rows = filter (\<lambda>r. pqUser r = u \<and> pqStart r = pgTs ps) rows"

definition periodUsed :: "string \<Rightarrow> time \<Rightarrow> pg_state \<Rightarrow> int" where
  "periodUsed u ps s = sum_list (map pqUsed (periodRows u ps (pgQuotas s)))"

definition periodRequests :: "string \<Rightarrow> time \<Rightarrow> pg_state \<Rightarrow> int" where
  "periodRequests u ps s = sum_list (map pqRequests (periodRows u ps (pgQuotas s)))"

lemma sum_split:
  fixes g :: "pg_quota \<Rightarrow> int"
  shows "sum_list (map g (periodRows u ps rows)) =
    sum_list (map g (filter (staleEnd u ps e) rows)) + sum_list (map g (filter (quotaKey u ps e) rows))"
  by (induction rows) (auto simp: periodRows_def staleEnd_def quotaKey_def)

lemma stale_gone: "filter (quotaKey u ps e) (filter (\<lambda>r. \<not> staleEnd u ps e r) rows) = filter (quotaKey u ps e) rows"
  "filter (staleEnd u ps e) (filter (\<lambda>r. \<not> staleEnd u ps e r) rows) = []"
  by (induction rows) (auto simp: staleEnd_def quotaKey_def)

lemma filter_key_single:
  assumes "quotasOk rows" "list_ex (quotaKey u ps e) rows"
  shows "\<exists>r. filter (quotaKey u ps e) rows = [r]"
proof -
  obtain r where r: "r \<in> set rows" "quotaKey u ps e r" using assms(2) by (auto simp: list_ex_iff)
  have "set (filter (quotaKey u ps e) rows) = {r}"
    using r quotaKey_unique [OF assms(1)] by auto
  moreover have "distinct (filter (quotaKey u ps e) rows)"
    using assms(1) by (auto simp: quotasOk_def distinct_map)
  ultimately have "length (filter (quotaKey u ps e) rows) = 1"
    by (metis distinct_card card.empty card_insert_disjoint empty_iff finite.emptyI One_nat_def)
  then show ?thesis by (auto simp: length_Suc_conv)
qed

lemma filter_other_updWhere:
  "(\<And>r. P r \<Longrightarrow> \<not> Q r \<and> \<not> Q (f r)) \<Longrightarrow> filter Q (updWhere P f rows) = filter Q rows"
  by (induction rows) (auto simp: updWhere_def)

text \<open>The table after the upsert of the aggregate, before the old rows are deleted.\<close>

lemma migrate_upsert:
  fixes used reqs :: int and now :: time
  assumes "quotasOk rows" "quotaKey u ps e new" "pqUsed new = used" "pqRequests new = reqs"
  defines "upd \<equiv> \<lambda>r :: pg_quota. r\<lparr>pqUsed := pqUsed r + used, pqRequests := pqRequests r + reqs, pqUpdatedAt := now\<rparr>"
  defines "rows1 \<equiv> fst (onConflict (quotaKey u ps e) new (\<lambda>_. True) upd rows)"
  shows "sum_list (map pqUsed (filter (quotaKey u ps e) rows1)) = sum_list (map pqUsed (filter (quotaKey u ps e) rows)) + used"
    and "sum_list (map pqRequests (filter (quotaKey u ps e) rows1)) = sum_list (map pqRequests (filter (quotaKey u ps e) rows)) + reqs"
    and "filter (\<lambda>r. \<not> (pqUser r = u \<and> pqStart r = pgTs ps)) rows1 = filter (\<lambda>r. \<not> (pqUser r = u \<and> pqStart r = pgTs ps)) rows"
proof -
  let ?K = "quotaKey u ps e"
  have kupd: "?K (upd r) = ?K r" for r :: pg_quota by (simp add: quotaKey_def upd_def)
  have frame: "filter (\<lambda>r. \<not> (pqUser r = u \<and> pqStart r = pgTs ps)) rows1 = filter (\<lambda>r. \<not> (pqUser r = u \<and> pqStart r = pgTs ps)) rows"
    using assms(2) unfolding rows1_def onConflict_def
    by (auto simp: upd_def quotaKey_def intro!: filter_other_updWhere)
  then show "filter (\<lambda>r. \<not> (pqUser r = u \<and> pqStart r = pgTs ps)) rows1 = filter (\<lambda>r. \<not> (pqUser r = u \<and> pqStart r = pgTs ps)) rows" .
  have "sum_list (map pqUsed (filter ?K rows1)) = sum_list (map pqUsed (filter ?K rows)) + used \<and>
      sum_list (map pqRequests (filter ?K rows1)) = sum_list (map pqRequests (filter ?K rows)) + reqs"
  proof (cases "list_ex ?K rows")
    case True
    obtain r where r: "filter ?K rows = [r]" using filter_key_single [OF assms(1) True] by blast
    have "filter ?K (updWhere ?K upd rows) = map upd (filter ?K rows)"
      using kupd by (induction rows) (auto simp: updWhere_def)
    then show ?thesis using True r by (simp add: rows1_def onConflict_def) (simp add: upd_def)
  next
    case False
    then have "filter ?K rows = []" by (auto simp: list_ex_iff filter_empty_conv)
    then show ?thesis using False assms(2-4) by (simp add: rows1_def onConflict_def)
  qed
  then show "sum_list (map pqUsed (filter ?K rows1)) = sum_list (map pqUsed (filter ?K rows)) + used"
    "sum_list (map pqRequests (filter ?K rows1)) = sum_list (map pqRequests (filter ?K rows)) + reqs" by auto
qed

lemma migrate_spec:
  assumes "quotaState s" "MigrateQuotaCounterPeriodEnd now u ps e s = (s', Inr b)"
  shows "periodUsed u ps s' = periodUsed u ps s \<and> periodRequests u ps s' = periodRequests u ps s"
    and "filter (\<lambda>r. \<not> (pqUser r = u \<and> pqStart r = pgTs ps)) (pgQuotas s') = filter (\<lambda>r. \<not> (pqUser r = u \<and> pqStart r = pgTs ps)) (pgQuotas s)"
    and "filter (staleEnd u ps e) (pgQuotas s') = []" and "pgUp s'"
proof -
  let ?rows = "pgQuotas s"
  define old where "old = filter (staleEnd u ps e) ?rows"
  define used where "used = sum_list (map pqUsed old)"
  define reqs where "reqs = sum_list (map pqRequests old)"
  define new where "new = \<lparr>pqUser = u, pqTenant = firstTenant old, pqStart = pgTs ps, pqEnd = pgTs e,
      pqUsed = used, pqReserved = 0, pqRequests = reqs, pqUpdatedAt = now\<rparr>"
  define upd where "upd = (\<lambda>r :: pg_quota. r\<lparr>pqUsed := pqUsed r + used, pqRequests := pqRequests r + reqs, pqUpdatedAt := now\<rparr>)"
  define rows1 where "rows1 = (if used > 0 \<or> reqs > 0 then fst (onConflict (quotaKey u ps e) new (\<lambda>_. True) upd ?rows) else ?rows)"
  have q: "quotasOk ?rows" "pgUp s" using assms(1) by (simp_all add: quotaState_def)
  have s': "s' = s\<lparr>pgQuotas := filter (\<lambda>r. \<not> staleEnd u ps e r) rows1\<rparr>"
    using assms(2) q(2)
    by (auto simp: MigrateQuotaCounterPeriodEnd_def Let_def rows1_def new_def upd_def used_def reqs_def old_def
        split: prod.splits if_splits)
  have nn: "0 \<le> used" "0 \<le> reqs"
    using q(1) by (auto simp: used_def reqs_def old_def quotasOk_def list_all_iff quotaRowOk_def intro!: sum_list_nonneg)
  have newk: "quotaKey u ps e new" "pqUsed new = used" "pqRequests new = reqs" by (simp_all add: new_def quotaKey_def)
  note up = migrate_upsert [OF q(1) newk, of now, folded upd_def]
  have sums: "sum_list (map pqUsed (filter (quotaKey u ps e) rows1)) = sum_list (map pqUsed (filter (quotaKey u ps e) ?rows)) + used"
    "sum_list (map pqRequests (filter (quotaKey u ps e) rows1)) = sum_list (map pqRequests (filter (quotaKey u ps e) ?rows)) + reqs"
    using up nn by (auto simp: rows1_def)
  show "periodUsed u ps s' = periodUsed u ps s \<and> periodRequests u ps s' = periodRequests u ps s"
    unfolding periodUsed_def periodRequests_def sum_split [of _ u ps _ e]
    using sums by (simp add: s' stale_gone used_def reqs_def old_def del: filter_filter)
  show "filter (staleEnd u ps e) (pgQuotas s') = []" by (simp add: s' stale_gone)
  have "filter (\<lambda>r. \<not> (pqUser r = u \<and> pqStart r = pgTs ps)) (filter (\<lambda>r. \<not> staleEnd u ps e r) rows1) = filter (\<lambda>r. \<not> (pqUser r = u \<and> pqStart r = pgTs ps)) rows1"
    by (induction rows1) (auto simp: staleEnd_def)
  then show "filter (\<lambda>r. \<not> (pqUser r = u \<and> pqStart r = pgTs ps)) (pgQuotas s') = filter (\<lambda>r. \<not> (pqUser r = u \<and> pqStart r = pgTs ps)) (pgQuotas s)"
    using up(3) by (simp add: s' rows1_def)
  show "pgUp s'" using q(2) by (simp add: s' pgUp_def)
qed

lemma migrate_again:
  assumes "pgUp s" "filter (staleEnd u ps e) (pgQuotas s) = []"
  shows "MigrateQuotaCounterPeriodEnd now u ps e s = (s, Inr False)"
proof -
  have "filter (\<lambda>r. \<not> staleEnd u ps e r) (pgQuotas s) = pgQuotas s"
    using assms(2) by (simp add: filter_empty_conv)
  then show ?thesis using assms by (simp add: MigrateQuotaCounterPeriodEnd_def)
qed

section \<open>Properties\<close>

text \<open>A period in which 40 of 100 tokens are used, and the row an earlier expiry left behind.\<close>

definition sampleQuota :: "time \<Rightarrow> int \<Rightarrow> pg_quota" where
  "sampleQuota pe used = \<lparr>pqUser = ''u'', pqTenant = None, pqStart = 0, pqEnd = pe, pqUsed = used,
     pqReserved = 0, pqRequests = 3, pqUpdatedAt = 0\<rparr>"

definition sampleQuotas :: pg_state where
  "sampleQuotas = pgEmpty\<lparr>pgQuotas := [sampleQuota 1000 40, sampleQuota 2000 5]\<rparr>"

lemma sampleQuotas_ok: "quotaState sampleQuotas" "quotaOf ''u'' 0 1000 sampleQuotas = (40, 0, 3)"
  by (simp_all add: quotaState_def quotasOk_def quotaRowOk_def quotaId_def sampleQuotas_def sampleQuota_def pgEmpty_def
      pgUp_def in64_def pgTs_def quotaOf_def quotaKey_def)



text \<open>
  A token reservation is granted exactly when the tokens used and reserved so far leave room
  for it; a refused one changes nothing.
\<close>

theorem quota_reserve_exact:
  assumes "quotaState s" "quotaOf u ps pe s = (x, y, z)" "0 < t" "0 < limit" "in64 limit"
  shows "(snd (ReserveQuotaTokens now u tn ps pe t limit s) = Inr () \<longleftrightarrow> x + y + t \<le> limit)
    \<and> quotaOf u ps pe (fst (ReserveQuotaTokens now u tn ps pe t limit s)) = (x, if x + y + t \<le> limit then y + t else y, z)"
  using reserve_quota_fits [OF assms(1-3) _ assms(5), of now tn] reserve_quota_over [OF assms(1-3) _ assms(4), of now tn] assms(2)
  by (cases "x + y + t \<le> limit") fastforce+

theorem quota_reserve_exact_witness:
  "snd (ReserveQuotaTokens 9 ''u'' None 0 1000 61 100 sampleQuotas) \<noteq> Inr ()"
  using quota_reserve_exact [OF sampleQuotas_ok, of 61 100 9 None] by (simp add: in64_def)

text \<open>
  C19.  Consolidating a period's counters onto the current period end keeps the user's total tokens
  and requests for the period, leaves no row at another end and changes no row of another user or
  period; repeating it does nothing and reports that nothing moved.
\<close>

theorem migrate_conserves_usage:
  assumes "quotaState s" "MigrateQuotaCounterPeriodEnd now u ps e s = (s', Inr b)"
  shows "periodUsed u ps s' = periodUsed u ps s \<and> periodRequests u ps s' = periodRequests u ps s
    \<and> list_all (\<lambda>r. pqEnd r = pgTs e) (periodRows u ps (pgQuotas s'))
    \<and> filter (\<lambda>r. \<not> (pqUser r = u \<and> pqStart r = pgTs ps)) (pgQuotas s')
        = filter (\<lambda>r. \<not> (pqUser r = u \<and> pqStart r = pgTs ps)) (pgQuotas s)
    \<and> MigrateQuotaCounterPeriodEnd now2 u ps e s' = (s', Inr False)"
  using migrate_spec [OF assms] migrate_again [OF migrate_spec(4,3) [OF assms]]
  by (auto simp: periodRows_def list_all_iff filter_empty_conv staleEnd_def)

theorem migrate_conserves_usage_witness:
  "periodUsed ''u'' 0 (fst (MigrateQuotaCounterPeriodEnd 9 ''u'' 0 2000 sampleQuotas)) = 45"
proof -
  have run: "MigrateQuotaCounterPeriodEnd 9 ''u'' 0 2000 sampleQuotas
      = (fst (MigrateQuotaCounterPeriodEnd 9 ''u'' 0 2000 sampleQuotas), Inr True)"
    by (simp add: MigrateQuotaCounterPeriodEnd_def sampleQuotas_def sampleQuota_def pgEmpty_def pgRun_def Let_def
        staleEnd_def quotaKey_def pgTs_def in64_def onConflict_def affected_def updWhere_def)
  have "periodUsed ''u'' 0 sampleQuotas = 45"
    by (simp add: periodUsed_def periodRows_def sampleQuotas_def sampleQuota_def pgTs_def)
  then show ?thesis using migrate_conserves_usage [OF sampleQuotas_ok(1) run] by simp
qed

section \<open>Other counters\<close>

lemma find_onConflict_other:
  assumes "quotaKey u ps pe new" "\<And>r. quotaId (upd r) = quotaId r" "(u', pgTs ps', pgTs pe') \<noteq> (u, pgTs ps, pgTs pe)"
  shows "find (quotaKey u' ps' pe') (fst (onConflict (quotaKey u ps pe) new guard upd rows)) = find (quotaKey u' ps' pe') rows"
proof (cases "list_ex (quotaKey u ps pe) rows")
  case True
  have "find (quotaKey u' ps' pe') (updWhere (\<lambda>r. quotaKey u ps pe r \<and> guard r) upd rows) = find (quotaKey u' ps' pe') rows"
    using assms(2,3) by (intro find_updWhere_other) (auto simp: quotaKey_id)
  then show ?thesis using True by (simp add: onConflict_def)
next
  case False
  have "find (quotaKey u' ps' pe') (rows @ [new]) = find (quotaKey u' ps' pe') rows"
    using assms(1,3) by (induction rows) (auto simp: quotaKey_id)
  then show ?thesis using False by (simp add: onConflict_def)
qed

lemma quotaOf_key: "pgTs ps = pgTs ps' \<Longrightarrow> pgTs pe = pgTs pe' \<Longrightarrow> quotaOf u ps pe s = quotaOf u ps' pe' s"
  by (simp add: quotaOf_def quotaKey_def [abs_def])

lemma quotaOf_pgQuotas: "pgQuotas s = pgQuotas s' \<Longrightarrow> quotaOf u ps pe s = quotaOf u ps pe s'"
  by (simp add: quotaOf_def)

lemma reserve_quota_frame:
  assumes "ReserveQuotaTokens now u tn ps pe t limit s = (s', res)"
  shows "\<exists>rows. s' = s\<lparr>pgQuotas := rows\<rparr>"
    and "(u', pgTs ps', pgTs pe') \<noteq> (u, pgTs ps, pgTs pe) \<Longrightarrow> quotaOf u' ps' pe' s' = quotaOf u' ps' pe' s"
proof -
  let ?new = "\<lparr>pqUser = u, pqTenant = tn, pqStart = pgTs ps, pqEnd = pgTs pe, pqUsed = 0, pqReserved = t, pqRequests = 0, pqUpdatedAt = now\<rparr>"
  let ?upd = "\<lambda>r :: pg_quota. r\<lparr>pqReserved := pqReserved r + t, pqUpdatedAt := now\<rparr>"
  have o: "s' = s \<or> s' = s\<lparr>pgQuotas := fst (onConflict (quotaKey u ps pe) ?new (\<lambda>r. pqUsed r + pqReserved r + t \<le> limit) ?upd (pgQuotas s))\<rparr>"
    using assms by (auto simp: ReserveQuotaTokens_def pgRun_def Let_def split: if_splits option.splits prod.splits)
  then show "\<exists>rows. s' = s\<lparr>pgQuotas := rows\<rparr>"
  proof
    assume "s' = s"
    then have "s' = s\<lparr>pgQuotas := pgQuotas s\<rparr>" by simp
    then show ?thesis by blast
  qed blast
  assume n: "(u', pgTs ps', pgTs pe') \<noteq> (u, pgTs ps, pgTs pe)"
  have "find (quotaKey u' ps' pe') (fst (onConflict (quotaKey u ps pe) ?new (\<lambda>r. pqUsed r + pqReserved r + t \<le> limit) ?upd (pgQuotas s)))
      = find (quotaKey u' ps' pe') (pgQuotas s)"
    by (rule find_onConflict_other [OF _ _ n]) (simp_all add: quotaKey_def quotaId_def)
  then show "quotaOf u' ps' pe' s' = quotaOf u' ps' pe' s" using o by (auto simp: quotaOf_def)
qed

lemma finalize_quota_frame:
  assumes "FinalizeQuotaTokens now u ps pe rt ut c s = (s', res)"
  shows "\<exists>rows. s' = s\<lparr>pgQuotas := rows\<rparr>"
    and "(u', pgTs ps', pgTs pe') \<noteq> (u, pgTs ps, pgTs pe) \<Longrightarrow> quotaOf u' ps' pe' s' = quotaOf u' ps' pe' s"
proof -
  define k where "k = (if c then 1 else 0 :: int)"
  let ?new = "\<lparr>pqUser = u, pqTenant = None, pqStart = pgTs ps, pqEnd = pgTs pe, pqUsed = ut, pqReserved = 0, pqRequests = k, pqUpdatedAt = now\<rparr>"
  let ?upd = "\<lambda>r :: pg_quota. r\<lparr>pqReserved := max (pqReserved r - rt) 0, pqUsed := pqUsed r + ut, pqRequests := pqRequests r + k, pqUpdatedAt := now\<rparr>"
  have o: "s' = s \<or> s' = s\<lparr>pgQuotas := fst (onConflict (quotaKey u ps pe) ?new (\<lambda>_. True) ?upd (pgQuotas s))\<rparr>"
    using assms unfolding k_def FinalizeQuotaTokens_def pgRun_def Let_def by (simp split: if_splits option.splits)
  then show "\<exists>rows. s' = s\<lparr>pgQuotas := rows\<rparr>"
  proof
    assume "s' = s"
    then have "s' = s\<lparr>pgQuotas := pgQuotas s\<rparr>" by simp
    then show ?thesis by blast
  qed blast
  assume n: "(u', pgTs ps', pgTs pe') \<noteq> (u, pgTs ps, pgTs pe)"
  have "find (quotaKey u' ps' pe') (fst (onConflict (quotaKey u ps pe) ?new (\<lambda>_. True) ?upd (pgQuotas s))) = find (quotaKey u' ps' pe') (pgQuotas s)"
    by (rule find_onConflict_other [OF _ _ n]) (simp_all add: quotaKey_def quotaId_def)
  then show "quotaOf u' ps' pe' s' = quotaOf u' ps' pe' s" using o by (auto simp: quotaOf_def)
qed

text \<open>Reserving tokens and releasing them leaves every counter as it was.\<close>

lemma quota_reserve_release:
  assumes "quotaState s" "0 < t" "in64 limit" "ReserveQuotaTokens now u tn ps pe t limit s = (s1, Inr ())" "0 < limit"
    and "FinalizeQuotaTokens now' u ps pe t 0 False s1 = (s2, res)"
  shows "quotaOf u' ps' pe' s2 = quotaOf u' ps' pe' s"
proof -
  obtain x y z where q: "quotaOf u ps pe s = (x, y, z)" by (metis prod_cases3)
  have nn: "0 \<le> y" "in64 x" "in64 z" using quotaOf_nonneg [OF assms(1) q] by auto
  have le: "x + y + t \<le> limit" using reserve_quota_over [OF assms(1) q assms(2) _ assms(5), of now tn] assms(4) by fastforce
  have s1: "quotaState s1" "quotaOf u ps pe s1 = (x, y + t, z)"
    using reserve_quota_fits [OF assms(1) q assms(2) le assms(3), of now tn] assms(4) by auto
  have "in64 t" using assms(2,3) le nn quotaOf_nonneg [OF assms(1) q] by (simp add: in64_def)
  then have "quotaOf u ps pe s2 = (x, y, z)"
    using finalize_quota_spec [OF s1, of t 0 False now'] assms(2,6) nn by auto
  then show ?thesis
    using q reserve_quota_frame(2) [OF assms(4)] finalize_quota_frame(2) [OF assms(6)] quotaOf_key
    by (metis (no_types, lifting) prod.inject)
qed

end
