(* ===== verification/Reservation.thy ===== *)
theory Reservation
  imports ApiKeys PgQuota
begin

text \<open>
  Reserving what a request may cost and settling what it did cost: the entitlement service
  (\<^verbatim>\<open>entitlement_service.go\<close>) and, from \<^verbatim>\<open>gateway_handler.go\<close>, \<^verbatim>\<open>tryPriorityBilling\<close>,
  \<^verbatim>\<open>reserveRuntimeLimits\<close> and \<^verbatim>\<open>finalizeRuntimeReservation\<close>.  A handler works on the Postgres tables and on
  Redis; a call sees one instant \<open>now\<close> for all the clock readings it makes.  The lemmas show that a refused request holds
  nothing, that a request is billed from the one source its key is pinned to, and that settling without
  a charge gives everything back.
\<close>

section \<open>The entitlement service\<close>

type_synonym 'r gwState = "pg_state \<times> 'r"

type_synonym 'r entCache = "('r, CustomerEntitlement) Cache option"

definition entitlementCacheNamespace :: string where
  "entitlementCacheNamespace = ''ent''"

definition entitlementCacheTTL :: duration where
  "entitlementCacheTTL = 30 * nsSecond"

definition UpsertEnt :: "'r entCache \<Rightarrow> uuid \<Rightarrow> time \<Rightarrow> CustomerEntitlement \<Rightarrow> 'r gwState \<Rightarrow> 'r gwState \<times> CustomerEntitlement result" where
  "UpsertEnt co fresh now item = (\<lambda>(s, r).
     if ceGenfityUserID item = [] then ((s, r), Inl (ErrText ''genfity_user_id is required''))
     else if cePlanCode item = [] then ((s, r), Inl (ErrText ''plan_code is required''))
     else (case upsertEntitlement now (item\<lparr>ceID := orNew fresh (ceID item),
                  ceStatus := defaultString (ceStatus item) ''active'', ceUpdatedFromGenfityAt := now\<rparr>) s of
             (s1, Inl e) \<Rightarrow> ((s1, r), Inl e)
           | (s1, Inr saved) \<Rightarrow> ((s1, cacheDel co entitlementCacheNamespace (ceGenfityUserID saved) r), Inr saved)))"

definition InvalidateUser :: "'r entCache \<Rightarrow> string \<Rightarrow> 'r gwState \<Rightarrow> 'r gwState" where
  "InvalidateUser co userID = (\<lambda>(s, r). (s, cacheDel co entitlementCacheNamespace userID r))"

definition GetByUser :: "'r entCache \<Rightarrow> time \<Rightarrow> string \<Rightarrow> 'r gwState \<Rightarrow> 'r gwState \<times> CustomerEntitlement result" where
  "GetByUser co now userID = (\<lambda>(s, r).
     case cacheGet co entitlementCacheNamespace userID r of
       (r1, Inr cached) \<Rightarrow> ((s, r1), Inr cached)
     | (r1, Inl _) \<Rightarrow>
         (case GetEntitlementByUser now userID s of
            Inl e \<Rightarrow> ((s, r1), Inl e)
          | Inr fresh \<Rightarrow> ((s, cacheSet co entitlementCacheNamespace userID fresh entitlementCacheTTL r1), Inr fresh)))"

definition entitlementPricingGroup :: "CustomerEntitlement \<Rightarrow> string" where
  "entitlementPricingGroup item =
     (case cePricingGroup item of
        Some g \<Rightarrow> if g \<noteq> [] then g else (case metaObject (ceMetadata item) of Some m \<Rightarrow> jgetStr m ''pricingGroup'' | None \<Rightarrow> [])
      | None \<Rightarrow> (case metaObject (ceMetadata item) of Some m \<Rightarrow> jgetStr m ''pricingGroup'' | None \<Rightarrow> []))"

definition entByGroup :: "string \<Rightarrow> time \<Rightarrow> string \<Rightarrow> pg_state \<Rightarrow> CustomerEntitlement result" where
  "entByGroup grp now userID s = (case ListActiveEntitlementsByUser now userID s of
       Inl e \<Rightarrow> Inl e
     | Inr rows \<Rightarrow> firstRow (\<lambda>r. entitlementPricingGroup r = grp) rows)"

definition GetCreditEntitlementByUser :: "time \<Rightarrow> string \<Rightarrow> pg_state \<Rightarrow> CustomerEntitlement result" where
  "GetCreditEntitlementByUser = entByGroup ''credit_package''"

definition GetPaygEntitlementByUser :: "time \<Rightarrow> string \<Rightarrow> pg_state \<Rightarrow> CustomerEntitlement result" where
  "GetPaygEntitlementByUser = entByGroup ''payg_topup''"

definition CheckActiveSubscription :: "'r entCache \<Rightarrow> time \<Rightarrow> string \<Rightarrow> 'r gwState \<Rightarrow> 'r gwState \<times> ActiveSubscription result" where
  "CheckActiveSubscription co now userID st = (case GetByUser co now userID st of
       (st1, Inl e) \<Rightarrow> (st1, Inl e)
     | (st1, Inr ent) \<Rightarrow>
         if ceStatus ent \<noteq> ''active'' then (st1, Inl (ErrText ''subscription_inactive''))
         else if (case cePeriodEnd ent of None \<Rightarrow> False | Some e \<Rightarrow> e < now) then (st1, Inl (ErrText ''subscription_inactive''))
         else (case GetPlanByCode (cePlanCode ent) (fst st1) of
                 Inl e \<Rightarrow> (st1, Inl e)
               | Inr plan \<Rightarrow> (st1, Inr \<lparr>asEntitlement = Some ent, asPlan = Some plan\<rparr>)))"

definition resolveSubscription :: "'r entCache \<Rightarrow> time \<Rightarrow> string \<Rightarrow> 'r gwState \<Rightarrow> 'r gwState \<times> ActiveSubscription option result" where
  "resolveSubscription co now userID st = (case CheckActiveSubscription co now userID st of
       (st1, Inr sub) \<Rightarrow> (st1, Inr (Some sub))
     | (st1, Inl e) \<Rightarrow>
         if e = ErrNotFound \<or> e = ErrText ''subscription_inactive'' then (st1, Inr None) else (st1, Inl e))"

section \<open>The handler\<close>

text \<open>
  The services a request uses: the limiter (nil without Redis) with its key prefix, and the binding of
  floating-point arguments by the database driver.
\<close>

record 'r gatewayHandler =
  ghRateLimit :: "('r redis_api \<times> string) option"
  ghNum :: "float64 \<Rightarrow> rat option"
  ghEnt :: "'r entCache"

definition onPg :: "(pg_state \<Rightarrow> pg_state \<times> 'a) \<Rightarrow> 'r gwState \<Rightarrow> 'r gwState \<times> 'a" where
  "onPg f = (\<lambda>(s, r). case f s of (s1, x) \<Rightarrow> ((s1, r), x))"

definition onRedis :: "('r \<Rightarrow> 'r \<times> 'a) \<Rightarrow> 'r gwState \<Rightarrow> 'r gwState \<times> 'a" where
  "onRedis f = (\<lambda>(s, r). case f r of (r1, x) \<Rightarrow> ((s, r1), x))"

definition isFreeUsageLedgerEntry :: "UsageLedgerEntry \<Rightarrow> bool" where
  "isFreeUsageLedgerEntry row \<longleftrightarrow> hasSuffix (uePublicModel row) '':free''
     \<or> (case ueRouterModel row of None \<Rightarrow> False | Some m \<Rightarrow> hasSuffix m '':free'')"

definition countsTowardsPeriod :: "time \<Rightarrow> time \<Rightarrow> UsageLedgerEntry \<Rightarrow> bool" where
  "countsTowardsPeriod start end' row \<longleftrightarrow> ueStatus row = ''success'' \<and> ueBillingMode row = Some ''unlimited''
     \<and> \<not> isFreeUsageLedgerEntry row \<and> start \<le> ueStartedAt row \<and> ueStartedAt row < end'"

definition periodCredits :: "UsageLedgerEntry list \<Rightarrow> float64" where
  "periodCredits rows = foldl (\<lambda>c row. case ueAmountCredits row of None \<Rightarrow> c | Some a \<Rightarrow> fadd c (parseFloatPtr (Some a))) fzero rows"

definition ensurePeriodCounterBaseline ::
  "'r gatewayHandler \<Rightarrow> time \<Rightarrow> string \<Rightarrow> ActiveSubscription option \<Rightarrow> duration \<Rightarrow> bool \<Rightarrow> bool \<Rightarrow> 'r gwState \<Rightarrow> 'r gwState" where
  "ensurePeriodCounterBaseline h now userID subscription ttl ensureRequests ensureCredits = (\<lambda>(s, r).
     case (ghRateLimit h, subscription) of
       (Some (R, pfx), Some sub) \<Rightarrow>
         (let pk = periodKey now (asEntitlement sub) in
          if userID = [] \<or> asEntitlement sub = None \<or> pk = [] then (s, r)
          else
            (case (if ensureRequests then GetRequestsPerPeriodCount R pfx userID pk r else (r, 1)) of (r1, n) \<Rightarrow>
             case (if ensureCredits then GetPlanCreditsPerPeriodCount R pfx userID pk r1 else (r1, Fin 1)) of (r2, c) \<Rightarrow>
               let needRequests = ensureRequests \<and> n = 0; needCredits = ensureCredits \<and> feq c fzero in
               if \<not> needRequests \<and> \<not> needCredits then (s, r2)
               else
                 case activePeriod now (asEntitlement sub) of (start, end') \<Rightarrow>
                   let rows = filter (countsTowardsPeriod start end') (ListUsageByUserSince userID start s);
                       requests = int (length rows); credits = periodCredits rows;
                       r3 = (if needRequests \<and> requests > 0 then fst (SetRequestsPerPeriod R pfx userID pk ttl requests r2) else r2);
                       r4 = (if needCredits \<and> flt fzero credits then fst (SetPlanCreditsPerPeriod R pfx userID pk ttl credits r3) else r3)
                   in (s, r4)))
     | _ \<Rightarrow> (s, r))"

section \<open>Reserving\<close>

type_synonym outcome = "runtimeReservation \<times> int \<times> string"

definition refused :: "int \<Rightarrow> string \<Rightarrow> outcome" where
  "refused status code = (zeroReservation, status, code)"

definition granted :: "runtimeReservation \<Rightarrow> outcome" where
  "granted res = (res, 0, [])"

text \<open>Giving reserved quota tokens back when a later check refuses the request.\<close>

definition releaseQuota :: "time \<Rightarrow> string \<Rightarrow> runtimeReservation \<Rightarrow> 'r gwState \<Rightarrow> 'r gwState" where
  "releaseQuota now userID res st =
     (if rrQuotaTokens res > 0
      then fst (onPg (FinalizeQuotaTokens now userID (rrPeriodStart res) (rrPeriodEnd res) (rrQuotaTokens res) 0 False) st)
      else st)"

text \<open>The credit caps of an unlimited plan: a day counter and a period counter in Redis.\<close>

definition reservePlanCredits ::
  "'r gatewayHandler \<Rightarrow> 'r redis_api \<Rightarrow> string \<Rightarrow> time \<Rightarrow> string \<Rightarrow> ActiveSubscription option \<Rightarrow> plan_limits \<Rightarrow> time \<Rightarrow> float64
     \<Rightarrow> tokenReservationEstimate \<Rightarrow> runtimeReservation \<Rightarrow> 'r gwState \<Rightarrow> 'r gwState \<times> outcome" where
  "reservePlanCredits h R pfx now userID subscription limits periodEnd creditsPer20k estimate res0 st0 =
     (let reservedCredits = estimateReservedRequestCredits creditsPer20k estimate;
          pk = periodKey now (case subscription of None \<Rightarrow> None | Some sub \<Rightarrow> asEntitlement sub);
          res = res0\<lparr>rrPlanCreditPeriodKey := pk\<rparr>;
          ttl = (if periodEnd - now \<le> 0 then 24 * nsHour else periodEnd - now);
          st = ensurePeriodCounterBaseline h now userID subscription ttl False True st0
      in case (if HasCreditPerDay limits
               then onRedis (CheckPlanCreditRPD R pfx now userID pk reservedCredits (plCreditLimitPerDay limits)) st
               else (st, Inr ())) of
           (st1, Inl _) \<Rightarrow> (releaseQuota now userID res st1, refused 429 ''plan_credit_rpd_exceeded'')
         | (st1, Inr _) \<Rightarrow>
             let res1 = (if HasCreditPerDay limits then res\<lparr>rrPlanCreditsPerDay := reservedCredits\<rparr> else res) in
             (case (if HasCreditPerPeriod limits
                    then onRedis (CheckPlanCreditsPerPeriod R pfx userID pk ttl reservedCredits (plCreditLimitPerPeriod limits)) st1
                    else (st1, Inr ())) of
                (st2, Inl _) \<Rightarrow>
                  let st3 = (if flt fzero (rrPlanCreditsPerDay res1)
                             then fst (onRedis (FinalizePlanCreditRPD R pfx now userID pk (rrPlanCreditsPerDay res1) fzero) st2) else st2)
                  in (releaseQuota now userID res1 st3, refused 429 ''plan_credit_period_exceeded'')
              | (st2, Inr _) \<Rightarrow>
                  let res2 = (if HasCreditPerPeriod limits then res1\<lparr>rrPlanCreditsPerPeriod := reservedCredits, rrPlanCreditPeriodKey := pk\<rparr> else res1)
                  in (st2, granted (res2\<lparr>rrPlanCreditPricePer20k := creditsPer20k\<rparr>))))"

text \<open>The token quota of the plan, when it has one.\<close>

definition reservePlanQuota :: "time \<Rightarrow> APIKey \<Rightarrow> ActiveSubscription option \<Rightarrow> CustomerEntitlement \<Rightarrow> tokenReservationEstimate
     \<Rightarrow> 'r gwState \<Rightarrow> 'r gwState \<times> (outcome + runtimeReservation)" where
  "reservePlanQuota now apiKey subscription ent estimate st =
     (let res = zeroReservation\<lparr>rrBillingMode := ''unlimited'', rrPlanCode := cePlanCode ent\<rparr>;
          (periodStart, periodEnd) = activePeriod now (Some ent);
          limit = quotaLimit subscription
      in if limit \<le> 0 then (st, Inr res)
         else if \<not> teBounded estimate then (st, Inl (refused 400 ''max_tokens_required''))
         else (case onPg (ReserveQuotaTokens now (akGenfityUserID apiKey) (akGenfityTenantID apiKey) periodStart periodEnd
                       (teTotalTokens estimate) limit) st of
                 (st1, Inl e) \<Rightarrow>
                   (st1, Inl (if e = ErrQuotaExceeded then refused 429 ''quota_exceeded'' else refused 500 ''quota_reservation_failed''))
               | (st1, Inr _) \<Rightarrow>
                   (st1, Inr (res\<lparr>rrPeriodStart := periodStart, rrPeriodEnd := periodEnd, rrQuotaTokens := teTotalTokens estimate\<rparr>))))"

definition capPlanCredits :: "'r gatewayHandler \<Rightarrow> time \<Rightarrow> APIKey \<Rightarrow> ActiveSubscription option \<Rightarrow> CustomerEntitlement \<Rightarrow> AIModel
     \<Rightarrow> tokenReservationEstimate \<Rightarrow> runtimeReservation \<Rightarrow> 'r gwState \<Rightarrow> 'r gwState \<times> outcome" where
  "capPlanCredits h now apiKey subscription ent model estimate res st =
     (let limits = PlanLimitsFromSnapshot (subscriptionPlan subscription); userID = akGenfityUserID apiKey in
      case ghRateLimit h of
        None \<Rightarrow> (st, granted res)
      | Some (R, pfx) \<Rightarrow>
          if \<not> HasCreditPerDay limits \<and> \<not> HasCreditPerPeriod limits then (st, granted res)
          else
            (case GetModelCreditCost (amPublicModel model) (fst st) of
               Inr (Some cost) \<Rightarrow>
                 if \<not> mcIsActive cost
                 then (releaseQuota now userID res st, refused 500 ''subscription_credit_cost_not_configured'')
                 else
                   let creditsPer20k = parseFloatPtr (Some (mcCreditsPerReq cost)) in
                   if \<not> mcIsFree cost \<and> flt fzero creditsPer20k
                   then reservePlanCredits h R pfx now userID subscription limits (snd (activePeriod now (Some ent))) creditsPer20k estimate res st
                   else (st, granted res)
             | _ \<Rightarrow> (releaseQuota now userID res st, refused 500 ''subscription_credit_cost_not_configured'')))"

definition reserveSubscription ::
  "'r gatewayHandler \<Rightarrow> time \<Rightarrow> APIKey \<Rightarrow> ActiveSubscription option \<Rightarrow> AIModel \<Rightarrow> tokenReservationEstimate
     \<Rightarrow> 'r gwState \<Rightarrow> 'r gwState \<times> outcome" where
  "reserveSubscription h now apiKey subscription model estimate st =
     (case subscription of
        None \<Rightarrow> (st, refused 402 ''no_active_subscription'')
      | Some sub \<Rightarrow>
         (case asEntitlement sub of
            None \<Rightarrow> (st, refused 402 ''no_active_subscription'')
          | Some ent \<Rightarrow>
              if \<not> isUnlimitedGroup (gateGroup subscription) \<or> \<not> modelCoveredByUnlimited subscription (Some model)
              then (st, refused 402 ''subscription_not_covering_model'')
              else (case reservePlanQuota now apiKey subscription ent estimate st of
                      (st1, Inl out) \<Rightarrow> (st1, out)
                    | (st1, Inr res) \<Rightarrow> capPlanCredits h now apiKey subscription ent model estimate res st1)))"

definition reserveCredit :: "'r gatewayHandler \<Rightarrow> time \<Rightarrow> APIKey \<Rightarrow> AIModel \<Rightarrow> tokenReservationEstimate
     \<Rightarrow> 'r gwState \<Rightarrow> 'r gwState \<times> outcome" where
  "reserveCredit h now apiKey model estimate st =
     (let userID = akGenfityUserID apiKey in
      if amPublicModel model = [] then (st, refused 402 ''credit_cost_not_configured'')
      else
        (case GetModelCreditCost (amPublicModel model) (fst st) of
           Inr (Some cost) \<Rightarrow>
             if \<not> mcIsActive cost then (st, refused 402 ''credit_cost_not_configured'')
             else
               let creditsPer20k = parseFloatPtr (Some (mcCreditsPerReq cost)) in
               if mcIsFree cost \<or> fle creditsPer20k fzero then
                 (case GetCreditEntitlementByUser now userID (fst st) of
                    Inr ent \<Rightarrow>
                      if ceCreditBalance ent \<noteq> None \<and> flt fzero (parseFloatPtr (ceCreditBalance ent))
                      then (st, granted (zeroReservation\<lparr>rrBillingMode := ''credit_package''\<rparr>))
                      else (st, refused 402 ''insufficient_credit_balance'')
                  | Inl _ \<Rightarrow> (st, refused 402 ''insufficient_credit_balance''))
               else
                 let reservedCredits = estimateReservedRequestCredits creditsPer20k estimate in
                 (case onPg (ReserveRequestCredits (ghNum h) now userID reservedCredits) st of
                    (st1, Inl e) \<Rightarrow>
                      (st1, if e = ErrInsufficientBalance then refused 402 ''insufficient_credit_balance''
                            else refused 500 ''credit_reservation_failed'')
                  | (st1, Inr _) \<Rightarrow>
                      (st1, granted (zeroReservation\<lparr>rrBillingMode := ''credit_package'', rrRequestCredits := reservedCredits,
                              rrCreditPricePer20k := creditsPer20k\<rparr>)))
         | _ \<Rightarrow> (st, refused 402 ''credit_cost_not_configured'')))"

definition reservePayg :: "'r gatewayHandler \<Rightarrow> time \<Rightarrow> APIKey \<Rightarrow> AIModel \<Rightarrow> tokenReservationEstimate
     \<Rightarrow> 'r gwState \<Rightarrow> 'r gwState \<times> outcome" where
  "reservePayg h now apiKey model estimate st =
     (let userID = akGenfityUserID apiKey in
      if \<not> amPaygExposed model then (st, refused 402 ''payg_model_not_published'')
      else
        (case modelPrice (ListPrices (fst st)) (amID model) of
           None \<Rightarrow> (st, refused 402 ''payg_price_not_configured'')
         | Some price \<Rightarrow>
             if \<not> teBounded estimate \<and> flt fzero (parseFloatPtr (Some (apOutputPricePer1M price)))
             then (st, refused 400 ''max_tokens_required'')
             else
               let reserveUSD = reserveUSDFor estimate price in
               if fle reserveUSD fzero then
                 (case GetPaygEntitlementByUser now userID (fst st) of
                    Inr ent \<Rightarrow>
                      if cePaygUsdBalance ent \<noteq> None \<and> flt fzero (parseFloatPtr (cePaygUsdBalance ent))
                      then (st, granted (zeroReservation\<lparr>rrBillingMode := ''payg_topup''\<rparr>))
                      else (st, refused 402 ''insufficient_balance'')
                  | Inl _ \<Rightarrow> (st, refused 402 ''insufficient_balance''))
               else
                 (case onPg (ReservePaygUsdBalance (ghNum h) now userID reserveUSD) st of
                    (st1, Inl e) \<Rightarrow>
                      (st1, if e = ErrInsufficientBalance then refused 402 ''insufficient_balance''
                            else refused 500 ''payg_reservation_failed'')
                  | (st1, Inr _) \<Rightarrow> (st1, granted (zeroReservation\<lparr>rrBillingMode := ''payg_topup'', rrPaygUSD := reserveUSD\<rparr>)))))"

definition keySource :: "APIKey \<Rightarrow> string" where
  "keySource apiKey = (if akBillingSource apiKey = [] then ''subscription'' else akBillingSource apiKey)"

definition tryPriorityBilling :: "'r gatewayHandler \<Rightarrow> time \<Rightarrow> APIKey \<Rightarrow> ActiveSubscription option \<Rightarrow> AIModel option
     \<Rightarrow> tokenReservationEstimate \<Rightarrow> 'r gwState \<Rightarrow> 'r gwState \<times> outcome" where
  "tryPriorityBilling h now apiKey subscription model estimate st = (case model of
       None \<Rightarrow> (st, (zeroReservation, 0, []))
     | Some m \<Rightarrow>
         let source = keySource apiKey in
         if source = ''subscription'' then reserveSubscription h now apiKey subscription m estimate st
         else if source = ''credit'' then reserveCredit h now apiKey m estimate st
         else if source = ''payg'' then reservePayg h now apiKey m estimate st
         else (st, refused 402 ''billing_source_not_applicable''))"

text \<open>A run-time panic of the handler, caught by the recovery middleware.\<close>

definition nilDereference :: gerror where
  "nilDereference = ErrText ''invalid memory address or nil pointer dereference''"

text \<open>The path for entitlements without a billing source, kept behind the priority chain.\<close>

definition reserveLegacy :: "'r gatewayHandler \<Rightarrow> time \<Rightarrow> APIKey \<Rightarrow> ActiveSubscription option \<Rightarrow> AIModel option
     \<Rightarrow> tokenReservationEstimate \<Rightarrow> 'r gwState \<Rightarrow> 'r gwState \<times> outcome result" where
  "reserveLegacy h now apiKey subscription model estimate st =
     (if pricingGroup subscription \<noteq> ''credit_package'' then (st, Inr (granted zeroReservation))
      else if fle (balanceAmount subscription) fzero then (st, Inr (refused 402 ''insufficient_balance''))
      else (case model of
              None \<Rightarrow> (st, Inl nilDereference)
            | Some m \<Rightarrow>
                (case modelPrice (ListPrices (fst st)) (amID m) of
                   None \<Rightarrow> (st, Inr (granted zeroReservation))
                 | Some price \<Rightarrow>
                     if \<not> teBounded estimate \<and> flt fzero (parseFloatPtr (Some (apOutputPricePer1M price)))
                     then (st, Inr (refused 400 ''max_tokens_required''))
                     else
                       let reserveUSD = reserveUSDFor estimate price in
                       (case (if flt fzero reserveUSD then (case subscription of None \<Rightarrow> None | Some sub \<Rightarrow> asEntitlement sub) else None) of
                          None \<Rightarrow> (st, Inr (granted zeroReservation))
                        | Some ent \<Rightarrow>
                            (case onPg (ReserveCreditBalance (ghNum h) now (akGenfityUserID apiKey) (cePlanCode ent) reserveUSD) st of
                               (st1, Inl e) \<Rightarrow>
                                 (st1, Inr (if e = ErrInsufficientBalance then refused 402 ''insufficient_balance''
                                            else refused 500 ''credit_reservation_failed''))
                             | (st1, Inr _) \<Rightarrow>
                                 (st1, Inr (granted (zeroReservation\<lparr>rrCreditUSD := reserveUSD, rrCreditPlanCode := cePlanCode ent\<rparr>))))))))"

definition reserveRuntimeLimits :: "'r gatewayHandler \<Rightarrow> time \<Rightarrow> APIKey \<Rightarrow> ActiveSubscription option \<Rightarrow> plan_limits
     \<Rightarrow> jobject \<Rightarrow> AIModel option \<Rightarrow> 'r gwState \<Rightarrow> 'r gwState \<times> outcome result" where
  "reserveRuntimeLimits h now apiKey subscription limits payload model st =
     (let estimate = estimateRequestTokens payload model; userID = akGenfityUserID apiKey in
      case (case ghRateLimit h of
              Some (R, pfx) \<Rightarrow> if HasTPM limits
                then onRedis (CheckTPM R pfx userID (TPMAllowance limits (teTotalTokens estimate)) (plTPM limits)) st else (st, Inr ())
            | None \<Rightarrow> (st, Inr ())) of
        (st1, Inl _) \<Rightarrow> (st1, Inr (refused 429 ''rate_limit_exceeded''))
      | (st1, Inr _) \<Rightarrow>
          (case (case (ghRateLimit h, model) of
                   (Some (R, pfx), Some m) \<Rightarrow>
                     (case amFreeLimitTPD m of
                        Some tpd \<Rightarrow> if amIsFree m \<and> tpd > 0
                          then onRedis (CheckFreeModelTPD R pfx now userID (amPublicModel m) (teTotalTokens estimate) tpd) st1 else (st1, Inr ())
                      | None \<Rightarrow> (st1, Inr ()))
                 | _ \<Rightarrow> (st1, Inr ())) of
             (st2, Inl _) \<Rightarrow> (st2, Inr (refused 429 ''free_model_tpd_exceeded''))
           | (st2, Inr _) \<Rightarrow>
               (case tryPriorityBilling h now apiKey subscription model estimate st2 of
                  (st3, (pri, status, code)) \<Rightarrow>
                    if status \<noteq> 0 \<or> rrBillingMode pri \<noteq> [] then (st3, Inr (pri, status, code))
                    else reserveLegacy h now apiKey subscription model estimate st3)))"

section \<open>Settling\<close>

text \<open>One finalising call after the other; the first error ends the sequence.\<close>

definition andThen :: "'r gwState \<times> unit result \<Rightarrow> ('r gwState \<Rightarrow> 'r gwState \<times> unit result) \<Rightarrow> 'r gwState \<times> unit result" where
  "andThen p k = (case p of (st, Inl e) \<Rightarrow> (st, Inl e) | (st, Inr _) \<Rightarrow> k st)"

definition whenDo :: "bool \<Rightarrow> ('r gwState \<Rightarrow> 'r gwState \<times> unit result) \<Rightarrow> 'r gwState \<Rightarrow> 'r gwState \<times> unit result" where
  "whenDo b f st = (if b then f st else (st, Inr ()))"

definition finalizeRuntimeReservation :: "'r gatewayHandler \<Rightarrow> time \<Rightarrow> APIKey \<Rightarrow> runtimeReservation \<Rightarrow> usageSettlement
     \<Rightarrow> 'r gwState \<Rightarrow> 'r gwState \<times> unit result" where
  "finalizeRuntimeReservation h now apiKey res settlement st =
     (let userID = akGenfityUserID apiKey; charge = usChargeUsage settlement;
          usedTokens = (if charge then usTotalTokens settlement else 0);
          actualUSD = (if charge then usTotalCostUSD settlement else fzero);
          actualCredits = (if charge then usActualCredits settlement else fzero);
          limiter = (\<lambda>b f. whenDo b (\<lambda>st. case ghRateLimit h of None \<Rightarrow> (st, Inr ()) | Some (R, pfx) \<Rightarrow> onRedis (f R pfx) st))
      in andThen (andThen (andThen (andThen (andThen
           (whenDo (rrQuotaTokens res > 0 \<or> usCountRequest settlement)
              (onPg (FinalizeQuotaTokens now userID (rrPeriodStart res) (rrPeriodEnd res) (rrQuotaTokens res) usedTokens (usCountRequest settlement))) st)
           (limiter (flt fzero (rrPlanCreditsPerDay res))
              (\<lambda>R pfx. FinalizePlanCreditRPD R pfx now userID (rrPlanCreditPeriodKey res) (rrPlanCreditsPerDay res) actualCredits)))
           (limiter (flt fzero (rrPlanCreditsPerPeriod res))
              (\<lambda>R pfx. FinalizePlanCreditsPerPeriod R pfx userID (rrPlanCreditPeriodKey res) (rrPlanCreditsPerPeriod res) actualCredits)))
           (whenDo (flt fzero (rrCreditUSD res))
              (onPg (FinalizeCreditBalance (ghNum h) now userID (rrCreditPlanCode res) (rrCreditUSD res) actualUSD))))
           (whenDo (flt fzero (rrRequestCredits res))
              (onPg (FinalizeRequestCredits (ghNum h) now userID (rrRequestCredits res) actualCredits))))
           (whenDo (flt fzero (rrPaygUSD res))
              (onPg (FinalizePaygUsdBalance (ghNum h) now userID (rrPaygUSD res) actualUSD))))"

section \<open>What an outcome can be\<close>

definition isRefusal :: "outcome \<Rightarrow> bool" where
  "isRefusal out = (case out of (res, status, code) \<Rightarrow> status \<noteq> 0 \<and> res = zeroReservation \<and> code \<noteq> [])"

definition noBalance :: "runtimeReservation \<Rightarrow> bool" where
  "noBalance res \<longleftrightarrow> rrCreditUSD res = fzero \<and> rrRequestCredits res = fzero \<and> rrPaygUSD res = fzero"

definition noPlanUse :: "runtimeReservation \<Rightarrow> bool" where
  "noPlanUse res \<longleftrightarrow> rrQuotaTokens res = 0 \<and> rrPlanCreditsPerDay res = fzero \<and> rrPlanCreditsPerPeriod res = fzero"

text \<open>A grant takes from the one source of the key and from nothing else.\<close>

definition isGrant :: "string \<Rightarrow> outcome \<Rightarrow> bool" where
  "isGrant source out = (case out of (res, status, code) \<Rightarrow> status = 0 \<and>
     ((source = ''subscription'' \<and> rrBillingMode res = ''unlimited'' \<and> noBalance res)
      \<or> (source = ''credit'' \<and> rrBillingMode res = ''credit_package'' \<and> noPlanUse res \<and> rrPaygUSD res = fzero \<and> rrCreditUSD res = fzero)
      \<or> (source = ''payg'' \<and> rrBillingMode res = ''payg_topup'' \<and> noPlanUse res \<and> rrRequestCredits res = fzero \<and> rrCreditUSD res = fzero)))"

lemma isRefusal_refused [simp]: "status \<noteq> 0 \<Longrightarrow> code \<noteq> [] \<Longrightarrow> isRefusal (refused status code)"
  by (simp add: isRefusal_def refused_def)

lemma zeroReservation_cols [simp]:
  "rrQuotaTokens zeroReservation = 0" "rrCreditUSD zeroReservation = fzero" "rrRequestCredits zeroReservation = fzero"
  "rrPaygUSD zeroReservation = fzero" "rrPlanCreditsPerDay zeroReservation = fzero" "rrPlanCreditsPerPeriod zeroReservation = fzero"
  "rrBillingMode zeroReservation = []" "rrPeriodStart zeroReservation = zeroTime" "rrPeriodEnd zeroReservation = zeroTime"
  by (simp_all add: zeroReservation_def)

lemma isGrant_subscription [simp]:
  "isGrant ''subscription'' (granted res) \<longleftrightarrow> rrBillingMode res = ''unlimited'' \<and> noBalance res"
  by (simp add: isGrant_def granted_def)

text \<open>Adding plan credits to a reservation leaves its mode, its quota and its balances.\<close>

definition withPlanCredits :: "runtimeReservation \<Rightarrow> runtimeReservation \<Rightarrow> bool" where
  "withPlanCredits res0 res \<longleftrightarrow> (\<exists>k d p c. res = res0\<lparr>rrPlanCreditPeriodKey := k, rrPlanCreditsPerDay := d,
     rrPlanCreditsPerPeriod := p, rrPlanCreditPricePer20k := c\<rparr>)"

lemma releaseQuota_cong:
  "rrQuotaTokens res = rrQuotaTokens res' \<Longrightarrow> rrPeriodStart res = rrPeriodStart res' \<Longrightarrow> rrPeriodEnd res = rrPeriodEnd res'
    \<Longrightarrow> releaseQuota now u res st = releaseQuota now u res' st"
  by (simp add: releaseQuota_def)

lemma fst_onRedis [simp]: "fst (fst (onRedis f st)) = fst st"
  by (simp add: onRedis_def split: prod.splits)

lemma onRedis_pg: "onRedis f st = (st1, x) \<Longrightarrow> fst st1 = fst st"
  using fst_onRedis [of f st] by simp

lemma fst_baseline [simp]: "fst (ensurePeriodCounterBaseline h now u sub ttl a b st) = fst st"
  by (cases st) (simp add: ensurePeriodCounterBaseline_def Let_def split: prod.split option.split)

lemma reservePlanCredits_out:
  obtains (refusal) st1 code where "reservePlanCredits h R pfx now u sub limits pe c est res0 st0 = (releaseQuota now u res0 st1, refused 429 code)"
      "fst st1 = fst st0" "code \<noteq> []"
  | (grant) st1 res where "reservePlanCredits h R pfx now u sub limits pe c est res0 st0 = (st1, granted res)"
      "fst st1 = fst st0" "withPlanCredits res0 res"
proof -
  define pk where "pk = periodKey now (case sub of None \<Rightarrow> None | Some sub \<Rightarrow> asEntitlement sub)"
  define amount where "amount = estimateReservedRequestCredits c est"
  define ttl where "ttl = (if pe - now \<le> 0 then 24 * nsHour else pe - now)"
  define st where "st = ensurePeriodCounterBaseline h now u sub ttl False True st0"
  define res where "res = res0\<lparr>rrPlanCreditPeriodKey := pk\<rparr>"
  define res1 where "res1 = (if HasCreditPerDay limits then res\<lparr>rrPlanCreditsPerDay := amount\<rparr> else res)"
  have core: "rrQuotaTokens r = rrQuotaTokens res0" "rrPeriodStart r = rrPeriodStart res0" "rrPeriodEnd r = rrPeriodEnd res0"
    if "r = res \<or> r = res1" for r
    using that by (auto simp: res_def res1_def)
  obtain st1 x where e1: "(if HasCreditPerDay limits
               then onRedis (CheckPlanCreditRPD R pfx now u pk amount (plCreditLimitPerDay limits)) st else (st, Inr ())) = (st1, x)"
    by (metis surj_pair)
  have s1: "fst st1 = fst st0" using e1 by (auto simp: st_def split: if_splits dest: onRedis_pg)
  obtain st2 y where e2: "(if HasCreditPerPeriod limits
               then onRedis (CheckPlanCreditsPerPeriod R pfx u pk ttl amount (plCreditLimitPerPeriod limits)) st1 else (st1, Inr ())) = (st2, y)"
    by (metis surj_pair)
  have s2: "fst st2 = fst st0" using e2 s1 by (auto split: if_splits dest: onRedis_pg)
  note unf = reservePlanCredits_def Let_def pk_def [symmetric] amount_def [symmetric] ttl_def [symmetric] st_def [symmetric]
    res_def [symmetric] res1_def [symmetric] e1 e2
  show ?thesis
  proof (cases x)
    case (Inl e)
    have "reservePlanCredits h R pfx now u sub limits pe c est res0 st0 = (releaseQuota now u res0 st1, refused 429 ''plan_credit_rpd_exceeded'')"
      unfolding unf Inl using releaseQuota_cong [of res res0] core [of res] by simp
    then show ?thesis using refusal s1 by simp
  next
    case r1: (Inr v)
    show ?thesis
    proof (cases y)
      case (Inl e)
      define st3 where "st3 = (if flt fzero (rrPlanCreditsPerDay res1)
          then fst (onRedis (FinalizePlanCreditRPD R pfx now u pk (rrPlanCreditsPerDay res1) fzero) st2) else st2)"
      have "reservePlanCredits h R pfx now u sub limits pe c est res0 st0 = (releaseQuota now u res1 st3, refused 429 ''plan_credit_period_exceeded'')"
        unfolding unf r1 st3_def by (simp only: prod.case sum.case e2 Inl)
      moreover have "releaseQuota now u res1 st3 = releaseQuota now u res0 st3"
        using core [of res1] by (intro releaseQuota_cong) auto
      moreover have "fst st3 = fst st0" by (simp add: st3_def s2)
      ultimately show ?thesis using refusal by simp
    next
      case (Inr w)
      define res2 where "res2 = (if HasCreditPerPeriod limits then res1\<lparr>rrPlanCreditsPerPeriod := amount, rrPlanCreditPeriodKey := pk\<rparr> else res1)"
      have "reservePlanCredits h R pfx now u sub limits pe c est res0 st0 = (st2, granted (res2\<lparr>rrPlanCreditPricePer20k := c\<rparr>))"
        unfolding unf r1 res2_def by (simp only: prod.case sum.case e2 Inr)
      moreover have "withPlanCredits res0 (res2\<lparr>rrPlanCreditPricePer20k := c\<rparr>)"
        unfolding withPlanCredits_def
        by (rule exI [of _ "rrPlanCreditPeriodKey res2"], rule exI [of _ "rrPlanCreditsPerDay res2"],
            rule exI [of _ "rrPlanCreditsPerPeriod res2"], rule exI [of _ c])
          (simp add: res2_def res1_def res_def)
      ultimately show ?thesis using grant s2 by blast
    qed
  qed
qed

lemma withPlanCredits_refl: "withPlanCredits res res"
  unfolding withPlanCredits_def
  by (rule exI [of _ "rrPlanCreditPeriodKey res"], rule exI [of _ "rrPlanCreditsPerDay res"],
      rule exI [of _ "rrPlanCreditsPerPeriod res"], rule exI [of _ "rrPlanCreditPricePer20k res"]) simp

lemma capPlanCredits_out:
  obtains (refusal) st1 status code where "capPlanCredits h now key sub ent m est res0 st0 = (releaseQuota now (akGenfityUserID key) res0 st1, refused status code)"
      "fst st1 = fst st0" "status \<noteq> 0" "code \<noteq> []"
  | (grant) st1 res where "capPlanCredits h now key sub ent m est res0 st0 = (st1, granted res)"
      "fst st1 = fst st0" "withPlanCredits res0 res"
proof (cases "ghRateLimit h")
  case None
  then show ?thesis by (intro grant [OF _ refl withPlanCredits_refl]) (simp add: capPlanCredits_def)
next
  case (Some Rp)
  obtain R pfx where rl: "ghRateLimit h = Some (R, pfx)" using Some by (cases Rp) simp
  let ?l = "PlanLimitsFromSnapshot (subscriptionPlan sub)"
  show ?thesis
  proof (cases "\<not> HasCreditPerDay ?l \<and> \<not> HasCreditPerPeriod ?l")
    case True
    then show ?thesis by (intro grant [OF _ refl withPlanCredits_refl]) (simp add: capPlanCredits_def rl Let_def)
  next
    case capped: False
    show ?thesis
    proof (cases "\<exists>cost. GetModelCreditCost (amPublicModel m) (fst st0) = Inr (Some cost) \<and> mcIsActive cost")
      case False
      then show ?thesis
        by (intro refusal [OF _ refl, of 500 "''subscription_credit_cost_not_configured''"])
          (use capped in \<open>auto simp: capPlanCredits_def rl Let_def split: sum.split option.split\<close>)
    next
      case True
      then obtain cost where cost: "GetModelCreditCost (amPublicModel m) (fst st0) = Inr (Some cost)" "mcIsActive cost" by blast
      let ?c = "parseFloatPtr (Some (mcCreditsPerReq cost))"
      show ?thesis
      proof (cases "\<not> mcIsFree cost \<and> flt fzero ?c")
        case False
        then show ?thesis
          by (intro grant [OF _ refl withPlanCredits_refl]) (use capped cost in \<open>auto simp: capPlanCredits_def rl Let_def\<close>)
      next
        case True
        then have run: "capPlanCredits h now key sub ent m est res0 st0 = reservePlanCredits h R pfx now (akGenfityUserID key) sub ?l
            (snd (activePeriod now (Some ent))) ?c est res0 st0"
          using capped cost by (auto simp: capPlanCredits_def rl Let_def)
        show ?thesis
          by (rule reservePlanCredits_out [of h R pfx now "akGenfityUserID key" sub ?l "snd (activePeriod now (Some ent))" ?c est res0 st0])
            (simp_all add: run refusal grant)
      qed
    qed
  qed
qed

section \<open>Refusals hold nothing\<close>

text \<open>The tables but for the bookkeeping rows of the quota: same balances, same used, reserved and counted.\<close>

definition sameFunds :: "pg_state \<Rightarrow> pg_state \<Rightarrow> bool" where
  "sameFunds s s' \<longleftrightarrow> s'\<lparr>pgQuotas := pgQuotas s\<rparr> = s \<and> (\<forall>u ps pe. quotaOf u ps pe s' = quotaOf u ps pe s)"

lemma sameFunds_refl [simp]: "sameFunds s s"
  by (simp add: sameFunds_def)

lemma fst_onPg: "fst (fst (onPg f st)) = fst (f (fst st))"
  by (simp add: onPg_def split: prod.splits)

lemma releaseQuota_pg:
  assumes "fst st = fst st'"
  shows "fst (releaseQuota now u res st) = fst (releaseQuota now u res st')"
  using assms by (simp add: releaseQuota_def fst_onPg)

lemma quotaOnly: "s' = s\<lparr>pgQuotas := rows\<rparr> \<Longrightarrow> s'\<lparr>pgQuotas := pgQuotas s\<rparr> = s"
  by simp

text \<open>What a plan quota takes, its release gives back.\<close>

lemma reserve_release_same:
  assumes "quotaState s" "in64 limit" "0 < limit" "ReserveQuotaTokens now u tn ps pe t limit s = (s1, Inr ())"
    and "rrQuotaTokens res = t" "rrPeriodStart res = ps" "rrPeriodEnd res = pe" "fst st = s1"
  shows "sameFunds s (fst (releaseQuota now u res st))"
proof (cases "0 < t")
  case True
  obtain s2 r2 where f: "FinalizeQuotaTokens now u ps pe t 0 False s1 = (s2, r2)" by (metis surj_pair)
  have rel: "fst (releaseQuota now u res st) = s2" using True assms(5-8) f by (simp add: releaseQuota_def fst_onPg)
  obtain rows1 where "s1 = s\<lparr>pgQuotas := rows1\<rparr>" using reserve_quota_frame(1) [OF assms(4)] by blast
  moreover obtain rows2 where "s2 = s1\<lparr>pgQuotas := rows2\<rparr>" using finalize_quota_frame(1) [OF f] by blast
  ultimately have "s2\<lparr>pgQuotas := pgQuotas s\<rparr> = s" by simp
  moreover have "quotaOf u' ps' pe' s2 = quotaOf u' ps' pe' s" for u' ps' pe'
    by (rule quota_reserve_release [OF assms(1) True assms(2,4,3) f])
  ultimately show ?thesis unfolding rel sameFunds_def by simp
next
  case False
  then have "s1 = s" using assms(4) by (simp add: ReserveQuotaTokens_def)
  then show ?thesis using False assms(5,8) by (simp add: releaseQuota_def)
qed

lemma reservePlanQuota_out:
  fixes st0 :: "'r gwState"
  obtains (refusal) status code where "reservePlanQuota now key sub ent est st0 = (st0, Inl (refused status code))"
      "status \<noteq> 0" "code \<noteq> []"
  | (grant) st1 res where "reservePlanQuota now key sub ent est st0 = (st1, Inr res)"
      "rrBillingMode res = ''unlimited''" "noBalance res"
      "\<And>st :: 'r gwState. \<lbrakk>quotaState (fst st0); in64 (quotaLimit sub); fst st = fst st1\<rbrakk> \<Longrightarrow> sameFunds (fst st0) (fst (releaseQuota now (akGenfityUserID key) res st))"
proof (cases "quotaLimit sub \<le> 0")
  case True
  show ?thesis
    by (rule grant [of st0 "zeroReservation\<lparr>rrBillingMode := ''unlimited'', rrPlanCode := cePlanCode ent\<rparr>"])
      (use True in \<open>simp_all add: reservePlanQuota_def Let_def noBalance_def releaseQuota_def split: prod.split\<close>)
next
  case lim: False
  obtain ps pe where p: "activePeriod now (Some ent) = (ps, pe)" by (metis surj_pair)
  show ?thesis
  proof (cases "teBounded est")
    case False
    then show ?thesis
      by (intro refusal [of 400 "''max_tokens_required''"]) (use lim p in \<open>simp_all add: reservePlanQuota_def\<close>)
  next
    case True
    obtain s r where st0: "st0 = (s, r)" by (metis surj_pair)
    obtain s1 o1 where run: "ReserveQuotaTokens now (akGenfityUserID key) (akGenfityTenantID key) ps pe (teTotalTokens est) (quotaLimit sub) s = (s1, o1)"
      by (metis surj_pair)
    show ?thesis
    proof (cases o1)
      case (Inl e)
      have "s1 = s" using quota_reserve_Inl_same run Inl by blast
      then show ?thesis
        using refusal [of 429 "''quota_exceeded''"] refusal [of 500 "''quota_reservation_failed''"] True lim p run Inl
        by (cases "e = ErrQuotaExceeded") (simp_all add: reservePlanQuota_def onPg_def st0)
    next
      case (Inr x)
      let ?res = "zeroReservation\<lparr>rrBillingMode := ''unlimited'', rrPlanCode := cePlanCode ent, rrPeriodStart := ps,
          rrPeriodEnd := pe, rrQuotaTokens := teTotalTokens est\<rparr>"
      have out: "reservePlanQuota now key sub ent est st0 = ((s1, r), Inr ?res)"
        using True lim p run Inr by (simp add: reservePlanQuota_def onPg_def st0)
      show ?thesis
      proof (rule grant [OF out])
        fix st
        assume "quotaState (fst st0)" "in64 (quotaLimit sub)" "fst st = fst (s1, r)"
        then show "sameFunds (fst st0) (fst (releaseQuota now (akGenfityUserID key) ?res st))"
          using reserve_release_same [of s "quotaLimit sub" now "akGenfityUserID key" "akGenfityTenantID key" ps pe "teTotalTokens est" s1 ?res st] lim run Inr st0
          by simp
      qed (simp_all add: noBalance_def)
    qed
  qed
qed

lemma withPlanCredits_keeps:
  "withPlanCredits res0 res \<Longrightarrow> noBalance res = noBalance res0 \<and> rrBillingMode res = rrBillingMode res0"
  by (auto simp: withPlanCredits_def noBalance_def)

lemma reserveSubscription_out:
  fixes st0 :: "'r gwState"
  obtains (refusal) st1 status code where "reserveSubscription h now key sub m est st0 = (st1, refused status code)" "status \<noteq> 0" "code \<noteq> []"
      "quotaState (fst st0) \<Longrightarrow> in64 (quotaLimit sub) \<Longrightarrow> sameFunds (fst st0) (fst st1)"
  | (grant) st1 res where "reserveSubscription h now key sub m est st0 = (st1, granted res)" "rrBillingMode res = ''unlimited''" "noBalance res"
proof (cases "\<exists>ent. (case sub of None \<Rightarrow> None | Some x \<Rightarrow> asEntitlement x) = Some ent")
  case False
  then show ?thesis
    by (intro refusal [of st0 402 "''no_active_subscription''"]) (auto simp: reserveSubscription_def split: option.split)
next
  case True
  then obtain x ent where sub: "sub = Some x" "asEntitlement x = Some ent" by (auto split: option.splits)
  show ?thesis
  proof (cases "\<not> isUnlimitedGroup (gateGroup sub) \<or> \<not> modelCoveredByUnlimited sub (Some m)")
    case True
    then show ?thesis
      by (intro refusal [of st0 402 "''subscription_not_covering_model''"]) (auto simp: reserveSubscription_def sub)
  next
    case covered: False
    show ?thesis
    proof (rule reservePlanQuota_out [of now key sub ent est st0])
      fix status :: int and code :: string
      assume a: "reservePlanQuota now key sub ent est st0 = (st0, Inl (refused status code))" "status \<noteq> 0" "code \<noteq> []"
      show ?thesis by (rule refusal [of st0 status code]) (use a covered in \<open>auto simp: reserveSubscription_def sub\<close>)
    next
      fix st1 res
      assume a: "reservePlanQuota now key sub ent est st0 = (st1, Inr res)" "rrBillingMode res = ''unlimited''" "noBalance res"
        and undo: "\<And>st :: 'r gwState. \<lbrakk>quotaState (fst st0); in64 (quotaLimit sub); fst st = fst st1\<rbrakk>
              \<Longrightarrow> sameFunds (fst st0) (fst (releaseQuota now (akGenfityUserID key) res st))"
      have run: "reserveSubscription h now key sub m est st0 = capPlanCredits h now key sub ent m est res st1"
        using a(1) covered by (auto simp: reserveSubscription_def sub)
      show ?thesis
      proof (rule capPlanCredits_out [of h now key sub ent m est res st1])
        fix st2 status code
        assume "capPlanCredits h now key sub ent m est res st1 = (releaseQuota now (akGenfityUserID key) res st2, refused status code)"
          "fst st2 = fst st1" "status \<noteq> 0" "code \<noteq> []"
        then show ?thesis using undo [of st2] run by (intro refusal) simp_all
      next
        fix st2 res'
        assume "capPlanCredits h now key sub ent m est res st1 = (st2, granted res')" "withPlanCredits res res'"
        then show ?thesis using a(2,3) run withPlanCredits_keeps by (intro grant [of st2 res']) auto
      qed
    qed
  qed
qed

lemma reserve_Inl_same:
  "ReserveRequestCredits N now u c s = (s1, Inl e) \<Longrightarrow> s1 = s"
  "ReservePaygUsdBalance N now u c s = (s1, Inl e) \<Longrightarrow> s1 = s"
  by (auto simp: ReserveRequestCredits_def ReservePaygUsdBalance_def numArg_def execEnts_def pgRun_def split: if_splits option.splits)

lemma reserve_balance_frame:
  "ReserveRequestCredits N now u c s = (s1, x) \<Longrightarrow> pgEnts s1 = ents \<Longrightarrow> s1 = s\<lparr>pgEnts := ents\<rparr>"
  "ReservePaygUsdBalance N now u c s = (s1, x) \<Longrightarrow> pgEnts s1 = ents \<Longrightarrow> s1 = s\<lparr>pgEnts := ents\<rparr>"
  by (auto simp: ReserveRequestCredits_def ReservePaygUsdBalance_def numArg_def execEnts_def pgRun_def split: if_splits option.splits)

lemma reserveCredit_out:
  obtains (refusal) status code where "reserveCredit h now key m est st = (st, refused status code)" "status \<noteq> 0" "code \<noteq> []"
  | (free) "reserveCredit h now key m est st = (st, granted (zeroReservation\<lparr>rrBillingMode := ''credit_package''\<rparr>))"
  | (grant) s1 c price where "reserveCredit h now key m est st = ((s1, snd st), granted (zeroReservation\<lparr>rrBillingMode := ''credit_package'',
        rrRequestCredits := c, rrCreditPricePer20k := price\<rparr>))"
      "ReserveRequestCredits (ghNum h) now (akGenfityUserID key) c (fst st) = (s1, Inr ())"
      "c = estimateReservedRequestCredits price est"
proof (cases "amPublicModel m \<noteq> [] \<and> (\<exists>cost. GetModelCreditCost (amPublicModel m) (fst st) = Inr (Some cost) \<and> mcIsActive cost)")
  case False
  show ?thesis
    by (rule refusal [of 402 "''credit_cost_not_configured''"])
      (use False in \<open>auto simp: reserveCredit_def Let_def split: sum.split option.split\<close>)
next
  case True
  then obtain cost where cost: "amPublicModel m \<noteq> []" "GetModelCreditCost (amPublicModel m) (fst st) = Inr (Some cost)" "mcIsActive cost" by blast
  define price where "price = parseFloatPtr (Some (mcCreditsPerReq cost))"
  define c where "c = estimateReservedRequestCredits price est"
  obtain s r where st: "st = (s, r)" by (metis surj_pair)
  obtain s1 x where run: "ReserveRequestCredits (ghNum h) now (akGenfityUserID key) c s = (s1, x)" by (metis surj_pair)
  show ?thesis
  proof (cases "mcIsFree cost \<or> fle price fzero")
    case True
    then have "reserveCredit h now key m est st = (st, refused 402 ''insufficient_credit_balance'')
        \<or> reserveCredit h now key m est st = (st, granted (zeroReservation\<lparr>rrBillingMode := ''credit_package''\<rparr>))"
      using cost by (auto simp: reserveCredit_def Let_def price_def split: sum.split)
    then show ?thesis using refusal [of 402 "''insufficient_credit_balance''"] free by auto
  next
    case paid: False
    note unf = reserveCredit_def Let_def onPg_def st price_def [symmetric] c_def [symmetric]
    show ?thesis
    proof (cases x)
      case (Inl e)
      then show ?thesis
        using cost paid run reserve_Inl_same(1) [of "ghNum h" now _ c s s1 e] refusal [of 402 "''insufficient_credit_balance''"]
          refusal [of 500 "''credit_reservation_failed''"]
        by (cases "e = ErrInsufficientBalance") (simp_all add: unf)
    next
      case (Inr u)
      show ?thesis by (rule grant [of s1 price c]) (use cost paid run Inr in \<open>simp_all add: unf\<close>)
    qed
  qed
qed

lemma reservePayg_out:
  obtains (refusal) status code where "reservePayg h now key m est st = (st, refused status code)" "status \<noteq> 0" "code \<noteq> []"
  | (free) "reservePayg h now key m est st = (st, granted (zeroReservation\<lparr>rrBillingMode := ''payg_topup''\<rparr>))"
  | (grant) s1 usd where "reservePayg h now key m est st = ((s1, snd st), granted (zeroReservation\<lparr>rrBillingMode := ''payg_topup'', rrPaygUSD := usd\<rparr>))"
      "ReservePaygUsdBalance (ghNum h) now (akGenfityUserID key) usd (fst st) = (s1, Inr ())"
proof (cases "amPaygExposed m \<and> (\<exists>price. modelPrice (ListPrices (fst st)) (amID m) = Some price)")
  case False
  then have "reservePayg h now key m est st = (st, refused 402 ''payg_model_not_published'')
      \<or> reservePayg h now key m est st = (st, refused 402 ''payg_price_not_configured'')"
    by (auto simp: reservePayg_def Let_def split: option.split)
  then show ?thesis using refusal by auto
next
  case True
  then obtain price where price: "amPaygExposed m" "modelPrice (ListPrices (fst st)) (amID m) = Some price" by blast
  define usd where "usd = reserveUSDFor est price"
  obtain s r where st: "st = (s, r)" by (metis surj_pair)
  obtain s1 x where run: "ReservePaygUsdBalance (ghNum h) now (akGenfityUserID key) usd s = (s1, x)" by (metis surj_pair)
  show ?thesis
  proof (cases "\<not> teBounded est \<and> flt fzero (parseFloatPtr (Some (apOutputPricePer1M price)))")
    case True
    then show ?thesis using price refusal [of 400 "''max_tokens_required''"] by (simp add: reservePayg_def Let_def)
  next
    case bounded: False
    show ?thesis
    proof (cases "fle usd fzero")
      case True
      then have "reservePayg h now key m est st = (st, refused 402 ''insufficient_balance'')
          \<or> reservePayg h now key m est st = (st, granted (zeroReservation\<lparr>rrBillingMode := ''payg_topup''\<rparr>))"
        using price bounded by (auto simp: reservePayg_def Let_def usd_def split: sum.split)
      then show ?thesis using refusal [of 402 "''insufficient_balance''"] free by auto
    next
      case paid: False
      have out: "reservePayg h now key m est st = (case x of
          Inl e \<Rightarrow> ((s1, r), if e = ErrInsufficientBalance then refused 402 ''insufficient_balance'' else refused 500 ''payg_reservation_failed'')
        | Inr _ \<Rightarrow> ((s1, r), granted (zeroReservation\<lparr>rrBillingMode := ''payg_topup'', rrPaygUSD := usd\<rparr>)))"
        using price bounded paid run by (auto simp: reservePayg_def Let_def onPg_def st usd_def [symmetric] split: sum.split)
      show ?thesis
      proof (cases x)
        case (Inl e)
        then show ?thesis
          using out run st reserve_Inl_same(2) [of "ghNum h" now _ usd s s1 e] refusal [of 402 "''insufficient_balance''"]
            refusal [of 500 "''payg_reservation_failed''"]
          by (cases "e = ErrInsufficientBalance") simp_all
      next
        case (Inr u)
        show ?thesis by (rule grant [of s1 usd]) (use out run Inr st in simp_all)
      qed
    qed
  qed
qed

section \<open>Properties\<close>

lemma isGrant_granted:
  "isGrant ''credit'' (granted (zeroReservation\<lparr>rrBillingMode := ''credit_package'', rrRequestCredits := c, rrCreditPricePer20k := p\<rparr>))"
  "isGrant ''credit'' (granted (zeroReservation\<lparr>rrBillingMode := ''credit_package''\<rparr>))"
  "isGrant ''payg'' (granted (zeroReservation\<lparr>rrBillingMode := ''payg_topup'', rrPaygUSD := usd\<rparr>))"
  "isGrant ''payg'' (granted (zeroReservation\<lparr>rrBillingMode := ''payg_topup''\<rparr>))"
  by (simp_all add: isGrant_def granted_def noPlanUse_def)

lemma tryPriorityBilling_out:
  assumes "tryPriorityBilling h now key sub (Some m) est st = (st', out)"
  shows "isRefusal out \<and> (quotaState (fst st) \<longrightarrow> in64 (quotaLimit sub) \<longrightarrow> sameFunds (fst st) (fst st'))
    \<or> isGrant (keySource key) out"
proof -
  note d = assms [unfolded tryPriorityBilling_def option.case Let_def]
  consider "keySource key = ''subscription''" | "keySource key = ''credit''" | "keySource key = ''payg''"
    | "keySource key \<notin> {''subscription'', ''credit'', ''payg''}" by blast
  then show ?thesis
  proof cases
    case 1
    then have run: "reserveSubscription h now key sub m est st = (st', out)" using d by simp
    show ?thesis
      by (rule reserveSubscription_out [of h now key sub m est st]) (use run 1 in \<open>simp_all\<close>)
  next
    case 2
    then have run: "reserveCredit h now key m est st = (st', out)" using d by simp
    show ?thesis
      by (rule reserveCredit_out [of h now key m est st]) (use run 2 in \<open>auto simp: isGrant_granted\<close>)
  next
    case 3
    then have run: "reservePayg h now key m est st = (st', out)" using d by simp
    show ?thesis
      by (rule reservePayg_out [of h now key m est st]) (use run 3 in \<open>auto simp: isGrant_granted\<close>)
  next
    case 4
    then show ?thesis using d by auto
  qed
qed

lemma outcome_final: "isRefusal (pri, status, code) \<or> isGrant source (pri, status, code) \<Longrightarrow> status \<noteq> 0 \<or> rrBillingMode pri \<noteq> []"
  by (auto simp: isRefusal_def isGrant_def)

text \<open>With a known model the outcome is that of the priority chain, unless a token counter refused first.\<close>

lemma reserveRuntimeLimits_out:
  fixes st :: "'r gwState"
  obtains (early) st1 status code where "reserveRuntimeLimits h now key sub limits payload (Some m) st = (st1, Inr (refused status code))"
      "status \<noteq> 0" "code \<noteq> []" "fst st1 = fst st"
  | (priority) st2 st3 out where "reserveRuntimeLimits h now key sub limits payload (Some m) st = (st3, Inr out)" "fst st2 = fst st"
      "tryPriorityBilling h now key sub (Some m) (estimateRequestTokens payload (Some m)) st2 = (st3, out)"
proof -
  let ?est = "estimateRequestTokens payload (Some m)" and ?u = "akGenfityUserID key"
  obtain st1 x where e1: "(case ghRateLimit h of
              Some (R, pfx) \<Rightarrow> if HasTPM limits then onRedis (CheckTPM R pfx ?u (TPMAllowance limits (teTotalTokens ?est)) (plTPM limits)) st else (st, Inr ())
            | None \<Rightarrow> (st, Inr ())) = (st1, x)" by (rule prod.exhaust)
  have s1: "fst st1 = fst st" using e1 by (auto split: option.splits prod.splits if_splits dest: onRedis_pg)
  obtain st2 y where e2: "(case (ghRateLimit h, Some m) of
                   (Some (R, pfx), Some m) \<Rightarrow>
                     (case amFreeLimitTPD m of
                        Some tpd \<Rightarrow> if amIsFree m \<and> tpd > 0
                          then onRedis (CheckFreeModelTPD R pfx now ?u (amPublicModel m) (teTotalTokens ?est) tpd) st1 else (st1, Inr ())
                      | None \<Rightarrow> (st1, Inr ()))
                 | _ \<Rightarrow> (st1, Inr ())) = (st2, y)" by (rule prod.exhaust)
  have s2: "fst st2 = fst st" using e2 s1 by (auto split: option.splits prod.splits if_splits dest: onRedis_pg)
  obtain st3 pri status code where e3: "tryPriorityBilling h now key sub (Some m) ?est st2 = (st3, (pri, status, code))" by (rule prod_cases4)
  note unf = reserveRuntimeLimits_def Let_def e1
  show ?thesis
  proof (cases x)
    case (Inl e)
    show ?thesis by (rule early [of st1 429 "''rate_limit_exceeded''"]) (use s1 in \<open>simp_all add: unf Inl\<close>)
  next
    case x: (Inr _)
    show ?thesis
    proof (cases y)
      case (Inl e)
      have "reserveRuntimeLimits h now key sub limits payload (Some m) st = (st2, Inr (refused 429 ''free_model_tpd_exceeded''))"
        unfolding unf x by (simp only: prod.case sum.case e2 [unfolded prod.case] Inl)
      then show ?thesis using early s2 by simp
    next
      case (Inr _)
      have "reserveRuntimeLimits h now key sub limits payload (Some m) st
          = (if status \<noteq> 0 \<or> rrBillingMode pri \<noteq> [] then (st3, Inr (pri, status, code)) else reserveLegacy h now key sub (Some m) ?est st3)"
        unfolding unf x by (simp only: prod.case sum.case e2 [unfolded prod.case] Inr e3)
      moreover have "status \<noteq> 0 \<or> rrBillingMode pri \<noteq> []"
        using outcome_final tryPriorityBilling_out [OF e3] by blast
      ultimately show ?thesis using priority s2 e3 by simp
    qed
  qed
qed


text \<open>
  C16.  A refused request holds nothing: whichever check refused it, and however much was reserved
  before that check, every balance and every quota counter is what it was before the request.
\<close>

theorem refused_request_holds_nothing:
  assumes "reserveRuntimeLimits h now key sub limits payload (Some m) st = (st', Inr (res, status, code))" "status \<noteq> 0"
    and "quotaState (fst st)" "in64 (quotaLimit sub)"
  shows "sameFunds (fst st) (fst st') \<and> res = zeroReservation"
proof (rule reserveRuntimeLimits_out [of h now key sub limits payload m st])
  fix st1 stat c
  assume "reserveRuntimeLimits h now key sub limits payload (Some m) st = (st1, Inr (refused stat c))" "fst st1 = fst st"
  then show ?thesis using assms(1) by (simp add: refused_def)
next
  fix st2 st3 out
  assume a: "reserveRuntimeLimits h now key sub limits payload (Some m) st = (st3, Inr out)" "fst st2 = fst st"
    "tryPriorityBilling h now key sub (Some m) (estimateRequestTokens payload (Some m)) st2 = (st3, out)"
  moreover have "\<not> isGrant (keySource key) out" using a(1) assms(1,2) by (auto simp: isGrant_def)
  ultimately show ?thesis using tryPriorityBilling_out [OF a(3)] assms by (auto simp: isRefusal_def)
qed

section \<open>The life of a request on a balance\<close>

text \<open>A settlement that holds no negative amount; \<open>chargedTokens\<close> and the others are what is really charged.\<close>

definition chargedTokens :: "usageSettlement \<Rightarrow> int" where
  "chargedTokens settle = (if usChargeUsage settle then usTotalTokens settle else 0)"

definition chargedCredits :: "usageSettlement \<Rightarrow> float64" where
  "chargedCredits settle = (if usChargeUsage settle then usActualCredits settle else fzero)"

definition chargedUSD :: "usageSettlement \<Rightarrow> float64" where
  "chargedUSD settle = (if usChargeUsage settle then usTotalCostUSD settle else fzero)"

text \<open>The counter a settlement without a plan period goes to has room for it.\<close>

definition countable :: "string \<Rightarrow> usageSettlement \<Rightarrow> pg_state \<Rightarrow> bool" where
  "countable u settle s \<longleftrightarrow> quotaState s \<and> 0 \<le> chargedTokens settle
     \<and> (case quotaOf u zeroTime zeroTime s of (x, y, z) \<Rightarrow> in64 (x + chargedTokens settle) \<and> in64 (z + 1))"

lemma pgOk_quotas [simp]: "pgOk (s\<lparr>pgQuotas := rows\<rparr>) = pgOk s"
  by (simp add: pgOk_def pgUp_def)

lemma accounts_quotas [simp]:
  "creditAccount u (s\<lparr>pgQuotas := rows\<rparr>) = creditAccount u s" "paygAccount u (s\<lparr>pgQuotas := rows\<rparr>) = paygAccount u s"
  by (simp_all add: creditAccount_def paygAccount_def)

lemma whenDo_simps [simp]: "whenDo False f st = (st, Inr ())" "whenDo True f st = f st"
  by (simp_all add: whenDo_def)

lemma andThen_Inr [simp]: "andThen (st, Inr u) k = k st" "andThen (st, Inl e) k = (st, Inl e)"
  by (simp_all add: andThen_def)

lemma count_step:
  assumes "countable u settle s"
  obtains rows where "whenDo (usCountRequest settle) (onPg (FinalizeQuotaTokens now u zeroTime zeroTime 0 (chargedTokens settle) (usCountRequest settle))) (s, r)
      = ((s\<lparr>pgQuotas := rows\<rparr>, r), Inr ())"
    "quotaState (s\<lparr>pgQuotas := rows\<rparr>)"
proof (cases "usCountRequest settle")
  case True
  obtain x y z where q: "quotaOf u zeroTime zeroTime s = (x, y, z)" by (metis prod_cases3)
  then have c: "quotaState s" "0 \<le> chargedTokens settle" "in64 (x + chargedTokens settle)" "in64 (z + 1)"
    using assms by (simp_all add: countable_def)
  obtain s' where s': "FinalizeQuotaTokens now u zeroTime zeroTime 0 (chargedTokens settle) True s = (s', Inr ())" "quotaState s'"
    using finalize_quota_spec [OF c(1) q order_refl c(2) _ c(3), of True now] c(4) by (auto simp: in64_def)
  obtain rows where "s' = s\<lparr>pgQuotas := rows\<rparr>" using finalize_quota_frame(1) [OF s'(1)] by blast
  then show ?thesis using that [of rows] s' True by (simp add: whenDo_def onPg_def)
next
  case False
  then show ?thesis using that [of "pgQuotas s"] assms by (simp add: whenDo_def countable_def)
qed

lemma finalize_balances:
  assumes "countable (akGenfityUserID key) settle s" "noPlanUse res" "rrPeriodStart res = zeroTime" "rrPeriodEnd res = zeroTime" "rrCreditUSD res = fzero"
  obtains rows where "finalizeRuntimeReservation h now key res settle (s, r) =
      andThen (whenDo (flt fzero (rrRequestCredits res))
                (onPg (FinalizeRequestCredits (ghNum h) now (akGenfityUserID key) (rrRequestCredits res) (chargedCredits settle))) (s\<lparr>pgQuotas := rows\<rparr>, r))
        (whenDo (flt fzero (rrPaygUSD res))
          (onPg (FinalizePaygUsdBalance (ghNum h) now (akGenfityUserID key) (rrPaygUSD res) (chargedUSD settle))))"
proof (rule count_step [OF assms(1), of now r])
  fix rows
  assume q: "whenDo (usCountRequest settle) (onPg (FinalizeQuotaTokens now (akGenfityUserID key) zeroTime zeroTime 0 (chargedTokens settle) (usCountRequest settle))) (s, r)
      = ((s\<lparr>pgQuotas := rows\<rparr>, r), Inr ())"
  show ?thesis
    by (rule that [of rows])
      (use assms(2-5) q in \<open>simp add: finalizeRuntimeReservation_def Let_def noPlanUse_def chargedTokens_def [symmetric]
        chargedCredits_def [symmetric] chargedUSD_def [symmetric]\<close>)
qed

lemma andThen_skip [simp]: "andThen p (whenDo False k) = p"
  by (simp add: andThen_def split: prod.split sum.split)

lemma onPg_parts [simp]: "snd (onPg f st) = snd (f (fst st))" "fst (fst (onPg f st)) = fst (f (fst st))"
  by (simp_all add: onPg_def split: prod.splits)

lemma credit_grant:
  assumes "reserveRuntimeLimits h now key sub limits payload (Some m) st = (st1, Inr (res, 0, code))" "keySource key = ''credit''"
  obtains s1 where "fst st1 = s1" "ReserveRequestCredits (ghNum h) now (akGenfityUserID key) (rrRequestCredits res) (fst st) = (s1, Inr ())"
    "noPlanUse res" "rrPeriodStart res = zeroTime" "rrPeriodEnd res = zeroTime" "rrCreditUSD res = fzero" "rrPaygUSD res = fzero"
proof (rule reserveRuntimeLimits_out [of h now key sub limits payload m st])
  fix st1 status code'
  assume "reserveRuntimeLimits h now key sub limits payload (Some m) st = (st1, Inr (refused status code'))" "status \<noteq> 0"
  then show ?thesis using assms(1) by (simp add: refused_def)
next
  fix st2 st3 out
  assume a: "reserveRuntimeLimits h now key sub limits payload (Some m) st = (st3, Inr out)" "fst st2 = fst st"
    "tryPriorityBilling h now key sub (Some m) (estimateRequestTokens payload (Some m)) st2 = (st3, out)"
  have run: "reserveCredit h now key m (estimateRequestTokens payload (Some m)) st2 = (st1, (res, 0, code))"
    using a(1,3) assms by (simp add: tryPriorityBilling_def)
  show ?thesis
    by (rule reserveCredit_out [of h now key m "estimateRequestTokens payload (Some m)" st2])
      (use run a(2) that in \<open>auto simp: granted_def refused_def noPlanUse_def ReserveRequestCredits_def\<close>)
qed

lemma payg_grant:
  assumes "reserveRuntimeLimits h now key sub limits payload (Some m) st = (st1, Inr (res, 0, code))" "keySource key = ''payg''"
  obtains s1 where "fst st1 = s1" "ReservePaygUsdBalance (ghNum h) now (akGenfityUserID key) (rrPaygUSD res) (fst st) = (s1, Inr ())"
    "noPlanUse res" "rrPeriodStart res = zeroTime" "rrPeriodEnd res = zeroTime" "rrCreditUSD res = fzero" "rrRequestCredits res = fzero"
proof (rule reserveRuntimeLimits_out [of h now key sub limits payload m st])
  fix st1 status code'
  assume "reserveRuntimeLimits h now key sub limits payload (Some m) st = (st1, Inr (refused status code'))" "status \<noteq> 0"
  then show ?thesis using assms(1) by (simp add: refused_def)
next
  fix st2 st3 out
  assume a: "reserveRuntimeLimits h now key sub limits payload (Some m) st = (st3, Inr out)" "fst st2 = fst st"
    "tryPriorityBilling h now key sub (Some m) (estimateRequestTokens payload (Some m)) st2 = (st3, out)"
  have run: "reservePayg h now key m (estimateRequestTokens payload (Some m)) st2 = (st1, (res, 0, code))"
    using a(1,3) assms by (simp add: tryPriorityBilling_def)
  show ?thesis
    by (rule reservePayg_out [of h now key m "estimateRequestTokens payload (Some m)" st2])
      (use run a(2) that in \<open>auto simp: granted_def refused_def noPlanUse_def ReservePaygUsdBalance_def\<close>)
qed

text \<open>An account over a reservation and its settlement.\<close>

lemma account_lifecycle:
  assumes "balance_account reserve finalize account ok N n"
    and "ok s" "account s = Some (b, r)" "0 < p" "N (Fin p) = Some v" "onGrid n v" "reserve tm (Fin p) s = (s1, Inr ())"
    and "ok s1 \<Longrightarrow> ok s2" "account s2 = account s1" "0 \<le> q" "N (Fin q) = Some w"
  shows "snd (finalize tm' (Fin p) (Fin q) s2) = Inr ()
    \<and> account (fst (finalize tm' (Fin p) (Fin q) s2)) = Some (toScale n (max (b - min w b) 0), r)"
proof -
  have "v \<le> b - r" using balance_account.reserve_iff [OF assms(1-5), of tm] assms(7) by simp
  then have s1: "ok s1" "account s1 = Some (b, toScale n (r + v))"
    using balance_account.reserve_enough [OF assms(1-5), of tm] assms(7) by auto
  have g: "onGrid n r" "0 \<le> r" using balance_account.account_wf [OF assms(1-3)] by auto
  have "toScale n (r + v) = r + v" using g(1) assms(6) by (simp add: onGrid_add)
  then show ?thesis
    using balance_account.finalize_account [OF assms(1), of s2 b "toScale n (r + v)" p q v w tm'] s1 assms(4,5,8-11) g by simp
qed

text \<open>
  C2.  A request on a credit key, from its reservation to its settlement: the balance falls by exactly
  what is charged, never below zero, by nothing when the request is not charged, and what it had
  reserved is released.
\<close>

theorem credit_request_lifecycle:
  assumes "pg_numeric (ghNum h)" "keySource key = ''credit''" "akGenfityUserID key = u"
    and "pgOk (fst st)" "creditAccount u (fst st) = Some (b, r)"
    and "reserveRuntimeLimits h now key sub limits payload (Some m) st = (st1, Inr (res, 0, code))"
    and "rrRequestCredits res = Fin p" "0 < p" "ghNum h (Fin p) = Some v" "onGrid 4 v"
    and "countable u settle (fst st1)" "chargedCredits settle = Fin q" "0 \<le> q" "ghNum h (Fin q) = Some w"
  shows "snd (finalizeRuntimeReservation h now' key res settle st1) = Inr ()
    \<and> creditAccount u (fst (fst (finalizeRuntimeReservation h now' key res settle st1))) = Some (toScale 4 (max (b - min w b) 0), r)"
proof -
  obtain s1 where g: "fst st1 = s1" "ReserveRequestCredits (ghNum h) now u (Fin p) (fst st) = (s1, Inr ())"
    "noPlanUse res" "rrPeriodStart res = zeroTime" "rrPeriodEnd res = zeroTime" "rrCreditUSD res = fzero" "rrPaygUSD res = fzero"
    using credit_grant [OF assms(6,2)] assms(3,7) by metis
  have c: "countable (akGenfityUserID key) settle s1" using assms(3,11) g(1) by simp
  obtain rows where f: "finalizeRuntimeReservation h now' key res settle (s1, snd st1) =
      onPg (FinalizeRequestCredits (ghNum h) now' u (Fin p) (Fin q)) (s1\<lparr>pgQuotas := rows\<rparr>, snd st1)"
    by (rule finalize_balances [OF c g(3-6), of h now' "snd st1"])
      (use assms(3,7,8,12) g(7) in simp)
  have st1: "(s1, snd st1) = st1" using g(1) by (metis prod.collapse)
  show ?thesis
    unfolding f [unfolded st1] onPg_parts fst_conv
    by (rule account_lifecycle [OF credit_account [OF assms(1), of u] assms(4,5,8,9,10) g(2)]) (use assms(13,14) in simp_all)
qed

text \<open>
  The same for a pay-as-you-go key and its dollars.
\<close>

theorem payg_request_lifecycle:
  assumes "pg_numeric (ghNum h)" "keySource key = ''payg''" "akGenfityUserID key = u"
    and "pgOk (fst st)" "paygAccount u (fst st) = Some (b, r)"
    and "reserveRuntimeLimits h now key sub limits payload (Some m) st = (st1, Inr (res, 0, code))"
    and "rrPaygUSD res = Fin p" "0 < p" "ghNum h (Fin p) = Some v" "onGrid 6 v"
    and "countable u settle (fst st1)" "chargedUSD settle = Fin q" "0 \<le> q" "ghNum h (Fin q) = Some w"
  shows "snd (finalizeRuntimeReservation h now' key res settle st1) = Inr ()
    \<and> paygAccount u (fst (fst (finalizeRuntimeReservation h now' key res settle st1))) = Some (toScale 6 (max (b - min w b) 0), r)"
proof -
  obtain s1 where g: "fst st1 = s1" "ReservePaygUsdBalance (ghNum h) now u (Fin p) (fst st) = (s1, Inr ())"
    "noPlanUse res" "rrPeriodStart res = zeroTime" "rrPeriodEnd res = zeroTime" "rrCreditUSD res = fzero" "rrRequestCredits res = fzero"
    using payg_grant [OF assms(6,2)] assms(3,7) by metis
  have c: "countable (akGenfityUserID key) settle s1" using assms(3,11) g(1) by simp
  obtain rows where f: "finalizeRuntimeReservation h now' key res settle (s1, snd st1) =
      onPg (FinalizePaygUsdBalance (ghNum h) now' u (Fin p) (Fin q)) (s1\<lparr>pgQuotas := rows\<rparr>, snd st1)"
    by (rule finalize_balances [OF c g(3-6), of h now' "snd st1"]) (use assms(3,7,8,12) g(7) in simp)
  have st1: "(s1, snd st1) = st1" using g(1) by (metis prod.collapse)
  show ?thesis
    unfolding f [unfolded st1] onPg_parts fst_conv
    by (rule account_lifecycle [OF payg_account [OF assms(1), of u] assms(4,5,8,9,10) g(2)]) (use assms(13,14) in simp_all)
qed

section \<open>Examples\<close>

definition sampleHandler :: "map_redis gatewayHandler" where
  "sampleHandler = \<lparr>ghRateLimit = None, ghNum = exactNum, ghEnt = None\<rparr>"

definition sampleGw :: "map_redis gwState" where
  "sampleGw = (samplePg\<lparr>
     pgCosts := [\<lparr>mcID = 9, mcFullModelID = ''gpt'', mcCreditsPerReq = ''2'', mcIsFree = False, mcIsActive = True,
       mcNotes = None, mcSyncedAt = 0, mcMetadata = None, mcCreatedAt = 0, mcUpdatedAt = 0\<rparr>],
     pgPrices := [\<lparr>apID = 8, apModelID = 1, apInputPricePer1M = ''0'', apOutputPricePer1M = ''2'', apCachedPricePer1M = None,
       apReasoningPricePer1M = None, apCurrency = ''USD'', apActive = True, apCreatedAt = 0\<rparr>]\<rparr>, mrEmpty)"

definition sampleSettle :: usageSettlement where
  "sampleSettle = zeroSettlement\<lparr>usTotalTokens := 4000, usChargeUsage := True, usCountRequest := True,
     usActualCredits := Fin 1, usTotalCostUSD := Fin 1\<rparr>"

lemma fin_numeral: "(numeral k :: int) \<le> 2 ^ 53 \<Longrightarrow> fin (numeral k) = Fin (numeral k)"
  using fOfInt_small [of "numeral k"] by (simp add: fOfInt_def)

lemma fin_01 [simp]: "fin 0 = Fin 0" "fin 1 = Fin 1"
  using fOfInt_small [of 0] fOfInt_small [of 1] by (simp_all add: fOfInt_def)

lemma fin_small:
  assumes "0 \<le> q" "q \<le> 1" shows "fin q = Fin (rnd q)"
proof -
  have "rnd q \<le> 1" "0 \<le> rnd q" using rnd_mono [OF assms(2)] rnd_int [of 1] rnd_nonneg [OF assms(1)] by simp_all
  moreover have "(1 :: rat) < 2 ^ 1024" by simp
  ultimately show ?thesis by (simp add: fin_def Let_def)
qed

lemma sample_price: "parseFloatPtr (Some ''2'') = Fin 2" "parseFloatPtr (Some ''0'') = Fin 0"
  by (simp_all add: parseFloatPtr_def parseFloat_def parseDecimal_def parseUnsigned_def isInfWord_def toLower_def
      trimPrefix_def hasPrefix_def isDigit_def digitsVal_def digitVal_def parseExponent_def fin_numeral)

lemma sample_quote:
  "estimateReservedRequestCredits (Fin 2) (estimateRequestTokens [] (Some (sampleModel ''gpt''))) = Fin 2"
proof -
  have t: "teTotalTokens (estimateRequestTokens [] (Some (sampleModel ''gpt''))) = 4097"
    by (simp add: estimateRequestTokens_def estimatePayloadTokens_def jget_def sampleModel_def wrap64_def Let_def)
  have "creditBillingBuckets 4097 = 1" using creditBillingBuckets_exact [of 4097] by simp
  moreover have "\<lfloor>40001 / 2 :: rat\<rfloor> = 20000" by (simp add: floor_eq_iff)
  ultimately show ?thesis
    unfolding estimateReservedRequestCredits_def t
    by (simp add: calculateActualRequestCredits_def roundCredits_def fOfInt_small fin_numeral roundAway_def)
qed

lemma onPg_eq: "f (fst st) = (s1, x) \<Longrightarrow> onPg f st = ((s1, snd st), x)"
  by (cases st) (simp add: onPg_def)

lemma sample_fields [simp]:
  "amPublicModel (sampleModel n) = n" "amID (sampleModel n) = 1" "amFreeLimitTPD (sampleModel n) = None"
  "akGenfityUserID (sampleKey src) = ''u''" "src \<noteq> [] \<Longrightarrow> keySource (sampleKey src) = src"
  "ghRateLimit sampleHandler = None" "ghNum sampleHandler = exactNum"
  by (simp_all add: sampleModel_def sampleKey_def keySource_def sampleHandler_def)

lemma sampleGw_fits:
  "snd (ReserveRequestCredits exactNum 0 ''u'' (Fin 2) (fst sampleGw)) = Inr ()"
  "snd (ReservePaygUsdBalance exactNum 0 ''u'' (Fin 2) (fst sampleGw)) = Inr ()"
  by (simp_all add: ReserveRequestCredits_def ReservePaygUsdBalance_def numArg_def execEnts_def pgRun_def affected_def activeRow_def
      sampleGw_def samplePg_def sampleEnt_def pgEmpty_def)

lemma sampleGw_credit:
  "snd (reserveRuntimeLimits sampleHandler 0 (sampleKey ''credit'') None L [] (Some (sampleModel ''gpt'')) sampleGw)
    = Inr (zeroReservation\<lparr>rrBillingMode := ''credit_package'', rrRequestCredits := Fin 2, rrCreditPricePer20k := Fin 2\<rparr>, 0, [])"
proof -
  obtain cost where c: "GetModelCreditCost ''gpt'' (fst sampleGw) = Inr (Some cost)" "mcIsActive cost" "\<not> mcIsFree cost" "mcCreditsPerReq cost = ''2''"
    by (simp add: GetModelCreditCost_def pgRead_def sampleGw_def samplePg_def pgEmpty_def)
  obtain s1 where "ReserveRequestCredits exactNum 0 ''u'' (Fin 2) (fst sampleGw) = (s1, Inr ())"
    using sampleGw_fits(1) by (metis prod.collapse)
  then have "reserveCredit sampleHandler 0 (sampleKey ''credit'') (sampleModel ''gpt'') (estimateRequestTokens [] (Some (sampleModel ''gpt''))) sampleGw
      = ((s1, snd sampleGw), granted (zeroReservation\<lparr>rrBillingMode := ''credit_package'', rrRequestCredits := Fin 2, rrCreditPricePer20k := Fin 2\<rparr>))"
    using c by (simp add: reserveCredit_def Let_def sample_price sample_quote onPg_eq)
  then show ?thesis by (simp add: reserveRuntimeLimits_def tryPriorityBilling_def Let_def granted_def)
qed

lemma sampleGw_countable: "countable ''u'' sampleSettle (fst sampleGw)"
  by (simp add: countable_def chargedTokens_def sampleSettle_def zeroSettlement_def sampleGw_def samplePg_def pgEmpty_def
      quotaState_def quotasOk_def pgUp_def quotaOf_def in64_def)

lemma countable_ents: "countable u settle (s\<lparr>pgEnts := ents\<rparr>) = countable u settle s"
  by (simp add: countable_def quotaState_def pgUp_def quotaOf_def)

lemma sampleGw_later:
  assumes "reserveRuntimeLimits sampleHandler 0 (sampleKey ''credit'') None L [] (Some (sampleModel ''gpt'')) sampleGw = (st1, Inr (res, 0, code))"
  shows "countable ''u'' sampleSettle (fst st1)"
proof -
  obtain s1 where "fst st1 = s1" "ReserveRequestCredits exactNum 0 ''u'' (rrRequestCredits res) (fst sampleGw) = (s1, Inr ())"
    using credit_grant [OF assms] by auto
  then have "fst st1 = (fst sampleGw)\<lparr>pgEnts := pgEnts s1\<rparr>" using reserve_balance_frame(1) by blast
  then show ?thesis
    using sampleGw_countable by (simp add: countable_def quotaState_def pgUp_def quotaOf_def)
qed

lemma sampleGw_ok: "pgOk (fst sampleGw)" "creditAccount ''u'' (fst sampleGw) = Some (5, 2)" "paygAccount ''u'' (fst sampleGw) = Some (3, 0)"
  using samplePg_ok samplePg_accounts by (simp_all add: sampleGw_def pgOk_def pgUp_def creditAccount_def paygAccount_def)

theorem credit_request_lifecycle_witness:
  "creditAccount ''u'' (fst (fst (finalizeRuntimeReservation sampleHandler 7 (sampleKey ''credit'')
     (zeroReservation\<lparr>rrBillingMode := ''credit_package'', rrRequestCredits := Fin 2, rrCreditPricePer20k := Fin 2\<rparr>) sampleSettle
     (fst (reserveRuntimeLimits sampleHandler 0 (sampleKey ''credit'') None (PlanLimitsFromSnapshot None) [] (Some (sampleModel ''gpt'')) sampleGw))))) = Some (4, 2)"
proof -
  let ?res = "zeroReservation\<lparr>rrBillingMode := ''credit_package'', rrRequestCredits := Fin 2, rrCreditPricePer20k := Fin 2\<rparr>"
  obtain st1 where run: "reserveRuntimeLimits sampleHandler 0 (sampleKey ''credit'') None (PlanLimitsFromSnapshot None) [] (Some (sampleModel ''gpt'')) sampleGw
      = (st1, Inr (?res, 0, []))" using sampleGw_credit by (metis prod.collapse)
  have g: "onGrid 4 (2 :: rat)" "toScale 4 4 = 4" by simp_all
  show ?thesis
    using credit_request_lifecycle [of sampleHandler "sampleKey ''credit''" "''u''" sampleGw 5 2 0 None "PlanLimitsFromSnapshot None" "[]" "sampleModel ''gpt''" st1 ?res
        "[]" 2 2 sampleSettle 1 1 7] run sampleGw_ok sampleGw_later [OF run] exactDriver.pg_numeric_axioms g
    by (simp add: chargedCredits_def sampleSettle_def)
qed


text \<open>A plan with a quota of 5000 tokens.\<close>

definition sampleCapped :: "ActiveSubscription option" where
  "sampleCapped = Some \<lparr>asEntitlement = Some (sampleEntitlement\<lparr>ceQuotaTokensMonthly := Some 5000\<rparr>), asPlan = None\<rparr>"

theorem refused_request_holds_nothing_witness:
  "sameFunds pgEmpty (fst (fst (reserveRuntimeLimits sampleHandler 0 (sampleKey ''subscription'') sampleCapped (PlanLimitsFromSnapshot None)
     [(''max_tokens'', JStr ''9000'')] (Some (sampleModel ''gpt'')) (pgEmpty, mrEmpty))))"
proof -
  have "snd (reserveRuntimeLimits sampleHandler 0 (sampleKey ''subscription'') sampleCapped (PlanLimitsFromSnapshot None)
     [(''max_tokens'', JStr ''9000'')] (Some (sampleModel ''gpt'')) (pgEmpty, mrEmpty)) = Inr (zeroReservation, 429, ''quota_exceeded'')"
    by code_simp
  then obtain st' where run: "reserveRuntimeLimits sampleHandler 0 (sampleKey ''subscription'') sampleCapped (PlanLimitsFromSnapshot None)
     [(''max_tokens'', JStr ''9000'')] (Some (sampleModel ''gpt'')) (pgEmpty, mrEmpty) = (st', Inr (zeroReservation, 429, ''quota_exceeded''))"
    by (metis prod.collapse)
  then show ?thesis
    using refused_request_holds_nothing [OF run] by (simp add: sampleCapped_def quotaLimit_def quotaLimitPtr_def in64_def
        quotaState_def quotasOk_def pgUp_def pgEmpty_def)
qed

lemma sampleGw_payg:
  "\<exists>s1. reserveRuntimeLimits sampleHandler 0 (sampleKey ''payg'') None L [(''max_tokens'', JStr ''1000000'')] (Some (sampleModel ''gpt''\<lparr>amPaygExposed := True\<rparr>)) sampleGw
    = ((s1, mrEmpty), Inr (zeroReservation\<lparr>rrBillingMode := ''payg_topup'', rrPaygUSD := Fin 2\<rparr>, 0, []))"
proof -
  let ?m = "sampleModel ''gpt''\<lparr>amPaygExposed := True\<rparr>"
  define price where "price = hd (pgPrices (fst sampleGw))"
  define est where "est = estimateRequestTokens [(''max_tokens'', JStr ''1000000'')] (Some ?m)"
  have p: "modelPrice (ListPrices (fst sampleGw)) 1 = Some price"
    by (simp add: price_def ListPrices_def pgList_def modelPrice_def sampleGw_def samplePg_def pgEmpty_def)
  have e: "tePromptTokens est = 2" "teCompletionTokens est = 1000000" "teBounded est"
    by (simp_all add: est_def estimateRequestTokens_def estimatePayloadTokens_def jget_def parseInt64Loose_def parseInt_def
      parseNat_def digitsVal_def isDigit_def digitVal_def maxInt64_def wrap64_def Let_def)
  obtain v where "fin (1 / 500000) = Fin v" using fin_small [of "1 / 500000"] by auto
  then have usd: "reserveUSDFor est price = Fin 2"
    by (simp add: reserveUSDFor_def perMillion_def e estimatedPromptReservationPrice_def price_def sampleGw_def samplePg_def pgEmpty_def
        sample_price fOfInt_small fin_numeral)
  obtain s1 where "ReservePaygUsdBalance exactNum 0 ''u'' (Fin 2) (fst sampleGw) = (s1, Inr ())"
    using sampleGw_fits(2) by (metis prod.collapse)
  then have "reservePayg sampleHandler 0 (sampleKey ''payg'') ?m est sampleGw
      = ((s1, snd sampleGw), granted (zeroReservation\<lparr>rrBillingMode := ''payg_topup'', rrPaygUSD := Fin 2\<rparr>))"
    using p e(3) usd by (simp add: reservePayg_def Let_def onPg_eq)
  then have "reserveRuntimeLimits sampleHandler 0 (sampleKey ''payg'') None L [(''max_tokens'', JStr ''1000000'')] (Some ?m) sampleGw
      = ((s1, snd sampleGw), Inr (zeroReservation\<lparr>rrBillingMode := ''payg_topup'', rrPaygUSD := Fin 2\<rparr>, 0, []))"
    by (simp add: reserveRuntimeLimits_def tryPriorityBilling_def Let_def granted_def est_def)
  then show ?thesis by (auto simp: sampleGw_def)
qed

theorem payg_request_lifecycle_witness:
  "\<exists>st1 res. reserveRuntimeLimits sampleHandler 0 (sampleKey ''payg'') None (PlanLimitsFromSnapshot None) [(''max_tokens'', JStr ''1000000'')]
      (Some (sampleModel ''gpt''\<lparr>amPaygExposed := True\<rparr>)) sampleGw = (st1, Inr (res, 0, []))
    \<and> paygAccount ''u'' (fst (fst (finalizeRuntimeReservation sampleHandler 7 (sampleKey ''payg'') res sampleSettle st1))) = Some (2, 0)"
proof -
  let ?res = "zeroReservation\<lparr>rrBillingMode := ''payg_topup'', rrPaygUSD := Fin 2\<rparr>"
  obtain s1 where run: "reserveRuntimeLimits sampleHandler 0 (sampleKey ''payg'') None (PlanLimitsFromSnapshot None) [(''max_tokens'', JStr ''1000000'')]
      (Some (sampleModel ''gpt''\<lparr>amPaygExposed := True\<rparr>)) sampleGw = ((s1, mrEmpty), Inr (?res, 0, []))"
    using sampleGw_payg by blast
  have "ReservePaygUsdBalance exactNum 0 ''u'' (Fin 2) (fst sampleGw) = (s1, Inr ())" using payg_grant [OF run] by auto
  then have s1: "s1 = (fst sampleGw)\<lparr>pgEnts := pgEnts s1\<rparr>" using reserve_balance_frame(2) by blast
  have c: "countable ''u'' sampleSettle s1"
    by (subst s1) (simp only: countable_ents sampleGw_countable)
  have g: "onGrid 6 (2 :: rat)" "toScale 6 2 = 2" by simp_all
  show ?thesis
    using payg_request_lifecycle [of sampleHandler "sampleKey ''payg''" "''u''" sampleGw 3 0 0 None "PlanLimitsFromSnapshot None"
        "[(''max_tokens'', JStr ''1000000'')]" _ "(s1, mrEmpty)" ?res "[]" 2 2 sampleSettle 1 1 7] run sampleGw_ok c exactDriver.pg_numeric_axioms g
    by (simp add: chargedUSD_def sampleSettle_def)
qed

section \<open>Requests without a period\<close>

lemma subscription_without_quota:
  assumes "reserveSubscription h now key sub m est st = (st1, granted res)" "quotaLimit sub \<le> 0"
  shows "fst st1 = fst st \<and> rrQuotaTokens res = 0 \<and> rrPeriodStart res = zeroTime \<and> rrPeriodEnd res = zeroTime \<and> noBalance res"
proof -
  obtain x ent where sub: "sub = Some x" "asEntitlement x = Some ent" "isUnlimitedGroup (gateGroup sub)" "modelCoveredByUnlimited sub (Some m)"
    using assms(1) by (auto simp: reserveSubscription_def granted_def refused_def split: option.splits if_splits)
  let ?r0 = "zeroReservation\<lparr>rrBillingMode := ''unlimited'', rrPlanCode := cePlanCode ent\<rparr>"
  have "reservePlanQuota now key sub ent est st = (st, Inr ?r0)"
    using assms(2) by (simp add: reservePlanQuota_def Let_def split: prod.split)
  then have "capPlanCredits h now key sub ent m est ?r0 st = (st1, granted res)"
    using assms(1) sub by (simp add: reserveSubscription_def)
  then show ?thesis
    by (rule_tac capPlanCredits_out [of h now key sub ent m est ?r0 st])
      (auto simp: granted_def refused_def withPlanCredits_def noBalance_def)
qed

lemma subscription_grant:
  assumes "reserveRuntimeLimits h now key sub limits payload (Some m) st = (st1, Inr (res, 0, code))" "keySource key = ''subscription''"
    and "quotaLimit sub \<le> 0"
  shows "fst st1 = fst st \<and> rrQuotaTokens res = 0 \<and> rrPeriodStart res = zeroTime \<and> rrPeriodEnd res = zeroTime \<and> noBalance res"
proof (rule reserveRuntimeLimits_out [of h now key sub limits payload m st])
  fix st1 status code'
  assume "reserveRuntimeLimits h now key sub limits payload (Some m) st = (st1, Inr (refused status code'))" "status \<noteq> 0"
  then show ?thesis using assms(1) by (simp add: refused_def)
next
  fix st2 st3 out
  assume a: "reserveRuntimeLimits h now key sub limits payload (Some m) st = (st3, Inr out)" "fst st2 = fst st"
    "tryPriorityBilling h now key sub (Some m) (estimateRequestTokens payload (Some m)) st2 = (st3, out)"
  have run: "reserveSubscription h now key sub m (estimateRequestTokens payload (Some m)) st2 = (st1, (res, 0, code))"
    using a(1,3) assms(1,2) by (simp add: tryPriorityBilling_def)
  have "code = []"
    by (rule reserveSubscription_out [of h now key sub m "estimateRequestTokens payload (Some m)" st2]) (use run in \<open>auto simp: granted_def refused_def\<close>)
  then show ?thesis
    using subscription_without_quota [of h now key sub m "estimateRequestTokens payload (Some m)" st2 st1 res] run a(2) assms(3)
    by (simp add: granted_def)
qed

lemma limiter_pg: "fst (fst (whenDo b (\<lambda>st. case ghRateLimit h of None \<Rightarrow> (st, Inr ()) | Some (R, pfx) \<Rightarrow> onRedis (f R pfx) st) st)) = fst st"
  by (simp add: whenDo_def split: option.split prod.split)

lemma andThen_pg: "(\<And>st. fst (fst (k st)) = fst st) \<Longrightarrow> fst (fst (andThen p k)) = fst (fst p)"
  by (simp add: andThen_def split: prod.split sum.split)

text \<open>
  A request on an unlimited plan without a token quota is settled under the zero time: the durable
  request count goes up in a counter of the year 1, and the counter of the plan's period, which the
  usage page reads, does not change.
\<close>

theorem request_counted_in_year_one:
  assumes "reserveRuntimeLimits h now key sub limits payload (Some m) st = (st1, Inr (res, 0, code))"
    and "keySource key = ''subscription''" "akGenfityUserID key = u" "quotaLimit sub \<le> 0"
    and "usCountRequest settle" "countable u settle (fst st1)" "quotaOf u zeroTime zeroTime (fst st) = (x, y, z)"
    and "finalizeRuntimeReservation h now' key res settle st1 = (st2, r)"
  shows "snd (snd (quotaOf u zeroTime zeroTime (fst st2))) = z + 1
    \<and> (pgTs ps \<noteq> pgTs zeroTime \<longrightarrow> quotaOf u ps pe (fst st2) = quotaOf u ps pe (fst st))"
proof -
  have g: "fst st1 = fst st" "rrQuotaTokens res = 0" "rrPeriodStart res = zeroTime" "rrPeriodEnd res = zeroTime" "noBalance res"
    using subscription_grant [OF assms(1,2,4)] by auto
  have q: "quotaOf u zeroTime zeroTime (fst st1) = (x, y, z)" using assms(7) g(1) by simp
  have c: "quotaState (fst st1)" "0 \<le> chargedTokens settle" "in64 (x + chargedTokens settle)" "in64 (z + 1)"
    using assms(6) q by (simp_all add: countable_def)
  obtain s' where s': "FinalizeQuotaTokens now' u zeroTime zeroTime 0 (chargedTokens settle) True (fst st1) = (s', Inr ())"
    "quotaOf u zeroTime zeroTime s' = (x + chargedTokens settle, max y 0, z + 1)"
    using finalize_quota_spec [OF c(1) q order_refl c(2) _ c(3), of True now'] c(4) by (auto simp: in64_def)
  have fin: "finalizeRuntimeReservation h now' key res settle st1 = andThen (andThen (onPg (FinalizeQuotaTokens now' u zeroTime zeroTime 0 (chargedTokens settle) True) st1)
      (whenDo (flt fzero (rrPlanCreditsPerDay res)) (\<lambda>st. case ghRateLimit h of None \<Rightarrow> (st, Inr ()) | Some (R, pfx) \<Rightarrow> onRedis
         (FinalizePlanCreditRPD R pfx now' u (rrPlanCreditPeriodKey res) (rrPlanCreditsPerDay res) (chargedCredits settle)) st)))
      (whenDo (flt fzero (rrPlanCreditsPerPeriod res)) (\<lambda>st. case ghRateLimit h of None \<Rightarrow> (st, Inr ()) | Some (R, pfx) \<Rightarrow> onRedis
         (FinalizePlanCreditsPerPeriod R pfx u (rrPlanCreditPeriodKey res) (rrPlanCreditsPerPeriod res) (chargedCredits settle)) st))"
    using assms(3,5) g(2-5)
    unfolding finalizeRuntimeReservation_def Let_def chargedTokens_def chargedCredits_def assms(3) by (simp add: noBalance_def)
  have "fst (fst (finalizeRuntimeReservation h now' key res settle st1)) = s'"
    unfolding fin andThen_pg [OF limiter_pg] by (simp add: s'(1))
  then have "fst st2 = s'" using assms(8) by simp
  then show ?thesis using s'(2) finalize_quota_frame(2) [OF s'(1), of u ps pe] g(1) by auto
qed

theorem request_counted_in_year_one_witness:
  "snd (snd (quotaOf ''u'' zeroTime zeroTime (fst (fst (finalizeRuntimeReservation sampleHandler 7 (sampleKey ''subscription'')
     (zeroReservation\<lparr>rrBillingMode := ''unlimited'', rrPlanCode := ''pro''\<rparr>) sampleSettle (fst sampleGw, mrEmpty)))))) = 1"
proof -
  have run: "reserveRuntimeLimits sampleHandler 0 (sampleKey ''subscription'') (sampleSub [''gpt'']) (PlanLimitsFromSnapshot None) []
      (Some (sampleModel ''gpt'')) (fst sampleGw, mrEmpty)
    = ((fst sampleGw, mrEmpty), Inr (zeroReservation\<lparr>rrBillingMode := ''unlimited'', rrPlanCode := ''pro''\<rparr>, 0, []))" (is "?r = _")
  proof -
    have c: "isUnlimitedGroup (gateGroup (sampleSub [''gpt'']))" "modelCoveredByUnlimited (sampleSub [''gpt'']) (Some (sampleModel ''gpt''))"
      "quotaLimit (sampleSub [''gpt'']) = 0" by code_simp+
    then show ?thesis
      by (simp add: reserveRuntimeLimits_def tryPriorityBilling_def reserveSubscription_def reservePlanQuota_def capPlanCredits_def Let_def
          granted_def sampleSub_def sampleEntitlement_def split: prod.split)
  qed
  have q: "quotaOf ''u'' zeroTime zeroTime (fst sampleGw) = (0, 0, 0)"
    by (simp add: quotaOf_def sampleGw_def samplePg_def pgEmpty_def)
  have s: "usCountRequest sampleSettle" by (simp add: sampleSettle_def)
  have l: "quotaLimit (sampleSub [''gpt'']) \<le> 0" by code_simp
  show ?thesis
    using request_counted_in_year_one [OF run _ _ l s _ _ surjective_pairing, of "''u''" 0 0 0 7] sampleGw_countable q by simp
qed

end
