(* ===== verification/PreRequest.thy ===== *)
theory PreRequest
  imports Reservation
begin

text \<open>
  The request counters that are taken before the upstream call and given back when the request does
  not go through: \<^verbatim>\<open>preRequestCounters\<close> with \<^verbatim>\<open>rollback\<close> and \<^verbatim>\<open>commit\<close>, and \<^verbatim>\<open>applyPreRequestLimits\<close>, of
  \<^verbatim>\<open>gateway_handler.go\<close>.  The lemmas show that a refused request leaves every counter as it was, that
  rolling an admitted one back does too, and that a committed one keeps its slots.
\<close>

section \<open>The tracker\<close>

record 'r preRequestCounters =
  prRateLimit :: "('r redis_api \<times> string) option"
  prUserID :: string
  prPeriodKey :: string
  prPublicModel :: string
  prPeriodConsumed :: bool
  prRpdConsumed :: bool
  prFreeRPMConsumed :: bool
  prFreeRPDConsumed :: bool
  prCommitted :: bool

definition rollback :: "time \<Rightarrow> 'r preRequestCounters option \<Rightarrow> 'r \<Rightarrow> 'r \<times> 'r preRequestCounters option" where
  "rollback now po r = (case po of
       None \<Rightarrow> (r, None)
     | Some p \<Rightarrow> (case prRateLimit p of
         None \<Rightarrow> (r, Some p)
       | Some (R, pfx) \<Rightarrow>
           if prCommitted p then (r, Some p)
           else
             let r1 = (if prPeriodConsumed p then RollbackRequestsPerPeriod R pfx (prUserID p) (prPeriodKey p) r else r);
                 r2 = (if prRpdConsumed p then RollbackPlanRPD R pfx now (prUserID p) (prPeriodKey p) r1 else r1);
                 r3 = (if prFreeRPMConsumed p then RollbackFreeModelRPM R pfx (prUserID p) (prPublicModel p) r2 else r2);
                 r4 = (if prFreeRPDConsumed p then RollbackFreeModelRPD R pfx now (prUserID p) (prPublicModel p) r3 else r3)
             in (r4, Some (p\<lparr>prPeriodConsumed := False, prRpdConsumed := False, prFreeRPMConsumed := False, prFreeRPDConsumed := False\<rparr>))))"

text \<open>\<open>cancelled\<close> says that the context is not nil and has been cancelled.\<close>

definition commit :: "bool \<Rightarrow> 'r preRequestCounters option \<Rightarrow> 'r preRequestCounters option" where
  "commit cancelled po = (case po of None \<Rightarrow> None | Some p \<Rightarrow> if cancelled then Some p else Some (p\<lparr>prCommitted := True\<rparr>))"

section \<open>The limits\<close>

text \<open>The period cap, scaled by the purchased windows and lowered by what a flagged user owes.\<close>

definition effectiveRPP :: "time \<Rightarrow> ActiveSubscription option \<Rightarrow> plan_limits \<Rightarrow> int \<times> bool" where
  "effectiveRPP now subscription limits =
     (let mult = periodRPPMultiplier now subscription;
          base = wrap64 (plMaxRequestsPerPeriod limits * mult);
          (flagged, debtRemaining, _) = resolveAbuseDebt subscription
      in if flagged \<and> debtRemaining > 0 then
           let debtReserve = wrap64 (fToInt (fround (fmul (fOfInt (plMaxRequestsPerPeriod limits)) (Fin (3 / 4)))) * mult);
               reserve = (if debtRemaining > debtReserve then debtReserve else debtRemaining);
               rest = wrap64 (base - reserve)
           in (if rest < 0 then 0 else rest, True)
         else (base, False))"

text \<open>Before the period counter is read: the once-only reset after a repaid debt, else the baseline from the ledger.\<close>

definition preparePeriod :: "'r gatewayHandler \<Rightarrow> 'r redis_api \<Rightarrow> string \<Rightarrow> time \<Rightarrow> string \<Rightarrow> ActiveSubscription option
    \<Rightarrow> string \<Rightarrow> duration \<Rightarrow> 'r gwState \<Rightarrow> 'r gwState" where
  "preparePeriod h R pfx now userID subscription pk ttl st =
     (let (_, _, needsRppReset) = resolveAbuseDebt subscription in
      case (if needsRppReset
            then (case onRedis (ResetRequestsPerPeriodOnce R pfx userID pk ttl) st of
                    (st1, Inr b) \<Rightarrow> (st1, b) | (st1, Inl _) \<Rightarrow> (st1, False))
            else (st, False)) of
        (st1, didReset) \<Rightarrow> if didReset then st1 else ensurePeriodCounterBaseline h now userID subscription ttl True False st1)"

definition periodTTL :: "time \<Rightarrow> CustomerEntitlement \<Rightarrow> duration" where
  "periodTTL now ent = (let ttl = snd (activePeriod now (Some ent)) - now in if ttl \<le> 0 then 24 * nsHour else ttl)"

text \<open>An error code with the tracker, or the tracker alone.\<close>

type_synonym 'r counted = "string \<times> int \<times> 'r preRequestCounters option"

definition countPeriod :: "'r gatewayHandler \<Rightarrow> 'r redis_api \<Rightarrow> string \<Rightarrow> time \<Rightarrow> string \<Rightarrow> ActiveSubscription option \<Rightarrow> CustomerEntitlement
    \<Rightarrow> plan_limits \<Rightarrow> 'r preRequestCounters \<Rightarrow> 'r gwState \<Rightarrow> 'r gwState \<times> ('r counted + 'r preRequestCounters)" where
  "countPeriod h R pfx now userID subscription ent limits tracker st =
     (let pk = periodKey now (Some ent);
          tracker = tracker\<lparr>prPeriodKey := pk\<rparr>;
          ttl = periodTTL now ent;
          st1 = preparePeriod h R pfx now userID subscription pk ttl st;
          (limit, debtRepayment) = effectiveRPP now subscription limits
      in case onRedis (CheckRequestsPerPeriod R pfx userID pk ttl limit) st1 of
           (st2, Inl _) \<Rightarrow> (st2, Inl (if debtRepayment then ''plan_debt_repayment'' else ''plan_period_limit_exceeded'', 429, Some tracker))
         | (st2, Inr _) \<Rightarrow> (st2, Inr (tracker\<lparr>prPeriodConsumed := True\<rparr>)))"

text \<open>A refusal after earlier increments rolls them back first.\<close>

definition refuse :: "time \<Rightarrow> string \<Rightarrow> 'r preRequestCounters \<Rightarrow> 'r gwState \<Rightarrow> 'r gwState \<times> ('r counted + 'r preRequestCounters)" where
  "refuse now code tracker st = (case onRedis (rollback now (Some tracker)) st of (st1, t) \<Rightarrow> (st1, Inl (code, 429, t)))"

definition countDay :: "'r redis_api \<Rightarrow> string \<Rightarrow> time \<Rightarrow> string \<Rightarrow> CustomerEntitlement \<Rightarrow> plan_limits
    \<Rightarrow> 'r preRequestCounters \<Rightarrow> 'r gwState \<Rightarrow> 'r gwState \<times> ('r counted + 'r preRequestCounters)" where
  "countDay R pfx now userID ent limits tracker st =
     (let rpdKey = periodKey now (Some ent); tracker = tracker\<lparr>prPeriodKey := rpdKey\<rparr>
      in case onRedis (CheckPlanRPD R pfx now userID rpdKey (plRPD limits)) st of
           (st1, Inl _) \<Rightarrow> refuse now ''plan_rpd_exceeded'' tracker st1
         | (st1, Inr _) \<Rightarrow> (st1, Inr (tracker\<lparr>prRpdConsumed := True\<rparr>)))"

definition countFreeRPM :: "'r redis_api \<Rightarrow> string \<Rightarrow> time \<Rightarrow> string \<Rightarrow> AIModel
    \<Rightarrow> 'r preRequestCounters \<Rightarrow> 'r gwState \<Rightarrow> 'r gwState \<times> ('r counted + 'r preRequestCounters)" where
  "countFreeRPM R pfx now userID model tracker st = (case amFreeLimitRPM model of
       None \<Rightarrow> (st, Inr tracker)
     | Some n \<Rightarrow>
         if n \<le> 0 then (st, Inr tracker)
         else (case onRedis (CheckFreeModelRPM R pfx userID (amPublicModel model) n) st of
                 (st1, Inl _) \<Rightarrow> refuse now ''free_model_rpm_exceeded'' tracker st1
               | (st1, Inr _) \<Rightarrow> (st1, Inr (tracker\<lparr>prFreeRPMConsumed := True\<rparr>))))"

definition countFreeRPD :: "'r redis_api \<Rightarrow> string \<Rightarrow> time \<Rightarrow> string \<Rightarrow> AIModel
    \<Rightarrow> 'r preRequestCounters \<Rightarrow> 'r gwState \<Rightarrow> 'r gwState \<times> ('r counted + 'r preRequestCounters)" where
  "countFreeRPD R pfx now userID model tracker st = (case amFreeLimitRPD model of
       None \<Rightarrow> (st, Inr tracker)
     | Some n \<Rightarrow>
         if n \<le> 0 then (st, Inr tracker)
         else (case onRedis (CheckFreeModelRPD R pfx now userID (amPublicModel model) n) st of
                 (st1, Inl _) \<Rightarrow> refuse now ''free_model_rpd_exceeded'' tracker st1
               | (st1, Inr _) \<Rightarrow> (st1, Inr (tracker\<lparr>prFreeRPDConsumed := True\<rparr>))))"

definition nextCount :: "'r gwState \<times> ('r counted + 'r preRequestCounters) \<Rightarrow> bool
    \<Rightarrow> ('r preRequestCounters \<Rightarrow> 'r gwState \<Rightarrow> 'r gwState \<times> ('r counted + 'r preRequestCounters))
    \<Rightarrow> 'r gwState \<times> ('r counted + 'r preRequestCounters)" where
  "nextCount p b f = (case p of (st, Inl out) \<Rightarrow> (st, Inl out) | (st, Inr t) \<Rightarrow> if b then f t st else (st, Inr t))"

definition newTracker :: "('r redis_api \<times> string) \<Rightarrow> string \<Rightarrow> AIModel option \<Rightarrow> 'r preRequestCounters" where
  "newTracker rl userID model = \<lparr>prRateLimit = Some rl, prUserID = userID, prPeriodKey = [],
     prPublicModel = (case model of None \<Rightarrow> [] | Some m \<Rightarrow> amPublicModel m), prPeriodConsumed = False, prRpdConsumed = False,
     prFreeRPMConsumed = False, prFreeRPDConsumed = False, prCommitted = False\<rparr>"

definition applyPreRequestLimits :: "'r gatewayHandler \<Rightarrow> time \<Rightarrow> APIKey \<Rightarrow> ActiveSubscription option \<Rightarrow> plan_limits \<Rightarrow> AIModel option
    \<Rightarrow> 'r gwState \<Rightarrow> 'r gwState \<times> 'r counted" where
  "applyPreRequestLimits h now apiKey subscription limits model st = (case ghRateLimit h of
       None \<Rightarrow> (st, ([], 0, None))
     | Some (R, pfx) \<Rightarrow>
         let userID = akGenfityUserID apiKey;
             isFree = (case model of None \<Rightarrow> False | Some m \<Rightarrow> amIsFree m);
             plan = requestWillUseUnlimited apiKey subscription model \<and> \<not> isFree;
             ent = (case subscription of None \<Rightarrow> None | Some sub \<Rightarrow> asEntitlement sub);
             hasPlan = (case subscription of None \<Rightarrow> False | Some sub \<Rightarrow> asPlan sub \<noteq> None);
             p0 = (st, Inr (newTracker (R, pfx) userID model));
             p1 = nextCount p0 (plan \<and> HasMaxRequestsPerPeriod limits \<and> ent \<noteq> None)
                    (countPeriod h R pfx now userID subscription (the ent) limits);
             p2 = nextCount p1 (plan \<and> HasRPD limits \<and> hasPlan \<and> ent \<noteq> None)
                    (countDay R pfx now userID (the ent) limits);
             p3 = nextCount p2 isFree (countFreeRPM R pfx now userID (the model));
             p4 = nextCount p3 isFree (countFreeRPD R pfx now userID (the model))
         in case p4 of (st', Inl out) \<Rightarrow> (st', out) | (st', Inr t) \<Rightarrow> (st', ([], 0, Some t)))"

section \<open>Taking and giving back one counter\<close>

definition gate :: "'r redis_api \<Rightarrow> bool \<Rightarrow> string \<Rightarrow> (int \<Rightarrow> duration option) \<Rightarrow> int \<Rightarrow> string \<Rightarrow> 'r \<Rightarrow> 'r \<times> unit result" where
  "gate R on k expiry limit msg r = (if on then incrChecked R k 1 expiry limit msg r else (r, Inr ()))"

definition ungate :: "'r redis_api \<Rightarrow> bool \<Rightarrow> string \<Rightarrow> 'r \<Rightarrow> 'r" where
  "ungate R on k r = (if on then fst (redisIncrBy R k (-1) r) else r)"

lemma checks_are_gates:
  "CheckRequestsPerPeriod R pfx u pk ttl limit = gate R (0 < limit \<and> u \<noteq> [] \<and> pk \<noteq> []) (planPeriodKey pfx u pk)
     (\<lambda>_. if ttl > 0 then Some ttl else None) limit ''plan_period_limit_exceeded''"
  "CheckPlanRPD R pfx now u pk limit = gate R (0 < limit \<and> u \<noteq> [] \<and> pk \<noteq> []) (planDayKey pfx u pk now)
     (onFirst 1 (25 * nsHour)) limit ''plan_rpd_exceeded''"
  "CheckFreeModelRPM R pfx u m limit = gate R (0 < limit \<and> u \<noteq> [] \<and> m \<noteq> []) (freeRpmKey pfx u m)
     (onFirst 1 nsMinute) limit ''free_model_rpm_exceeded''"
  "CheckFreeModelRPD R pfx now u m limit = gate R (0 < limit \<and> u \<noteq> [] \<and> m \<noteq> []) (freeRpdKey pfx u m now)
     (onFirst 1 (25 * nsHour)) limit ''free_model_rpd_exceeded''"
  by (auto simp: CheckRequestsPerPeriod_def CheckPlanRPD_def CheckFreeModelRPM_def CheckFreeModelRPD_def gate_def fun_eq_iff)

lemma rollbacks_are_ungates:
  "RollbackRequestsPerPeriod R pfx u pk = ungate R (u \<noteq> [] \<and> pk \<noteq> []) (planPeriodKey pfx u pk)"
  "RollbackPlanRPD R pfx now u pk = ungate R (u \<noteq> [] \<and> pk \<noteq> []) (planDayKey pfx u pk now)"
  "RollbackFreeModelRPM R pfx u m = ungate R (u \<noteq> [] \<and> m \<noteq> []) (freeRpmKey pfx u m)"
  "RollbackFreeModelRPD R pfx now u m = ungate R (u \<noteq> [] \<and> m \<noteq> []) (freeRpdKey pfx u m now)"
  by (auto simp: RollbackRequestsPerPeriod_def RollbackPlanRPD_def RollbackFreeModelRPM_def RollbackFreeModelRPD_def ungate_def fun_eq_iff)

text \<open>A counter with room for one more and for one less.\<close>

definition room :: "rcell option \<Rightarrow> bool" where
  "room c \<longleftrightarrow> isCounter c \<and> in64 (cntVal c - 1) \<and> in64 (cntVal c + 1)"

definition sameCounts :: "('r \<Rightarrow> string \<Rightarrow> rcell option) \<Rightarrow> 'r \<Rightarrow> 'r \<Rightarrow> bool" where
  "sameCounts view r r' \<longleftrightarrow> (\<forall>k. cntVal (view r' k) = cntVal (view r k))"

context redis_server
begin

lemma gate_refused:
  assumes "alive r" "room (view r k)" "positiveTtl expiry" "gate R on k expiry limit msg r = (r', Inl e)"
  shows "alive r'" "sameCounts view r r'" "\<And>j. counter r j \<Longrightarrow> counter r' j"
proof -
  have c: "counter r k" "in64 (count r k)" "in64 (count r k + 1)" using assms(2) by (auto simp: room_def in64_def)
  note sp = incrChecked_spec [OF assms(1) c assms(3), where limit = limit and msg = msg]
  have on: "on" "incrChecked R k 1 expiry limit msg r = (r', Inl e)" using assms(4) by (auto simp: gate_def split: if_splits)
  show "alive r'" using sp(4) on by simp
  show "sameCounts view r r'" unfolding sameCounts_def
  proof
    fix j show "cntVal (view r' j) = cntVal (view r j)" using sp(1,2,5) on by (cases "j = k") (auto split: if_splits)
  qed
  show "counter r j \<Longrightarrow> counter r' j" for j using sp(3,5) on by (cases "j = k") auto
qed

lemma gate_admitted:
  assumes "alive r" "room (view r k)" "positiveTtl expiry" "gate R on k expiry limit msg r = (r', Inr u)"
  shows "alive r'" "count r' j = count r j + (if on \<and> j = k then 1 else 0)" "counter r j \<Longrightarrow> counter r' j"
    "j \<noteq> k \<Longrightarrow> view r' j = view r j"
proof -
  have c: "counter r k" "in64 (count r k)" "in64 (count r k + 1)" using assms(2) by (auto simp: room_def in64_def)
  note sp = incrChecked_spec [OF assms(1) c assms(3), where limit = limit and msg = msg]
  have "on \<Longrightarrow> incrChecked R k 1 expiry limit msg r = (r', Inr u)" "\<not> on \<Longrightarrow> r' = r"
    using assms(4) by (auto simp: gate_def)
  then show "alive r'" "count r' j = count r j + (if on \<and> j = k then 1 else 0)" "counter r j \<Longrightarrow> counter r' j"
    "j \<noteq> k \<Longrightarrow> view r' j = view r j"
    using sp assms(1) by (cases on; cases "j = k"; auto split: if_splits)+
qed

lemma ungate_counts:
  assumes "alive r" "counter r k" "in64 (count r k - 1)"
  shows "alive (ungate R on k r)" "count (ungate R on k r) j = count r j - (if on \<and> j = k then 1 else 0)"
    "counter r j \<Longrightarrow> counter (ungate R on k r) j"
proof -
  have "in64 (count r k + - 1)" using assms(3) by simp
  note ic = incr_counter [OF assms(1,2) this]
  show "alive (ungate R on k r)" using assms(1) by (simp add: ungate_def incr_alive)
  show "count (ungate R on k r) j = count r j - (if on \<and> j = k then 1 else 0)"
    using ic(2,4) by (cases "j = k") (auto simp: ungate_def)
  show "counter r j \<Longrightarrow> counter (ungate R on k r) j"
    using ic(3,4) by (cases "j = k") (auto simp: ungate_def)
qed

lemma gate_ungate:
  assumes "alive r" "room (view r k)" "positiveTtl expiry" "gate R on k expiry limit msg r = (r', Inr u)"
  shows "sameCounts view r (ungate R on k r')"
proof -
  have "counter r' k" "in64 (count r' k - 1)"
    using gate_admitted(2,3) [OF assms, of k] assms(2) by (auto simp: room_def in64_def)
  from ungate_counts(2) [OF gate_admitted(1) [OF assms] this] show ?thesis
    using gate_admitted(2) [OF assms] by (simp add: sameCounts_def)
qed

text \<open>Two counters in a row, as a request takes them.\<close>

lemma two_gates:
  assumes "alive r" "room (view r k1)" "room (view r k2)" "k1 \<noteq> k2" "positiveTtl e1" "positiveTtl e2"
    and g1: "gate R on1 k1 e1 l1 m1 r = (r1, Inr u)"
  shows "gate R on2 k2 e2 l2 m2 r1 = (r2, Inl x) \<Longrightarrow> sameCounts view r (ungate R on1 k1 r2)"
    and "gate R on2 k2 e2 l2 m2 r1 = (r2, Inr v) \<Longrightarrow> sameCounts view r (ungate R on2 k2 (ungate R on1 k1 r2))"
proof -
  note a = gate_admitted [OF assms(1,2,5) g1]
  have room2: "room (view r1 k2)" using a(4) [of k2] assms(3,4) by simp
  have k1: "counter r1 k1" "in64 (count r1 k1 - 1)" using a(2,3) [of k1] assms(2) by (auto simp: room_def in64_def)
  {
    assume g2: "gate R on2 k2 e2 l2 m2 r1 = (r2, Inl x)"
    note b = gate_refused [OF a(1) room2 assms(6) g2]
    have "counter r2 k1" "in64 (count r2 k1 - 1)" using b(2,3) k1 by (auto simp: sameCounts_def)
    from ungate_counts(2) [OF b(1) this] show "sameCounts view r (ungate R on1 k1 r2)"
      using a(2) b(2) by (simp add: sameCounts_def)
  }
  assume g2: "gate R on2 k2 e2 l2 m2 r1 = (r2, Inr v)"
  note b = gate_admitted [OF a(1) room2 assms(6) g2]
  have c1: "counter r2 k1" "in64 (count r2 k1 - 1)" using b(3) [of k1] b(2) [of k1] assms(4) k1 by auto
  note d = ungate_counts [OF b(1) c1, where on = on1]
  have c2: "counter (ungate R on1 k1 r2) k2" "in64 (count (ungate R on1 k1 r2) k2 - 1)"
    using d(2,3) [of k2] b(2,3) [of k2] a(2,3) [of k2] assms(3,4) by (auto simp: room_def in64_def)
  from ungate_counts(2) [OF d(1) c2, where on = on2] show "sameCounts view r (ungate R on2 k2 (ungate R on1 k1 r2))"
    using a(2) b(2) d(2) by (simp add: sameCounts_def)
qed

end

section \<open>The whole chain\<close>

text \<open>The Redis server as the counters are first taken from it.\<close>

definition plansFor :: "APIKey \<Rightarrow> ActiveSubscription option \<Rightarrow> AIModel \<Rightarrow> CustomerEntitlement option" where
  "plansFor apiKey subscription m =
     (if requestWillUseUnlimited apiKey subscription (Some m) \<and> \<not> amIsFree m
      then (case subscription of None \<Rightarrow> None | Some sub \<Rightarrow> asEntitlement sub) else None)"

definition counterBase :: "'r gatewayHandler \<Rightarrow> 'r redis_api \<Rightarrow> string \<Rightarrow> time \<Rightarrow> APIKey \<Rightarrow> ActiveSubscription option \<Rightarrow> plan_limits \<Rightarrow> AIModel
    \<Rightarrow> 'r gwState \<Rightarrow> 'r gwState" where
  "counterBase h R pfx now apiKey subscription limits m st = (case plansFor apiKey subscription m of
       None \<Rightarrow> st
     | Some ent \<Rightarrow> if HasMaxRequestsPerPeriod limits
         then preparePeriod h R pfx now (akGenfityUserID apiKey) subscription (periodKey now (Some ent)) (periodTTL now ent) st else st)"

definition counterKeys :: "string \<Rightarrow> time \<Rightarrow> string \<Rightarrow> string \<Rightarrow> string \<Rightarrow> string list" where
  "counterKeys pfx now u pk m = [planPeriodKey pfx u pk, planDayKey pfx u pk now, freeRpmKey pfx u m, freeRpdKey pfx u m now]"

lemma keys_differ: "planPeriodKey pfx u pk \<noteq> planDayKey pfx u pk now" "freeRpmKey pfx u m \<noteq> freeRpdKey pfx u m now"
  by (simp_all add: planPeriodKey_def planDayKey_def freeRpmKey_def freeRpdKey_def)

lemma sameCounts_refl [simp]: "sameCounts view r r"
  by (simp add: sameCounts_def)

lemma nextCount_simps [simp]:
  "nextCount (st, Inl out) b f = (st, Inl out)" "nextCount (st, Inr t) True f = f t st" "nextCount p False f = p"
  by (simp_all add: nextCount_def split: prod.split sum.split)

text \<open>What a result of the chain must satisfy: refused or rolled back, the counters are those of the base.\<close>

definition undoable :: "('r \<Rightarrow> string \<Rightarrow> rcell option) \<Rightarrow> time \<Rightarrow> 'r \<Rightarrow> 'r gwState \<times> ('r counted + 'r preRequestCounters) \<Rightarrow> bool" where
  "undoable view now r p = (case p of
       (st, Inl (code, status, t)) \<Rightarrow> code \<noteq> [] \<and> status = 429 \<and> sameCounts view r (snd st)
     | (st, Inr t) \<Rightarrow> \<not> prCommitted t \<and> sameCounts view r (fst (rollback now (Some t) (snd st))))"

lemma onRedis_pair: "onRedis f (s, r) = ((s, fst (f r)), snd (f r))"
  by (simp add: onRedis_def split: prod.split)

context redis_server
begin

text \<open>
  Two checks in a row, each a gate that refuses with a code or sets its flag in the tracker, as the
  plan counters and the free counters are.
\<close>

lemma two_counts:
  fixes t0 :: "'r preRequestCounters" and s :: pg_state
  assumes "alive r" "room (view r k1)" "room (view r k2)" "k1 \<noteq> k2" "positiveTtl e1" "positiveTtl e2" "c1 \<noteq> []" "c2 \<noteq> []"
    and f1: "f1 t0 (s, r) = (case gate R on1 k1 e1 l1 m1 r of
        (r1, Inl _) \<Rightarrow> refuse now c1 t0 (s, r1) | (r1, Inr _) \<Rightarrow> ((s, r1), Inr t1))"
    and f2: "\<And>r1. f2 t1 (s, r1) = (case gate R on2 k2 e2 l2 m2 r1 of
        (r2, Inl _) \<Rightarrow> refuse now c2 t1' (s, r2) | (r2, Inr _) \<Rightarrow> ((s, r2), Inr t2))"
    and undo: "\<And>q. fst (rollback now (Some t0) q) = q" "\<And>q. fst (rollback now (Some t1') q) = ungate R on1 k1 q"
      "\<And>q. fst (rollback now (Some t2) q) = ungate R on2 k2 (ungate R on1 k1 q)" "\<not> prCommitted t2"
  shows "undoable view now r (nextCount (f1 t0 (s, r)) True f2)"
proof -
  have ref: "undoable view now r (refuse now c t (s, q)) \<longleftrightarrow> c \<noteq> [] \<and> sameCounts view r (fst (rollback now (Some t) q))" for c t q
    by (simp add: refuse_def undoable_def onRedis_pair)
  have refI: "nextCount (refuse now c t (s, q)) True f2 = refuse now c t (s, q)" for c t q
    by (simp add: refuse_def onRedis_pair)
  obtain r1 x1 where g1: "gate R on1 k1 e1 l1 m1 r = (r1, x1)" by (metis surj_pair)
  obtain r2 x2 where g2: "gate R on2 k2 e2 l2 m2 r1 = (r2, x2)" by (metis surj_pair)
  show ?thesis
  proof (cases x1)
    case (Inl e)
    have "sameCounts view r r1" by (rule gate_refused(2) [OF assms(1,2,5)]) (use g1 Inl in simp)
    then show ?thesis using assms(7) by (simp add: f1 g1 Inl ref refI undo(1))
  next
    case x1: (Inr v)
    have g1': "gate R on1 k1 e1 l1 m1 r = (r1, Inr v)" using g1 x1 by simp
    note two = two_gates [OF assms(1-6) g1']
    show ?thesis
    proof (cases x2)
      case (Inl e)
      have "sameCounts view r (ungate R on1 k1 r2)" by (rule two(1)) (use g2 Inl in simp)
      then show ?thesis using assms(8) by (simp add: f1 g1 x1 f2 g2 Inl ref undo(2))
    next
      case (Inr w)
      have "sameCounts view r (ungate R on2 k2 (ungate R on1 k1 r2))" by (rule two(2)) (use g2 Inr in simp)
      then show ?thesis by (simp add: f1 g1 x1 f2 g2 Inr undoable_def undo(3,4))
    qed
  qed
qed

lemma free_chain:
  assumes "alive r" "room (view r (freeRpmKey pfx u (amPublicModel m)))" "room (view r (freeRpdKey pfx u (amPublicModel m) now))"
  shows "undoable view now r (nextCount (countFreeRPM R pfx now u m (newTracker (R, pfx) u (Some m)) (s, r)) True (countFreeRPD R pfx now u m))"
proof -
  let ?m = "amPublicModel m"
  define n1 where "n1 = (case amFreeLimitRPM m of None \<Rightarrow> 0 | Some n \<Rightarrow> n)"
  define n2 where "n2 = (case amFreeLimitRPD m of None \<Rightarrow> 0 | Some n \<Rightarrow> n)"
  let ?on1 = "0 < n1 \<and> u \<noteq> [] \<and> ?m \<noteq> []" and ?on2 = "0 < n2 \<and> u \<noteq> [] \<and> ?m \<noteq> []"
  let ?t0 = "newTracker (R, pfx) u (Some m)"
  let ?t1 = "?t0\<lparr>prFreeRPMConsumed := 0 < n1\<rparr>"
  let ?t2 = "?t1\<lparr>prFreeRPDConsumed := 0 < n2\<rparr>"
  show ?thesis
  proof (rule two_counts [OF assms keys_differ(2), where ?on1.0 = ?on1 and ?on2.0 = ?on2 and ?t1.0 = ?t1 and t1' = ?t1 and ?t2.0 = ?t2 and ?e1.0 = "onFirst 1 nsMinute"
        and ?e2.0 = "onFirst 1 (25 * nsHour)" and ?c1.0 = "''free_model_rpm_exceeded''" and ?c2.0 = "''free_model_rpd_exceeded''"
        and ?m1.0 = "''free_model_rpm_exceeded''" and ?m2.0 = "''free_model_rpd_exceeded''" and ?l1.0 = n1 and ?l2.0 = n2])
    show "countFreeRPM R pfx now u m ?t0 (s, r) = (case gate R ?on1 (freeRpmKey pfx u ?m) (onFirst 1 nsMinute) n1 ''free_model_rpm_exceeded'' r of
        (r1, Inl _) \<Rightarrow> refuse now ''free_model_rpm_exceeded'' ?t0 (s, r1) | (r1, Inr _) \<Rightarrow> ((s, r1), Inr ?t1))"
      by (auto simp: countFreeRPM_def checks_are_gates n1_def onRedis_def gate_def newTracker_def split: option.split prod.split sum.split)
    show "countFreeRPD R pfx now u m ?t1 (s, r1) = (case gate R ?on2 (freeRpdKey pfx u ?m now) (onFirst 1 (25 * nsHour)) n2 ''free_model_rpd_exceeded'' r1 of
        (r2, Inl _) \<Rightarrow> refuse now ''free_model_rpd_exceeded'' ?t1 (s, r2) | (r2, Inr _) \<Rightarrow> ((s, r2), Inr ?t2))" for r1
      by (auto simp: countFreeRPD_def checks_are_gates n2_def onRedis_def gate_def newTracker_def split: option.split prod.split sum.split)
  qed (auto simp: rollback_def newTracker_def rollbacks_are_ungates ungate_def Let_def nsMinute_def nsHour_def nsSecond_def)
qed

lemma plan_chain:
  assumes "alive (snd base)" "room (view (snd base) (planPeriodKey pfx u pk))" "room (view (snd base) (planDayKey pfx u pk now))"
    and pk: "pk = periodKey now (Some ent)" and base: "base = (if b1 then preparePeriod h R pfx now u sub pk (periodTTL now ent) st else st)"
    and lim: "b1 \<Longrightarrow> 0 < fst (effectiveRPP now sub limits)" "b2 \<Longrightarrow> 0 < plRPD limits"
  shows "undoable view now (snd base) (nextCount (nextCount (st, Inr (newTracker (R, pfx) u model)) b1 (countPeriod h R pfx now u sub ent limits))
      b2 (countDay R pfx now u ent limits))"
proof -
  obtain s r where b: "base = (s, r)" by (metis surj_pair)
  obtain l1 debt where eff: "effectiveRPP now sub limits = (l1, debt)" by (metis surj_pair)
  let ?ttl = "\<lambda>_ :: int. if periodTTL now ent > 0 then Some (periodTTL now ent) else None"
  let ?c1 = "if debt then ''plan_debt_repayment'' else ''plan_period_limit_exceeded''"
  let ?on1 = "b1 \<and> u \<noteq> [] \<and> pk \<noteq> []" and ?on2 = "b2 \<and> u \<noteq> [] \<and> pk \<noteq> []"
  let ?t0 = "(newTracker (R, pfx) u model)\<lparr>prPeriodKey := if b1 then pk else []\<rparr>"
  let ?t1 = "?t0\<lparr>prPeriodConsumed := b1\<rparr>"
  let ?t1' = "?t1\<lparr>prPeriodKey := if b1 \<or> b2 then pk else []\<rparr>"
  let ?t2 = "?t1\<lparr>prPeriodKey := if b1 \<or> b2 then pk else [], prRpdConsumed := b2\<rparr>"
  define f1 where "f1 = (\<lambda>(_ :: 'r preRequestCounters) (_ :: 'r gwState). nextCount (st, Inr (newTracker (R, pfx) u model)) b1 (countPeriod h R pfx now u sub ent limits))"
  define f2 where "f2 = (\<lambda>t st. if b2 then countDay R pfx now u ent limits t st else (st, Inr t))"
  have "undoable view now r (nextCount (f1 ?t0 (s, r)) True f2)"
  proof (rule two_counts [OF _ _ _ keys_differ(1), where ?on1.0 = ?on1 and ?on2.0 = ?on2 and ?t1.0 = ?t1 and t1' = ?t1' and ?t2.0 = ?t2 and ?e1.0 = ?ttl
        and ?e2.0 = "onFirst 1 (25 * nsHour)" and ?c1.0 = ?c1 and ?c2.0 = "''plan_rpd_exceeded''"
        and ?m1.0 = "''plan_period_limit_exceeded''" and ?m2.0 = "''plan_rpd_exceeded''" and ?l1.0 = l1 and ?l2.0 = "plRPD limits"])
    show "f1 ?t0 (s, r) = (case gate R ?on1 (planPeriodKey pfx u pk) ?ttl l1 ''plan_period_limit_exceeded'' r of
        (r1, Inl _) \<Rightarrow> refuse now ?c1 ?t0 (s, r1) | (r1, Inr _) \<Rightarrow> ((s, r1), Inr ?t1))"
    proof (cases b1)
      case True
      then have p: "preparePeriod h R pfx now u sub pk (periodTTL now ent) st = (s, r)" "0 < l1" using base b lim(1) eff by simp_all
      show ?thesis
        using True p by (auto simp: f1_def countPeriod_def Let_def pk [symmetric] eff checks_are_gates onRedis_def gate_def refuse_def rollback_def
            newTracker_def split: prod.split sum.split)
    next
      case False
      then show ?thesis using base b by (simp add: f1_def gate_def newTracker_def)
    qed
    show "f2 ?t1 (s, r1) = (case gate R ?on2 (planDayKey pfx u pk now) (onFirst 1 (25 * nsHour)) (plRPD limits) ''plan_rpd_exceeded'' r1 of
        (r2, Inl _) \<Rightarrow> refuse now ''plan_rpd_exceeded'' ?t1' (s, r2) | (r2, Inr _) \<Rightarrow> ((s, r2), Inr ?t2))" for r1
      using lim(2) by (auto simp: f2_def countDay_def Let_def pk [symmetric] checks_are_gates onRedis_def gate_def newTracker_def split: prod.split sum.split)
  qed (use assms(1-3) b in \<open>auto simp: rollback_def newTracker_def rollbacks_are_ungates ungate_def Let_def nsMinute_def nsHour_def nsSecond_def\<close>)
  moreover have "nextCount (f1 ?t0 (s, r)) True f2 = nextCount (f1 ?t0 (s, r)) b2 (countDay R pfx now u ent limits)"
    by (simp add: nextCount_def f2_def split: prod.split sum.split)
  ultimately show ?thesis by (simp add: f1_def b)
qed

end

lemma wontUse_none: "\<not> requestWillUseUnlimited key sub m \<or> (case sub of None \<Rightarrow> None | Some x \<Rightarrow> asEntitlement x) \<noteq> None"
  by (auto simp: requestWillUseUnlimited_def hasEntitlement_def split: option.splits)


section \<open>The cap under a debt\<close>

lemma round_three_quarters: "0 \<le> n \<Longrightarrow> roundAway (of_int (3 * n) / 4) = (3 * n + 2) div 4"
proof -
  assume "0 \<le> n"
  have "(of_int (3 * n) / 4 + 1 / 2 :: rat) = of_int (3 * n + 2) / of_int 4" by simp
  then have "\<lfloor>of_int (3 * n) / 4 + 1 / 2 :: rat\<rfloor> = (3 * n + 2) div 4" by (simp only: floor_divide_of_int_eq)
  then show ?thesis using \<open>0 \<le> n\<close> by (simp add: roundAway_def)
qed

lemma debt_reserve:
  assumes "0 \<le> n" "n < 2 ^ 50"
  shows "fToInt (fround (fmul (fOfInt n) (Fin (3 / 4)))) = (3 * n + 2) div 4"
proof -
  have v: "rnd (of_int n * (3 / 4)) = of_int (3 * n) / 4"
    using rnd_dyadic [of "3 * n" 2] assms by (simp add: mult.commute)
  have "(of_int n :: rat) < 2 ^ 50" using assms(2) by (metis of_int_less_iff of_int_numeral of_int_power)
  then have "\<bar>of_int (3 * n) / 4 :: rat\<bar> < 2 ^ 50" using assms(1) by simp
  also have "(2 ^ 50 :: rat) < 2 ^ 1024" by (rule power_strict_increasing) simp_all
  finally have "fin (of_int n * (3 / 4)) = Fin (of_int (3 * n) / 4)" unfolding fin_def v Let_def by simp
  moreover have "fOfInt n = Fin (of_int n)" using assms by (intro fOfInt_small) simp
  ultimately have "fround (fmul (fOfInt n) (Fin (3 / 4))) = Fin (of_int ((3 * n + 2) div 4))"
    using round_three_quarters [OF assms(1)] by simp
  moreover have "0 \<le> (3 * n + 2) div 4" "(3 * n + 2) div 4 < 2 ^ 63" using assms by auto
  ultimately show ?thesis by (simp add: truncRat_def in64_def)
qed

lemma effectiveRPP_value:
  fixes n mult :: int
  assumes "n = plMaxRequestsPerPeriod limits" "mult = periodRPPMultiplier now sub" "1 \<le> n" "n * mult < 2 ^ 50" "resolveAbuseDebt sub = (flagged, debt, x)"
  shows "effectiveRPP now sub limits = (if flagged \<and> 0 < debt then (n * mult - min debt ((3 * n + 2) div 4 * mult), True) else (n * mult, False))"
proof -
  have m: "1 \<le> mult" using assms(2) periodRPPMultiplier_ge1 by simp
  have "n * 1 \<le> n * mult" using assms(3) m by (intro mult_left_mono) auto
  then have n: "n < 2 ^ 50" using assms(4) by simp
  define d where "d = (3 * n + 2) div 4"
  have d: "0 \<le> d" "d \<le> n" using assms(3) by (auto simp: d_def)
  then have dm: "0 \<le> d * mult" "d * mult \<le> n * mult" using m by (auto intro: mult_right_mono)
  have w: "wrap64 (n * mult) = n * mult" "wrap64 (d * mult) = d * mult"
    "0 < debt \<Longrightarrow> wrap64 (n * mult - min debt (d * mult)) = n * mult - min debt (d * mult)"
    using dm assms(3,4) by (auto simp: in64_def min_def)
  have "fToInt (fround (fmul (fOfInt n) (Fin (3 / 4)))) = d" using debt_reserve [of n] assms(3) n by (simp add: d_def)
  then show ?thesis
    using w dm by (auto simp: effectiveRPP_def Let_def assms(1) [symmetric] assms(2) [symmetric] assms(5) d_def [symmetric] min_def)
qed

text \<open>
  With at least three requests per window a debt never takes the whole cap: a quarter, rounded, stays
  usable, and the cap is never above the purchased windows.
\<close>

theorem debt_leaves_a_cap:
  assumes "3 \<le> plMaxRequestsPerPeriod limits" "plMaxRequestsPerPeriod limits * periodRPPMultiplier now sub < 2 ^ 50"
  shows "0 < fst (effectiveRPP now sub limits)
    \<and> fst (effectiveRPP now sub limits) \<le> plMaxRequestsPerPeriod limits * periodRPPMultiplier now sub"
proof -
  let ?n = "plMaxRequestsPerPeriod limits" and ?m = "periodRPPMultiplier now sub"
  obtain f d x where r: "resolveAbuseDebt sub = (f, d, x)" by (metis prod_cases3)
  have m: "1 \<le> ?m" by (rule periodRPPMultiplier_ge1)
  have "(3 * ?n + 2) div 4 < ?n" using assms(1) by auto
  then have "(3 * ?n + 2) div 4 * ?m < ?n * ?m" using m by (intro mult_strict_right_mono) auto
  moreover have "0 \<le> (3 * ?n + 2) div 4 * ?m" using assms(1) m by simp
  moreover have "0 < ?n * ?m" using assms(1) m by simp
  ultimately show ?thesis
    using effectiveRPP_value [OF refl refl _ assms(2) r] assms(1) by (auto simp: min_def)
qed

text \<open>
  C40.  With one or two requests per window the debt takes the whole cap, and a cap of zero is no cap:
  the check that should refuse the indebted user admits every request and counts none.
\<close>

theorem debt_uncaps_small_plan:
  assumes "plMaxRequestsPerPeriod limits = 1 \<or> plMaxRequestsPerPeriod limits = 2"
    and "plMaxRequestsPerPeriod limits * periodRPPMultiplier now sub < 2 ^ 50"
    and "resolveAbuseDebt sub = (True, debt, x)" "plMaxRequestsPerPeriod limits * periodRPPMultiplier now sub \<le> debt"
  shows "effectiveRPP now sub limits = (0, True) \<and> CheckRequestsPerPeriod R pfx u pk ttl (fst (effectiveRPP now sub limits)) r = (r, Inr ())"
proof -
  let ?n = "plMaxRequestsPerPeriod limits"
  have "0 < ?n * periodRPPMultiplier now sub" using assms(1) periodRPPMultiplier_ge1 [of now sub] by auto
  moreover have "(3 * ?n + 2) div 4 = ?n" using assms(1) by auto
  ultimately have "effectiveRPP now sub limits = (0, True)"
    using effectiveRPP_value [OF refl refl _ assms(2,3)] assms(1,4) by (auto simp: min_def)
  then show ?thesis by (simp add: CheckRequestsPerPeriod_def)
qed

section \<open>Examples\<close>

definition sampleDebtor :: "ActiveSubscription option" where
  "sampleDebtor = Some \<lparr>asEntitlement = Some (sampleEntitlement\<lparr>ceMetadata := Some (JObj [(''abuseDebt'',
     JObj [(''flagged'', JBool True), (''debtRemaining'', JNum (Fin 500))])])\<rparr>), asPlan = None\<rparr>"

definition sampleCap :: "int \<Rightarrow> plan_limits" where
  "sampleCap n = \<lparr>plRPM = 0, plTPM = 0, plConcurrentLimit = 0, plMaxRequestsPerPeriod = n, plRPD = 0,
     plCreditLimitPerDay = Fin 0, plCreditLimitPerPeriod = Fin 0\<rparr>"

lemma sampleDebtor_facts: "resolveAbuseDebt sampleDebtor = (True, 500, False)" "periodRPPMultiplier 0 sampleDebtor = 1"
  by code_simp+

theorem debt_leaves_a_cap_witness: "0 < fst (effectiveRPP 0 sampleDebtor (sampleCap 100))"
  using debt_leaves_a_cap [of "sampleCap 100" 0 sampleDebtor] sampleDebtor_facts by (simp add: sampleCap_def)

theorem debt_uncaps_small_plan_witness: "effectiveRPP 0 sampleDebtor (sampleCap 2) = (0, True)"
  by (rule debt_uncaps_small_plan [where debt = 500 and x = False, THEN conjunct1]) (use sampleDebtor_facts in \<open>simp_all add: sampleCap_def\<close>)

definition sampleLimiter :: "map_redis gatewayHandler" where
  "sampleLimiter = \<lparr>ghRateLimit = Some (mapRedis, ''g''), ghNum = exactNum, ghEnt = None\<rparr>"

lemma sample_plan: "plansFor (sampleKey ''subscription'') (sampleSub [''gpt'']) (sampleModel ''gpt'')
    = (case sampleSub [''gpt''] of None \<Rightarrow> None | Some x \<Rightarrow> asEntitlement x)"
proof -
  have "requestWillUseUnlimited (sampleKey ''subscription'') (sampleSub [''gpt'']) (Some (sampleModel ''gpt'')) \<and> \<not> amIsFree (sampleModel ''gpt'')"
    by code_simp
  then show ?thesis by (simp add: plansFor_def)
qed


end
