(* ===== verification/Json.thy ===== *)
theory Json
  imports Decimal Types
begin

text \<open>
  What the gateway uses of \<^verbatim>\<open>encoding/json\<close>: decoding the bytes of an upstream response into a
  document, and the length of an encoded document.  A string is a list of bytes.  The decoder
  follows the library: JSON's grammar with at most 10000 open containers, escapes and surrogate pairs,
  invalid UTF-8 replaced by U+FFFD, numbers read as \<^verbatim>\<open>float64\<close>, the last of a repeated name kept.  The length
  tests in the recursive functions are always true and make the recursion end.
\<close>

section \<open>Bytes and code points\<close>

definition byteVal :: "char \<Rightarrow> nat" where
  "byteVal c = of_char c"

definition byteOf :: "nat \<Rightarrow> char" where
  "byteOf n = char_of n"

definition isCont :: "char \<Rightarrow> bool" where
  "isCont c \<longleftrightarrow> 128 \<le> byteVal c \<and> byteVal c < 192"

definition betweenByte :: "nat \<Rightarrow> nat \<Rightarrow> char \<Rightarrow> bool" where
  "betweenByte a b c \<longleftrightarrow> a \<le> byteVal c \<and> byteVal c \<le> b"

text \<open>The length of the valid UTF-8 sequence at the head, 0 when there is none (\<^verbatim>\<open>utf8.DecodeRune\<close>).\<close>

definition utf8Len :: "string \<Rightarrow> nat" where
  "utf8Len s = (case s of
       [] \<Rightarrow> 0
     | c0 # r \<Rightarrow>
         let n = byteVal c0 in
         if n < 128 then 1
         else if 194 \<le> n \<and> n \<le> 223 then (case r of c1 # _ \<Rightarrow> if isCont c1 then 2 else 0 | _ \<Rightarrow> 0)
         else if 224 \<le> n \<and> n \<le> 239 then
           (case r of c1 # c2 # _ \<Rightarrow>
              if betweenByte (if n = 224 then 160 else 128) (if n = 237 then 159 else 191) c1 \<and> isCont c2 then 3 else 0
            | _ \<Rightarrow> 0)
         else if 240 \<le> n \<and> n \<le> 244 then
           (case r of c1 # c2 # c3 # _ \<Rightarrow>
              if betweenByte (if n = 240 then 144 else 128) (if n = 244 then 143 else 191) c1 \<and> isCont c2 \<and> isCont c3 then 4 else 0
            | _ \<Rightarrow> 0)
         else 0)"

definition replacementChar :: nat where
  "replacementChar = 65533"

definition isSurrogate :: "nat \<Rightarrow> bool" where
  "isSurrogate n \<longleftrightarrow> 55296 \<le> n \<and> n < 57344"

definition utf8Encode :: "nat \<Rightarrow> string" where
  "utf8Encode k =
     (let n = (if isSurrogate k \<or> k > 1114111 then replacementChar else k) in
      if n < 128 then [byteOf n]
      else if n < 2048 then [byteOf (192 + n div 64), byteOf (128 + n mod 64)]
      else if n < 65536 then [byteOf (224 + n div 4096), byteOf (128 + n div 64 mod 64), byteOf (128 + n mod 64)]
      else [byteOf (240 + n div 262144), byteOf (128 + n div 4096 mod 64), byteOf (128 + n div 64 mod 64), byteOf (128 + n mod 64)])"

section \<open>Strings\<close>

definition hexVal :: "char \<Rightarrow> nat option" where
  "hexVal c = (if isDigit c then Some (digitVal c)
     else if betweenByte 97 102 c then Some (byteVal c - 87)
     else if betweenByte 65 70 c then Some (byteVal c - 55) else None)"

definition hex4 :: "string \<Rightarrow> nat option" where
  "hex4 s = (case map hexVal (take 4 s) of
       [Some a, Some b, Some c, Some d] \<Rightarrow> Some (((a * 16 + b) * 16 + c) * 16 + d)
     | _ \<Rightarrow> None)"

text \<open>A \<^verbatim>\<open>\u\<close> escape after its \<^verbatim>\<open>u\<close>: the code point and how many bytes it took, a second escape included when the two make a pair.\<close>

definition escapedRune :: "string \<Rightarrow> (nat \<times> nat) option" where
  "escapedRune s = (case hex4 s of
       None \<Rightarrow> None
     | Some hi \<Rightarrow>
         if \<not> isSurrogate hi then Some (hi, 4)
         else (case (if take 2 (drop 4 s) = [CHR 0x5C, CHR ''u''] then hex4 (drop 6 s) else None) of
                 Some lo \<Rightarrow> if hi < 56320 \<and> 56320 \<le> lo \<and> lo < 57344
                            then Some ((hi - 55296) * 1024 + (lo - 56320) + 65536, 10) else Some (replacementChar, 4)
               | None \<Rightarrow> Some (replacementChar, 4)))"

definition simpleEscape :: "char \<Rightarrow> char option" where
  "simpleEscape c = map_of [(CHR 0x22, CHR 0x22), (CHR 0x5C, CHR 0x5C), (CHR ''/'', CHR ''/''), (CHR ''b'', CHR 0x08),
     (CHR ''f'', CHR 0x0C), (CHR ''n'', CHR 0x0A), (CHR ''r'', CHR 0x0D), (CHR ''t'', CHR 0x09)] c"

text \<open>The rest of a string literal after its opening quote: the value and what follows the closing quote.\<close>

function jsonStr :: "string \<Rightarrow> (string \<times> string) option" where
  "jsonStr [] = None"
| "jsonStr (c # s) =
     (if c = CHR 0x22 then Some ([], s)
      else if byteVal c < 32 then None
      else if c = CHR 0x5C then
        (case s of
           [] \<Rightarrow> None
         | e # r \<Rightarrow>
             if e = CHR ''u'' then
               (case escapedRune r of
                  None \<Rightarrow> None
                | Some (k, n) \<Rightarrow> map_option (\<lambda>(v, rest). (utf8Encode k @ v, rest)) (jsonStr (drop n r)))
             else (case simpleEscape e of
                     None \<Rightarrow> None
                   | Some x \<Rightarrow> map_option (\<lambda>(v, rest). (x # v, rest)) (jsonStr r)))
      else (let n = utf8Len (c # s) in
            if n = 0 then map_option (\<lambda>(v, rest). (utf8Encode replacementChar @ v, rest)) (jsonStr s)
            else map_option (\<lambda>(v, rest). (take n (c # s) @ v, rest)) (jsonStr (drop (n - 1) s))))"
  by pat_completeness auto
termination
  by (relation "measure length") auto

section \<open>Numbers\<close>

definition jsonDigits :: "string \<Rightarrow> string \<times> string" where
  "jsonDigits s = (takeWhile isDigit s, dropWhile isDigit s)"

definition jsonFrac :: "string \<Rightarrow> (string \<times> string) option" where
  "jsonFrac s = (case s of
       c # r \<Rightarrow> if c = CHR ''.'' then (case jsonDigits r of (d, rest) \<Rightarrow> if d = [] then None else Some (c # d, rest)) else Some ([], s)
     | [] \<Rightarrow> Some ([], s))"

definition jsonExp :: "string \<Rightarrow> (string \<times> string) option" where
  "jsonExp s = (case s of
       c # r \<Rightarrow>
         if c = CHR ''e'' \<or> c = CHR ''E'' then
           let (sg, r') = (case r of x # r1 \<Rightarrow> if x = CHR ''+'' \<or> x = CHR ''-'' then ([x], r1) else ([], r) | [] \<Rightarrow> ([], r)) in
           (case jsonDigits r' of (d, rest) \<Rightarrow> if d = [] then None else Some (c # sg @ d, rest))
         else Some ([], s)
     | [] \<Rightarrow> Some ([], s))"

definition jsonInt :: "string \<Rightarrow> (string \<times> string) option" where
  "jsonInt s = (case s of
       c # r \<Rightarrow> if c = CHR ''0'' then Some ([c], r) else if isDigit c then Some (jsonDigits s) else None
     | [] \<Rightarrow> None)"

text \<open>
  With \<^verbatim>\<open>UseNumber\<close> (\<open>lax\<close>) a literal is kept as it is written and its range is not checked; a literal out of range stands for an infinity here.
\<close>

definition numberValue :: "bool \<Rightarrow> string \<Rightarrow> float64 option" where
  "numberValue lax t = (case parseFloat t of Some v \<Rightarrow> Some v | None \<Rightarrow> if lax then Some (Inf (\<not> hasPrefix t ''-'')) else None)"

definition jsonNum :: "bool \<Rightarrow> string \<Rightarrow> (json \<times> string) option" where
  "jsonNum lax s =
     (let (sg, r0) = (case s of c # r \<Rightarrow> if c = CHR ''-'' then ([c], r) else ([], s) | [] \<Rightarrow> ([], s)) in
      case jsonInt r0 of None \<Rightarrow> None | Some (i, r1) \<Rightarrow>
      (case jsonFrac r1 of None \<Rightarrow> None | Some (f, r2) \<Rightarrow>
      (case jsonExp r2 of None \<Rightarrow> None | Some (e, r3) \<Rightarrow>
      map_option (\<lambda>v. (JNum v, r3)) (numberValue lax (sg @ i @ f @ e)))))"

section \<open>Values\<close>

definition isJsonSpace :: "char \<Rightarrow> bool" where
  "isJsonSpace c \<longleftrightarrow> c = CHR '' '' \<or> c = CHR 0x09 \<or> c = CHR 0x0A \<or> c = CHR 0x0D"

definition skipWs :: "string \<Rightarrow> string" where
  "skipWs s = dropWhile isJsonSpace s"

lemma skipWs_shorter: "skipWs s = c # r \<Longrightarrow> length r < length s"
  using length_dropWhile_le [of isJsonSpace s] by (simp add: skipWs_def)

definition maxNestingDepth :: nat where
  "maxNestingDepth = 10000"

definition literal :: "string \<Rightarrow> json \<Rightarrow> string \<Rightarrow> (json \<times> string) option" where
  "literal w v s = (if hasPrefix s w then Some (v, drop (length w) s) else None)"

function (sequential)
  jsonValue :: "bool \<Rightarrow> nat \<Rightarrow> string \<Rightarrow> (json \<times> string) option" and
  jsonElems :: "bool \<Rightarrow> nat \<Rightarrow> string \<Rightarrow> (json list \<times> string) option" and
  jsonMembers :: "bool \<Rightarrow> nat \<Rightarrow> jobject \<Rightarrow> string \<Rightarrow> (jobject \<times> string) option" where
  "jsonValue lax d s = (case skipWs s of
       [] \<Rightarrow> None
     | c # r \<Rightarrow>
         if c = CHR ''{'' then
           (if maxNestingDepth \<le> d then None
            else case skipWs r of
                   [] \<Rightarrow> None
                 | c1 # r1 \<Rightarrow> if c1 = CHR ''}'' then Some (JObj [], r1)
                             else map_option (\<lambda>(m, rest). (JObj m, rest)) (jsonMembers lax (d + 1) [] r))
         else if c = CHR ''['' then
           (if maxNestingDepth \<le> d then None
            else case skipWs r of
                   [] \<Rightarrow> None
                 | c1 # r1 \<Rightarrow> if c1 = CHR '']'' then Some (JArr [], r1)
                             else map_option (\<lambda>(xs, rest). (JArr xs, rest)) (jsonElems lax (d + 1) r))
         else if c = CHR 0x22 then map_option (\<lambda>(v, rest). (JStr v, rest)) (jsonStr r)
         else if c = CHR ''t'' then literal ''true'' (JBool True) (c # r)
         else if c = CHR ''f'' then literal ''false'' (JBool False) (c # r)
         else if c = CHR ''n'' then literal ''null'' JNull (c # r)
         else jsonNum lax (c # r))"
| "jsonElems lax d s = (case jsonValue lax d s of
       None \<Rightarrow> None
     | Some (v, r) \<Rightarrow> (case skipWs r of
         [] \<Rightarrow> None
       | c # r1 \<Rightarrow>
           if c = CHR '']'' then Some ([v], r1)
           else if c = CHR '','' \<and> length r1 < length s then map_option (\<lambda>(vs, rest). (v # vs, rest)) (jsonElems lax d r1)
           else None))"
| "jsonMembers lax d acc s = (case skipWs s of
       [] \<Rightarrow> None
     | q # r \<Rightarrow>
         if q \<noteq> CHR 0x22 then None
         else (case jsonStr r of
                 None \<Rightarrow> None
               | Some (k, r1) \<Rightarrow> (case skipWs r1 of
                   [] \<Rightarrow> None
                 | c # r2 \<Rightarrow>
                     if c \<noteq> CHR '':'' \<or> \<not> length r2 < length s then None
                     else (case jsonValue lax d r2 of
                             None \<Rightarrow> None
                           | Some (v, r3) \<Rightarrow> (case skipWs r3 of
                               [] \<Rightarrow> None
                             | e # r4 \<Rightarrow>
                                 if e = CHR ''}'' then Some (jset acc k v, r4)
                                 else if e = CHR '','' \<and> length r4 < length s then jsonMembers lax d (jset acc k v) r4
                                 else None)))))"
  by pat_completeness auto
termination
  by (relation "measure (\<lambda>x. case x of Inl (lax, d, s) \<Rightarrow> 2 * length s | Inr (Inl (lax, d, s)) \<Rightarrow> 2 * length s + 1 | Inr (Inr (lax, d, acc, s)) \<Rightarrow> 2 * length s + 1)")
    (auto dest: skipWs_shorter)

text \<open>\<^verbatim>\<open>json.Unmarshal\<close> into a \<^verbatim>\<open>map[string]any\<close>: the whole input is one object, or null, which leaves the map empty.\<close>

definition topObject :: "json \<Rightarrow> jobject option" where
  "topObject v = (case v of JObj m \<Rightarrow> Some m | JNull \<Rightarrow> Some [] | _ \<Rightarrow> None)"

definition unmarshalObject :: "string \<Rightarrow> jobject option" where
  "unmarshalObject body = (case jsonValue False 0 body of
       Some (v, rest) \<Rightarrow> if skipWs rest = [] then topObject v else None
     | None \<Rightarrow> None)"

text \<open>\<^verbatim>\<open>Decoder.Decode\<close> reads the first value and leaves the rest.\<close>

definition decodeObject :: "string \<Rightarrow> jobject option" where
  "decodeObject body = (case jsonValue False 0 body of Some (v, _) \<Rightarrow> topObject v | None \<Rightarrow> None)"

section \<open>The length of an encoded document\<close>

text \<open>The decimal exponent of a positive number: the \<open>k\<close> with \<open>10 ^ k \<le> q < 10 ^ (k + 1)\<close>.\<close>

definition decimalExp :: "rat \<Rightarrow> int" where
  "decimalExp q = (if q \<ge> 1 then int (length (natText (nat \<lfloor>q\<rfloor>))) - 1
     else - int (length (natText (nat (\<lceil>1 / q\<rceil> - 1)))))"

text \<open>
  The shortest decimal that reads back as the number: how many digits it has and its exponent.  With
  \<open>n\<close> digits only the two neighbours of \<open>q\<close> can do.
\<close>

definition shortDecimal :: "rat \<Rightarrow> nat \<times> int" where
  "shortDecimal q =
     (let e = decimalExp q;
          scaled = (\<lambda>n. q / 10 powi (e - int n + 1));
          reads = (\<lambda>n k. fin (of_int k * 10 powi (e - int n + 1)) = Fin q)
      in case find (\<lambda>n. reads n \<lfloor>scaled n\<rfloor> \<or> reads n (\<lfloor>scaled n\<rfloor> + 1)) [1..<18] of
           None \<Rightarrow> (17, e)
         | Some n \<Rightarrow> if \<not> reads n \<lfloor>scaled n\<rfloor> \<and> \<lfloor>scaled n\<rfloor> + 1 = 10 ^ n then (1, e + 1) else (n, e))"

definition numLen :: "rat \<Rightarrow> int" where
  "numLen q = (if q = 0 then 1 else
     (let (n, e) = shortDecimal \<bar>q\<bar>;
          sign = (if q < 0 then 1 else 0)
      in if \<bar>q\<bar> < rnd (1 / 1000000) \<or> \<bar>q\<bar> \<ge> 10 ^ 21
         then sign + int n + (if n > 1 then 1 else 0) + 2 + int (length (natText (nat \<bar>e\<bar>)))
         else if e < 0 then sign + 1 - e + int n
         else if e \<ge> int n - 1 then sign + e + 1
         else sign + int n + 1))"

text \<open>A string as the encoder writes it, without its quotes: HTML characters and the two line separators are escaped.\<close>

function strLen :: "string \<Rightarrow> int" where
  "strLen [] = 0"
| "strLen (c # s) =
     (if c = CHR 0x22 \<or> c = CHR 0x5C \<or> c = CHR 0x08 \<or> c = CHR 0x0C \<or> c = CHR 0x0A \<or> c = CHR 0x0D \<or> c = CHR 0x09 then 2 + strLen s
      else if byteVal c < 32 \<or> c = CHR ''<'' \<or> c = CHR ''>'' \<or> c = CHR ''&'' then 6 + strLen s
      else (let n = utf8Len (c # s) in
            if n = 0 then 6 + strLen s
            else if take 3 (c # s) = utf8Encode 8232 \<or> take 3 (c # s) = utf8Encode 8233 then 6 + strLen (drop 2 s)
            else int n + strLen (drop (n - 1) s)))"
  by pat_completeness auto
termination
  by (relation "measure length") auto

fun finiteJson :: "json \<Rightarrow> bool" and finiteList :: "json list \<Rightarrow> bool" and finiteObj :: "jobject \<Rightarrow> bool" where
  "finiteJson (JNum f) = (case f of Fin _ \<Rightarrow> True | _ \<Rightarrow> False)"
| "finiteJson (JArr xs) = finiteList xs"
| "finiteJson (JObj m) = finiteObj m"
| "finiteJson _ = True"
| "finiteList [] = True"
| "finiteList (x # xs) = (finiteJson x \<and> finiteList xs)"
| "finiteObj [] = True"
| "finiteObj ((k, v) # m) = (finiteJson v \<and> finiteObj m)"

text \<open>The elements, each with the comma or bracket after it.\<close>

fun jsonLen :: "json \<Rightarrow> int" and listLen :: "json list \<Rightarrow> int" and objLen :: "jobject \<Rightarrow> int" where
  "jsonLen JNull = 4"
| "jsonLen (JBool b) = (if b then 4 else 5)"
| "jsonLen (JNum f) = (case f of Fin q \<Rightarrow> numLen q | _ \<Rightarrow> 0)"
| "jsonLen (JStr s) = 2 + strLen s"
| "jsonLen (JArr xs) = (if xs = [] then 2 else 1 + listLen xs)"
| "jsonLen (JObj m) = (if m = [] then 2 else 1 + objLen m)"
| "listLen [] = 0"
| "listLen (x # xs) = jsonLen x + 1 + listLen xs"
| "objLen [] = 0"
| "objLen ((k, v) # m) = 3 + strLen k + jsonLen v + 1 + objLen m"

text \<open>\<^verbatim>\<open>len(json.Marshal(v))\<close>, 0 when encoding fails.\<close>

definition marshalLen :: "json \<Rightarrow> int" where
  "marshalLen v = (if finiteJson v then jsonLen v else 0)"

lemma strLen_nonneg: "0 \<le> strLen s"
  by (induction s rule: strLen.induct) (auto simp: Let_def)

end
