(* ===== verification/Usage.thy ===== *)
theory Usage
  imports Billing Json
begin

text \<open>
  Reading an upstream response, from \<^verbatim>\<open>gateway_handler.go\<close>: the token usage it reports or that is estimated
  from its content, an error hidden in a successful response, and whether it is a completion, a partial
  stream or nothing at all.  A response is one JSON document or a stream of server-sent events.  The
  lemmas show that liveness frames alone never count as a completion, that a stream without a terminal
  event is never complete, and that the counters a response yields are consistent.
\<close>

section \<open>Access\<close>

text \<open>\<^verbatim>\<open>m[k].(map[string]any)\<close>, \<^verbatim>\<open>m[k].([]any)\<close>, \<^verbatim>\<open>m[k].(string)\<close>.\<close>

definition objAt :: "jobject \<Rightarrow> string \<Rightarrow> jobject option" where
  "objAt m k = (case jget m k of Some v \<Rightarrow> asObject v | None \<Rightarrow> None)"

definition arrAt :: "jobject \<Rightarrow> string \<Rightarrow> json list option" where
  "arrAt m k = (case jget m k of Some v \<Rightarrow> asArray v | None \<Rightarrow> None)"

definition strAt :: "jobject \<Rightarrow> string \<Rightarrow> string option" where
  "strAt m k = (case jget m k of Some v \<Rightarrow> asString v | None \<Rightarrow> None)"

definition arrOf :: "jobject \<Rightarrow> string \<Rightarrow> json list" where
  "arrOf m k = (case arrAt m k of Some xs \<Rightarrow> xs | None \<Rightarrow> [])"

definition objsOf :: "json list \<Rightarrow> jobject list" where
  "objsOf xs = List.map_filter asObject xs"

definition strLenAt :: "jobject \<Rightarrow> string \<Rightarrow> int" where
  "strLenAt m k = (case strAt m k of Some s \<Rightarrow> int (length s) | None \<Rightarrow> 0)"

section \<open>Content\<close>

definition charsInToolCall :: "json \<Rightarrow> int" where
  "charsInToolCall c = (case asObject c of
       None \<Rightarrow> 0
     | Some m \<Rightarrow> (case objAt m ''function'' of None \<Rightarrow> 0 | Some fn \<Rightarrow> strLenAt fn ''name'' + strLenAt fn ''arguments''))"

definition charsInAnthropicContentBlock :: "jobject \<Rightarrow> int" where
  "charsInAnthropicContentBlock cb =
     strLenAt cb ''text''
     + (case objAt cb ''input'' of Some m \<Rightarrow> marshalLen (JObj m) | None \<Rightarrow> 0)
     + (case arrAt cb ''input'' of Some xs \<Rightarrow> marshalLen (JArr xs) | None \<Rightarrow> 0)
     + strLenAt cb ''name''"

definition charsInMessage :: "jobject \<Rightarrow> int" where
  "charsInMessage msg = strLenAt msg ''content'' + sum_list (map charsInToolCall (arrOf msg ''tool_calls''))"

definition charsInBlocks :: "jobject \<Rightarrow> int" where
  "charsInBlocks m = sum_list (map charsInAnthropicContentBlock (objsOf (arrOf m ''content'')))"

definition extractContentCharsFromSSEEvent :: "jobject \<Rightarrow> int" where
  "extractContentCharsFromSSEEvent payload =
     sum_list (map (\<lambda>ch.
       (case objAt ch ''delta'' of Some delta \<Rightarrow> charsInMessage delta | None \<Rightarrow> 0)
       + (case objAt ch ''message'' of Some msg \<Rightarrow> charsInMessage msg | None \<Rightarrow> 0)) (objsOf (arrOf payload ''choices'')))
     + (case objAt payload ''delta'' of Some delta \<Rightarrow> strLenAt delta ''text'' + strLenAt delta ''partial_json'' | None \<Rightarrow> 0)
     + (case objAt payload ''content_block'' of Some cb \<Rightarrow> charsInAnthropicContentBlock cb | None \<Rightarrow> 0)
     + (case objAt payload ''message'' of Some msg \<Rightarrow> charsInBlocks msg | None \<Rightarrow> 0)
     + charsInBlocks payload"

definition estimateOutputTokensFromPayload :: "jobject \<Rightarrow> int" where
  "estimateOutputTokensFromPayload payload =
     (let chars = charsInBlocks payload
            + sum_list (map (\<lambda>ch. case objAt ch ''message'' of Some msg \<Rightarrow> charsInMessage msg | None \<Rightarrow> 0) (objsOf (arrOf payload ''choices'')))
      in if chars = 0 then 0
         else let tokens = truncDiv (chars + 3) 4 in if tokens < 1 then 1 else tokens)"

section \<open>Reported usage\<close>

record usageMetrics =
  umPromptTokens :: int
  umCompletionTokens :: int
  umTotalTokens :: int
  umCachedTokens :: int
  umCacheReadInputTokens :: int
  umCacheCreationInputTokens :: int
  umReasoningTokens :: int

definition zeroMetrics :: usageMetrics where
  "zeroMetrics = \<lparr>umPromptTokens = 0, umCompletionTokens = 0, umTotalTokens = 0, umCachedTokens = 0,
     umCacheReadInputTokens = 0, umCacheCreationInputTokens = 0, umReasoningTokens = 0\<rparr>"

text \<open>The first of several fields that is not zero.\<close>

definition firstInt :: "(jobject \<times> string) list \<Rightarrow> int" where
  "firstInt fs = (case filter (\<lambda>n. n \<noteq> 0) (map (\<lambda>(m, k). anyToInt64 (jget m k)) fs) of [] \<Rightarrow> 0 | n # _ \<Rightarrow> n)"

definition detailsOf :: "jobject \<Rightarrow> string \<Rightarrow> jobject" where
  "detailsOf usage k = (case objAt usage k of Some d \<Rightarrow> d | None \<Rightarrow> [])"

definition parseUsageFromPayload :: "jobject \<Rightarrow> usageMetrics" where
  "parseUsageFromPayload payload =
     (case (case objAt payload ''usage'' of
              Some u \<Rightarrow> Some u
            | None \<Rightarrow> (case objAt payload ''message'' of Some msg \<Rightarrow> objAt msg ''usage'' | None \<Rightarrow> None)) of
        None \<Rightarrow> zeroMetrics
      | Some usage \<Rightarrow>
          let prompt = firstInt [(usage, ''prompt_tokens''), (usage, ''input_tokens'')];
              completion = firstInt [(usage, ''completion_tokens''), (usage, ''output_tokens'')];
              total0 = anyToInt64 (jget usage ''total_tokens'');
              total = (if total0 = 0 then wrap64 (prompt + completion) else total0);
              reasoning = firstInt [(usage, ''reasoning_tokens''), (detailsOf usage ''completion_tokens_details'', ''reasoning_tokens''),
                            (detailsOf usage ''output_tokens_details'', ''reasoning_tokens'')];
              details = detailsOf usage ''prompt_tokens_details'';
              cacheRead = firstInt [(usage, ''cache_read_tokens''), (details, ''cached_tokens''), (details, ''cache_read_tokens''),
                            (details, ''cache_read_input_tokens'')];
              cacheCreation = firstInt [(usage, ''cache_creation_tokens''), (details, ''cache_creation_tokens''),
                            (details, ''cache_creation_input_tokens'')];
              cached0 = anyToInt64 (jget usage ''cached_tokens'');
              cached = (if cached0 = 0 then wrap64 (cacheRead + cacheCreation) else cached0)
          in \<lparr>umPromptTokens = prompt, umCompletionTokens = completion, umTotalTokens = total, umCachedTokens = cached,
              umCacheReadInputTokens = cacheRead, umCacheCreationInputTokens = cacheCreation, umReasoningTokens = reasoning\<rparr>)"

section \<open>Server-sent events\<close>

definition newline :: char where
  "newline = CHR 0x0A"

definition trimCR :: "string \<Rightarrow> string" where
  "trimCR line = rev (dropWhile (\<lambda>c. c = CHR 0x0D) (rev line))"

definition bodyLines :: "string \<Rightarrow> string list" where
  "bodyLines body = map trimCR (splitChar newline body)"

definition dataOf :: "string \<Rightarrow> string" where
  "dataOf line = trimSpace (trimPrefix line ''data:'')"

text \<open>
  The loop both readers share: the data lines of an event are joined, an empty line and the end of the
  body flush it.  The result is the list of flushed, trimmed and non-empty events.
\<close>

definition flushEvent :: "string \<Rightarrow> string list \<Rightarrow> string list" where
  "flushEvent event events = (let d = trimSpace event in if d = [] then events else events @ [d])"

fun sseStep :: "string \<times> string list \<Rightarrow> string \<Rightarrow> string \<times> string list" where
  "sseStep (event, events) line =
     (if line = [] then ([], flushEvent event events)
      else if hasPrefix line ''data:''
      then ((if event = [] then dataOf line else event @ [newline] @ dataOf line), events)
      else (event, events))"

definition sseEvents :: "string \<Rightarrow> string list" where
  "sseEvents body = (case foldl sseStep ([], []) (bodyLines body) of (event, events) \<Rightarrow> flushEvent event events)"

definition doneMark :: string where
  "doneMark = ''[DONE]''"

definition isFinalSSEEvent :: "jobject \<Rightarrow> bool" where
  "isFinalSSEEvent payload \<longleftrightarrow>
     (strAt payload ''type'' = Some ''message_delta''
        \<and> (case objAt payload ''delta'' of None \<Rightarrow> False | Some d \<Rightarrow> (case strAt d ''stop_reason'' of None \<Rightarrow> False | Some sr \<Rightarrow> sr \<noteq> [])))
     \<or> list_ex (\<lambda>ch. case strAt ch ''finish_reason'' of None \<Rightarrow> False | Some fr \<Rightarrow> fr \<noteq> []) (objsOf (arrOf payload ''choices''))
     \<or> objAt payload ''usage'' \<noteq> None"

definition isTerminalSSEEvent :: "jobject \<Rightarrow> bool" where
  "isTerminalSSEEvent payload \<longleftrightarrow> jgetStr payload ''type'' \<in> {''message_stop'', ''response.completed'', ''response.done''}"

definition sseEventHasOutput :: "jobject \<Rightarrow> bool" where
  "sseEventHasOutput payload \<longleftrightarrow>
     extractContentCharsFromSSEEvent payload > 0
     \<or> list_ex (\<lambda>ch. case objAt ch ''delta'' of None \<Rightarrow> False | Some d \<Rightarrow> jgetStr d ''refusal'' \<noteq> []) (objsOf (arrOf payload ''choices''))
     \<or> (jgetStr payload ''type'' \<in> {''response.output_text.delta'', ''response.function_call_arguments.delta''}
        \<and> jgetStr payload ''delta'' \<noteq> [])"

datatype completionBodyState = completionBodyEmpty | completionBodyPartial | completionBodyComplete

definition eventOutput :: "string \<Rightarrow> bool" where
  "eventOutput d \<longleftrightarrow> d \<noteq> doneMark \<and> (case unmarshalObject d of None \<Rightarrow> False | Some p \<Rightarrow> sseEventHasOutput p)"

definition eventTerminal :: "string \<Rightarrow> bool" where
  "eventTerminal d \<longleftrightarrow> d = doneMark \<or> (case unmarshalObject d of None \<Rightarrow> False | Some p \<Rightarrow> isFinalSSEEvent p \<or> isTerminalSSEEvent p)"

definition classifySSECompletion :: "string \<Rightarrow> completionBodyState" where
  "classifySSECompletion body =
     (let events = sseEvents body; sawOutput = list_ex eventOutput events; sawTerminal = list_ex eventTerminal events
      in if sawOutput \<and> sawTerminal then completionBodyComplete
         else if sawOutput then completionBodyPartial
         else completionBodyEmpty)"

definition looksLikeSuccessfulJSONCompletion :: "jobject \<Rightarrow> bool" where
  "looksLikeSuccessfulJSONCompletion payload \<longleftrightarrow>
     arrOf payload ''choices'' \<noteq> [] \<or> arrOf payload ''content'' \<noteq> [] \<or> jget payload ''input_tokens'' \<noteq> None
     \<or> arrOf payload ''data'' \<noteq> []"

definition classifyCompletionBody :: "string \<Rightarrow> completionBodyState" where
  "classifyCompletionBody body =
     (if trimSpace body = [] then completionBodyEmpty
      else (case unmarshalObject body of
              Some payload \<Rightarrow> if looksLikeSuccessfulJSONCompletion payload then completionBodyComplete else completionBodyEmpty
            | None \<Rightarrow> classifySSECompletion body))"

section \<open>Usage of a stream\<close>

record sseUsage =
  suPrompt :: int
  suCompletion :: int
  suTotal :: int
  suChars :: int
  suFinal :: bool

definition sseUsageStep :: "sseUsage \<Rightarrow> string \<Rightarrow> sseUsage" where
  "sseUsageStep u d =
     (if d = doneMark then u
      else (case unmarshalObject d of
              None \<Rightarrow> u
            | Some payload \<Rightarrow>
                let u1 = u\<lparr>suChars := suChars u + extractContentCharsFromSSEEvent payload\<rparr>; isFinal = isFinalSSEEvent payload in
                if suFinal u \<and> \<not> isFinal then u1
                else
                  let m = parseUsageFromPayload payload in
                  u1\<lparr>suPrompt := (if umPromptTokens m \<noteq> 0 then umPromptTokens m else suPrompt u),
                     suCompletion := (if umCompletionTokens m \<noteq> 0 then umCompletionTokens m else suCompletion u),
                     suTotal := (if umTotalTokens m \<noteq> 0 then umTotalTokens m else suTotal u),
                     suFinal := suFinal u \<or> isFinal\<rparr>))"

definition parseUsageFromSSEBody :: "string \<Rightarrow> int \<times> int \<times> int" where
  "parseUsageFromSSEBody body =
     (let u = foldl sseUsageStep \<lparr>suPrompt = 0, suCompletion = 0, suTotal = 0, suChars = 0, suFinal = False\<rparr> (sseEvents body);
          est = truncDiv (suChars u + 3) 4;
          completion = (if suCompletion u = 0 \<and> suChars u > 0 then (if est < 1 then 1 else est) else suCompletion u);
          total = (if suTotal u = 0 then wrap64 (suPrompt u + completion) else suTotal u)
      in (suPrompt u, completion, total))"

definition payloadMetrics :: "jobject \<Rightarrow> usageMetrics" where
  "payloadMetrics payload =
     (let m = parseUsageFromPayload payload; est = estimateOutputTokensFromPayload payload in
      if umCompletionTokens m = 0 \<and> est > 0
      then m\<lparr>umCompletionTokens := est,
             umTotalTokens := (if umTotalTokens m < wrap64 (umPromptTokens m + est) then wrap64 (umPromptTokens m + est) else umTotalTokens m)\<rparr>
      else m)"

definition parseUsageFromBody :: "string \<Rightarrow> usageMetrics" where
  "parseUsageFromBody body =
     (let fromSSE = (case parseUsageFromSSEBody body of (p, c, t) \<Rightarrow> zeroMetrics\<lparr>umPromptTokens := p, umCompletionTokens := c, umTotalTokens := t\<rparr>)
      in case decodeObject body of
           Some payload \<Rightarrow>
             let m = payloadMetrics payload in
             if umPromptTokens m \<noteq> 0 \<or> umCompletionTokens m \<noteq> 0 \<or> umTotalTokens m \<noteq> 0 then m else fromSSE
         | None \<Rightarrow> fromSSE)"

section \<open>Errors in the body\<close>

definition detectErrorFromPayload :: "jobject \<Rightarrow> string" where
  "detectErrorFromPayload payload = (case jget payload ''error'' of
       Some (JStr v) \<Rightarrow> if trimSpace v \<noteq> [] then ''provider_error'' else []
     | Some (JObj v) \<Rightarrow>
         if jgetStr v ''code'' \<noteq> [] then jgetStr v ''code''
         else if trimSpace (jgetStr v ''message'') \<noteq> [] then
           (if containsStr (toLower (jgetStr v ''message'')) ''incompatible_payload'' then ''incompatible_payload'' else ''provider_error'')
         else if jgetStr v ''type'' \<noteq> [] then jgetStr v ''type''
         else ''provider_error''
     | _ \<Rightarrow> [])"

definition detectErrorFromJSONBytes :: "string \<Rightarrow> string" where
  "detectErrorFromJSONBytes b = (case unmarshalObject b of None \<Rightarrow> [] | Some payload \<Rightarrow> detectErrorFromPayload payload)"

definition dataLines :: "string \<Rightarrow> string list" where
  "dataLines body = filter (\<lambda>d. d \<noteq> [] \<and> d \<noteq> doneMark) (map dataOf (filter (\<lambda>l. hasPrefix l ''data:'') (bodyLines body)))"

definition detectProviderErrorFromBody :: "string \<Rightarrow> string" where
  "detectProviderErrorFromBody body =
     (if body = [] then []
      else let code = detectErrorFromJSONBytes body in
           if code \<noteq> [] then code
           else (case find (\<lambda>c. c \<noteq> []) (map detectErrorFromJSONBytes (dataLines body)) of Some c \<Rightarrow> c | None \<Rightarrow> []))"

definition namespaceUpstreamErrorCode :: "string \<Rightarrow> string" where
  "namespaceUpstreamErrorCode code =
     (if code = [] \<or> code = ''incompatible_payload'' \<or> hasPrefix code ''upstream_'' then code else ''upstream_'' @ code)"

definition looksLikeSuccessfulCompletion :: "string \<Rightarrow> bool" where
  "looksLikeSuccessfulCompletion body \<longleftrightarrow> classifyCompletionBody body = completionBodyComplete"

definition shouldCountAsSuccess :: "int \<Rightarrow> string \<Rightarrow> bool" where
  "shouldCountAsSuccess statusCode body \<longleftrightarrow>
     200 \<le> statusCode \<and> statusCode < 300 \<and> detectProviderErrorFromBody body = [] \<and> looksLikeSuccessfulCompletion body"

text \<open>\<open>cancelled\<close> says that the request context was cancelled or ran out of time.\<close>

definition settlementStatus :: "bool \<Rightarrow> int \<Rightarrow> string \<Rightarrow> int" where
  "settlementStatus cancelled upstreamStatus body =
     (if cancelled \<and> classifyCompletionBody body \<noteq> completionBodyComplete then statusClientClosedRequest else upstreamStatus)"

section \<open>Reading framed events\<close>

text \<open>An event on one line, as the upstreams send it, and a comment that keeps the connection alive.\<close>

definition frame :: "string \<Rightarrow> string" where
  "frame d = ''data: '' @ d @ [newline, newline]"

definition heartbeat :: "string \<Rightarrow> string" where
  "heartbeat note = CHR '':'' # note @ [newline, newline]"

datatype frameKind = Event string | Heartbeat string

fun frameText :: "frameKind \<Rightarrow> string" where
  "frameText (Event d) = frame d"
| "frameText (Heartbeat n) = heartbeat n"

definition oneLine :: "string \<Rightarrow> bool" where
  "oneLine d \<longleftrightarrow> newline \<notin> set d \<and> CHR 0x0D \<notin> set d"

fun frameOk :: "frameKind \<Rightarrow> bool" where
  "frameOk (Event d) = (oneLine d \<and> d \<noteq> [] \<and> trimSpace d = d)"
| "frameOk (Heartbeat n) = oneLine n"

fun frameEvents :: "frameKind \<Rightarrow> string list" where
  "frameEvents (Event d) = [d]"
| "frameEvents (Heartbeat n) = []"

lemma splitAtChar_line: "c \<notin> set a \<Longrightarrow> splitAtChar c (a @ c # b) = (a, Some b)"
  by (induction a) auto

lemma splitChar_line: "c \<notin> set a \<Longrightarrow> splitChar c (a @ c # b) = a # splitChar c b"
  by (subst splitChar.simps) (simp add: splitAtChar_line)

lemma trimCR_line: "CHR 0x0D \<notin> set l \<Longrightarrow> trimCR l = l"
  by (cases l rule: rev_cases) (auto simp: trimCR_def)

lemma bodyLines_line: "newline \<notin> set l \<Longrightarrow> CHR 0x0D \<notin> set l \<Longrightarrow> bodyLines (l @ newline # b) = l # bodyLines b"
  by (simp add: bodyLines_def splitChar_line trimCR_line)

lemma bodyLines_empty: "bodyLines (newline # b) = [] # bodyLines b"
  using bodyLines_line [of "[]" b] by simp

lemma newline_eqs [simp]: "newline \<noteq> CHR ''d''" "newline \<noteq> CHR ''a''" "newline \<noteq> CHR ''t''" "newline \<noteq> CHR '':''" "newline \<noteq> CHR '' ''"
  by (simp_all add: newline_def)

lemma dataOf_frame: "trimSpace d = d \<Longrightarrow> dataOf (''data: '' @ d) = d"
proof -
  assume t: "trimSpace d = d"
  have "trimPrefix (''data: '' @ d) ''data:'' = CHR '' '' # d" by (simp add: trimPrefix_def hasPrefix_def)
  moreover have "trimSpace (CHR '' '' # d) = trimSpace d" by (simp add: trimSpace_def isSpace_def)
  ultimately show ?thesis using t by (simp add: dataOf_def)
qed

lemma frame_lines:
  assumes "frameOk f"
  shows "foldl sseStep ([], evs) (bodyLines (frameText f @ rest)) = foldl sseStep ([], evs @ frameEvents f) (bodyLines rest)"
proof (cases f)
  case (Event d)
  then have d: "newline \<notin> set (''data: '' @ d)" "CHR 0x0D \<notin> set (''data: '' @ d)" "d \<noteq> []" "trimSpace d = d"
    using assms by (auto simp: oneLine_def)
  have "frameText f @ rest = (''data: '' @ d) @ newline # newline # rest" by (simp add: Event frame_def)
  then have "bodyLines (frameText f @ rest) = (''data: '' @ d) # [] # bodyLines rest"
    by (simp only: bodyLines_line [OF d(1,2)] bodyLines_empty)
  moreover have "sseStep ([], evs) (''data: '' @ d) = (d, evs)" using dataOf_frame [OF d(4)] by (simp add: hasPrefix_def)
  moreover have "sseStep (d, evs) [] = ([], evs @ [d])" using d(3,4) by (simp add: flushEvent_def)
  ultimately show ?thesis by (simp add: Event del: sseStep.simps)
next
  case (Heartbeat n)
  then have n: "newline \<notin> set (CHR '':'' # n)" "CHR 0x0D \<notin> set (CHR '':'' # n)" using assms by (auto simp: oneLine_def)
  have "frameText f @ rest = (CHR '':'' # n) @ newline # newline # rest" by (simp add: Heartbeat heartbeat_def)
  then have "bodyLines (frameText f @ rest) = (CHR '':'' # n) # [] # bodyLines rest"
    by (simp only: bodyLines_line [OF n] bodyLines_empty)
  moreover have "sseStep ([], evs) (CHR '':'' # n) = ([], evs)" by (simp add: hasPrefix_def)
  moreover have "sseStep ([], evs) [] = ([], evs)" by (simp add: flushEvent_def)
  ultimately show ?thesis by (simp add: Heartbeat del: sseStep.simps)
qed

lemma frames_lines:
  "list_all frameOk fs \<Longrightarrow> foldl sseStep ([], evs) (bodyLines (concat (map frameText fs))) = ([], evs @ concat (map frameEvents fs))"
proof (induction fs arbitrary: evs)
  case Nil
  have "bodyLines [] = [[]]" by (simp add: bodyLines_def trimCR_def splitChar.simps [of newline "[]"])
  then show ?case by (simp add: flushEvent_def)
next
  case (Cons f fs)
  then show ?case using frame_lines [of f evs "concat (map frameText fs)"] by simp
qed

lemma sseEvents_frames: "list_all frameOk fs \<Longrightarrow> sseEvents (concat (map frameText fs)) = concat (map frameEvents fs)"
  using frames_lines [of fs "[]"] by (simp add: sseEvents_def flushEvent_def)

text \<open>
  A stream of events and keep-alive comments is read back as its events, in order, and is
  classified by them alone: without model output it is empty however many frames arrive and whatever
  ends it, with output and no final event it is partial, and only with both is it a completion.
\<close>

theorem stream_classified_by_events:
  assumes "list_all frameOk fs"
  shows "sseEvents (concat (map frameText fs)) = concat (map frameEvents fs)
    \<and> classifySSECompletion (concat (map frameText fs)) =
       (if \<exists>d. Event d \<in> set fs \<and> eventOutput d
        then if \<exists>d. Event d \<in> set fs \<and> eventTerminal d then completionBodyComplete else completionBodyPartial
        else completionBodyEmpty)"
proof -
  have "d \<in> set (concat (map frameEvents fs)) \<longleftrightarrow> Event d \<in> set fs" for d
  proof (induction fs)
    case (Cons f fs)
    then show ?case by (cases f) auto
  qed simp
  then have "list_ex P (concat (map frameEvents fs)) \<longleftrightarrow> (\<exists>d. Event d \<in> set fs \<and> P d)" for P
    unfolding list_ex_iff Bex_def by blast
  then show ?thesis using sseEvents_frames [OF assms] by (auto simp: classifySSECompletion_def Let_def)
qed

theorem stream_classified_by_events_witness:
  "classifySSECompletion (concat (map frameText [Heartbeat ''ping'', Heartbeat ''ping'', Event doneMark])) = completionBodyEmpty"
proof -
  have "list_all frameOk [Heartbeat ''ping'', Heartbeat ''ping'', Event doneMark]" by code_simp
  moreover have "\<not> eventOutput doneMark" by (simp add: eventOutput_def)
  ultimately show ?thesis using stream_classified_by_events [of "[Heartbeat ''ping'', Heartbeat ''ping'', Event doneMark]"] by auto
qed

end
