(* ===== verification/Callback.thy ===== *)
theory Callback
  imports PgCatalog
begin

text \<open>
  The debit notifications to the billing application, \<^verbatim>\<open>genfity_callback.go\<close>, with their durable retry
  queue, \<^verbatim>\<open>callback_retry.go\<close> and the \<^verbatim>\<open>pending_callbacks\<close> statements of \<^verbatim>\<open>postgres_store.go\<close>.  The
  application, the network and the clock are outside the program: a \<^verbatim>\<open>peer\<close> gives the reply to a
  request, the time and what passes while the worker sleeps.  The lemmas show that a notification is
  never lost, that it is queued once, that every queued one is tried a bounded number of times, and
  that whatever the application answers the worker drains the queue.
\<close>

section \<open>The notification\<close>

record UsageDebitPayload =
  udUserID :: string
  udRequestID :: string
  udBillingMode :: string
  udAmountCredits :: float64
  udAmountUSD :: float64
  udModel :: string
  udNotes :: string

record 'w peer =
  peerPost :: "UsageDebitPayload \<Rightarrow> 'w \<Rightarrow> 'w \<times> (string + int)"
  peerClock :: "'w \<Rightarrow> time"
  peerSleep :: "duration \<Rightarrow> 'w \<Rightarrow> 'w"

record GenfityCallback =
  gcBaseURL :: string
  gcSecret :: string
  gcQueue :: bool

definition Enabled :: "GenfityCallback option \<Rightarrow> bool" where
  "Enabled c = (case c of None \<Rightarrow> False | Some cb \<Rightarrow> gcBaseURL cb \<noteq> [] \<and> gcSecret cb \<noteq> [])"

datatype callbackError = callbackStatusError int | callbackFailed string

fun callbackErrorText :: "callbackError \<Rightarrow> string" where
  "callbackErrorText (callbackStatusError n) = ''callback returned '' @ natText (nat n)"
| "callbackErrorText (callbackFailed e) = e"

text \<open>\<^verbatim>\<open>json.Marshal\<close> refuses the infinities and NaN.\<close>

fun isFinite :: "float64 \<Rightarrow> bool" where
  "isFinite (Fin _) = True"
| "isFinite _ = False"

definition PostUsageDebit :: "'w peer \<Rightarrow> GenfityCallback option \<Rightarrow> UsageDebitPayload \<Rightarrow> 'w \<Rightarrow> 'w \<times> (callbackError + unit)" where
  "PostUsageDebit P cb payload w =
     (if \<not> Enabled cb then (w, Inr ())
      else if \<not> isFinite (udAmountCredits payload) \<or> \<not> isFinite (udAmountUSD payload)
      then (w, Inl (callbackFailed ''marshal callback payload: json: unsupported value''))
      else (case peerPost P payload w of
              (w1, Inl e) \<Rightarrow> (w1, Inl (callbackFailed (''post callback: '' @ e)))
            | (w1, Inr status) \<Rightarrow> if status \<ge> 400 then (w1, Inl (callbackStatusError status)) else (w1, Inr ())))"

section \<open>The queue\<close>

definition callbackRowOk :: "PendingCallback \<Rightarrow> bool" where
  "callbackRowOk r \<longleftrightarrow> (pcBillingMode r = ''credit_package'' \<or> pcBillingMode r = ''payg_topup'')
     \<and> (pcStatus r = ''pending'' \<or> pcStatus r = ''abandoned'' \<or> pcStatus r = ''failed_permanent'')"

definition EnqueuePendingCallback :: "uuid \<Rightarrow> time \<Rightarrow> PendingCallback \<Rightarrow> pg_state \<Rightarrow> pg_state \<times> unit result" where
  "EnqueuePendingCallback fresh now item = pgRun (\<lambda>s.
     case (numericTextPtr 4 (pcAmountCredits item), numericTextPtr 6 (pcAmountUSD item)) of
       (Some ac, Some au) \<Rightarrow>
         let row = \<lparr>pcID = fresh, pcRequestID = pcRequestID item, pcUserID = pcUserID item, pcBillingMode = pcBillingMode item,
                    pcAmountCredits = ac, pcAmountUSD = au, pcModel = pcModel item, pcNotes = pcNotes item, pcAttempts = 0,
                    pcLastError = None, pcLastAttemptAt = None, pcNextAttemptAt = pgTs now, pcStatus = ''pending'', pcCreatedAt = pgTs now\<rparr>
         in if \<not> callbackRowOk row then (s, Inl (ErrText ''check constraint''))
            else if list_ex (\<lambda>r. pcRequestID r = pcRequestID item \<and> pcBillingMode r = pcBillingMode item) (pgCallbacks s)
            then (s, Inr ())
            else if list_ex (\<lambda>r. pcID r = fresh) (pgCallbacks s) then (s, Inl (ErrText ''duplicate key''))
            else (s\<lparr>pgCallbacks := pgCallbacks s @ [row]\<rparr>, Inr ())
     | _ \<Rightarrow> (s, Inl (ErrText ''invalid input syntax for type numeric'')))"

definition ListDuePendingCallbacks :: "time \<Rightarrow> int \<Rightarrow> pg_state \<Rightarrow> PendingCallback list result" where
  "ListDuePendingCallbacks now limit = pgRead (\<lambda>s.
     Inr (take (nat (if limit \<le> 0 then 50 else limit))
       (sort_key pcNextAttemptAt (filter (\<lambda>r. pcStatus r = ''pending'' \<and> pcNextAttemptAt r \<le> now) (pgCallbacks s)))))"

definition MarkCallbackSucceeded :: "uuid \<Rightarrow> pg_state \<Rightarrow> pg_state \<times> unit result" where
  "MarkCallbackSucceeded i = pgRun (\<lambda>s. (s\<lparr>pgCallbacks := filter (\<lambda>r. pcID r \<noteq> i) (pgCallbacks s)\<rparr>, Inr ()))"

definition MarkCallbackRetry :: "time \<Rightarrow> uuid \<Rightarrow> string \<Rightarrow> time \<Rightarrow> pg_state \<Rightarrow> pg_state \<times> unit result" where
  "MarkCallbackRetry now i lastError nextAttemptAt = pgRun (\<lambda>s. (s\<lparr>pgCallbacks :=
     updWhere (\<lambda>r. pcID r = i) (\<lambda>r. r\<lparr>pcAttempts := pcAttempts r + 1, pcLastError := Some lastError,
       pcLastAttemptAt := Some (pgTs now), pcNextAttemptAt := pgTs nextAttemptAt\<rparr>) (pgCallbacks s)\<rparr>, Inr ()))"

definition MarkCallbackAbandoned :: "time \<Rightarrow> uuid \<Rightarrow> string \<Rightarrow> string \<Rightarrow> pg_state \<Rightarrow> pg_state \<times> unit result" where
  "MarkCallbackAbandoned now i status lastError = pgRun (\<lambda>s. (s\<lparr>pgCallbacks :=
     updWhere (\<lambda>r. pcID r = i)
       (\<lambda>r. r\<lparr>pcStatus := (if status \<noteq> ''abandoned'' \<and> status \<noteq> ''failed_permanent'' then ''abandoned'' else status),
              pcAttempts := pcAttempts r + 1, pcLastError := Some lastError, pcLastAttemptAt := Some (pgTs now)\<rparr>) (pgCallbacks s)\<rparr>, Inr ()))"

section \<open>Posting from a request\<close>

definition usageDebitCallbackAttempts :: nat where
  "usageDebitCallbackAttempts = 3"

text \<open>The loop of the goroutine, \<open>n\<close> attempts before the last; it sleeps one second longer after each failure.\<close>

primrec postAttempts :: "'w peer \<Rightarrow> GenfityCallback option \<Rightarrow> UsageDebitPayload \<Rightarrow> nat \<Rightarrow> 'w \<Rightarrow> 'w \<times> (callbackError + unit)" where
  "postAttempts P cb payload 0 w = PostUsageDebit P cb payload w"
| "postAttempts P cb payload (Suc n) w = (case PostUsageDebit P cb payload w of
       (w1, Inr _) \<Rightarrow> (w1, Inr ())
     | (w1, Inl _) \<Rightarrow> postAttempts P cb payload n (peerSleep P (int (usageDebitCallbackAttempts - 1 - n) * nsSecond) w1))"

definition optionalString :: "string \<Rightarrow> string option" where
  "optionalString s = (if s = [] then None else Some s)"

definition callbackItem :: "UsageDebitPayload \<Rightarrow> PendingCallback" where
  "callbackItem payload = \<lparr>pcID = nilUUID, pcRequestID = udRequestID payload, pcUserID = udUserID payload,
     pcBillingMode = udBillingMode payload,
     pcAmountCredits = (if flt fzero (udAmountCredits payload) then Some (sprintfF 4 (udAmountCredits payload)) else None),
     pcAmountUSD = (if flt fzero (udAmountUSD payload) then Some (sprintfF 6 (udAmountUSD payload)) else None),
     pcModel = optionalString (udModel payload), pcNotes = optionalString (udNotes payload), pcAttempts = 0,
     pcLastError = None, pcLastAttemptAt = None, pcNextAttemptAt = zeroTime, pcStatus = [], pcCreatedAt = zeroTime\<rparr>"

definition PostUsageDebitAsync :: "'w peer \<Rightarrow> GenfityCallback option \<Rightarrow> uuid \<Rightarrow> UsageDebitPayload \<Rightarrow> pg_state \<times> 'w \<Rightarrow> pg_state \<times> 'w" where
  "PostUsageDebitAsync P cb fresh payload = (\<lambda>(s, w).
     if \<not> Enabled cb then (s, w)
     else (case postAttempts P cb payload (usageDebitCallbackAttempts - 1) w of
             (w1, Inr _) \<Rightarrow> (s, w1)
           | (w1, Inl _) \<Rightarrow>
               if \<not> gcQueue (the cb) then (s, w1)
               else (fst (EnqueuePendingCallback fresh (peerClock P w1) (callbackItem payload) s), w1)))"

section \<open>The worker\<close>

definition workerTick :: duration where
  "workerTick = 30 * nsSecond"

definition workerBatch :: int where
  "workerBatch = 50"

definition maxRetry :: int where
  "maxRetry = 24"

text \<open>\<^verbatim>\<open>1 << n\<close> on a 64-bit integer; a negative count is a huge unsigned one.\<close>

definition shiftOne :: "int \<Rightarrow> int" where
  "shiftOne n = (if n < 0 then 0 else wrap64 (2 ^ nat n))"

definition retryBackoff :: "int \<Rightarrow> duration" where
  "retryBackoff attempts =
     (let backoff = wrap64 (shiftOne (attempts + 1) * nsSecond)
      in if backoff > 10 * nsMinute then 10 * nsMinute else backoff)"

definition callbackPayload :: "PendingCallback \<Rightarrow> UsageDebitPayload" where
  "callbackPayload row = \<lparr>udUserID = pcUserID row, udRequestID = pcRequestID row, udBillingMode = pcBillingMode row,
     udAmountCredits = (case pcAmountCredits row of None \<Rightarrow> fzero | Some t \<Rightarrow> (case parseFloat t of None \<Rightarrow> fzero | Some v \<Rightarrow> v)),
     udAmountUSD = (case pcAmountUSD row of None \<Rightarrow> fzero | Some t \<Rightarrow> (case parseFloat t of None \<Rightarrow> fzero | Some v \<Rightarrow> v)),
     udModel = (case pcModel row of None \<Rightarrow> [] | Some m \<Rightarrow> m), udNotes = (case pcNotes row of None \<Rightarrow> [] | Some n \<Rightarrow> n)\<rparr>"

definition nonRetriable :: "callbackError \<Rightarrow> bool" where
  "nonRetriable e = (case e of callbackStatusError n \<Rightarrow> 400 \<le> n \<and> n < 500 \<and> n \<noteq> 429 | callbackFailed _ \<Rightarrow> False)"

definition deliver :: "'w peer \<Rightarrow> GenfityCallback option \<Rightarrow> PendingCallback \<Rightarrow> pg_state \<times> 'w \<Rightarrow> pg_state \<times> 'w" where
  "deliver P cb row = (\<lambda>(s, w). case PostUsageDebit P cb (callbackPayload row) w of
       (w1, Inr _) \<Rightarrow> (fst (MarkCallbackSucceeded (pcID row) s), w1)
     | (w1, Inl e) \<Rightarrow>
         let now = peerClock P w1 in
         if nonRetriable e then (fst (MarkCallbackAbandoned now (pcID row) ''failed_permanent'' (callbackErrorText e) s), w1)
         else if pcAttempts row + 1 \<ge> maxRetry
         then (fst (MarkCallbackAbandoned now (pcID row) ''abandoned'' (callbackErrorText e) s), w1)
         else (fst (MarkCallbackRetry now (pcID row) (callbackErrorText e) (now + retryBackoff (pcAttempts row)) s), w1))"

definition processBatch :: "'w peer \<Rightarrow> GenfityCallback option \<Rightarrow> pg_state \<times> 'w \<Rightarrow> pg_state \<times> 'w" where
  "processBatch P cb = (\<lambda>(s, w). case ListDuePendingCallbacks (peerClock P w) workerBatch s of
       Inl _ \<Rightarrow> (s, w)
     | Inr rows \<Rightarrow> fold (deliver P cb) rows (s, w))"

text \<open>\<^verbatim>\<open>Run\<close>: a batch at once, then one per tick until the context is cancelled, after \<open>n\<close> ticks.\<close>

primrec runTicks :: "'w peer \<Rightarrow> GenfityCallback option \<Rightarrow> nat \<Rightarrow> pg_state \<times> 'w \<Rightarrow> pg_state \<times> 'w" where
  "runTicks P cb 0 sw = sw"
| "runTicks P cb (Suc n) sw = runTicks P cb n (processBatch P cb (fst sw, peerSleep P workerTick (snd sw)))"

definition Run :: "'w peer \<Rightarrow> GenfityCallback option \<Rightarrow> nat \<Rightarrow> pg_state \<times> 'w \<Rightarrow> pg_state \<times> 'w" where
  "Run P cb n sw = (if \<not> Enabled cb then sw else runTicks P cb n (processBatch P cb sw))"

section \<open>The queue's invariant\<close>

definition callbacksOk :: "PendingCallback list \<Rightarrow> bool" where
  "callbacksOk rows \<longleftrightarrow> distinct (map pcID rows) \<and> distinct (map (\<lambda>r. (pcRequestID r, pcBillingMode r)) rows)
     \<and> list_all (\<lambda>r. callbackRowOk r \<and> 0 \<le> pcAttempts r \<and> (pcStatus r = ''pending'' \<longrightarrow> pcAttempts r < maxRetry)) rows"

definition callbackState :: "pg_state \<Rightarrow> bool" where
  "callbackState s \<longleftrightarrow> pgUp s \<and> callbacksOk (pgCallbacks s)"

text \<open>The attempts that are left to the queue.\<close>

definition attemptsLeft :: "PendingCallback \<Rightarrow> nat" where
  "attemptsLeft r = (if pcStatus r = ''pending'' then nat (maxRetry - pcAttempts r) else 0)"

definition queueWork :: "pg_state \<Rightarrow> nat" where
  "queueWork s = sum_list (map attemptsLeft (pgCallbacks s))"

lemma split_id:
  assumes "distinct (map pcID rows)" "row \<in> set rows"
  obtains a b where "rows = a @ row # b" "\<forall>r \<in> set a \<union> set b. pcID r \<noteq> pcID row"
proof -
  obtain a b where ab: "rows = a @ row # b" using assms(2) by (metis split_list)
  then have "pcID row \<notin> pcID ` (set a \<union> set b)" using assms(1) by auto
  then have "\<forall>r \<in> set a \<union> set b. pcID r \<noteq> pcID row" by (metis imageI)
  then show ?thesis using that ab by blast
qed

lemma updWhere_id:
  assumes "\<forall>r \<in> set a \<union> set b. pcID r \<noteq> pcID row"
  shows "updWhere (\<lambda>r. pcID r = pcID row) f (a @ row # b) = a @ f row # b"
    and "filter (\<lambda>r. pcID r \<noteq> pcID row) (a @ row # b) = a @ b"
  using assms by (auto simp: updWhere_def filter_id_conv map_idI)

text \<open>What a delivery does to its row: it leaves the queue, is parked, or waits with one attempt more.\<close>

lemma deliver_cases:
  assumes "pgUp s" "deliver P cb row (s, w) = (s', w')" "pgCallbacks s = a @ row # b" "\<forall>r \<in> set a \<union> set b. pcID r \<noteq> pcID row"
  obtains (acked) "s' = s\<lparr>pgCallbacks := a @ b\<rparr>" "PostUsageDebit P cb (callbackPayload row) w = (w', Inr ())"
  | (parked) st e t where "s' = s\<lparr>pgCallbacks := a @ row\<lparr>pcStatus := st, pcAttempts := pcAttempts row + 1, pcLastError := e, pcLastAttemptAt := t\<rparr> # b\<rparr>"
      "st = ''abandoned'' \<or> st = ''failed_permanent''"
  | (retry) e t where "s' = s\<lparr>pgCallbacks := a @ row\<lparr>pcAttempts := pcAttempts row + 1, pcLastError := e, pcLastAttemptAt := t,
        pcNextAttemptAt := pgTs (peerClock P w' + retryBackoff (pcAttempts row))\<rparr> # b\<rparr>" "pcAttempts row + 1 < maxRetry"
proof -
  obtain w1 x where post: "PostUsageDebit P cb (callbackPayload row) w = (w1, x)" by (metis surj_pair)
  note u = updWhere_id [OF assms(4)]
  show ?thesis
  proof (cases x)
    case (Inr v)
    then show ?thesis
      using assms(1,2,3) post acked u(2) by (auto simp: deliver_def MarkCallbackSucceeded_def)
  next
    case (Inl e)
    have w1: "w' = w1" using assms(2) post Inl by (auto simp: deliver_def Let_def split: if_splits)
    consider "nonRetriable e" | "\<not> nonRetriable e" "maxRetry \<le> pcAttempts row + 1" | "\<not> nonRetriable e" "pcAttempts row + 1 < maxRetry" by linarith
    then show ?thesis
    proof cases
      case 1
      show ?thesis
        by (rule parked [where st = "''failed_permanent''" and e = "Some (callbackErrorText e)" and t = "Some (pgTs (peerClock P w1))"])
          (use 1 assms(1-3) post Inl in \<open>auto simp: deliver_def MarkCallbackAbandoned_def u(1) Let_def\<close>)
    next
      case 2
      show ?thesis
        by (rule parked [where st = "''abandoned''" and e = "Some (callbackErrorText e)" and t = "Some (pgTs (peerClock P w1))"])
          (use 2 assms(1-3) post Inl in \<open>auto simp: deliver_def MarkCallbackAbandoned_def u(1) Let_def\<close>)
    next
      case 3
      show ?thesis
        by (rule retry [where e = "Some (callbackErrorText e)" and t = "Some (pgTs (peerClock P w1))"])
          (use 3 assms(1-3) post Inl w1 in \<open>auto simp: deliver_def MarkCallbackRetry_def u(1) Let_def\<close>)
    qed
  qed
qed

lemma deliver_row:
  assumes "callbackState s" "row \<in> set (pgCallbacks s)" "pcStatus row = ''pending''" "deliver P cb row (s, w) = (s', w')"
  shows "callbackState s'" "queueWork s' < queueWork s" "r \<in> set (pgCallbacks s) \<Longrightarrow> pcID r \<noteq> pcID row \<Longrightarrow> r \<in> set (pgCallbacks s')"
    "r \<in> set (pgCallbacks s') \<Longrightarrow> pcStatus r = ''pending'' \<Longrightarrow>
       r \<in> set (pgCallbacks s) \<or> pcNextAttemptAt r = pgTs (peerClock P w' + retryBackoff (pcAttempts row))"
proof -
  have ok: "pgUp s" "callbacksOk (pgCallbacks s)" using assms(1) by (simp_all add: callbackState_def)
  obtain a b where ab: "pgCallbacks s = a @ row # b" "\<forall>r \<in> set a \<union> set b. pcID r \<noteq> pcID row"
    using split_id [OF _ assms(2)] ok(2) by (auto simp: callbacksOk_def)
  have row: "callbackRowOk row" "0 \<le> pcAttempts row" "pcAttempts row < maxRetry"
    using ok(2) assms(3) ab(1) by (auto simp: callbacksOk_def)
  show "callbackState s'"
    by (rule deliver_cases [OF ok(1) assms(4) ab]) (use ok row ab in \<open>auto simp: callbackState_def callbacksOk_def pgUp_def callbackRowOk_def\<close>)
  show "queueWork s' < queueWork s"
    by (rule deliver_cases [OF ok(1) assms(4) ab]) (use row ab assms(3) in \<open>auto simp: queueWork_def attemptsLeft_def\<close>)
  show "r \<in> set (pgCallbacks s) \<Longrightarrow> pcID r \<noteq> pcID row \<Longrightarrow> r \<in> set (pgCallbacks s')"
    by (rule deliver_cases [OF ok(1) assms(4) ab]) (use ab in auto)
  show "r \<in> set (pgCallbacks s') \<Longrightarrow> pcStatus r = ''pending'' \<Longrightarrow>
       r \<in> set (pgCallbacks s) \<or> pcNextAttemptAt r = pgTs (peerClock P w' + retryBackoff (pcAttempts row))"
    by (rule deliver_cases [OF ok(1) assms(4) ab]) (use ab in auto)
qed

section \<open>Draining the queue\<close>

text \<open>What is assumed of the world: its clock does not run backwards, and a sleep takes its time.\<close>

definition steadyPeer :: "'w peer \<Rightarrow> bool" where
  "steadyPeer P \<longleftrightarrow> (\<forall>x w. peerClock P w \<le> peerClock P (fst (peerPost P x w)))
     \<and> (\<forall>d w. 0 \<le> d \<longrightarrow> peerClock P w + d \<le> peerClock P (peerSleep P d w))"

definition dueBy :: "time \<Rightarrow> pg_state \<Rightarrow> bool" where
  "dueBy t s \<longleftrightarrow> list_all (\<lambda>r. pcStatus r = ''pending'' \<longrightarrow> pcNextAttemptAt r \<le> t) (pgCallbacks s)"

lemma retryBackoff_bounds:
  assumes "0 \<le> n" "n + 1 < maxRetry"
  shows "2 * nsSecond \<le> retryBackoff n" "retryBackoff n \<le> 10 * nsMinute"
proof -
  have n: "nat (n + 1) \<le> 23" "1 \<le> nat (n + 1)" using assms by (simp_all add: maxRetry_def)
  have p: "(2 :: int) ^ nat (n + 1) \<le> 2 ^ 23" "(2 :: int) ^ 1 \<le> 2 ^ nat (n + 1)"
    by (rule power_increasing [OF n(1)], simp) (rule power_increasing [OF n(2)], simp)
  have "shiftOne (n + 1) = 2 ^ nat (n + 1)" using p assms(1) by (simp add: shiftOne_def in64_def)
  moreover have "wrap64 (2 ^ nat (n + 1) * nsSecond) = 2 ^ nat (n + 1) * nsSecond"
    using p by (simp add: in64_def nsSecond_def)
  ultimately show "2 * nsSecond \<le> retryBackoff n" "retryBackoff n \<le> 10 * nsMinute"
    using p by (auto simp: retryBackoff_def Let_def nsSecond_def nsMinute_def)
qed

lemma post_clock: "steadyPeer P \<Longrightarrow> PostUsageDebit P cb x w = (w', r) \<Longrightarrow> peerClock P w \<le> peerClock P w'"
  by (auto simp: PostUsageDebit_def steadyPeer_def split: if_splits prod.splits sum.splits) (metis fst_conv)+

lemma deliver_clock: "steadyPeer P \<Longrightarrow> deliver P cb row (s, w) = (s', w') \<Longrightarrow> peerClock P w \<le> peerClock P w'"
  by (auto simp: deliver_def Let_def split: if_splits prod.splits sum.splits dest: post_clock)

lemma pgTs_le: "pgTs t \<le> t"
  by (simp add: pgTs_def minus_mod_eq_div_mult [symmetric])

lemma deliver_due:
  assumes "steadyPeer P" "callbackState s" "row \<in> set (pgCallbacks s)" "pcStatus row = ''pending''" "deliver P cb row (s, w) = (s', w')"
    and "dueBy (peerClock P w + 10 * nsMinute) s"
  shows "dueBy (peerClock P w' + 10 * nsMinute) s'"
  unfolding dueBy_def list_all_iff
proof (intro ballI impI)
  fix r assume r: "r \<in> set (pgCallbacks s')" "pcStatus r = ''pending''"
  have row: "0 \<le> pcAttempts row" using assms(2,3) by (auto simp: callbackState_def callbacksOk_def list_all_iff)
  consider "r \<in> set (pgCallbacks s)" | "pcNextAttemptAt r = pgTs (peerClock P w' + retryBackoff (pcAttempts row))"
    using deliver_row(4) [OF assms(2-5) r] by blast
  then show "pcNextAttemptAt r \<le> peerClock P w' + 10 * nsMinute"
  proof cases
    case 1
    then show ?thesis using assms(6) r(2) deliver_clock [OF assms(1,5)] by (force simp: dueBy_def list_all_iff)
  next
    case 2
    have "retryBackoff (pcAttempts row) \<le> 10 * nsMinute" by (simp add: retryBackoff_def Let_def)
    then show ?thesis using 2 pgTs_le [of "peerClock P w' + retryBackoff (pcAttempts row)"] by linarith
  qed
qed

lemma deliver_batch:
  assumes "steadyPeer P" "callbackState s" "distinct (map pcID rows)" "\<forall>r \<in> set rows. r \<in> set (pgCallbacks s) \<and> pcStatus r = ''pending''"
    and "dueBy (peerClock P w + 10 * nsMinute) s" "fold (deliver P cb) rows (s, w) = (s', w')"
  shows "callbackState s' \<and> queueWork s' + length rows \<le> queueWork s \<and> dueBy (peerClock P w' + 10 * nsMinute) s'
    \<and> peerClock P w \<le> peerClock P w'"
  using assms(2-6)
proof (induction rows arbitrary: s w)
  case Nil
  then show ?case by simp
next
  case (Cons row rows)
  obtain s1 w1 where d: "deliver P cb row (s, w) = (s1, w1)" by (metis surj_pair)
  have row: "row \<in> set (pgCallbacks s)" "pcStatus row = ''pending''" using Cons.prems(3) by auto
  note e = deliver_row [OF Cons.prems(1) row d]
  have rest: "\<forall>r \<in> set rows. r \<in> set (pgCallbacks s1) \<and> pcStatus r = ''pending''"
    using Cons.prems(2,3) e(3) by (auto simp: image_iff)
  have "fold (deliver P cb) rows (s1, w1) = (s', w')" using Cons.prems(5) d by simp
  from Cons.IH [OF e(1) _ rest deliver_due [OF assms(1) Cons.prems(1) row d Cons.prems(4)] this]
  show ?case using Cons.prems(2) e(2) deliver_clock [OF assms(1) d] by auto
qed

lemma dueRows:
  assumes "callbackState s" "ListDuePendingCallbacks now limit s = Inr rows"
  shows "distinct (map pcID rows)" "\<forall>r \<in> set rows. r \<in> set (pgCallbacks s) \<and> pcStatus r = ''pending''"
    "rows = [] \<longleftrightarrow> (\<forall>r \<in> set (pgCallbacks s). pcStatus r = ''pending'' \<longrightarrow> now < pcNextAttemptAt r)"
proof -
  let ?f = "filter (\<lambda>r. pcStatus r = ''pending'' \<and> pcNextAttemptAt r \<le> now) (pgCallbacks s)"
  have rows: "rows = take (nat (if limit \<le> 0 then 50 else limit)) (sort_key pcNextAttemptAt ?f)"
    using assms by (simp add: ListDuePendingCallbacks_def callbackState_def)
  have "distinct (map pcID ?f)" using assms(1) by (simp add: callbackState_def callbacksOk_def distinct_map_filter)
  then have "distinct (map pcID (sort_key pcNextAttemptAt ?f))" by (simp add: distinct_map)
  then show "distinct (map pcID rows)" by (simp add: rows take_map [symmetric])
  show "\<forall>r \<in> set rows. r \<in> set (pgCallbacks s) \<and> pcStatus r = ''pending''"
  proof
    fix r assume "r \<in> set rows"
    then have "r \<in> set (sort_key pcNextAttemptAt ?f)" unfolding rows by (rule in_set_takeD)
    then show "r \<in> set (pgCallbacks s) \<and> pcStatus r = ''pending''" by simp
  qed
  have "rows = [] \<longleftrightarrow> sort_key pcNextAttemptAt ?f = []" unfolding rows by simp
  also have "\<dots> \<longleftrightarrow> ?f = []" by (simp flip: set_empty)
  finally show "rows = [] \<longleftrightarrow> (\<forall>r \<in> set (pgCallbacks s). pcStatus r = ''pending'' \<longrightarrow> now < pcNextAttemptAt r)"
    by (auto simp: filter_empty_conv not_le)
qed

lemma processBatch_step:
  assumes "steadyPeer P" "callbackState s" "dueBy (peerClock P w + 10 * nsMinute) s" "processBatch P cb (s, w) = (s', w')"
  shows "callbackState s'" "dueBy (peerClock P w' + 10 * nsMinute) s'" "peerClock P w \<le> peerClock P w'"
    "queueWork s' < queueWork s \<or> (s' = s \<and> w' = w \<and> (\<forall>r \<in> set (pgCallbacks s). pcStatus r = ''pending'' \<longrightarrow> peerClock P w < pcNextAttemptAt r))"
proof -
  obtain rows where l: "ListDuePendingCallbacks (peerClock P w) workerBatch s = Inr rows"
    using assms(2) by (simp add: ListDuePendingCallbacks_def callbackState_def)
  note d = dueRows [OF assms(2) l]
  have f: "fold (deliver P cb) rows (s, w) = (s', w')" using assms(4) l by (simp add: processBatch_def)
  note b = deliver_batch [OF assms(1,2) d(1,2) assms(3) f]
  show "callbackState s'" "dueBy (peerClock P w' + 10 * nsMinute) s'" "peerClock P w \<le> peerClock P w'" using b by simp_all
  show "queueWork s' < queueWork s \<or> (s' = s \<and> w' = w \<and> (\<forall>r \<in> set (pgCallbacks s). pcStatus r = ''pending'' \<longrightarrow> peerClock P w < pcNextAttemptAt r))"
  proof (cases "rows = []")
    case True
    then show ?thesis using d(3) f by simp
  next
    case False
    then have "0 < length rows" by simp
    then show ?thesis using b by linarith
  qed
qed

lemma sleep_clock: "steadyPeer P \<Longrightarrow> 0 \<le> d \<Longrightarrow> peerClock P w + d \<le> peerClock P (peerSleep P d w)"
  by (simp add: steadyPeer_def)

lemma dueBy_mono: "dueBy t s \<Longrightarrow> t \<le> t' \<Longrightarrow> dueBy t' s"
  by (auto simp: dueBy_def list_all_iff)

lemma workerTick_nonneg: "0 \<le> workerTick"
  by (simp add: workerTick_def nsSecond_def)

text \<open>Either the ticks used up an attempt, or nothing was due during any of them.\<close>

lemma idle_or_progress:
  assumes "steadyPeer P" "callbackState s" "dueBy (peerClock P w + 10 * nsMinute) s" "runTicks P cb n (s, w) = (s', w')"
  shows "callbackState s' \<and> dueBy (peerClock P w' + 10 * nsMinute) s' \<and> queueWork s' \<le> queueWork s
    \<and> (queueWork s' < queueWork s \<or> s' = s \<and> (0 < n \<longrightarrow>
         (\<forall>r \<in> set (pgCallbacks s). pcStatus r = ''pending'' \<longrightarrow> peerClock P w + int n * workerTick < pcNextAttemptAt r)))"
  using assms(2-4)
proof (induction n arbitrary: s w)
  case 0
  then show ?case by simp
next
  case (Suc n)
  define w1 where "w1 = peerSleep P workerTick w"
  have w1: "peerClock P w + workerTick \<le> peerClock P w1"
    unfolding w1_def by (rule sleep_clock [OF assms(1) workerTick_nonneg])
  obtain s2 w2 where b: "processBatch P cb (s, w1) = (s2, w2)" by (metis surj_pair)
  have run: "runTicks P cb n (s2, w2) = (s', w')" using Suc.prems(3) b by (simp add: w1_def)
  have due: "dueBy (peerClock P w1 + 10 * nsMinute) s"
    using w1 workerTick_nonneg by (intro dueBy_mono [OF Suc.prems(2)]) simp
  note step = processBatch_step [OF assms(1) Suc.prems(1) due b]
  note ih = Suc.IH [OF step(1,2) run]
  show ?case
  proof (cases "queueWork s2 < queueWork s")
    case True
    then show ?thesis using ih by auto
  next
    case False
    then have idle: "s2 = s" "w2 = w1" "\<forall>r \<in> set (pgCallbacks s). pcStatus r = ''pending'' \<longrightarrow> peerClock P w1 < pcNextAttemptAt r"
      using step(4) by blast+
    have "peerClock P w + int (Suc n) * workerTick < pcNextAttemptAt r"
      if "r \<in> set (pgCallbacks s)" "pcStatus r = ''pending''" "s' = s" "\<not> queueWork s' < queueWork s" for r
    proof -
      have "peerClock P w1 + int n * workerTick < pcNextAttemptAt r"
        using ih idle that by (cases "0 < n") auto
      then show ?thesis using w1 by (simp add: algebra_simps)
    qed
    then show ?thesis using ih idle by auto
  qed
qed

definition noPending :: "pg_state \<Rightarrow> bool" where
  "noPending s \<longleftrightarrow> list_all (\<lambda>r. pcStatus r \<noteq> ''pending'') (pgCallbacks s)"

lemma queueWork_0:
  assumes "callbackState s"
  shows "queueWork s = 0 \<longleftrightarrow> noPending s"
proof -
  have "attemptsLeft r = 0 \<longleftrightarrow> pcStatus r \<noteq> ''pending''" if "r \<in> set (pgCallbacks s)" for r
    using assms that by (auto simp: callbackState_def callbacksOk_def list_all_iff attemptsLeft_def)
  then show ?thesis by (simp add: queueWork_def sum_list_eq_0_iff noPending_def list_all_iff)
qed

lemma runTicks_add: "runTicks P cb (m + n) sw = runTicks P cb n (runTicks P cb m sw)"
  by (induction m arbitrary: sw) simp_all

lemma twenty_ticks:
  assumes "steadyPeer P" "callbackState s" "dueBy (peerClock P w + 10 * nsMinute) s" "runTicks P cb 20 (s, w) = (s', w')"
  shows "queueWork s' \<le> queueWork s - 1"
proof (cases "noPending s")
  case True
  then show ?thesis using idle_or_progress [OF assms] queueWork_0 [OF assms(2)] by simp
next
  case False
  then obtain r where "r \<in> set (pgCallbacks s)" "pcStatus r = ''pending''" by (auto simp: noPending_def list_all_iff)
  moreover from this have "pcNextAttemptAt r \<le> peerClock P w + 10 * nsMinute" using assms(3) by (simp add: dueBy_def list_all_iff)
  ultimately have "queueWork s' < queueWork s"
    using idle_or_progress [OF assms] by (force simp: workerTick_def nsMinute_def)
  then show ?thesis by simp
qed

lemma drain:
  assumes "steadyPeer P" "callbackState s" "dueBy (peerClock P w + 10 * nsMinute) s" "queueWork s \<le> k"
  shows "noPending (fst (runTicks P cb (20 * k) (s, w)))"
  using assms(2-4)
proof (induction k arbitrary: s w)
  case 0
  then show ?case by (simp add: queueWork_0)
next
  case (Suc k)
  obtain s1 w1 where r: "runTicks P cb 20 (s, w) = (s1, w1)" by (metis surj_pair)
  have "20 * Suc k = 20 + 20 * k" by simp
  then have "runTicks P cb (20 * Suc k) (s, w) = runTicks P cb (20 * k) (s1, w1)" by (metis runTicks_add r)
  moreover have "queueWork s1 \<le> k" using twenty_ticks [OF assms(1) Suc.prems(1,2) r] Suc.prems(3) by simp
  ultimately show ?case
    using Suc.IH idle_or_progress [OF assms(1) Suc.prems(1,2) r] by simp
qed

section \<open>Nothing is lost\<close>

text \<open>The same notification, whatever its bookkeeping.\<close>

definition sameNotice :: "PendingCallback \<Rightarrow> PendingCallback \<Rightarrow> bool" where
  "sameNotice r r' \<longleftrightarrow> pcID r' = pcID r \<and> callbackPayload r' = callbackPayload r"

definition acked :: "'w peer \<Rightarrow> GenfityCallback option \<Rightarrow> UsageDebitPayload \<Rightarrow> bool" where
  "acked P cb payload \<longleftrightarrow> (\<exists>w w'. PostUsageDebit P cb payload w = (w', Inr ()))"

definition keepsNotices :: "'w peer \<Rightarrow> GenfityCallback option \<Rightarrow> pg_state \<Rightarrow> pg_state \<Rightarrow> bool" where
  "keepsNotices P cb s s' \<longleftrightarrow> (\<forall>r \<in> set (pgCallbacks s). (\<exists>r' \<in> set (pgCallbacks s'). sameNotice r r') \<or> acked P cb (callbackPayload r))"

lemma keepsNotices_refl: "keepsNotices P cb s s"
  by (auto simp: keepsNotices_def sameNotice_def)

lemma keepsNotices_trans: "keepsNotices P cb s1 s2 \<Longrightarrow> keepsNotices P cb s2 s3 \<Longrightarrow> keepsNotices P cb s1 s3"
  unfolding keepsNotices_def sameNotice_def by metis

lemma deliver_keeps:
  assumes "callbackState s" "row \<in> set (pgCallbacks s)" "deliver P cb row (s, w) = (s', w')"
  shows "keepsNotices P cb s s'"
proof -
  have ok: "pgUp s" "callbacksOk (pgCallbacks s)" using assms(1) by (simp_all add: callbackState_def)
  obtain a b where ab: "pgCallbacks s = a @ row # b" "\<forall>r \<in> set a \<union> set b. pcID r \<noteq> pcID row"
    using split_id [OF _ assms(2)] ok(2) by (auto simp: callbacksOk_def)
  show ?thesis
    by (rule deliver_cases [OF ok(1) assms(3) ab])
      (use ab in \<open>auto simp: keepsNotices_def sameNotice_def acked_def callbackPayload_def\<close>)
qed

lemma batch_keeps:
  assumes "callbackState s" "distinct (map pcID rows)" "\<forall>r \<in> set rows. r \<in> set (pgCallbacks s) \<and> pcStatus r = ''pending''"
    and "fold (deliver P cb) rows (s, w) = (s', w')"
  shows "callbackState s' \<and> keepsNotices P cb s s'"
  using assms
proof (induction rows arbitrary: s w)
  case Nil
  then show ?case by (simp add: keepsNotices_refl)
next
  case (Cons row rows)
  obtain s1 w1 where d: "deliver P cb row (s, w) = (s1, w1)" by (metis surj_pair)
  have row: "row \<in> set (pgCallbacks s)" "pcStatus row = ''pending''" using Cons.prems(3) by auto
  note e = deliver_row [OF Cons.prems(1) row d]
  have rest: "\<forall>r \<in> set rows. r \<in> set (pgCallbacks s1) \<and> pcStatus r = ''pending''"
    using Cons.prems(2,3) e(3) by (auto simp: image_iff)
  have "fold (deliver P cb) rows (s1, w1) = (s', w')" using Cons.prems(4) d by simp
  from Cons.IH [OF e(1) _ rest this] show ?case
    using Cons.prems(2) keepsNotices_trans [OF deliver_keeps [OF Cons.prems(1) row(1) d]] by auto
qed

lemma processBatch_keeps:
  assumes "callbackState s" "processBatch P cb (s, w) = (s', w')"
  shows "callbackState s' \<and> keepsNotices P cb s s'"
proof -
  obtain rows where l: "ListDuePendingCallbacks (peerClock P w) workerBatch s = Inr rows"
    using assms(1) by (simp add: ListDuePendingCallbacks_def callbackState_def)
  show ?thesis
    by (rule batch_keeps [OF assms(1) dueRows(1,2) [OF assms(1) l]]) (use assms(2) l in \<open>simp add: processBatch_def\<close>)
qed

lemma runTicks_keeps: "callbackState s \<Longrightarrow> callbackState (fst (runTicks P cb n (s, w))) \<and> keepsNotices P cb s (fst (runTicks P cb n (s, w)))"
proof (induction n arbitrary: s w)
  case 0
  then show ?case by (simp add: keepsNotices_refl)
next
  case (Suc n)
  obtain s1 w1 where b: "processBatch P cb (s, peerSleep P workerTick w) = (s1, w1)" by (metis surj_pair)
  have "callbackState s1 \<and> keepsNotices P cb s s1" by (rule processBatch_keeps [OF Suc.prems b])
  then show ?case using Suc.IH [of s1 w1] b keepsNotices_trans [of P cb s s1] by simp
qed

text \<open>
  C10.  Whatever the billing application answers, the queue drains: with the database up and the clock
  running, after twenty ticks for each attempt that is left no notification is pending any more.
\<close>

theorem callback_queue_drains:
  assumes "steadyPeer P" "Enabled cb" "callbackState s" "dueBy (peerClock P w + 10 * nsMinute) s" "queueWork s \<le> k"
  shows "noPending (fst (Run P cb (20 * k) (s, w)))"
proof -
  obtain s1 w1 where b: "processBatch P cb (s, w) = (s1, w1)" by (metis surj_pair)
  note st = processBatch_step [OF assms(1,3,4) b]
  have "queueWork s1 \<le> k" using st(4) assms(5) by auto
  then show ?thesis using drain [OF assms(1) st(1,2)] assms(2) b by (simp add: Run_def)
qed


section \<open>From the request to the queue\<close>

lemma postAttempts_acked: "postAttempts P cb payload n w = (w', Inr u) \<Longrightarrow> acked P cb payload"
  by (induction n arbitrary: w) (auto simp: acked_def split: prod.splits sum.splits)

lemma amount_stored:
  assumes "isFinite a"
  shows "\<exists>t. numericTextPtr n (if flt fzero a then Some (sprintfF n a) else None) = Some t"
proof (cases a)
  case (Fin q)
  then show ?thesis
    by (auto simp: numericTextPtr_def numericText_def fixedText_def parseDecimal_fixedNat)
qed (use assms in auto)

lemma filter_distinct_key:
  assumes "distinct (map f xs)" "x \<in> set xs"
  shows "filter (\<lambda>y. f y = f x) xs = [x]"
proof -
  obtain a b where ab: "xs = a @ x # b" using assms(2) by (metis split_list)
  then have "f x \<notin> f ` set a" "f x \<notin> f ` set b" using assms(1) by auto
  then have "filter (\<lambda>y. f y = f x) a = []" "filter (\<lambda>y. f y = f x) b = []"
    by (simp_all add: filter_empty_conv) (metis imageI)+
  then show ?thesis using ab by simp
qed

definition noticeFor :: "UsageDebitPayload \<Rightarrow> PendingCallback \<Rightarrow> bool" where
  "noticeFor p r \<longleftrightarrow> pcRequestID r = udRequestID p \<and> pcBillingMode r = udBillingMode p"

text \<open>
  A debit posted from a request is not lost and not queued twice: after its attempts it has been
  acknowledged, or the queue holds exactly one row for its request and billing mode; a row that was already
  there, with its attempts and its back-off, is left alone.
\<close>

theorem debit_posted_or_queued:
  assumes "callbackState s" "Enabled cb" "gcQueue (the cb)" "fresh \<notin> pcID ` set (pgCallbacks s)"
    and "udBillingMode p = ''credit_package'' \<or> udBillingMode p = ''payg_topup''" "isFinite (udAmountCredits p)" "isFinite (udAmountUSD p)"
    and "PostUsageDebitAsync P cb fresh p (s, w) = (s', w')"
  shows "callbackState s' \<and> (\<exists>rows. pgCallbacks s' = pgCallbacks s @ rows)
    \<and> (acked P cb p \<or> length (filter (noticeFor p) (pgCallbacks s')) = 1)"
proof -
  have ok: "pgUp s" "callbacksOk (pgCallbacks s)" using assms(1) by (simp_all add: callbackState_def)
  obtain w1 x where post: "postAttempts P cb p (usageDebitCallbackAttempts - 1) w = (w1, x)" by (metis surj_pair)
  show ?thesis
  proof (cases x)
    case (Inr u)
    then show ?thesis using post assms(1,2,8) postAttempts_acked by (fastforce simp: PostUsageDebitAsync_def)
  next
    case (Inl e)
    obtain ac au where amt: "numericTextPtr 4 (pcAmountCredits (callbackItem p)) = Some ac" "numericTextPtr 6 (pcAmountUSD (callbackItem p)) = Some au"
      using amount_stored [OF assms(6), of 4] amount_stored [OF assms(7), of 6] by (auto simp: callbackItem_def)
    have key: "pcRequestID (callbackItem p) = udRequestID p" "pcBillingMode (callbackItem p) = udBillingMode p" by (simp_all add: callbackItem_def)
    have s': "s' = fst (EnqueuePendingCallback fresh (peerClock P w1) (callbackItem p) s)"
      using post Inl assms(2,3,8) by (auto simp: PostUsageDebitAsync_def)
    define row where "row = \<lparr>pcID = fresh, pcRequestID = udRequestID p, pcUserID = pcUserID (callbackItem p), pcBillingMode = udBillingMode p,
        pcAmountCredits = ac, pcAmountUSD = au, pcModel = pcModel (callbackItem p), pcNotes = pcNotes (callbackItem p), pcAttempts = 0,
        pcLastError = None, pcLastAttemptAt = None, pcNextAttemptAt = pgTs (peerClock P w1), pcStatus = ''pending'', pcCreatedAt = pgTs (peerClock P w1)\<rparr>"
    have rowOk: "callbackRowOk row" "noticeFor p row" using assms(5) by (simp_all add: callbackRowOk_def noticeFor_def row_def)
    have nofresh: "\<not> list_ex (\<lambda>r. pcID r = fresh) (pgCallbacks s)" using assms(4) by (auto simp: list_ex_iff)
    show ?thesis
    proof (cases "list_ex (noticeFor p) (pgCallbacks s)")
      case True
      then have "s' = s"
        using ok(1) amt rowOk(1) key by (simp add: s' EnqueuePendingCallback_def row_def noticeFor_def [abs_def])
      moreover have "length (filter (noticeFor p) (pgCallbacks s)) = 1"
      proof -
        obtain r where r: "r \<in> set (pgCallbacks s)" "noticeFor p r" using True by (auto simp: list_ex_iff)
        have "filter (\<lambda>y. (pcRequestID y, pcBillingMode y) = (pcRequestID r, pcBillingMode r)) (pgCallbacks s) = [r]"
          using ok(2) r(1) by (intro filter_distinct_key) (simp_all add: callbacksOk_def)
        moreover have "noticeFor p = (\<lambda>y. (pcRequestID y, pcBillingMode y) = (pcRequestID r, pcBillingMode r))"
          using r(2) by (auto simp: noticeFor_def fun_eq_iff)
        ultimately show ?thesis by simp
      qed
      ultimately show ?thesis using assms(1) by simp
    next
      case False
      then have new: "s' = s\<lparr>pgCallbacks := pgCallbacks s @ [row]\<rparr>"
        using ok(1) amt rowOk(1) key nofresh by (simp add: s' EnqueuePendingCallback_def row_def noticeFor_def [abs_def])
      have none: "filter (noticeFor p) (pgCallbacks s) = []" using False by (simp add: list_ex_iff filter_empty_conv)
      have "callbacksOk (pgCallbacks s @ [row])"
        using ok(2) assms(4) rowOk False by (auto simp: callbacksOk_def noticeFor_def list_ex_iff row_def maxRetry_def)
      then show ?thesis using new none rowOk(2) ok(1) by (simp add: callbackState_def pgUp_def)
    qed
  qed
qed

section \<open>Examples\<close>

text \<open>An application that never answers, in a world that is its clock.\<close>

definition downPeer :: "time peer" where
  "downPeer = \<lparr>peerPost = (\<lambda>_ w. (w, Inl ''connection refused'')), peerClock = id, peerSleep = (\<lambda>d w. w + d)\<rparr>"

definition sampleCb :: "GenfityCallback option" where
  "sampleCb = Some \<lparr>gcBaseURL = ''http://app'', gcSecret = ''s'', gcQueue = True\<rparr>"

definition sampleDebit :: UsageDebitPayload where
  "sampleDebit = \<lparr>udUserID = ''u'', udRequestID = ''r1'', udBillingMode = ''credit_package'', udAmountCredits = Fin 2,
     udAmountUSD = Fin 0, udModel = ''gpt'', udNotes = ''gateway debit''\<rparr>"

definition sampleNotice :: PendingCallback where
  "sampleNotice = \<lparr>pcID = 4, pcRequestID = ''r0'', pcUserID = ''u'', pcBillingMode = ''payg_topup'', pcAmountCredits = None,
     pcAmountUSD = Some ''0.250000'', pcModel = None, pcNotes = None, pcAttempts = 22, pcLastError = None, pcLastAttemptAt = None,
     pcNextAttemptAt = 0, pcStatus = ''pending'', pcCreatedAt = 0\<rparr>"

definition sampleQueue :: pg_state where
  "sampleQueue = pgEmpty\<lparr>pgCallbacks := [sampleNotice]\<rparr>"

lemma sampleQueue_ok: "callbackState sampleQueue" "dueBy (peerClock downPeer 0 + 10 * nsMinute) sampleQueue" "queueWork sampleQueue = 2"
  by (simp_all add: callbackState_def callbacksOk_def callbackRowOk_def sampleQueue_def sampleNotice_def pgEmpty_def pgUp_def maxRetry_def
      dueBy_def downPeer_def nsMinute_def nsSecond_def queueWork_def attemptsLeft_def)

theorem callback_queue_drains_witness: "noPending (fst (Run downPeer sampleCb 40 (sampleQueue, 0)))"
  using callback_queue_drains [of downPeer sampleCb sampleQueue 0 2] sampleQueue_ok
  by (simp add: steadyPeer_def downPeer_def Enabled_def sampleCb_def)


theorem debit_posted_or_queued_witness:
  "length (filter (noticeFor sampleDebit) (pgCallbacks (fst (PostUsageDebitAsync downPeer sampleCb 9 sampleDebit (sampleQueue, 0))))) = 1"
proof -
  have "\<not> acked downPeer sampleCb p" for p
    by (auto simp: acked_def PostUsageDebit_def downPeer_def Enabled_def sampleCb_def split: if_splits)
  then show ?thesis
    using debit_posted_or_queued [of sampleQueue sampleCb 9 sampleDebit downPeer 0, OF _ _ _ _ _ _ _ surjective_pairing] sampleQueue_ok(1)
    by (simp add: sampleQueue_def sampleNotice_def Enabled_def sampleCb_def sampleDebit_def pgEmpty_def)
qed

text \<open>
  The wait before the next attempt doubles from two seconds and never exceeds ten minutes; the shift
  does not overflow for any number of attempts a pending row can have.
\<close>

theorem retry_backoff_bounded:
  assumes "0 \<le> n" "n + 1 < maxRetry"
  shows "2 * nsSecond \<le> retryBackoff n \<and> retryBackoff n \<le> 10 * nsMinute
    \<and> (n < 8 \<longrightarrow> retryBackoff n = 2 ^ nat (n + 1) * nsSecond)"
proof -
  have "retryBackoff n = 2 ^ nat (n + 1) * nsSecond" if "n < 8"
  proof -
    have "n \<in> {0..7}" using that assms(1) by simp
    then have "n \<in> {0, 1, 2, 3, 4, 5, 6, 7}" by (simp add: atLeastAtMost_iff) presburger
    then show ?thesis by (auto simp: retryBackoff_def shiftOne_def wrap64_def nsSecond_def nsMinute_def Let_def)
  qed
  then show ?thesis using retryBackoff_bounds [OF assms] by simp
qed

theorem retry_backoff_bounded_witness: "retryBackoff 22 \<le> 10 * nsMinute \<and> retryBackoff 3 = 16 * nsSecond"
  using retry_backoff_bounded [of 22] retry_backoff_bounded [of 3] by (simp add: maxRetry_def)

end
