(* ===== verification/Settlement.thy ===== *)
theory Settlement
  imports Reservation Usage Callback
begin

text \<open>
  Settling a request after the upstream call, from \<^verbatim>\<open>gateway_handler.go\<close>: \<^verbatim>\<open>recordUsage\<close> writes the ledger row and
  decides what is charged, \<^verbatim>\<open>recordAndFinalizeRuntime\<close> settles the reservation, notifies the billing application
  and drops the cached entitlement.  The lemmas show that the ledger, the balance and the notification
  carry the same amount, that the two success tests agree, and what happens to a request whose id is already in the ledger.
\<close>

section \<open>What a response costs\<close>

record usageCost =
  ucInput :: float64
  ucOutput :: float64
  ucTotal :: float64

definition usageCosts :: "AIModelPrice option \<Rightarrow> usageMetrics \<Rightarrow> usageCost" where
  "usageCosts price m = (case price of
       None \<Rightarrow> \<lparr>ucInput = fzero, ucOutput = fzero, ucTotal = fzero\<rparr>
     | Some p \<Rightarrow>
         let nonCached0 = wrap64 (wrap64 (umPromptTokens m - umCacheReadInputTokens m) - umCacheCreationInputTokens m);
             nonCached = (if nonCached0 < 0 then 0 else nonCached0);
             inputPrice = parseFloatPtr (Some (apInputPricePer1M p));
             cachedPrice = (case apCachedPricePer1M p of None \<Rightarrow> inputPrice | Some c \<Rightarrow> parseFloatPtr (Some c));
             inp = fadd (fadd (perMillion nonCached inputPrice) (perMillion (umCacheReadInputTokens m) cachedPrice))
                        (perMillion (umCacheCreationInputTokens m) inputPrice);
             out = perMillion (umCompletionTokens m) (parseFloatPtr (Some (apOutputPricePer1M p)))
         in \<lparr>ucInput = inp, ucOutput = out, ucTotal = fadd inp out\<rparr>)"

text \<open>Success and the error code of the body.\<close>

definition responseOutcome :: "int \<Rightarrow> string \<Rightarrow> bool \<times> string" where
  "responseOutcome statusCode body =
     (let code = (if statusCode < 400 then namespaceUpstreamErrorCode (detectProviderErrorFromBody body)
                  else if statusCode = statusClientClosedRequest then ''client_disconnected'' else [])
      in if statusCode \<ge> 400 \<or> code \<noteq> [] then (False, code)
         else (case classifyCompletionBody body of
                 completionBodyComplete \<Rightarrow> (True, code)
               | completionBodyPartial \<Rightarrow> (False, ''partial_upstream_response'')
               | completionBodyEmpty \<Rightarrow> (False, ''empty_upstream_response'')))"

definition settledCredits :: "runtimeReservation option \<Rightarrow> bool \<Rightarrow> usageMetrics \<Rightarrow> float64" where
  "settledCredits reservation charge m = (case reservation of
       None \<Rightarrow> fzero
     | Some res \<Rightarrow>
         if \<not> charge then fzero
         else
           let price = (if rrBillingMode res = ''credit_package'' then rrCreditPricePer20k res
                        else if rrBillingMode res = ''unlimited'' then rrPlanCreditPricePer20k res else fzero);
               t1 = (if umTotalTokens m \<le> 0 then wrap64 (umPromptTokens m + umCompletionTokens m) else umTotalTokens m);
               t2 = (if t1 \<le> 0 then 1 else t1)
           in if flt fzero price then calculateActualRequestCredits price t2 else fzero)"

section \<open>The ledger row\<close>

definition ledgerGroup :: "APIKey \<Rightarrow> ActiveSubscription option \<Rightarrow> runtimeReservation option \<Rightarrow> string" where
  "ledgerGroup apiKey subscription reservation =
     (let byMode = (case reservation of None \<Rightarrow> [] | Some res \<Rightarrow>
            if rrBillingMode res = ''unlimited'' then ''unlimited_plan''
            else if rrBillingMode res = ''credit_package'' then ''credit_package''
            else if rrBillingMode res = ''payg_topup'' then ''payg_topup'' else []);
          bySub = (case subscription of None \<Rightarrow> [] | Some sub \<Rightarrow> (case asEntitlement sub of None \<Rightarrow> [] | Some ent \<Rightarrow>
            if resolveSubscriptionPricingGroup subscription \<noteq> [] then resolveSubscriptionPricingGroup subscription
            else (case metaObject (ceMetadata ent) of None \<Rightarrow> [] | Some m \<Rightarrow>
                    if jgetStr m ''pricing_group'' \<noteq> [] then jgetStr m ''pricing_group'' else jgetStr m ''pricingGroup'')));
          byKey = (if akBillingSource apiKey = ''payg'' then ''payg_topup''
                   else if akBillingSource apiKey = ''credit'' then ''credit_package''
                   else if akBillingSource apiKey = ''subscription'' then ''unlimited_plan'' else [])
      in if byMode \<noteq> [] then byMode else if bySub \<noteq> [] then bySub else byKey)"

definition ledgerMeta :: "APIKey \<Rightarrow> ActiveSubscription option \<Rightarrow> runtimeReservation option \<Rightarrow> bool \<Rightarrow> bool \<Rightarrow> settlementBillingDecision \<Rightarrow> jobject" where
  "ledgerMeta apiKey subscription reservation providerStarted providerCompleted d =
     (let grp = ledgerGroup apiKey subscription reservation;
          planCode = (case subscription of None \<Rightarrow> [] | Some sub \<Rightarrow> (case asEntitlement sub of None \<Rightarrow> [] | Some ent \<Rightarrow> cePlanCode ent))
      in [(''provider_started'', JBool providerStarted), (''provider_completed'', JBool providerCompleted),
          (''billable'', JBool (sdBillable d)), (''charge_usage'', JBool (sdChargeUsage d)), (''count_request'', JBool (sdCountRequest d)),
          (''billing_reason'', JStr (sdBillingReason d))]
         @ (if grp = [] then [] else
              [(''pricing_group'', JStr grp), (''is_unlimited'', JBool (grp = ''unlimited_plan'' \<or> grp = ''unlimited''))]
              @ (if planCode = [] then [] else [(''plan_code'', JStr planCode)])))"

text \<open>The balance that will be left, for display: read now, less the charge, never below zero.\<close>

definition afterBalance :: "nat \<Rightarrow> string option \<Rightarrow> float64 \<Rightarrow> string option" where
  "afterBalance n current amount = (case current of None \<Rightarrow> None | Some c \<Rightarrow>
     let after = fsub (parseFloatPtr (Some c)) amount in Some (sprintfF n (if flt after fzero then fzero else after)))"

definition balanceAfterCredits :: "time \<Rightarrow> string \<Rightarrow> pg_state \<Rightarrow> float64 \<Rightarrow> string option" where
  "balanceAfterCredits now userID s credits = (if \<not> flt fzero credits then None else
     (case GetCreditEntitlementByUser now userID s of Inl _ \<Rightarrow> None | Inr ent \<Rightarrow> afterBalance 4 (ceCreditBalance ent) credits))"

definition balanceAfterUsd :: "time \<Rightarrow> string \<Rightarrow> pg_state \<Rightarrow> float64 \<Rightarrow> float64 \<Rightarrow> string option" where
  "balanceAfterUsd now userID s reserved totalUSD = (if \<not> flt fzero reserved then None else
     (case GetPaygEntitlementByUser now userID s of Inl _ \<Rightarrow> None
      | Inr ent \<Rightarrow> afterBalance 6 (cePaygUsdBalance ent) (if fle totalUSD fzero then reserved else totalUSD)))"

definition wrap32 :: "int \<Rightarrow> int" where
  "wrap32 x = (x + 2 ^ 31) mod 2 ^ 32 - 2 ^ 31"

text \<open>
  The identifier of the request: the middleware takes it from the client's header \<^verbatim>\<open>X-Request-ID\<close> and only makes
  one when the header is blank or long; the ledger row takes it from the request context.
\<close>

definition RequestID :: "string \<Rightarrow> string \<Rightarrow> string" where
  "RequestID header newID =
     (let requestID = trimSpace header in if requestID = [] \<or> length requestID > 128 then newID else requestID)"

definition requestIDForContext :: "string \<Rightarrow> string \<Rightarrow> string" where
  "requestIDForContext contextID newID = (if trimSpace contextID \<noteq> [] then trimSpace contextID else newID)"

text \<open>The arguments of one settlement: the request as the handler knows it and the fresh identifiers it draws.\<close>

record settledRequest =
  srKey :: APIKey
  srSub :: "ActiveSubscription option"
  srModel :: AIModel
  srRoute :: AIModelRoute
  srStarted :: time
  srStatus :: int
  srBody :: string
  srPublicModel :: string
  srProviderStarted :: bool
  srContextID :: string
  srNewID :: string
  srEntryID :: uuid

definition settlementOf :: "settledRequest \<Rightarrow> runtimeReservation option \<Rightarrow> pg_state \<Rightarrow> usageSettlement" where
  "settlementOf q reservation s =
     (let m = parseUsageFromBody (srBody q);
          cost = usageCosts (modelPrice (ListPrices s) (amID (srModel q))) m;
          (success, code) = responseOutcome (srStatus q) (srBody q);
          d = decideSettlementBilling reservation success (srStatus q) (umTotalTokens m) (srProviderStarted q)
      in \<lparr>usPromptTokens = umPromptTokens m, usCompletionTokens = umCompletionTokens m, usTotalTokens = umTotalTokens m,
          usTotalCostUSD = ucTotal cost, usActualCredits = settledCredits reservation (sdChargeUsage d) m, usSuccess = success,
          usProviderStarted = srProviderStarted q, usProviderCompleted = (classifyCompletionBody (srBody q) = completionBodyComplete),
          usBillable = sdBillable d, usChargeUsage = sdChargeUsage d, usCountRequest = sdCountRequest d,
          usBillingReason = sdBillingReason d, usErrorCode = code,
          usRequestID = requestIDForContext (srContextID q) (srNewID q)\<rparr>)"

definition ledgerEntry :: "time \<Rightarrow> settledRequest \<Rightarrow> runtimeReservation option \<Rightarrow> pg_state \<Rightarrow> UsageLedgerEntry" where
  "ledgerEntry finished q reservation s =
     (let m = parseUsageFromBody (srBody q);
          cost = usageCosts (modelPrice (ListPrices s) (amID (srModel q))) m;
          st = settlementOf q reservation s;
          d = decideSettlementBilling reservation (usSuccess st) (srStatus q) (umTotalTokens m) (srProviderStarted q);
          u = akGenfityUserID (srKey q); charged = (reservation \<noteq> None \<and> usChargeUsage st); credits = usActualCredits st
      in \<lparr>ueID = srEntryID q, ueRequestID = usRequestID st, ueGenfityUserID = u, ueGenfityTenantID = akGenfityTenantID (srKey q),
          ueAPIKeyID = Some (akID (srKey q)), uePublicModel = srPublicModel q, ueRouterModel = Some (arRouterModel (srRoute q)),
          ueRouterInstanceCode = Some (arRouterInstanceCode (srRoute q)), uePromptTokens = umPromptTokens m,
          ueCompletionTokens = umCompletionTokens m, ueTotalTokens = umTotalTokens m, ueCachedTokens = umCachedTokens m,
          ueCacheReadInputTokens = umCacheReadInputTokens m, ueCacheCreationInputTokens = umCacheCreationInputTokens m,
          ueReasoningTokens = umReasoningTokens m, ueInputCost = formatAmount (ucInput cost), ueOutputCost = formatAmount (ucOutput cost),
          ueTotalCost = formatAmount (ucTotal cost),
          ueBillingMode = (case reservation of None \<Rightarrow> None | Some res \<Rightarrow> if rrBillingMode res = [] then None else Some (rrBillingMode res)),
          ueAmountCredits = (if charged \<and> flt fzero credits then Some (sprintfF 4 credits) else None),
          ueBalanceAfterCredits = (if charged then balanceAfterCredits finished u s credits else None),
          ueBalanceAfterUsd = (case reservation of None \<Rightarrow> None
             | Some res \<Rightarrow> if usChargeUsage st then balanceAfterUsd finished u s (rrPaygUSD res) (ucTotal cost) else None),
          ueStatus = (if usSuccess st then ''success'' else ''failed''),
          ueErrorCode = (if usErrorCode st \<noteq> [] then Some (usErrorCode st)
                         else if srStatus q \<ge> 400 then Some (''http_'' @ itoa (srStatus q)) else None),
          ueLatencyMS = Some (wrap32 (milliseconds (finished - srStarted q))), ueStartedAt = srStarted q, ueFinishedAt = Some finished,
          ueMetadata = Some (JObj (ledgerMeta (srKey q) (srSub q) reservation (srProviderStarted q) (usProviderCompleted st) d))\<rparr>)"

definition recordUsage :: "time \<Rightarrow> settledRequest \<Rightarrow> runtimeReservation option \<Rightarrow> pg_state \<Rightarrow> pg_state \<times> usageSettlement result" where
  "recordUsage finished q reservation s = (case AppendUsage finished (ledgerEntry finished q reservation s) s of
       (s1, Inl e) \<Rightarrow> (s1, Inl e)
     | (s1, Inr _) \<Rightarrow> (s1, Inr (settlementOf q reservation s)))"

text \<open>The row of a request refused before the upstream call; a failure to write it is only logged.\<close>

definition recordFailedRequestWithMetadata :: "time \<Rightarrow> APIKey \<Rightarrow> string \<Rightarrow> string \<Rightarrow> time \<Rightarrow> jobject \<Rightarrow> string \<Rightarrow> string \<Rightarrow> uuid
    \<Rightarrow> pg_state \<Rightarrow> pg_state" where
  "recordFailedRequestWithMetadata finished apiKey publicModel errorCode started metadata contextID newID entryID s =
     fst (AppendUsage finished
       \<lparr>ueID = entryID, ueRequestID = requestIDForContext contextID newID, ueGenfityUserID = akGenfityUserID apiKey,
        ueGenfityTenantID = akGenfityTenantID apiKey, ueAPIKeyID = Some (akID apiKey), uePublicModel = publicModel,
        ueRouterModel = None, ueRouterInstanceCode = None, uePromptTokens = 0, ueCompletionTokens = 0, ueTotalTokens = 0,
        ueCachedTokens = 0, ueCacheReadInputTokens = 0, ueCacheCreationInputTokens = 0, ueReasoningTokens = 0,
        ueInputCost = ''0'', ueOutputCost = ''0'', ueTotalCost = ''0'', ueBillingMode = None, ueAmountCredits = None,
        ueBalanceAfterCredits = None, ueBalanceAfterUsd = None, ueStatus = ''failed'', ueErrorCode = Some errorCode,
        ueLatencyMS = Some (wrap32 (milliseconds (finished - started))), ueStartedAt = started, ueFinishedAt = Some finished,
        ueMetadata = (if metadata = [] then None else Some (JObj metadata))\<rparr> s)"

definition recordFailedRequest :: "time \<Rightarrow> APIKey \<Rightarrow> string \<Rightarrow> string \<Rightarrow> time \<Rightarrow> string \<Rightarrow> string \<Rightarrow> uuid \<Rightarrow> pg_state \<Rightarrow> pg_state" where
  "recordFailedRequest finished apiKey publicModel errorCode started contextID newID entryID =
     recordFailedRequestWithMetadata finished apiKey publicModel errorCode started [] contextID newID entryID"

text \<open>The test the handlers use to keep or roll back the counters taken before the call.\<close>

definition shouldCountSettlementRequest :: "runtimeReservation \<Rightarrow> int \<Rightarrow> string \<Rightarrow> bool \<Rightarrow> bool" where
  "shouldCountSettlementRequest reservation statusCode body providerStarted =
     sdCountRequest (decideSettlementBilling (Some reservation) (shouldCountAsSuccess statusCode body) statusCode
       (umTotalTokens (parseUsageFromBody body)) providerStarted)"

section \<open>Recording and finalising\<close>

text \<open>The notifications a settled request posts.\<close>

definition usageDebits :: "GenfityCallback option \<Rightarrow> settledRequest \<Rightarrow> runtimeReservation \<Rightarrow> usageSettlement \<Rightarrow> UsageDebitPayload list" where
  "usageDebits cb q res settle =
     (let base = \<lparr>udUserID = akGenfityUserID (srKey q), udRequestID = usRequestID settle, udBillingMode = rrBillingMode res,
            udAmountCredits = fzero, udAmountUSD = fzero, udModel = srPublicModel q, udNotes = ''gateway debit''\<rparr>
      in if \<not> usChargeUsage settle \<or> \<not> Enabled cb then []
         else if rrBillingMode res = ''credit_package'' then
           (if flt fzero (usActualCredits settle) then [base\<lparr>udAmountCredits := usActualCredits settle\<rparr>] else [])
         else if rrBillingMode res = ''payg_topup'' then
           (if flt fzero (usTotalCostUSD settle) then [base\<lparr>udAmountUSD := usTotalCostUSD settle\<rparr>] else [])
         else [])"

text \<open>The state, the result and the notifications handed to \<^verbatim>\<open>PostUsageDebitAsync\<close>.\<close>

definition recordAndFinalizeRuntime :: "'r gatewayHandler \<Rightarrow> GenfityCallback option \<Rightarrow> time \<Rightarrow> settledRequest \<Rightarrow> runtimeReservation
    \<Rightarrow> 'r gwState \<Rightarrow> 'r gwState \<times> usageSettlement result \<times> UsageDebitPayload list" where
  "recordAndFinalizeRuntime h cb now q res st =
     (case onPg (recordUsage now q (Some res)) st of
        (st1, Inl e) \<Rightarrow> (fst (finalizeRuntimeReservation h now (srKey q) res zeroSettlement st1), Inl e, [])
      | (st1, Inr settle) \<Rightarrow>
          (case finalizeRuntimeReservation h now (srKey q) res settle st1 of
             (st2, Inl e) \<Rightarrow> (st2, Inl e, [])
           | (st2, Inr _) \<Rightarrow>
               ((if flt fzero (rrRequestCredits res) \<or> flt fzero (rrPaygUSD res) \<or> flt fzero (rrCreditUSD res)
                 then InvalidateUser (ghEnt h) (akGenfityUserID (srKey q)) st2 else st2),
                Inr settle, usageDebits cb q res settle)))"

definition recordAndFinalizeClientDisconnect :: "'r gatewayHandler \<Rightarrow> time \<Rightarrow> settledRequest \<Rightarrow> runtimeReservation
    \<Rightarrow> 'r gwState \<Rightarrow> 'r gwState \<times> unit result" where
  "recordAndFinalizeClientDisconnect h now q res st =
     (case onPg (recordUsage now (q\<lparr>srStatus := statusClientClosedRequest, srBody := [], srProviderStarted := False\<rparr>) (Some res)) st of
        (st1, Inl e) \<Rightarrow> (fst (finalizeRuntimeReservation h now (srKey q) res zeroSettlement st1), Inl e)
      | (st1, Inr settle) \<Rightarrow> finalizeRuntimeReservation h now (srKey q) res settle st1)"

text \<open>The path of the endpoints that reserve nothing.\<close>

definition recordUsageWithLegacyBilling :: "'r gatewayHandler \<Rightarrow> time \<Rightarrow> settledRequest \<Rightarrow> pg_state \<Rightarrow> pg_state" where
  "recordUsageWithLegacyBilling h now q0 s =
     (let q = q0\<lparr>srProviderStarted := 200 \<le> srStatus q0 \<and> srStatus q0 < 300\<rparr>; u = akGenfityUserID (srKey q) in
      case recordUsage now q None s of
        (s1, Inl _) \<Rightarrow> s1
      | (s1, Inr settle) \<Rightarrow>
          (case (case srSub q of None \<Rightarrow> None | Some sub \<Rightarrow> asEntitlement sub) of
             None \<Rightarrow> s1
           | Some ent \<Rightarrow>
               let (periodStart, periodEnd) = activePeriod now (Some ent);
                   s2 = (if srStatus q < 400 \<and> usTotalTokens settle > 0 \<and> \<not> amIsFree (srModel q)
                         then fst (IncrementQuotaCounter now u (akGenfityTenantID (srKey q)) periodStart periodEnd (usTotalTokens settle) s1) else s1)
               in if srStatus q < 400 \<and> flt fzero (usTotalCostUSD settle) \<and> pricingGroup (srSub q) = ''credit_package''
                  then fst (DebitCreditBalance (ghNum h) now u (cePlanCode ent) (usTotalCostUSD settle) s2) else s2))"

section \<open>The two success tests\<close>

lemma namespace_empty [simp]: "namespaceUpstreamErrorCode code = [] \<longleftrightarrow> code = []"
  by (auto simp: namespaceUpstreamErrorCode_def hasPrefix_def)

lemma responseOutcome_success:
  "fst (responseOutcome statusCode body) \<longleftrightarrow>
     statusCode < 400 \<and> detectProviderErrorFromBody body = [] \<and> classifyCompletionBody body = completionBodyComplete"
  by (auto simp: responseOutcome_def Let_def statusClientClosedRequest_def split: completionBodyState.splits)

lemma usCount_settlementOf:
  "usCountRequest (settlementOf q reservation s) = sdCountRequest (decideSettlementBilling reservation
     (fst (responseOutcome (srStatus q) (srBody q))) (srStatus q) (umTotalTokens (parseUsageFromBody (srBody q))) (srProviderStarted q))"
  by (simp add: settlementOf_def Let_def split: prod.split)


section \<open>The ledger, the balance and the notification\<close>

lemma usageRow_keeps:
  assumes "usageRow now e = Some row"
  shows "ueRequestID row = ueRequestID e" "numericTextPtr 4 (ueAmountCredits e) = Some (ueAmountCredits row)"
  using assms by (auto simp: usageRow_def split: option.splits)

lemma AppendUsage_Inr:
  assumes "AppendUsage now e s = (s', Inr row)"
  shows "s' = s\<lparr>pgLedger := pgLedger s @ [row]\<rparr> \<and> usageRow now e = Some row \<and> ueRequestID e \<notin> ueRequestID ` set (pgLedger s)"
  using assms usageRow_keeps(1) [of now e]
  by (auto simp: AppendUsage_def pgRun_def ledgerOk_def split: option.splits if_splits)

lemma AppendUsage_Inl: "AppendUsage now e s = (s', Inl err) \<Longrightarrow> s' = s"
  by (auto simp: AppendUsage_def pgRun_def split: option.splits if_splits)

lemma ledgerEntry_cols:
  "ueRequestID (ledgerEntry now q (Some res) s) = usRequestID (settlementOf q (Some res) s)"
  "ueAmountCredits (ledgerEntry now q (Some res) s) =
     (let st = settlementOf q (Some res) s in
      if usChargeUsage st \<and> flt fzero (usActualCredits st) then Some (sprintfF 4 (usActualCredits st)) else None)"
  by (simp_all add: ledgerEntry_def Let_def)

lemma recordUsage_Inr:
  assumes "recordUsage now q (Some res) s = (s', Inr settle)"
  obtains row where "s' = s\<lparr>pgLedger := pgLedger s @ [row]\<rparr>" "settle = settlementOf q (Some res) s" "ueRequestID row = usRequestID settle"
    "usRequestID settle \<notin> ueRequestID ` set (pgLedger s)"
    "numericTextPtr 4 (if usChargeUsage settle \<and> flt fzero (usActualCredits settle) then Some (sprintfF 4 (usActualCredits settle)) else None)
       = Some (ueAmountCredits row)"
proof -
  obtain row where row: "AppendUsage now (ledgerEntry now q (Some res) s) s = (s', Inr row)" and settle: "settle = settlementOf q (Some res) s"
    using assms unfolding recordUsage_def by (auto split: prod.splits sum.splits)
  note out = AppendUsage_Inr [OF row]
  show ?thesis
  proof (rule that [of row])
    show "s' = s\<lparr>pgLedger := pgLedger s @ [row]\<rparr>" using out by (rule conjunct1)
    show "settle = settlementOf q (Some res) s" by (rule settle)
    show "ueRequestID row = usRequestID settle" using out usageRow_keeps(1) [of now _ row] by (metis ledgerEntry_cols(1) settle)
    show "usRequestID settle \<notin> ueRequestID ` set (pgLedger s)" using out by (metis ledgerEntry_cols(1) settle)
    show "numericTextPtr 4 (if usChargeUsage settle \<and> flt fzero (usActualCredits settle) then Some (sprintfF 4 (usActualCredits settle)) else None)
       = Some (ueAmountCredits row)"
      using usageRow_keeps(2) [OF conjunct1 [OF conjunct2 [OF out]]] by (simp only: ledgerEntry_cols Let_def settle)
  qed
qed

lemma pgOk_ledger [simp]: "pgOk (s\<lparr>pgLedger := rows\<rparr>) = pgOk s"
  by (simp add: pgOk_def pgUp_def)

lemma credit_ledger [simp]: "creditAccount u (s\<lparr>pgLedger := rows\<rparr>) = creditAccount u s"
  by (simp add: creditAccount_def)

lemma countable_ledger [simp]: "countable u settle (s\<lparr>pgLedger := rows\<rparr>) = countable u settle s"
  by (simp add: countable_def quotaState_def pgUp_def quotaOf_def)

lemma fst_InvalidateUser [simp]: "fst (InvalidateUser co u st) = fst st"
  by (simp add: InvalidateUser_def split: prod.split)

lemma settledCredits_free [simp]: "settledCredits reservation False m = fzero"
  by (simp add: settledCredits_def split: option.split)

lemma usActual_zero: "\<not> usChargeUsage (settlementOf q reservation s) \<Longrightarrow> usActualCredits (settlementOf q reservation s) = fzero"
  by (simp add: settlementOf_def Let_def split: prod.splits)

lemma execEnts_ledger: "pgLedger (fst (execEnts P f e s)) = pgLedger s"
  by (simp add: execEnts_def pgRun_def split: option.split)

lemma numArg_ledger: "(\<And>x. pgLedger (fst (k x s)) = pgLedger s) \<Longrightarrow> pgLedger (fst (numArg N a k s)) = pgLedger s"
  by (simp add: numArg_def split: option.split)

lemma finalize_ledger: "pgLedger (fst (FinalizeRequestCredits N now u p q s)) = pgLedger s"
  unfolding FinalizeRequestCredits_def Let_def by (auto intro!: numArg_ledger execEnts_ledger)

text \<open>The amount of a row, read back from the text the column returns.\<close>

definition amountOf :: "UsageLedgerEntry \<Rightarrow> rat option" where
  "amountOf e = (case ueAmountCredits e of None \<Rightarrow> None | Some t \<Rightarrow> parseDecimal t)"

lemma amount_back:
  assumes "numericTextPtr 4 (if b then Some (sprintfF 4 (Fin c)) else None) = Some (ueAmountCredits e)"
  shows "amountOf e = (if b then Some (of_int (rndEven (c * 10 ^ 4)) / 10 ^ 4) else None)"
proof -
  have "onGrid 4 (of_int (rndEven (c * 10 ^ 4)) / 10 ^ 4)" unfolding onGrid_iff by blast
  then show ?thesis
    using assms [symmetric] by (simp add: amountOf_def numericTextPtr_def numericText_def parseDecimal_fixedText rndEven_of_int split: if_splits)
qed

lemma credit_debits:
  assumes "rrBillingMode res = ''credit_package''" "Enabled cb" "usActualCredits settle = Fin c"
    and "\<not> usChargeUsage settle \<Longrightarrow> usActualCredits settle = fzero"
  shows "map (\<lambda>d. (udUserID d, udRequestID d, udAmountCredits d)) (usageDebits cb q res settle)
    = (if 0 < c then [(akGenfityUserID (srKey q), usRequestID settle, Fin c)] else [])"
  using assms by (auto simp: usageDebits_def Let_def)

text \<open>
  C3.  Settling a charged request on a credit key is one amount in three places: the ledger gets one
  new row with the request's identifier and the credits (to four decimals), the credit balance
  falls by them and the reservation is released, and the billing application is notified of
  the same credits under the same identifier; a request that costs nothing leaves no
  amount, no debit and no notification.
\<close>

theorem credit_settlement_consistent:
  assumes "pg_numeric (ghNum h)" "akGenfityUserID (srKey q) = u" "pgOk (fst st)" "creditAccount u (fst st) = Some (b, r)"
    and "isGrant ''credit'' (res, 0, [])" "rrPeriodStart res = zeroTime" "rrPeriodEnd res = zeroTime"
    and "rrRequestCredits res = Fin p" "0 < p" "ghNum h (Fin p) = Some v" "Enabled cb"
    and "snd (recordUsage now q (Some res) (fst st)) = Inr settle" "countable u settle (fst st)"
    and "usActualCredits settle = Fin c" "0 \<le> c" "ghNum h (Fin c) = Some w"
  shows "\<exists>st' posts row. recordAndFinalizeRuntime h cb now q res st = (st', Inr settle, posts)
    \<and> pgLedger (fst st') = pgLedger (fst st) @ [row] \<and> ueRequestID row = usRequestID settle
    \<and> amountOf row = (if 0 < c then Some (of_int (rndEven (c * 10 ^ 4)) / 10 ^ 4) else None)
    \<and> creditAccount u (fst st') = Some (toScale 4 (max (b - min w b) 0), toScale 4 (max (r - v) 0))
    \<and> map (\<lambda>d. (udUserID d, udRequestID d, udAmountCredits d)) posts = (if 0 < c then [(u, usRequestID settle, Fin c)] else [])"
proof -
  define s where "s = fst st"
  obtain s1 where rec: "recordUsage now q (Some res) s = (s1, Inr settle)" using assms(12) unfolding s_def by (metis prod.collapse)
  obtain row where row: "s1 = s\<lparr>pgLedger := pgLedger s @ [row]\<rparr>" "settle = settlementOf q (Some res) s" "ueRequestID row = usRequestID settle"
    "numericTextPtr 4 (if usChargeUsage settle \<and> flt fzero (usActualCredits settle) then Some (sprintfF 4 (usActualCredits settle)) else None)
       = Some (ueAmountCredits row)"
    by (rule recordUsage_Inr [OF rec])
  have free: "\<not> usChargeUsage settle \<Longrightarrow> usActualCredits settle = fzero" using usActual_zero row(2) by metis
  have g: "rrBillingMode res = ''credit_package''" "noPlanUse res" "rrPaygUSD res = fzero" "rrCreditUSD res = fzero"
    using assms(5) by (simp_all add: isGrant_def)
  have cc: "chargedCredits settle = Fin c" using free assms(14) by (auto simp: chargedCredits_def)
  have can: "countable (akGenfityUserID (srKey q)) settle s1" using assms(2,13) row(1) s_def by simp
  obtain rows where f: "finalizeRuntimeReservation h now (srKey q) res settle (s1, snd st) =
      onPg (FinalizeRequestCredits (ghNum h) now u (Fin p) (Fin c)) (s1\<lparr>pgQuotas := rows\<rparr>, snd st)"
    by (rule finalize_balances [OF can g(2) assms(6,7) g(4), of h now "snd st"]) (use assms(2,8,9) g(3) cc in simp)
  have ok: "pgOk (s1\<lparr>pgQuotas := rows\<rparr>)" "creditAccount u (s1\<lparr>pgQuotas := rows\<rparr>) = Some (b, r)"
    using assms(3,4) row(1) s_def by simp_all
  obtain s2 where fin: "FinalizeRequestCredits (ghNum h) now u (Fin p) (Fin c) (s1\<lparr>pgQuotas := rows\<rparr>) = (s2, Inr ())"
      and acc: "creditAccount u s2 = Some (toScale 4 (max (b - min w b) 0), toScale 4 (max (r - v) 0))"
    using balance_account.finalize_account [OF credit_account [OF assms(1), of u] ok less_imp_le [OF assms(9)] assms(15,10,16), of now]
    by (metis prod.collapse)
  have led: "pgLedger s2 = pgLedger s @ [row]"
    using finalize_ledger [of "ghNum h" now u "Fin p" "Fin c" "s1\<lparr>pgQuotas := rows\<rparr>"] fin row(1) by simp
  have f2: "finalizeRuntimeReservation h now (srKey q) res settle (s1, snd st) = ((s2, snd st), Inr ())"
    using f fin by (simp add: onPg_eq)
  have "onPg (recordUsage now q (Some res)) st = ((s1, snd st), Inr settle)" using rec s_def by (simp add: onPg_eq)
  then have run: "recordAndFinalizeRuntime h cb now q res st = (InvalidateUser (ghEnt h) u (s2, snd st), Inr settle, usageDebits cb q res settle)"
    using f2 assms(2,8,9) by (simp add: recordAndFinalizeRuntime_def)
  have am: "amountOf row = (if 0 < c then Some (of_int (rndEven (c * 10 ^ 4)) / 10 ^ 4) else None)"
    using amount_back [OF row(4) [unfolded assms(14)]] free assms(14) by auto
  show ?thesis using run led acc row(3) am credit_debits [OF g(1) assms(11,14) free, of q] assms(2) s_def by auto
qed

section \<open>A request identifier that is already in the ledger\<close>

lemma recordUsage_repeated:
  assumes "requestIDForContext (srContextID q) (srNewID q) \<in> ueRequestID ` set (pgLedger s)"
  obtains e where "recordUsage now q (Some res) s = (s, Inl e)"
proof (cases "recordUsage now q (Some res) s")
  case (Pair s1 x)
  show ?thesis
  proof (cases x)
    case (Inl e)
    then show ?thesis using Pair that AppendUsage_Inl [of now "ledgerEntry now q (Some res) s" s s1 e]
      by (auto simp: recordUsage_def split: prod.splits sum.splits)
  next
    case (Inr settle)
    have "usRequestID settle = requestIDForContext (srContextID q) (srNewID q)" "usRequestID settle \<notin> ueRequestID ` set (pgLedger s)"
      by (rule recordUsage_Inr [OF Pair [unfolded Inr]], simp add: settlementOf_def Let_def split: prod.split)+
    then show ?thesis using assms by simp
  qed
qed

text \<open>
  C36.  A client that repeats an \<^verbatim>\<open>X-Request-ID\<close> is not charged: when the ledger already holds the identifier the
  client sent, the settlement of a request on a credit key fails on the ledger's unique column,
  the credits it had reserved are released without a debit, and nothing is posted to the billing
  application, whatever the upstream answered.
\<close>

theorem repeated_request_id_not_charged:
  assumes "pg_numeric (ghNum h)" "akGenfityUserID (srKey q) = u" "pgOk (fst st)" "creditAccount u (fst st) = Some (b, r)"
    and "isGrant ''credit'' (res, 0, [])" "rrRequestCredits res = Fin p" "0 < p" "ghNum h (Fin p) = Some v"
    and "srContextID q = RequestID header fresh" "trimSpace header \<noteq> []" "length (trimSpace header) \<le> 128"
    and "trimSpace header \<in> ueRequestID ` set (pgLedger (fst st))"
  shows "\<exists>st' e. recordAndFinalizeRuntime h cb now q res st = (st', Inl e, [])
    \<and> pgLedger (fst st') = pgLedger (fst st) \<and> creditAccount u (fst st') = Some (b, toScale 4 (max (r - v) 0))"
proof -
  have acct: "balance_account (\<lambda>now. ReserveRequestCredits (ghNum h) now u) (\<lambda>now. FinalizeRequestCredits (ghNum h) now u) (creditAccount u) pgOk (ghNum h) 4"
    by (rule credit_account [OF assms(1)])
  have b: "0 \<le> b" "onGrid 4 b" using balance_account.account_wf [OF acct assms(3,4)] by auto
  have "requestIDForContext (srContextID q) (srNewID q) = trimSpace header"
    using assms(9-11) by (simp add: RequestID_def requestIDForContext_def Let_def trimSpace_idem)
  then obtain e where rec: "recordUsage now q (Some res) (fst st) = (fst st, Inl e)"
    using recordUsage_repeated assms(12) by metis
  have g: "noPlanUse res" "rrPaygUSD res = fzero" "rrCreditUSD res = fzero" using assms(5) by (simp_all add: isGrant_def)
  have fin: "finalizeRuntimeReservation h now (srKey q) res zeroSettlement st = onPg (FinalizeRequestCredits (ghNum h) now u (Fin p) fzero) st"
    using g assms(2,6,7) by (simp add: finalizeRuntimeReservation_def noPlanUse_def zeroSettlement_def Let_def)
  have run: "recordAndFinalizeRuntime h cb now q res st = (fst (onPg (FinalizeRequestCredits (ghNum h) now u (Fin p) fzero) st), Inl e, [])"
    using rec fin by (simp add: recordAndFinalizeRuntime_def onPg_eq)
  have "creditAccount u (fst (FinalizeRequestCredits (ghNum h) now u (Fin p) fzero (fst st))) = Some (b, toScale 4 (max (r - v) 0))"
    using balance_account.finalize_account [OF acct assms(3,4) less_imp_le [OF assms(7)] order_refl assms(8) balance_account.amt_zero [OF acct], of now] b
    by simp
  then show ?thesis using run by (simp add: finalize_ledger)
qed

section \<open>Examples\<close>

definition sampleBody :: string where
  "sampleBody = ''{\"choices\":[{\"message\":{\"content\":\"hi\"},\"finish_reason\":\"stop\"}]}''"

definition sampleRoute :: AIModelRoute where
  "sampleRoute = \<lparr>arID = 2, arModelID = 1, arRouterInstanceCode = ''core'', arRouterModel = ''gpt'', arStatus = ''active'',
     arMetadata = None, arCreatedAt = 0\<rparr>"

definition sampleSettled :: "settledRequest" where
  "sampleSettled = \<lparr>srKey = sampleKey ''credit'', srSub = None, srModel = sampleModel ''gpt'', srRoute = sampleRoute, srStarted = 0,
     srStatus = 200, srBody = sampleBody, srPublicModel = ''gpt'', srProviderStarted = True, srContextID = ''req-1'', srNewID = ''new'', srEntryID = 77\<rparr>"

definition sampleLedger :: "map_redis gwState" where
  "sampleLedger = (samplePg\<lparr>pgKeys := [sampleKey ''credit'']\<rparr>, mrEmpty)"

definition sampleHold :: runtimeReservation where
  "sampleHold = zeroReservation\<lparr>rrBillingMode := ''credit_package'', rrRequestCredits := Fin 2, rrCreditPricePer20k := Fin 2\<rparr>"

lemma sampleBody_read:
  "classifyCompletionBody sampleBody = completionBodyComplete" "detectProviderErrorFromBody sampleBody = []"
  by code_simp+

lemma sampleBody_tokens: "umTotalTokens (parseUsageFromBody sampleBody) = 1"
  by code_simp


lemma sampleCredits: "settledCredits (Some sampleHold) True (parseUsageFromBody sampleBody) = Fin 2"
proof -
  have "creditBillingBuckets 1 = 1" using creditBillingBuckets_exact [of 1] by simp
  moreover have "\<lfloor>40001 / 2 :: rat\<rfloor> = 20000" by (simp add: floor_eq_iff)
  ultimately show ?thesis
    by (simp add: settledCredits_def sampleHold_def sampleBody_tokens calculateActualRequestCredits_def roundCredits_def fOfInt_small fin_numeral
        roundAway_def)
qed

lemma sampleSettled_of:
  "usActualCredits (settlementOf sampleSettled (Some sampleHold) s) = Fin 2" "usChargeUsage (settlementOf sampleSettled (Some sampleHold) s)"
  "usTotalTokens (settlementOf sampleSettled (Some sampleHold) s) = 1" "usCountRequest (settlementOf sampleSettled (Some sampleHold) s)"
  "usRequestID (settlementOf sampleSettled (Some sampleHold) s) = ''req-1''"
  by (simp_all add: settlementOf_def Let_def sampleSettled_def responseOutcome_def sampleBody_read sampleBody_tokens decideSettlementBilling_def
      sampleCredits namespaceUpstreamErrorCode_def requestIDForContext_def trimSpace_def isSpace_def)

lemma parseFloat_fixedText:
  assumes "0 \<le> q" shows "parseFloat (fixedText n q) = (case fin (of_int (rndEven (q * 10 ^ n)) / 10 ^ n) of Fin v \<Rightarrow> Some (Fin v) | _ \<Rightarrow> None)"
proof -
  obtain c r where cr: "fixedText n q = c # r" and d: "isDigit c"
    using fixedNat_hd fixedNat_nonempty assms by (metis fixedText_def list.exhaust not_less)
  have "lowerChar c = c" "c \<noteq> CHR ''n''" "c \<noteq> CHR ''i''" "c \<noteq> CHR ''+''" "c \<noteq> CHR ''-''" using d by (auto simp: isDigit_def lowerChar_def)
  then show ?thesis
    using parseDecimal_fixedText [of n q] unfolding parseFloat_def isInfWord_def toLower_def trimPrefix_def hasPrefix_def cr by simp
qed

lemma sampleAfter: "balanceAfterCredits 7 ''u'' (fst sampleLedger) (Fin 2) = Some (fixedText 4 3)"
proof -
  have "filter (liveEnt 7 ''u'') (pgEnts (fst sampleLedger)) = [sampleEnt ''u'' ''credit_package'', sampleEnt ''u'' ''payg_topup'']"
    by (simp add: sampleLedger_def samplePg_def sampleEnt_def liveEnt_def pgEmpty_def)
  moreover have "pgFault (fst sampleLedger) = None" by (simp add: sampleLedger_def samplePg_def pgEmpty_def)
  moreover have "sort_key entOrder [sampleEnt ''u'' ''credit_package'', sampleEnt ''u'' ''payg_topup''] = [sampleEnt ''u'' ''credit_package'', sampleEnt ''u'' ''payg_topup'']"
    by (simp add: sort_key_def entOrder_def entClass_def sampleEnt_def unlimitedRow_def effGroup_def)
  ultimately obtain ent where ent: "GetCreditEntitlementByUser 7 ''u'' (fst sampleLedger) = Inr ent" "ceCreditBalance ent = Some (fixedText 4 5)"
    by (simp add: GetCreditEntitlementByUser_def entByGroup_def ListActiveEntitlementsByUser_def firstRow_def entitlementPricingGroup_def entOfRow_def
        sampleEnt_def)
  have "rndEven 50000 = 50000" using rndEven_of_int [of 50000] by simp
  then have "parseFloatPtr (Some (fixedText 4 5)) = Fin 5"
    by (simp add: parseFloatPtr_def parseFloat_fixedText fin_numeral)
  then show ?thesis by (simp add: balanceAfterCredits_def ent afterBalance_def Let_def fsub_def fin_numeral)
qed

lemma sampleRecorded:
  "snd (recordUsage 7 sampleSettled (Some sampleHold) (fst sampleLedger)) = Inr (settlementOf sampleSettled (Some sampleHold) (fst sampleLedger))"
proof -
  let ?e = "ledgerEntry 7 sampleSettled (Some sampleHold) (fst sampleLedger)"
  have noPrice: "usageCosts (modelPrice (ListPrices (fst sampleLedger)) i) m = \<lparr>ucInput = fzero, ucOutput = fzero, ucTotal = fzero\<rparr>" for i m
    by (simp add: usageCosts_def sampleLedger_def samplePg_def pgEmpty_def ListPrices_def pgList_def modelPrice_def)
  have e: "ueInputCost ?e = fixedText 6 0" "ueOutputCost ?e = fixedText 6 0" "ueTotalCost ?e = fixedText 6 0" "ueAmountCredits ?e = Some (fixedText 4 2)"
    "ueBalanceAfterCredits ?e = Some (fixedText 4 3)" "ueBalanceAfterUsd ?e = None" "ueID ?e = 77" "ueAPIKeyID ?e = Some 1"
    using sampleSettled_of [of "fst sampleLedger"] sampleAfter
    by (simp_all add: ledgerEntry_def Let_def noPrice formatAmount_def balanceAfterUsd_def sampleHold_def sampleSettled_def sampleKey_def)
  then obtain row where row: "usageRow 7 ?e = Some row" "ueID row = 77" "ueAPIKeyID row = Some 1"
    by (auto simp: usageRow_def numericTextPtr_def numericText_def parseDecimal_fixedText)
  have "pgUp (fst sampleLedger)" "pgLedger (fst sampleLedger) = []" "pgKeys (fst sampleLedger) = [sampleKey ''credit'']"
    by (simp_all add: sampleLedger_def samplePg_def pgEmpty_def pgUp_def)
  then show ?thesis
    using row e(7) by (simp add: recordUsage_def AppendUsage_def ledgerOk_def sampleKey_def nilUUID_def)
qed

lemma sampleHold_grant:
  "isGrant ''credit'' (sampleHold, 0, [])" "rrPeriodStart sampleHold = zeroTime" "rrPeriodEnd sampleHold = zeroTime" "rrRequestCredits sampleHold = Fin 2"
  by (simp_all add: sampleHold_def isGrant_def noPlanUse_def)

lemma sampleLedger_ok: "pgOk (fst sampleLedger)" "creditAccount ''u'' (fst sampleLedger) = Some (5, 2)"
  using samplePg_ok samplePg_accounts by (simp_all add: sampleLedger_def pgOk_def pgUp_def creditAccount_def)

definition samplePeer :: "GenfityCallback option" where
  "samplePeer = Some \<lparr>gcBaseURL = ''http://app'', gcSecret = ''t'', gcQueue = True\<rparr>"

theorem credit_settlement_consistent_witness:
  "\<exists>st' posts row. recordAndFinalizeRuntime sampleHandler samplePeer 7 sampleSettled sampleHold sampleLedger
      = (st', Inr (settlementOf sampleSettled (Some sampleHold) (fst sampleLedger)), posts)
    \<and> pgLedger (fst st') = [row] \<and> ueRequestID row = ''req-1'' \<and> amountOf row = Some 2 \<and> creditAccount ''u'' (fst st') = Some (3, 0)
    \<and> map (\<lambda>d. (udUserID d, udRequestID d, udAmountCredits d)) posts = [(''u'', ''req-1'', Fin 2)]"
proof -
  have c: "countable ''u'' (settlementOf sampleSettled (Some sampleHold) (fst sampleLedger)) (fst sampleLedger)"
    by (simp add: countable_def chargedTokens_def sampleSettled_of sampleLedger_def samplePg_def pgEmpty_def
        quotaState_def quotasOk_def pgUp_def quotaOf_def in64_def)
  have u: "akGenfityUserID (srKey sampleSettled) = ''u''" "pgLedger (fst sampleLedger) = []" "Enabled samplePeer"
    by (simp_all add: sampleSettled_def sampleLedger_def samplePg_def pgEmpty_def samplePeer_def Enabled_def)
  have "rndEven 20000 = 20000" using rndEven_of_int [of 20000] by simp
  moreover have "toScale 4 3 = 3" "toScale 4 0 = 0" by simp_all
  ultimately show ?thesis
    using credit_settlement_consistent [of sampleHandler sampleSettled "''u''" sampleLedger 5 2 sampleHold 2 2 samplePeer 7
        "settlementOf sampleSettled (Some sampleHold) (fst sampleLedger)" 2 2] exactDriver.pg_numeric_axioms u sampleLedger_ok sampleHold_grant
      sampleRecorded c sampleSettled_of [of "fst sampleLedger"]
    by simp
qed

definition sampleTwice :: "map_redis gwState" where
  "sampleTwice = ((fst sampleLedger)\<lparr>pgLedger := [ledgerEntry 3 sampleSettled None (fst sampleLedger)]\<rparr>, mrEmpty)"

theorem repeated_request_id_not_charged_witness:
  "\<exists>st' e. recordAndFinalizeRuntime sampleHandler samplePeer 7 sampleSettled sampleHold sampleTwice = (st', Inl e, [])
     \<and> creditAccount ''u'' (fst st') = Some (5, 0)"
proof -
  have id: "ueRequestID (ledgerEntry 3 sampleSettled None s) = ''req-1''" for s
    by (simp add: ledgerEntry_def settlementOf_def Let_def sampleSettled_def requestIDForContext_def trimSpace_def isSpace_def split: prod.split)
  have "pgOk (fst sampleTwice)" "creditAccount ''u'' (fst sampleTwice) = Some (5, 2)" "''req-1'' \<in> ueRequestID ` set (pgLedger (fst sampleTwice))"
    using sampleLedger_ok by (simp_all add: sampleTwice_def id)
  moreover have "srContextID sampleSettled = RequestID ''req-1'' ''x''" "trimSpace ''req-1'' = ''req-1''" "akGenfityUserID (srKey sampleSettled) = ''u''"
    by (simp_all add: sampleSettled_def RequestID_def trimSpace_def isSpace_def)
  ultimately show ?thesis
    using repeated_request_id_not_charged [of sampleHandler sampleSettled "''u''" sampleTwice 5 2 sampleHold 2 2 "''req-1''" "''x''" samplePeer 7]
      exactDriver.pg_numeric_axioms sampleHold_grant
    by auto
qed

end
