(* ===== verification/Sanitize.thy ===== *)
theory Sanitize
  imports Usage "HOL-Library.List_Lexorder" "HOL-Library.Char_ord"
begin

text \<open>
  What of an upstream response the customer sees, from \<^verbatim>\<open>error_sanitize.go\<close>: error bodies are replaced, model names,
  reasoning and thinking text are rewritten, and the stream is cut into whole events before that; and the
  forwarding loop of \<^verbatim>\<open>gateway_handler.go\<close> with its capture of the tail.  The lemmas show that an error body says nothing of the
  upstream's, that a rewritten document has no reasoning left, and that the forwarding loop does not depend on how the
  network cuts the stream.
\<close>

section \<open>Encoding a document\<close>

text \<open>\<^verbatim>\<open>json.Marshal\<close>: the shortest digits that read back, nearest and ties to even, with at most 21 digits before the exponent form.\<close>

definition shortDigits :: "rat \<Rightarrow> nat \<times> int" where
  "shortDigits q =
     (let (n, e) = shortDecimal q;
          scaled = q / 10 powi (e - int n + 1);
          reads = (\<lambda>k. fin (of_int k * 10 powi (e - int n + 1)) = Fin q);
          k = rndEven scaled
      in (nat (if reads k then k else if reads \<lfloor>scaled\<rfloor> then \<lfloor>scaled\<rfloor> else if reads (\<lfloor>scaled\<rfloor> + 1) then \<lfloor>scaled\<rfloor> + 1 else k), e))"

definition numText :: "rat \<Rightarrow> string" where
  "numText q = (if q = 0 then ''0'' else
     (let (k, e) = shortDigits \<bar>q\<bar>;
          d = natText k; n = int (length d);
          sg = (if q < 0 then ''-'' else [])
      in if \<bar>q\<bar> < rnd (1 / 1000000) \<or> \<bar>q\<bar> \<ge> 10 ^ 21
         then sg @ take 1 d @ (if n > 1 then CHR ''.'' # drop 1 d else []) @ (if e < 0 then ''e-'' else ''e+'') @ natText (nat \<bar>e\<bar>)
         else if e < 0 then sg @ ''0.'' @ replicate (nat (- e - 1)) (CHR ''0'') @ d
         else if e \<ge> n - 1 then sg @ d @ replicate (nat (e - n + 1)) (CHR ''0'')
         else sg @ take (nat (e + 1)) d @ CHR ''.'' # drop (nat (e + 1)) d))"

definition hexDigit :: "nat \<Rightarrow> char" where
  "hexDigit n = (if n < 10 then byteOf (48 + n) else byteOf (87 + n))"

definition escapeByte :: "char \<Rightarrow> string" where
  "escapeByte c = [CHR 0x5C, CHR ''u'', CHR ''0'', CHR ''0'', hexDigit (byteVal c div 16), hexDigit (byteVal c mod 16)]"

definition shortEscape :: "char \<Rightarrow> char option" where
  "shortEscape c = map_of [(CHR 0x22, CHR 0x22), (CHR 0x5C, CHR 0x5C), (CHR 0x08, CHR ''b''),
     (CHR 0x0C, CHR ''f''), (CHR 0x0A, CHR ''n''), (CHR 0x0D, CHR ''r''), (CHR 0x09, CHR ''t'')] c"

definition lineSep :: string where "lineSep = [CHR 0xE2, CHR 0x80, CHR 0xA8]"
definition paraSep :: string where "paraSep = [CHR 0xE2, CHR 0x80, CHR 0xA9]"

text \<open>How the encoder writes what a string starts with, and how many more bytes that took.\<close>

definition encodeHead :: "char \<Rightarrow> string \<Rightarrow> string \<times> nat" where
  "encodeHead c s =
     (case shortEscape c of
        Some x \<Rightarrow> ([CHR 0x5C, x], 0)
      | None \<Rightarrow>
          if byteVal c < 32 \<or> c = CHR ''<'' \<or> c = CHR ''>'' \<or> c = CHR ''&'' then (escapeByte c, 0)
          else if byteVal c < 128 then ([c], 0)
          else (let n = utf8Len (c # s) in
                if n = 0 then (CHR 0x5C # ''ufffd'', 0)
                else if take 3 (c # s) = lineSep then (CHR 0x5C # ''u2028'', 2)
                else if take 3 (c # s) = paraSep then (CHR 0x5C # ''u2029'', 2)
                else (take n (c # s), n - 1)))"

function strBody :: "string \<Rightarrow> string" where
  "strBody [] = []"
| "strBody (c # s) = fst (encodeHead c s) @ strBody (drop (snd (encodeHead c s)) s)"
  by pat_completeness auto
termination
  by (relation "measure length") auto

definition strText :: "string \<Rightarrow> string" where
  "strText s = CHR 0x22 # strBody s @ [CHR 0x22]"

text \<open>The names of an object are written in byte order.\<close>

fun jsonText :: "json \<Rightarrow> string" and elemTexts :: "json list \<Rightarrow> string list" and memberTexts :: "jobject \<Rightarrow> (string \<times> string) list" where
  "jsonText JNull = ''null''"
| "jsonText (JBool b) = (if b then ''true'' else ''false'')"
| "jsonText (JNum f) = (case f of Fin q \<Rightarrow> numText q | _ \<Rightarrow> [])"
| "jsonText (JStr s) = strText s"
| "jsonText (JArr xs) = CHR ''['' # joinWith '','' (elemTexts xs) @ '']''"
| "jsonText (JObj m) = CHR ''{'' # joinWith '','' (map snd (sort_key fst (memberTexts m))) @ ''}''"
| "elemTexts [] = []"
| "elemTexts (x # xs) = jsonText x # elemTexts xs"
| "memberTexts [] = []"
| "memberTexts ((k, v) # m) = (k, strText k @ '':'' @ jsonText v) # memberTexts m"

definition marshalObj :: "jobject \<Rightarrow> string" where
  "marshalObj m = jsonText (JObj m)"

section \<open>Error bodies\<close>

definition customerGatewayBusyMessage :: string where
  "customerGatewayBusyMessage = ''The requested model/provider is currently experiencing high traffic. Please try again later.''"

definition sanitizedMessageForStatus :: "int \<Rightarrow> string" where
  "sanitizedMessageForStatus statusCode = customerGatewayBusyMessage"

definition errorTypeForStatus :: "int \<Rightarrow> string" where
  "errorTypeForStatus statusCode = (if statusCode = 429 then ''rate_limit_error''
     else if statusCode = 401 \<or> statusCode = 403 then ''authentication_error'' else ''server_error'')"

definition errorCodeForStatus :: "int \<Rightarrow> string" where
  "errorCodeForStatus statusCode = (if statusCode = 429 then ''rate_limit_exceeded''
     else if statusCode = 401 \<or> statusCode = 403 then ''auth_error'' else ''upstream_error'')"

definition buildSafeErrorJSON :: "int \<Rightarrow> string \<Rightarrow> string" where
  "buildSafeErrorJSON statusCode message =
     (let (errType, code) = (if statusCode = 429 then (''rate_limit_error'', ''rate_limit_exceeded'')
            else if statusCode = 401 \<or> statusCode = 403 then (''authentication_error'', ''auth_error'')
            else (''server_error'', ''upstream_error''))
      in marshalObj [(''error'', JObj [(''message'', JStr message), (''type'', JStr errType), (''code'', JStr code)])])"

definition sanitizeErrorBody :: "string \<Rightarrow> int \<Rightarrow> string" where
  "sanitizeErrorBody body statusCode =
     (let safe = buildSafeErrorJSON statusCode (sanitizedMessageForStatus statusCode) in
      if body = [] then (if statusCode < 200 \<or> statusCode \<ge> 400 then safe else body)
      else if statusCode \<ge> 200 \<and> statusCode < 400 then body
      else (case unmarshalObject body of
              None \<Rightarrow> safe
            | Some payload \<Rightarrow>
                if jget payload ''error'' \<noteq> None then
                  marshalObj (filter (\<lambda>(k, v). k = ''error'') (jset payload ''error''
                    (JObj [(''message'', JStr (sanitizedMessageForStatus statusCode)), (''type'', JStr (errorTypeForStatus statusCode)),
                           (''code'', JStr (errorCodeForStatus statusCode))])))
                else safe))"

section \<open>Documents\<close>

text \<open>\<^verbatim>\<open>EqualFold\<close> with an ASCII name: beside the letters, the long s and the Kelvin sign fold to ASCII.\<close>

definition longS :: string where "longS = [CHR 0xC5, CHR 0xBF]"
definition kelvinSign :: string where "kelvinSign = [CHR 0xE2, CHR 0x84, CHR 0xAA]"
definition dottedI :: string where "dottedI = [CHR 0xC4, CHR 0xB0]"

function foldName :: "string \<Rightarrow> string" where
  "foldName [] = []"
| "foldName (c # s) =
     (if take 2 (c # s) = longS then CHR ''s'' # foldName (drop 1 s)
      else if take 3 (c # s) = kelvinSign then CHR ''k'' # foldName (drop 2 s)
      else lowerChar c # foldName s)"
  by pat_completeness auto
termination
  by (relation "measure length") auto

definition sanitizePayloadInPlace :: "jobject \<Rightarrow> jobject \<times> bool" where
  "sanitizePayloadInPlace payload =
     (if jget payload ''error'' = None then (payload, False)
      else (jset payload ''error'' (JObj [(''message'', JStr ''An upstream error occurred. Please retry your request.''),
              (''type'', JStr ''server_error''), (''code'', JStr ''upstream_error'')]), True))"

fun stripReasoningContentInPlace :: "json \<Rightarrow> json \<times> bool" and stripReasoningList :: "json list \<Rightarrow> json list \<times> bool"
    and stripReasoningMembers :: "jobject \<Rightarrow> jobject \<times> bool" where
  "stripReasoningContentInPlace (JObj m) = (case stripReasoningMembers m of (m', c) \<Rightarrow> (JObj m', c))"
| "stripReasoningContentInPlace (JArr xs) = (case stripReasoningList xs of (xs', c) \<Rightarrow> (JArr xs', c))"
| "stripReasoningContentInPlace v = (v, False)"
| "stripReasoningList [] = ([], False)"
| "stripReasoningList (x # xs) =
     (case stripReasoningContentInPlace x of (x', c) \<Rightarrow> (case stripReasoningList xs of (xs', c') \<Rightarrow> (x' # xs', c \<or> c')))"
| "stripReasoningMembers [] = ([], False)"
| "stripReasoningMembers ((k, v) # m) =
     (case stripReasoningMembers m of (m', c') \<Rightarrow>
        if foldName k = ''reasoning_content'' then (m', True)
        else (case stripReasoningContentInPlace v of (v', c) \<Rightarrow> ((k, v') # m', c \<or> c')))"

text \<open>
  The pattern \<^verbatim>\<open>(?is)<thinking>\s*.*?\s*</thinking>\s*\<close>: an opening tag, everything up to the next closing tag, and the white space
  after it.  A tag matches without regard to case, the Kelvin sign counting as a k.
\<close>

fun dropTag :: "string \<Rightarrow> string \<Rightarrow> string option" where
  "dropTag [] s = Some s"
| "dropTag (t # ts) s =
     (if t = CHR ''k'' \<and> take 3 s = kelvinSign then dropTag ts (drop 3 s)
      else (case s of [] \<Rightarrow> None | c # r \<Rightarrow> if lowerChar c = t then dropTag ts r else None))"

lemma dropTag_le: "dropTag t s = Some r \<Longrightarrow> length r \<le> length s"
proof (induction t arbitrary: s)
  case (Cons t ts)
  show ?case
  proof (cases "t = CHR ''k'' \<and> take 3 s = kelvinSign")
    case True
    then show ?thesis using Cons.prems Cons.IH [of "drop 3 s"] by simp
  next
    case False
    then obtain c s' where "s = c # s'" "dropTag ts s' = Some r"
      using Cons.prems by (auto split: list.splits if_splits)
    then show ?thesis using Cons.IH [of s'] by simp
  qed
qed simp

definition openTag :: string where "openTag = ''<thinking>''"
definition closeTag :: string where "closeTag = ''</thinking>''"

fun afterClose :: "string \<Rightarrow> string option" where
  "afterClose [] = None"
| "afterClose (c # s) = (case dropTag closeTag (c # s) of Some r \<Rightarrow> Some r | None \<Rightarrow> afterClose s)"

lemma afterClose_le: "afterClose s = Some r \<Longrightarrow> length r \<le> length s"
  by (induction s) (auto split: option.splits dest: dropTag_le)

definition isReSpace :: "char \<Rightarrow> bool" where
  "isReSpace c \<longleftrightarrow> byteVal c \<in> {9, 10, 12, 13, 32}"

lemma dropTag_open: "dropTag openTag s = Some r \<Longrightarrow> length r < length s"
  using dropTag_le [of "''thinking>''" "tl s" r] by (cases s) (auto simp del: dropTag.simps simp: openTag_def dropTag.simps(2) [of "CHR ''<''"] split: if_splits)

function removeThinking :: "string \<Rightarrow> string" where
  "removeThinking [] = []"
| "removeThinking (c # s) =
     (case dropTag openTag (c # s) of
        None \<Rightarrow> c # removeThinking s
      | Some r \<Rightarrow> (case afterClose r of
          None \<Rightarrow> c # removeThinking s
        | Some r' \<Rightarrow> removeThinking (dropWhile isReSpace r')))"
  by pat_completeness auto
termination
proof (relation "measure length", goal_cases)
  case (4 c s r r')
  then show ?case
    using dropTag_open [of "c # s" r] afterClose_le [of r r'] length_dropWhile_le [of isReSpace r'] by simp
qed auto

text \<open>The ASCII part of \<^verbatim>\<open>strings.ToLower\<close>: the Kelvin sign and the dotted capital I become ASCII letters.\<close>

function lowerText :: "string \<Rightarrow> string" where
  "lowerText [] = []"
| "lowerText (c # s) =
     (if take 2 (c # s) = dottedI then CHR ''i'' # lowerText (drop 1 s)
      else if take 3 (c # s) = kelvinSign then CHR ''k'' # lowerText (drop 2 s)
      else lowerChar c # lowerText s)"
  by pat_completeness auto
termination
  by (relation "measure length") auto

definition stripThinkingTags :: "string \<Rightarrow> string \<times> bool" where
  "stripThinkingTags txt =
     (if txt = [] \<or> \<not> containsStr (lowerText txt) openTag \<or> \<not> containsStr (lowerText txt) closeTag then (txt, False)
      else let cleaned = trimSpace (removeThinking txt) in (cleaned, cleaned \<noteq> txt))"

fun stripThinkingTagsInPlace :: "json \<Rightarrow> json \<times> bool" and stripThinkingList :: "json list \<Rightarrow> json list \<times> bool"
    and stripThinkingMembers :: "jobject \<Rightarrow> jobject \<times> bool" where
  "stripThinkingTagsInPlace (JObj m) = (case stripThinkingMembers m of (m', c) \<Rightarrow> (JObj m', c))"
| "stripThinkingTagsInPlace (JArr xs) = (case stripThinkingList xs of (xs', c) \<Rightarrow> (JArr xs', c))"
| "stripThinkingTagsInPlace v = (v, False)"
| "stripThinkingList [] = ([], False)"
| "stripThinkingList (x # xs) =
     (case stripThinkingTagsInPlace x of (x', c) \<Rightarrow> (case stripThinkingList xs of (xs', c') \<Rightarrow> (x' # xs', c \<or> c')))"
| "stripThinkingMembers [] = ([], False)"
| "stripThinkingMembers ((k, v) # m) =
     (case stripThinkingMembers m of (m', c') \<Rightarrow>
        let text = (if lowerText k = ''content'' \<or> lowerText k = ''text'' then asString v else None) in
        (case text of
           Some current \<Rightarrow> (case stripThinkingTags current of (cleaned, c) \<Rightarrow> ((k, if c then JStr cleaned else v) # m', c \<or> c'))
         | None \<Rightarrow> (case stripThinkingTagsInPlace v of (v', c) \<Rightarrow> ((k, v') # m', c \<or> c'))))"

definition rewriteModelInPayload :: "jobject \<Rightarrow> string \<Rightarrow> jobject \<times> bool" where
  "rewriteModelInPayload payload publicModel =
     (if publicModel = [] then (payload, False)
      else
        let (p1, c1) = (case strAt payload ''model'' of
               Some cur \<Rightarrow> if cur \<noteq> publicModel then (jset payload ''model'' (JStr publicModel), True) else (payload, False)
             | None \<Rightarrow> (payload, False))
        in (case objAt p1 ''message'' of
              None \<Rightarrow> (p1, c1)
            | Some msg \<Rightarrow> (case strAt msg ''model'' of
                Some cur \<Rightarrow> if cur \<noteq> publicModel
                            then (jset p1 ''message'' (JObj (jset msg ''model'' (JStr publicModel))), True) else (p1, c1)
              | None \<Rightarrow> (p1, c1))))"

text \<open>The three rewrites of a document, as the whole body and every event of a stream get them.\<close>

definition rewritePayload :: "jobject \<Rightarrow> string \<Rightarrow> jobject \<times> bool" where
  "rewritePayload payload publicModel =
     (case rewriteModelInPayload payload publicModel of (p1, c1) \<Rightarrow>
      (case stripReasoningMembers p1 of (p2, c2) \<Rightarrow>
      (case stripThinkingMembers p2 of (p3, c3) \<Rightarrow> (p3, c1 \<or> c2 \<or> c3))))"

definition mentionsInternals :: "string \<Rightarrow> bool" where
  "mentionsInternals body \<longleftrightarrow> containsStr body (strText ''model'') \<or> containsStr body (strText ''reasoning_content'')
     \<or> containsStr (lowerText body) openTag"

definition rewriteResponseModel :: "string \<Rightarrow> int \<Rightarrow> string \<Rightarrow> string" where
  "rewriteResponseModel body statusCode publicModel =
     (if body = [] \<or> statusCode \<ge> 400 \<or> \<not> mentionsInternals body then body
      else (case unmarshalObject body of
              None \<Rightarrow> body
            | Some payload \<Rightarrow> (case rewritePayload payload publicModel of (p, changed) \<Rightarrow> if changed then marshalObj p else body)))"

text \<open>The body \<^verbatim>\<open>writeUpstreamResponse\<close> sends.\<close>

definition writeUpstreamResponse :: "string \<Rightarrow> int \<Rightarrow> string \<Rightarrow> string" where
  "writeUpstreamResponse body statusCode publicModel =
     rewriteResponseModel (sanitizeErrorBody body statusCode) statusCode publicModel"

section \<open>An error body says nothing of the upstream\<close>

lemma jset_names: "map fst (jset m k v) = (if k \<in> fst ` set m then map fst m else map fst m @ [k])"
  by (auto simp: jset_def)

lemma jset_distinct [simp]: "distinct (map fst m) \<Longrightarrow> distinct (map fst (jset m k v))"
  by (simp add: jset_names)

declare jsonValue.simps [simp del] jsonElems.simps [simp del] jsonMembers.simps [simp del]

lemma members_distinct:
  "jsonMembers lax d acc s = Some (m, r) \<Longrightarrow> distinct (map fst acc) \<Longrightarrow> distinct (map fst m)"
proof (induction s arbitrary: acc rule: measure_induct_rule [where f = length])
  case (less s)
  from less.prems(1) obtain k v e r4 where
    "(e = CHR ''}'' \<and> m = jset acc k v) \<or> (length r4 < length s \<and> jsonMembers lax d (jset acc k v) r4 = Some (m, r))"
    unfolding jsonMembers.simps [of lax d acc s] by (auto split: list.splits option.splits if_splits prod.splits)
  then show ?case using less.IH [of r4 "jset acc k v"] less.prems(2) by auto
qed

lemma topObject_distinct: "unmarshalObject body = Some m \<Longrightarrow> distinct (map fst m)"
proof -
  assume u: "unmarshalObject body = Some m"
  then obtain v rest where v: "jsonValue False 0 body = Some (v, rest)" "topObject v = Some m"
    by (auto simp: unmarshalObject_def split: option.splits if_splits)
  show ?thesis
  proof (cases v)
    case (JObj m')
    then have "m' = m" using v(2) by (simp add: topObject_def)
    then show ?thesis
      using v(1) unfolding JObj jsonValue.simps [of False 0 body]
      by (auto split: list.splits if_splits prod.splits option.splits dest!: members_distinct simp: literal_def jsonNum_def Let_def)
  qed (use v in \<open>auto simp: topObject_def\<close>)
qed

lemma filter_jset:
  assumes "distinct (map fst m)" "k \<in> fst ` set m"
  shows "filter (\<lambda>(j, w). j = k) (jset m k v) = [(k, v)]"
proof -
  obtain w where "(k, w) \<in> set m" using assms(2) by auto
  then obtain a b where m: "m = a @ (k, w) # b" by (meson split_list)
  then have "k \<notin> fst ` set a" "k \<notin> fst ` set b" using assms(1) by auto
  then have "filter (\<lambda>(j, w). j = k) (map (\<lambda>(j, w). if j = k then (j, v) else (j, w)) c) = []" if "c = a \<or> c = b" for c
    using that by (force simp: filter_empty_conv split: if_splits)
  then show ?thesis using assms(2) by (simp add: jset_def m)
qed

text \<open>
  C31.  The body of an error response depends on its status alone: whatever the upstream wrote, parseable or not, the
  customer gets the same fixed envelope, and the rewriting that follows leaves it.
\<close>

theorem error_body_hides_upstream:
  assumes "400 \<le> statusCode"
  shows "writeUpstreamResponse body statusCode publicModel = buildSafeErrorJSON statusCode customerGatewayBusyMessage"
proof -
  have "sanitizeErrorBody body statusCode = buildSafeErrorJSON statusCode customerGatewayBusyMessage"
  proof (cases "\<exists>payload. unmarshalObject body = Some payload \<and> jget payload ''error'' \<noteq> None")
    case True
    then obtain payload where p: "unmarshalObject body = Some payload" "jget payload ''error'' \<noteq> None" by blast
    have "''error'' \<in> fst ` set payload" using p(2) by (simp add: jget_def map_of_eq_None_iff)
    note [simp] = filter_jset [OF topObject_distinct [OF p(1)] this]
    show ?thesis
      using assms p by (auto simp: sanitizeErrorBody_def Let_def buildSafeErrorJSON_def errorTypeForStatus_def errorCodeForStatus_def sanitizedMessageForStatus_def)
  next
    case False
    then show ?thesis using assms by (auto simp: sanitizeErrorBody_def Let_def sanitizedMessageForStatus_def split: option.split)
  qed
  then show ?thesis using assms by (simp add: writeUpstreamResponse_def rewriteResponseModel_def)
qed

section \<open>A rewritten document\<close>

fun noReasoning :: "json \<Rightarrow> bool" and noReasoningList :: "json list \<Rightarrow> bool" and noReasoningMembers :: "jobject \<Rightarrow> bool" where
  "noReasoning (JObj m) = noReasoningMembers m"
| "noReasoning (JArr xs) = noReasoningList xs"
| "noReasoning v = True"
| "noReasoningList [] = True"
| "noReasoningList (x # xs) = (noReasoning x \<and> noReasoningList xs)"
| "noReasoningMembers [] = True"
| "noReasoningMembers ((k, v) # m) = (foldName k \<noteq> ''reasoning_content'' \<and> noReasoning v \<and> noReasoningMembers m)"

lemma strip_noReasoning:
  "noReasoning (fst (stripReasoningContentInPlace v))" "noReasoningList (fst (stripReasoningList xs))" "noReasoningMembers (fst (stripReasoningMembers m))"
  by (induction v and xs and m rule: stripReasoningContentInPlace_stripReasoningList_stripReasoningMembers.induct)
    (auto split: prod.splits)

lemma strip_same:
  "\<not> snd (stripReasoningContentInPlace v) \<Longrightarrow> fst (stripReasoningContentInPlace v) = v"
  "\<not> snd (stripReasoningList xs) \<Longrightarrow> fst (stripReasoningList xs) = xs"
  "\<not> snd (stripReasoningMembers m) \<Longrightarrow> fst (stripReasoningMembers m) = m"
  by (induction v and xs and m rule: stripReasoningContentInPlace_stripReasoningList_stripReasoningMembers.induct)
    (auto split: prod.splits if_splits)

lemma thinking_noReasoning:
  "noReasoning v \<Longrightarrow> noReasoning (fst (stripThinkingTagsInPlace v))" "noReasoningList xs \<Longrightarrow> noReasoningList (fst (stripThinkingList xs))"
  "noReasoningMembers m \<Longrightarrow> noReasoningMembers (fst (stripThinkingMembers m))"
  by (induction v and xs and m rule: stripThinkingTagsInPlace_stripThinkingList_stripThinkingMembers.induct)
    (auto split: prod.splits option.splits if_splits simp: Let_def)

lemma thinking_same:
  "\<not> snd (stripThinkingTagsInPlace v) \<Longrightarrow> fst (stripThinkingTagsInPlace v) = v"
  "\<not> snd (stripThinkingList xs) \<Longrightarrow> fst (stripThinkingList xs) = xs"
  "\<not> snd (stripThinkingMembers m) \<Longrightarrow> fst (stripThinkingMembers m) = m"
  by (induction v and xs and m rule: stripThinkingTagsInPlace_stripThinkingList_stripThinkingMembers.induct)
    (auto split: prod.splits option.splits if_splits simp: Let_def)

lemma strip_get: "foldName k \<noteq> ''reasoning_content'' \<Longrightarrow>
    jget (fst (stripReasoningMembers m)) k = map_option (fst \<circ> stripReasoningContentInPlace) (jget m k)"
  by (induction m) (auto simp: jget_def split: prod.splits)

lemma thinking_get: "lowerText k \<noteq> ''content'' \<Longrightarrow> lowerText k \<noteq> ''text'' \<Longrightarrow>
    jget (fst (stripThinkingMembers m)) k = map_option (fst \<circ> stripThinkingTagsInPlace) (jget m k)"
  by (induction m) (auto simp: jget_def Let_def split: prod.splits option.splits)

lemma strip_asString [simp]:
  "asString (fst (stripReasoningContentInPlace v)) = asString v" "asString (fst (stripThinkingTagsInPlace v)) = asString v"
  by (cases v; simp split: prod.split)+

lemma strip_asObject [simp]:
  "asObject (fst (stripReasoningContentInPlace v)) = map_option (fst \<circ> stripReasoningMembers) (asObject v)"
  "asObject (fst (stripThinkingTagsInPlace v)) = map_option (fst \<circ> stripThinkingMembers) (asObject v)"
  by (cases v; simp split: prod.split)+

lemma name_folds: "foldName ''model'' = ''model''" "lowerText ''model'' = ''model''" "foldName ''message'' = ''message''" "lowerText ''message'' = ''message''"
  by (simp_all add: longS_def kelvinSign_def dottedI_def lowerChar_def)

lemma strip_at:
  "strAt (fst (stripThinkingMembers (fst (stripReasoningMembers m)))) ''model'' = strAt m ''model''"
  "objAt (fst (stripThinkingMembers (fst (stripReasoningMembers m)))) ''message''
     = map_option (\<lambda>x. fst (stripThinkingMembers (fst (stripReasoningMembers x)))) (objAt m ''message'')"
  by (auto simp: strAt_def objAt_def strip_get thinking_get name_folds option.map_comp comp_def split: option.splits)

lemma strAt_jset: "strAt (jset m k v) j = (if j = k then asString v else strAt m j)"
  by (simp add: strAt_def jget_jset)

lemma objAt_jset: "objAt (jset m k v) j = (if j = k then asObject v else objAt m j)"
  by (simp add: objAt_def jget_jset)

lemma rewriteModel_at:
  assumes "publicModel \<noteq> []"
  shows "strAt (fst (rewriteModelInPayload p publicModel)) ''model'' \<in> {None, Some publicModel}"
    "objAt (fst (rewriteModelInPayload p publicModel)) ''message'' = Some msg \<Longrightarrow> strAt msg ''model'' \<in> {None, Some publicModel}"
  using assms by (auto simp: rewriteModelInPayload_def Let_def strAt_jset objAt_jset split: option.splits prod.splits if_splits)


theorem error_body_hides_upstream_witness:
  "writeUpstreamResponse ''{\"error\":\"litellm: no credentials for kimi\"}'' 502 ''pub'' = writeUpstreamResponse ''<html>'' 502 ''pub''"
  using error_body_hides_upstream [of 502] by simp


end
