(* ===== verification/Forward.thy ===== *)
theory Forward
  imports Sanitize
begin

text \<open>
  Forwarding a stream, from \<^verbatim>\<open>error_sanitize.go\<close> (the rewriting of stream chunks) and \<^verbatim>\<open>gateway_handler.go\<close> (\<^verbatim>\<open>tailCaptureBuffer\<close>,
  \<^verbatim>\<open>streamUpstreamResponse\<close>).  The network cuts the stream anywhere; the lemmas show that what is captured for accounting, whether the
  provider is seen to have started, and which events are rewritten together do not lose or split anything.
\<close>

section \<open>Text\<close>

text \<open>\<^verbatim>\<open>ReplaceAll\<close> and \<^verbatim>\<open>Split\<close> for a pattern that is not empty, and \<^verbatim>\<open>LastIndex\<close>.\<close>

function replaceAll :: "string \<Rightarrow> string \<Rightarrow> string \<Rightarrow> string" where
  "replaceAll p new [] = []"
| "replaceAll p new (c # s) =
     (if p \<noteq> [] \<and> hasPrefix (c # s) p then new @ replaceAll p new (drop (length p - 1) s) else c # replaceAll p new s)"
  by pat_completeness auto
termination
  by (relation "measure (\<lambda>(p, new, s). length s)") auto

function splitStr :: "string \<Rightarrow> string \<Rightarrow> string list" where
  "splitStr p [] = [[]]"
| "splitStr p (c # s) =
     (if p \<noteq> [] \<and> hasPrefix (c # s) p then [] # splitStr p (drop (length p - 1) s)
      else (case splitStr p s of x # xs \<Rightarrow> (c # x) # xs | [] \<Rightarrow> [[c]]))"
  by pat_completeness auto
termination
  by (relation "measure (\<lambda>(p, s). length s)") auto

fun lastIndex :: "string \<Rightarrow> string \<Rightarrow> nat option" where
  "lastIndex p [] = (if p = [] then Some 0 else None)"
| "lastIndex p (c # s) = (case lastIndex p s of Some i \<Rightarrow> Some (Suc i) | None \<Rightarrow> if hasPrefix (c # s) p then Some 0 else None)"

definition lfBoundary :: string where "lfBoundary = [newline, newline]"
definition crlf :: string where "crlf = [CHR 0x0D, newline]"
definition crlfBoundary :: string where "crlfBoundary = crlf @ crlf"

section \<open>Rewriting a chunk of whole events\<close>

text \<open>The loop over lines that both rewriters have; the result ends in a newline exactly when the chunk did or a line was rewritten before one.\<close>

definition rewriteLines :: "(string \<Rightarrow> string option) \<Rightarrow> string \<Rightarrow> string" where
  "rewriteLines f chunk =
     (let lines = splitChar newline chunk;
          out = concat (map (\<lambda>l. (case f l of Some t \<Rightarrow> t | None \<Rightarrow> l) @ [newline]) lines)
      in if \<not> list_ex (\<lambda>l. f l \<noteq> None) lines then chunk
         else if out \<noteq> [] \<and> last out = newline \<and> (chunk = [] \<or> last chunk \<noteq> newline) then butlast out else out)"

definition eventData :: "string \<Rightarrow> string option" where
  "eventData line = (if hasPrefix line ''data:'' \<and> dataOf line \<noteq> [] \<and> dataOf line \<noteq> doneMark then Some (dataOf line) else None)"

definition sanitizeLine :: "string \<Rightarrow> string option" where
  "sanitizeLine line = (case eventData (trimCR line) of
       None \<Rightarrow> None
     | Some d \<Rightarrow> (case unmarshalObject d of
         None \<Rightarrow> None
       | Some payload \<Rightarrow> (case sanitizePayloadInPlace payload of (p, c) \<Rightarrow> if c then Some (''data: '' @ marshalObj p) else None)))"

definition sanitizeSSEChunk :: "string \<Rightarrow> string" where
  "sanitizeSSEChunk chunk = (if \<not> containsStr chunk (strText ''error'') then chunk else rewriteLines sanitizeLine chunk)"

definition rewriteLine :: "string \<Rightarrow> string \<Rightarrow> string option" where
  "rewriteLine publicModel line =
     (let trimmed = trimCR line in
      if hasPrefix trimmed '':'' \<and> trimSpace (trimPrefix trimmed '':'') \<noteq> [] then Some '': keep-alive''
      else (case eventData trimmed of
              None \<Rightarrow> None
            | Some d \<Rightarrow> (case unmarshalObject d of
                Some payload \<Rightarrow> (case rewritePayload payload publicModel of (p, c) \<Rightarrow> if c then Some (''data: '' @ marshalObj p) else None)
              | None \<Rightarrow> (case stripThinkingTags d of (cleaned, c) \<Rightarrow> if c then Some (''data: '' @ cleaned) else None))))"

definition rewriteSSEChunkModel :: "string \<Rightarrow> string \<Rightarrow> string" where
  "rewriteSSEChunkModel chunk publicModel =
     (if \<not> mentionsInternals chunk then chunk else rewriteLines (rewriteLine publicModel) chunk)"

definition isComment :: "string \<Rightarrow> bool" where
  "isComment line \<longleftrightarrow> hasPrefix (trimSpace line) '':''"

definition keepAliveEvent :: "string \<Rightarrow> string \<Rightarrow> string" where
  "keepAliveEvent publicModel streamProtocol =
     (if streamProtocol = ''anthropic'' then ''event: ping'' @ [newline] @ ''data: {\"type\":\"ping\"}'' @ lfBoundary
      else ''data: {\"id\":\"chatcmpl-keepalive\",\"object\":\"chat.completion.chunk\",\"model\":'' @ strText publicModel
           @ '',\"choices\":[{\"index\":0,\"delta\":{},\"finish_reason\":null}]}'' @ lfBoundary)"

definition replaceEvent :: "string \<Rightarrow> string \<Rightarrow> string \<Rightarrow> string" where
  "replaceEvent publicModel streamProtocol event =
     (let lines = splitChar newline event;
          kept = filter (\<lambda>l. \<not> isComment l \<and> trimSpace l \<noteq> []) lines
      in if kept \<noteq> [] then joinWith [newline] kept @ lfBoundary
         else if list_ex isComment lines then keepAliveEvent publicModel streamProtocol else [])"

definition replaceSSECommentHeartbeats :: "string \<Rightarrow> string \<Rightarrow> string \<Rightarrow> string" where
  "replaceSSECommentHeartbeats chunk publicModel streamProtocol =
     (if \<not> containsStr chunk '':'' then chunk
      else
        let events = filter (\<lambda>e. e \<noteq> []) (splitStr lfBoundary (replaceAll crlf [newline] chunk)) in
        if \<not> list_ex (\<lambda>e. list_ex isComment (splitChar newline e)) events then chunk
        else concat (map (replaceEvent publicModel streamProtocol) events))"

definition rewriteAndSanitizeSSEPayload :: "string \<Rightarrow> string \<Rightarrow> string \<Rightarrow> string" where
  "rewriteAndSanitizeSSEPayload chunk publicModel streamProtocol =
     replaceSSECommentHeartbeats (rewriteSSEChunkModel (sanitizeSSEChunk chunk) publicModel) publicModel streamProtocol"

section \<open>The rewrite buffer\<close>

record sseRewriteBuffer =
  rbPending :: string
  rbProtocol :: string
  rbStarted :: bool

definition providerStartedOpenAISSEMarker :: string where
  "providerStartedOpenAISSEMarker = ''data: {\"type\":\"genfity.provider_started\",\"genfity_internal\":true}'' @ lfBoundary"

definition providerStartedClaudeSSEMarker :: string where
  "providerStartedClaudeSSEMarker = ''event: genfity.provider_started'' @ [newline] @ providerStartedOpenAISSEMarker"

definition providerStartedLegacySSEMarker :: string where
  "providerStartedLegacySSEMarker = '': genfity-provider-started'' @ lfBoundary"

definition providerStartedWrappedLegacySSEMarker :: string where
  "providerStartedWrappedLegacySSEMarker = ''data: : genfity-provider-started'' @ lfBoundary"

definition announcesStart :: "string \<Rightarrow> bool" where
  "announcesStart chunk \<longleftrightarrow> containsStr chunk ''genfity-provider-started'' \<or> containsStr chunk ''genfity.provider_started''"

definition stripProviderStartedMarker :: "string \<Rightarrow> string" where
  "stripProviderStartedMarker chunk =
     (if \<not> announcesStart chunk then chunk
      else foldl (\<lambda>c m. replaceAll m [] c) chunk
        [providerStartedOpenAISSEMarker, providerStartedClaudeSSEMarker, providerStartedLegacySSEMarker, providerStartedWrappedLegacySSEMarker])"

definition findLastSSEEventBoundary :: "string \<Rightarrow> (nat \<times> nat) option" where
  "findLastSSEEventBoundary chunk = (case (lastIndex lfBoundary chunk, lastIndex crlfBoundary chunk) of
       (None, None) \<Rightarrow> None
     | (Some a, None) \<Rightarrow> Some (a, 2)
     | (None, Some b) \<Rightarrow> Some (b, 4)
     | (Some a, Some b) \<Rightarrow> if a > b then Some (a, 2) else Some (b, 4))"

definition rewriteSegment :: "sseRewriteBuffer \<Rightarrow> string \<Rightarrow> string \<Rightarrow> string" where
  "rewriteSegment b publicModel seg = rewriteAndSanitizeSSEPayload (stripProviderStartedMarker seg) publicModel (rbProtocol b)"

definition bufferAppend :: "sseRewriteBuffer \<Rightarrow> string \<Rightarrow> string \<Rightarrow> sseRewriteBuffer \<times> string" where
  "bufferAppend b chunk publicModel =
     (if chunk = [] then (b, [])
      else
        let pending = rbPending b @ chunk in
        (case findLastSSEEventBoundary pending of
           None \<Rightarrow> (b\<lparr>rbPending := pending\<rparr>, [])
         | Some (i, n) \<Rightarrow>
             let complete = take (i + n) pending in
             (b\<lparr>rbPending := drop (i + n) pending, rbStarted := rbStarted b \<or> announcesStart complete\<rparr>, rewriteSegment b publicModel complete)))"

definition bufferFlush :: "sseRewriteBuffer \<Rightarrow> string \<Rightarrow> sseRewriteBuffer \<times> string" where
  "bufferFlush b publicModel =
     (if rbPending b = [] then (b, [])
      else (b\<lparr>rbPending := [], rbStarted := rbStarted b \<or> announcesStart (rbPending b)\<rparr>, rewriteSegment b publicModel (rbPending b)))"

section \<open>Capturing the tail\<close>

definition captureWrite :: "nat \<Rightarrow> string \<Rightarrow> string \<Rightarrow> string" where
  "captureWrite limit buf p =
     (if limit = 0 then buf
      else if length p \<ge> limit then drop (length p - limit) p
      else (if length buf + length p > limit then drop (length buf + length p - limit) buf else buf) @ p)"

definition maxStreamCaptureBytes :: nat where
  "maxStreamCaptureBytes = 1048576"

section \<open>The forwarding loop\<close>

record streamForwardResult =
  sfBody :: string
  sfWriteFailed :: bool
  sfProviderStarted :: bool

text \<open>
  The reads of the upstream body up to its end, an empty one being a read of no bytes.  \<open>up n\<close> says whether the
  customer's connection takes the \<open>n\<close>-th write; \<open>out\<close> is what it has got.
\<close>

fun forwardLoop :: "string \<Rightarrow> (nat \<Rightarrow> bool) \<Rightarrow> nat \<Rightarrow> string \<Rightarrow> sseRewriteBuffer \<Rightarrow> string \<Rightarrow> string list
    \<Rightarrow> streamForwardResult \<times> string" where
  "forwardLoop publicModel up n captured b out [] =
     (case bufferFlush b publicModel of (b', safe) \<Rightarrow>
        if safe \<noteq> [] \<and> \<not> up n then (\<lparr>sfBody = captured, sfWriteFailed = True, sfProviderStarted = rbStarted b'\<rparr>, out)
        else (\<lparr>sfBody = captured, sfWriteFailed = False, sfProviderStarted = rbStarted b'\<rparr>, out @ safe))"
| "forwardLoop publicModel up n captured b out (chunk # reads) =
     (if chunk = [] then forwardLoop publicModel up n captured b out reads
      else
        let captured' = captureWrite maxStreamCaptureBytes captured chunk in
        (case bufferAppend b chunk publicModel of (b', safe) \<Rightarrow>
           if safe = [] then forwardLoop publicModel up n captured' b' out reads
           else if \<not> up n then (\<lparr>sfBody = captured', sfWriteFailed = True, sfProviderStarted = rbStarted b'\<rparr>, out)
           else forwardLoop publicModel up (n + 1) captured' b' (out @ safe) reads))"

definition streamUpstreamResponse :: "string \<Rightarrow> string \<Rightarrow> (nat \<Rightarrow> bool) \<Rightarrow> string list \<Rightarrow> streamForwardResult \<times> string" where
  "streamUpstreamResponse publicModel streamProtocol up reads =
     forwardLoop publicModel up 0 [] \<lparr>rbPending = [], rbProtocol = streamProtocol, rbStarted = False\<rparr> [] reads"

section \<open>The capture is the tail\<close>

definition lastN :: "nat \<Rightarrow> 'a list \<Rightarrow> 'a list" where
  "lastN n xs = drop (length xs - n) xs"

lemma captureWrite_tail: "0 < limit \<Longrightarrow> captureWrite limit (lastN limit s) p = lastN limit (s @ p)"
  by (cases "p = []"; cases "length s \<le> limit") (auto simp: captureWrite_def lastN_def add.commute)

lemma lastN_Nil [simp]: "lastN n [] = []"
  by (simp add: lastN_def)

section \<open>Segments\<close>

text \<open>What the buffer rewrites together when the reads are \<open>reads\<close>.\<close>

fun segmentsOf :: "string \<Rightarrow> string list \<Rightarrow> string list" where
  "segmentsOf p [] = (if p = [] then [] else [p])"
| "segmentsOf p (c # reads) =
     (if c = [] then segmentsOf p reads
      else case findLastSSEEventBoundary (p @ c) of
             None \<Rightarrow> segmentsOf (p @ c) reads
           | Some (i, n) \<Rightarrow> take (i + n) (p @ c) # segmentsOf (drop (i + n) (p @ c)) reads)"

definition endsEvent :: "string \<Rightarrow> bool" where
  "endsEvent seg \<longleftrightarrow> suffix lfBoundary seg \<or> suffix crlfBoundary seg"

lemma lastIndex_at: "lastIndex p s = Some i \<Longrightarrow> \<exists>r. drop i s = p @ r"
  by (induction s arbitrary: i) (auto split: option.splits if_splits simp: hasPrefix_def prefix_def)

lemma take_boundary: "drop i s = p @ r \<Longrightarrow> suffix p (take (i + length p) s)"
  by (metis append_eq_conv_conj suffixI take_add)

lemma boundary_lengths: "length lfBoundary = 2" "length crlfBoundary = 4"
  by (simp_all add: lfBoundary_def crlfBoundary_def crlf_def)

lemma boundary_ends: "findLastSSEEventBoundary s = Some (i, n) \<Longrightarrow> endsEvent (take (i + n) s)"
  using take_boundary [of i s lfBoundary] take_boundary [of i s crlfBoundary] lastIndex_at [of lfBoundary s i] lastIndex_at [of crlfBoundary s i]
  unfolding boundary_lengths by (auto simp: findLastSSEEventBoundary_def endsEvent_def split: option.splits if_splits)

lemma segments_concat: "concat (segmentsOf p reads) = p @ concat reads"
proof (induction p reads rule: segmentsOf.induct)
  case (2 p c reads)
  have split: "take k (p @ c) @ drop k (p @ c) @ x = p @ c @ x" for k x by (metis append_assoc append_take_drop_id)
  show ?case using 2 split by (auto simp del: take_append drop_append split: option.splits prod.splits)
qed auto

lemma segments_end: "\<forall>seg \<in> set (butlast (segmentsOf p reads)). endsEvent seg"
  by (induction p reads rule: segmentsOf.induct) (auto split: option.splits dest: boundary_ends)

section \<open>Where a marker can be\<close>

lemma contains_append:
  assumes "a = [] \<or> last a \<notin> set m" "m \<noteq> []"
  shows "containsStr (a @ b) m \<longleftrightarrow> containsStr a m \<or> containsStr b m"
proof
  assume "containsStr (a @ b) m"
  then obtain x y where xy: "a @ b = x @ m @ y" by (auto simp: containsStr_iff)
  show "containsStr a m \<or> containsStr b m"
  proof (cases "length x + length m \<le> length a \<or> length a \<le> length x")
    case True
    then show ?thesis
    proof
      assume "length x + length m \<le> length a"
      then have "a = (x @ m) @ take (length a - length x - length m) y"
        using arg_cong [OF xy, of "take (length a)"] by simp
      then show ?thesis by (metis append_assoc containsStr_iff)
    next
      assume "length a \<le> length x"
      then have "b = drop (length a) x @ m @ y" using arg_cong [OF xy, of "drop (length a)"] by simp
      then show ?thesis by (metis containsStr_iff)
    qed
  next
    case False
    then have l: "length x < length a" "length a < length x + length m" by auto
    have "last a = (a @ b) ! (length a - 1)" using l(1) by (cases a rule: rev_cases) (auto simp: nth_append)
    also have "\<dots> = m ! (length a - 1 - length x)"
    proof -
      have "\<not> length a - 1 < length x" "length a - 1 - length x < length m" using l by linarith+
      then show ?thesis by (simp only: xy nth_append if_True if_False)
    qed
    also have "\<dots> \<in> set m" using l by simp
    finally show ?thesis using assms(1) l(1) by auto
  qed
qed (auto simp: containsStr_iff, (metis append_assoc)+)

lemma endsEvent_last: "endsEvent s \<Longrightarrow> s \<noteq> [] \<and> last s = newline"
  by (auto simp: endsEvent_def suffix_def lfBoundary_def crlfBoundary_def crlf_def)

lemma announces_append: "endsEvent a \<Longrightarrow> announcesStart (a @ b) = (announcesStart a \<or> announcesStart b)"
  using contains_append [of a "''genfity-provider-started''" b] contains_append [of a "''genfity.provider_started''" b] endsEvent_last [of a]
  by (auto simp: announcesStart_def newline_def)

lemma announces_segments:
  "\<forall>seg \<in> set (butlast segs). endsEvent seg \<Longrightarrow> announcesStart (concat segs) = list_ex announcesStart segs"
proof (induction segs)
  case Nil
  show ?case by (simp add: announcesStart_def)
next
  case (Cons a segs)
  then show ?case by (cases "segs = []") (auto simp: announces_append)
qed

section \<open>The loop\<close>

lemma segment_protocol: "rewriteSegment (b\<lparr>rbPending := p, rbStarted := x\<rparr>) = rewriteSegment b" "rewriteSegment (b\<lparr>rbPending := p\<rparr>) = rewriteSegment b"
  by (intro ext, simp add: rewriteSegment_def)+

lemma capture_step:
  "captureWrite maxStreamCaptureBytes (lastN maxStreamCaptureBytes seen) chunk = lastN maxStreamCaptureBytes (seen @ chunk)"
  by (rule captureWrite_tail) (simp add: maxStreamCaptureBytes_def)

lemma loop_all:
  "forwardLoop publicModel (\<lambda>_. True) n (lastN maxStreamCaptureBytes seen) b out reads
     = (\<lparr>sfBody = lastN maxStreamCaptureBytes (seen @ concat reads), sfWriteFailed = False,
         sfProviderStarted = (rbStarted b \<or> list_ex announcesStart (segmentsOf (rbPending b) reads))\<rparr>,
        out @ concat (map (rewriteSegment b publicModel) (segmentsOf (rbPending b) reads)))"
proof (induction reads arbitrary: n seen b out)
  case Nil
  show ?case by (simp add: bufferFlush_def)
next
  case (Cons chunk reads)
  show ?case
  proof (cases "chunk = [] \<or> findLastSSEEventBoundary (rbPending b @ chunk) = None")
    case True
    then show ?thesis
      using Cons.IH [of n seen b out] Cons.IH [of n "seen @ chunk" "b\<lparr>rbPending := rbPending b @ chunk\<rparr>" out]
      by (auto simp: bufferAppend_def capture_step segment_protocol)
  next
    case False
    then obtain i k where f: "chunk \<noteq> []" "findLastSSEEventBoundary (rbPending b @ chunk) = Some (i, k)" by auto
    define piece where "piece = take (i + k) (rbPending b @ chunk)"
    define b' where "b' = b\<lparr>rbPending := drop (i + k) (rbPending b @ chunk), rbStarted := rbStarted b \<or> announcesStart piece\<rparr>"
    define safe where "safe = rewriteSegment b publicModel piece"
    have app: "bufferAppend b chunk publicModel = (b', safe)" using f by (simp add: bufferAppend_def b'_def safe_def piece_def Let_def)
    have seg: "segmentsOf (rbPending b) (chunk # reads) = piece # segmentsOf (rbPending b') reads"
      using f by (simp add: b'_def piece_def)
    have same: "rewriteSegment b' = rewriteSegment b" "rbStarted b' = (rbStarted b \<or> announcesStart piece)"
      by (simp_all add: b'_def segment_protocol)
    show ?thesis
      using f(1) Cons.IH [of n "seen @ chunk" b' out] Cons.IH [of "n + 1" "seen @ chunk" b' "out @ safe"]
      unfolding seg by (simp add: app capture_step safe_def [symmetric] same Let_def disj_assoc)
  qed
qed

text \<open>
  C30.  Forwarding a stream does not depend on how the network cuts it.  Whatever the reads, when the customer stays connected: the
  accounting gets the last megabyte of the stream as it was; the provider counts as started exactly when the stream contains
  one of the two start marks; and the customer gets every byte of the stream once, in order, rewritten in pieces that end with a
  whole event, the last one apart.
\<close>

theorem forwarding_independent_of_reads:
  "\<exists>segs. streamUpstreamResponse publicModel streamProtocol (\<lambda>_. True) reads
      = (\<lparr>sfBody = lastN maxStreamCaptureBytes (concat reads), sfWriteFailed = False, sfProviderStarted = announcesStart (concat reads)\<rparr>,
         concat (map (\<lambda>seg. rewriteAndSanitizeSSEPayload (stripProviderStartedMarker seg) publicModel streamProtocol) segs))
    \<and> concat segs = concat reads \<and> list_all endsEvent (butlast segs)"
proof -
  define b where "b = \<lparr>rbPending = [], rbProtocol = streamProtocol, rbStarted = False\<rparr>"
  have run: "streamUpstreamResponse publicModel streamProtocol (\<lambda>_. True) reads
      = (\<lparr>sfBody = lastN maxStreamCaptureBytes (concat reads), sfWriteFailed = False, sfProviderStarted = list_ex announcesStart (segmentsOf [] reads)\<rparr>,
         concat (map (rewriteSegment b publicModel) (segmentsOf [] reads)))"
    using loop_all [of publicModel 0 "[]" b "[]" reads] by (simp add: streamUpstreamResponse_def b_def)
  have "rewriteSegment b publicModel = (\<lambda>seg. rewriteAndSanitizeSSEPayload (stripProviderStartedMarker seg) publicModel streamProtocol)"
    by (intro ext) (simp add: rewriteSegment_def b_def)
  moreover have "announcesStart (concat reads) = list_ex announcesStart (segmentsOf [] reads)"
    using announces_segments [OF segments_end, of "[]" reads] by (simp add: segments_concat)
  ultimately show ?thesis
    using run segments_concat [of "[]" reads] segments_end [of "[]" reads] by (intro exI [of _ "segmentsOf [] reads"]) (simp add: list_all_iff)
qed

text \<open>
  The gates in front of the rewriting compare bytes: an event whose error member is spelt with an escape is an error to every reader of
  JSON, yet it is forwarded as it is, provider text included.
\<close>

definition escapedError :: string where
  "escapedError = ''{'' @ [CHR 0x22, CHR 0x5C] @ ''u0065rror'' @ [CHR 0x22] @ '':'' @ strText ''litellm'' @ ''}''"

lemma escaped_texts:
  "strText ''error'' = [CHR 0x22] @ ''error'' @ [CHR 0x22]" "strText ''litellm'' = [CHR 0x22] @ ''litellm'' @ [CHR 0x22]"
  by code_simp+

lemma escaped_name: "jsonStr (CHR 0x5C # ''u0065rror'' @ CHR 0x22 # rest) = Some (''error'', rest)"
proof -
  have "hex4 (''0065rror'' @ CHR 0x22 # rest) = Some 101" by (simp add: hex4_def hexVal_def isDigit_def digitVal_def)
  then have "escapedRune (''0065rror'' @ CHR 0x22 # rest) = Some (101, 4)" by (simp add: escapedRune_def isSurrogate_def)
  moreover have "utf8Encode 101 = ''e''"
    using char_of_char [of "CHR ''e''"] by (simp add: utf8Encode_def isSurrogate_def byteOf_def)
  moreover have "jsonStr (''rror'' @ CHR 0x22 # rest) = Some (''rror'', rest)" by (simp add: byteVal_def utf8Len_def)
  ultimately show ?thesis by (simp add: byteVal_def)
qed

theorem escaped_error_is_forwarded:
  "unmarshalObject escapedError = Some [(''error'', JStr ''litellm'')] \<and> sanitizeSSEChunk (frame escapedError) = frame escapedError"
proof
  have e: "escapedError = CHR ''{'' # CHR 0x22 # (CHR 0x5C # ''u0065rror'' @ CHR 0x22 # CHR '':'' # CHR 0x22 # ''litellm'' @ [CHR 0x22, CHR ''}''])"
    by (simp add: escapedError_def escaped_texts)
  have v: "jsonValue False 1 (CHR 0x22 # ''litellm'' @ [CHR 0x22, CHR ''}'']) = Some (JStr ''litellm'', ''}'')"
    by (simp add: jsonValue.simps skipWs_def isJsonSpace_def byteVal_def utf8Len_def)
  show "unmarshalObject escapedError = Some [(''error'', JStr ''litellm'')]"
    unfolding e unmarshalObject_def jsonValue.simps [of False 0]
    using v escaped_name [of "CHR '':'' # CHR 0x22 # ''litellm'' @ [CHR 0x22, CHR ''}'']"]
    by (simp add: skipWs_def isJsonSpace_def maxNestingDepth_def jsonMembers.simps [of False 1 "[]"] jsonMembers.simps [of False "Suc 0" "[]"] jset_def topObject_def del: jsonStr.simps)
  show "sanitizeSSEChunk (frame escapedError) = frame escapedError"
    by (simp add: sanitizeSSEChunk_def frame_def e escaped_texts newline_def)
qed

text \<open>Removing thinking text is not repeated: what an inner pair of tags leaves can be a pair of tags again.\<close>

lemma thinking_survives_nesting:
  "stripThinkingTags ''<think<thinking>a</thinking>ing>secret</thinking>'' = (''<thinking>secret</thinking>'', True)"
  by code_simp

end
