(* ===== verification/ToolHistory.thy ===== *)
theory ToolHistory
  imports Usage
begin

text \<open>
  The check of the tool calls in a conversation, from \<^verbatim>\<open>tool_validation.go\<close>: the tools the request
  declares, and the calls and results its messages carry, in the order the loop meets them.  The map
  of the calls seen is an association list in registration order; where several calls have no result
  the code reports one of them in the iteration order of a Go map, and the model the first registered.
  The text of a decoding error is not modelled.  The theorem compares the one-pass check with a
  declarative reading of the comment above it.
\<close>

section \<open>Data\<close>

record toolHistoryValidationError =
  issCode :: string
  issReason :: string
  issToolName :: string
  issToolCallID :: string

definition issue :: "string \<Rightarrow> string \<Rightarrow> string \<Rightarrow> string \<Rightarrow> toolHistoryValidationError" where
  "issue code reason name callId = \<lparr>issCode = code, issReason = reason, issToolName = name, issToolCallID = callId\<rparr>"

record declaredTool =
  dtName :: string
  dtSchema :: jobject

record observedToolCall =
  ocName :: string
  ocMessageNo :: nat
  ocResult :: bool

type_synonym toolCalls = "(string \<times> observedToolCall) list"

definition stringValue :: "json option \<Rightarrow> string" where
  "stringValue v = (case v of Some (JStr s) \<Rightarrow> s | _ \<Rightarrow> [])"

text \<open>A missing key and a JSON null both read as \<^verbatim>\<open>nil\<close>.\<close>

definition nonNil :: "json option \<Rightarrow> json option" where
  "nonNil v = (case v of Some JNull \<Rightarrow> None | _ \<Rightarrow> v)"

section \<open>Declarations\<close>

definition toolDefinition :: "jobject \<Rightarrow> jobject" where
  "toolDefinition item = (case objAt item ''function'' of Some fn \<Rightarrow> fn | None \<Rightarrow> item)"

definition toolSchema :: "jobject \<Rightarrow> json option" where
  "toolSchema d = (case nonNil (jget d ''parameters'') of Some v \<Rightarrow> Some v | None \<Rightarrow> nonNil (jget d ''input_schema''))"

fun declareTools :: "json list \<Rightarrow> (string \<times> declaredTool) list \<Rightarrow> toolHistoryValidationError + (string \<times> declaredTool) list" where
  "declareTools [] declared = Inr declared"
| "declareTools (rawItem # items) declared = (case asObject rawItem of
       None \<Rightarrow> Inl (issue ''invalid_tool_schema'' ''tool declaration must be an object'' [] [])
     | Some item \<Rightarrow>
         let d = toolDefinition item; name = trimSpace (stringValue (jget d ''name'')); toolType = stringValue (jget item ''type'') in
         if name = [] then
           (if toolType \<noteq> [] \<and> toolType \<noteq> ''function'' then declareTools items declared
            else Inl (issue ''invalid_tool_schema'' ''function tool name is required'' [] []))
         else if map_of declared name \<noteq> None
         then Inl (issue ''duplicate_tool_name'' ''tool declaration name must be unique'' name [])
         else (case toolSchema d of
                 None \<Rightarrow> declareTools items (declared @ [(name, \<lparr>dtName = name, dtSchema = []\<rparr>)])
               | Some raw \<Rightarrow> (case asObject raw of
                   None \<Rightarrow> Inl (issue ''invalid_tool_schema'' ''tool input schema must be an object'' name [])
                 | Some schema \<Rightarrow> declareTools items (declared @ [(name, \<lparr>dtName = name, dtSchema = schema\<rparr>)]))))"

definition collectDeclaredTools :: "json option \<Rightarrow> toolHistoryValidationError + (string \<times> declaredTool) list" where
  "collectDeclaredTools raw = declareTools (case raw of Some (JArr items) \<Rightarrow> items | _ \<Rightarrow> []) []"

section \<open>Calls and results\<close>

text \<open>A second \<^verbatim>\<open>Decode\<close> reports the end of the input exactly when only white space is left.\<close>

definition decodeToolArguments :: "json option \<Rightarrow> string + json" where
  "decodeToolArguments raw = (case nonNil raw of
       None \<Rightarrow> Inr (JObj [])
     | Some (JStr text) \<Rightarrow>
         if trimSpace text = [] then Inl ''tool arguments are not valid JSON: empty input''
         else (case jsonValue True 0 text of
                 None \<Rightarrow> Inl ''tool arguments are not valid JSON''
               | Some (args, rest) \<Rightarrow>
                   if skipWs rest = [] then Inr args else Inl ''tool arguments are not valid JSON: trailing data'')
     | Some v \<Rightarrow> Inr v)"

definition registerCall :: "string \<Rightarrow> string \<Rightarrow> json option \<Rightarrow> nat \<Rightarrow> toolCalls \<Rightarrow> toolHistoryValidationError + toolCalls" where
  "registerCall rawId rawName arguments messageNo calls =
     (let callId = trimSpace rawId; name = trimSpace rawName in
      if callId = [] then Inl (issue ''invalid_tool_call_id'' ''tool call ID is required'' name [])
      else if map_of calls callId \<noteq> None then Inl (issue ''duplicate_tool_call_id'' ''tool call ID must be unique'' name callId)
      else if name = [] then Inl (issue ''invalid_tool_name'' ''tool call name is required'' [] callId)
      else (case decodeToolArguments arguments of
              Inl err \<Rightarrow> Inl (issue ''invalid_tool_arguments'' err name callId)
            | Inr _ \<Rightarrow> Inr (calls @ [(callId, \<lparr>ocName = name, ocMessageNo = messageNo, ocResult = False\<rparr>)])))"

definition markResult :: "string \<Rightarrow> toolCalls \<Rightarrow> toolCalls" where
  "markResult callId calls = map (\<lambda>(i, c). if i = callId then (i, c\<lparr>ocResult := True\<rparr>) else (i, c)) calls"

definition registerResult :: "string \<Rightarrow> nat \<Rightarrow> toolCalls \<Rightarrow> toolHistoryValidationError + toolCalls" where
  "registerResult rawId messageNo calls =
     (let callId = trimSpace rawId in
      case map_of calls callId of
        None \<Rightarrow> Inl (issue ''unmatched_tool_result'' ''tool result has no preceding tool call'' [] callId)
      | Some call \<Rightarrow>
          if callId = [] then Inl (issue ''unmatched_tool_result'' ''tool result has no preceding tool call'' [] callId)
          else if messageNo \<le> ocMessageNo call
          then Inl (issue ''unmatched_tool_result'' ''tool result must follow its tool call'' (ocName call) callId)
          else if ocResult call
          then Inl (issue ''duplicate_tool_result'' ''tool call has more than one result'' (ocName call) callId)
          else Inr (markResult callId calls))"

section \<open>The messages\<close>

text \<open>The registrations of one message: the calls of an assistant, the result of a tool, then the content blocks.\<close>

datatype toolEvent = ToolCall string string "json option" nat | ToolResult string nat

definition toolCallEvent :: "nat \<Rightarrow> json \<Rightarrow> toolEvent" where
  "toolCallEvent messageNo rawCall =
     (let call = (case asObject rawCall of Some m \<Rightarrow> m | None \<Rightarrow> []);
          fn = (case objAt call ''function'' of Some m \<Rightarrow> m | None \<Rightarrow> []) in
      ToolCall (stringValue (jget call ''id'')) (stringValue (jget fn ''name'')) (jget fn ''arguments'') messageNo)"

definition blockEvents :: "nat \<Rightarrow> json \<Rightarrow> toolEvent list" where
  "blockEvents messageNo rawBlock = (case asObject rawBlock of
       None \<Rightarrow> []
     | Some block \<Rightarrow>
         let kind = stringValue (jget block ''type'') in
         if kind = ''tool_use''
         then [ToolCall (stringValue (jget block ''id'')) (stringValue (jget block ''name'')) (jget block ''input'') messageNo]
         else if kind = ''tool_result'' then [ToolResult (stringValue (jget block ''tool_use_id'')) messageNo]
         else [])"

definition messageEvents :: "nat \<times> json \<Rightarrow> toolEvent list" where
  "messageEvents nm = (case nm of (messageNo, rawMessage) \<Rightarrow> (case asObject rawMessage of
       None \<Rightarrow> []
     | Some message \<Rightarrow>
         let role = stringValue (jget message ''role'') in
         (if role = ''assistant'' then map (toolCallEvent messageNo) (arrOf message ''tool_calls'') else [])
         @ (if role = ''tool'' then [ToolResult (stringValue (jget message ''tool_call_id'')) messageNo] else [])
         @ concat (map (blockEvents messageNo) (arrOf message ''content''))))"

definition historyEvents :: "jobject \<Rightarrow> toolEvent list" where
  "historyEvents payload = concat (map messageEvents (List.enumerate 0 (arrOf payload ''messages'')))"

fun registerEvent :: "toolEvent \<Rightarrow> toolCalls \<Rightarrow> toolHistoryValidationError + toolCalls" where
  "registerEvent (ToolCall callId name arguments messageNo) calls = registerCall callId name arguments messageNo calls"
| "registerEvent (ToolResult callId messageNo) calls = registerResult callId messageNo calls"

fun registerAll :: "toolEvent list \<Rightarrow> toolCalls \<Rightarrow> toolHistoryValidationError + toolCalls" where
  "registerAll [] calls = Inr calls"
| "registerAll (e # es) calls = (case registerEvent e calls of Inl i \<Rightarrow> Inl i | Inr calls' \<Rightarrow> registerAll es calls')"

definition validateToolHistory :: "jobject \<Rightarrow> toolHistoryValidationError option" where
  "validateToolHistory payload = (case collectDeclaredTools (jget payload ''tools'') of
       Inl i \<Rightarrow> Some i
     | Inr _ \<Rightarrow> (case registerAll (historyEvents payload) [] of
         Inl i \<Rightarrow> Some i
       | Inr calls \<Rightarrow> (case find (\<lambda>(i, c). \<not> ocResult c) calls of
           Some (i, c) \<Rightarrow> Some (issue ''missing_tool_result'' ''historical tool call has no result'' (ocName c) i)
         | None \<Rightarrow> None)))"

section \<open>The check read declaratively\<close>

fun callOf :: "toolEvent \<Rightarrow> (string \<times> observedToolCall) option" where
  "callOf (ToolCall i name _ n) = Some (trimSpace i, \<lparr>ocName = trimSpace name, ocMessageNo = n, ocResult = False\<rparr>)"
| "callOf (ToolResult _ _) = None"

fun resultOf :: "toolEvent \<Rightarrow> (string \<times> nat) option" where
  "resultOf (ToolCall _ _ _ _) = None"
| "resultOf (ToolResult i n) = Some (trimSpace i, n)"

fun eventNo :: "toolEvent \<Rightarrow> nat" where
  "eventNo (ToolCall _ _ _ n) = n"
| "eventNo (ToolResult _ n) = n"

fun callWellFormed :: "toolEvent \<Rightarrow> bool" where
  "callWellFormed (ToolCall i name args _) \<longleftrightarrow> trimSpace i \<noteq> [] \<and> trimSpace name \<noteq> [] \<and> (\<exists>v. decodeToolArguments args = Inr v)"
| "callWellFormed (ToolResult _ _) \<longleftrightarrow> True"

definition callsIn :: "toolEvent list \<Rightarrow> toolCalls" where
  "callsIn evs = List.map_filter callOf evs"

definition resultsIn :: "toolEvent list \<Rightarrow> (string \<times> nat) list" where
  "resultsIn evs = List.map_filter resultOf evs"

text \<open>Nothing in it depends on the order of the events: identifiers, names, arguments and message numbers only.\<close>

definition answeredHistory :: "toolEvent list \<Rightarrow> bool" where
  "answeredHistory evs \<longleftrightarrow>
     list_all callWellFormed evs
     \<and> distinct (map fst (callsIn evs)) \<and> distinct (map fst (resultsIn evs))
     \<and> (\<forall>(i, n) \<in> set (resultsIn evs). \<exists>c. (i, c) \<in> set (callsIn evs) \<and> ocMessageNo c < n)"

definition namedTools :: "json list \<Rightarrow> jobject list" where
  "namedTools items = filter (\<lambda>item. trimSpace (stringValue (jget (toolDefinition item) ''name'')) \<noteq> []) (objsOf items)"

definition toolName :: "jobject \<Rightarrow> string" where
  "toolName item = trimSpace (stringValue (jget (toolDefinition item) ''name''))"

definition declarationsOk :: "json list \<Rightarrow> bool" where
  "declarationsOk items \<longleftrightarrow>
     list_all (\<lambda>raw. asObject raw \<noteq> None) items
     \<and> list_all (\<lambda>item. toolName item \<noteq> [] \<or> stringValue (jget item ''type'') \<notin> {[], ''function''}) (objsOf items)
     \<and> list_all (\<lambda>item. case toolSchema (toolDefinition item) of None \<Rightarrow> True | Some raw \<Rightarrow> asObject raw \<noteq> None) (namedTools items)
     \<and> distinct (map toolName (namedTools items))"

lemma objsOf_Cons: "objsOf (raw # items) = (case asObject raw of Some m \<Rightarrow> m # objsOf items | None \<Rightarrow> objsOf items)"
  by (simp add: objsOf_def List.map_filter_simps split: option.split)

lemma namedTools_Cons:
  "namedTools (raw # items) = (case asObject raw of
     Some m \<Rightarrow> (if toolName m \<noteq> [] then [m] else []) @ namedTools items | None \<Rightarrow> namedTools items)"
  by (simp add: namedTools_def objsOf_Cons toolName_def split: option.split)

lemma declareTools_accepts:
  "(\<exists>d. declareTools items declared = Inr d) \<longleftrightarrow> declarationsOk items \<and> set (map toolName (namedTools items)) \<inter> fst ` set declared = {}"
proof (induction items declared rule: declareTools.induct)
  case (1 declared)
  then show ?case by (simp add: declarationsOk_def objsOf_def namedTools_def List.map_filter_simps)
next
  case (2 rawItem items declared)
  show ?case
  proof (cases "asObject rawItem")
    case None
    then show ?thesis by (simp add: declarationsOk_def)
  next
    case (Some item)
    show ?thesis
    proof (cases "toolName item = []")
      case True
      then show ?thesis
        using 2(1) [OF Some refl refl refl] Some
        by (auto simp: Let_def toolName_def [symmetric] declarationsOk_def objsOf_Cons namedTools_Cons)
    next
      case False
      show ?thesis
        using 2(2, 3) [OF Some refl refl refl] Some False
        by (auto simp: Let_def toolName_def [symmetric] declarationsOk_def objsOf_Cons namedTools_Cons map_of_eq_None_iff
              split: option.split)
    qed
  qed
qed

lemma events_snoc:
  "callsIn (evs @ [e]) = callsIn evs @ (case callOf e of Some c \<Rightarrow> [c] | None \<Rightarrow> [])"
  "resultsIn (evs @ [e]) = resultsIn evs @ (case resultOf e of Some c \<Rightarrow> [c] | None \<Rightarrow> [])"
  by (simp_all add: callsIn_def resultsIn_def List.map_filter_simps List.map_filter_def split: option.split)

lemma registerAll_append:
  "registerAll (es @ fs) calls = (case registerAll es calls of Inl i \<Rightarrow> Inl i | Inr calls' \<Rightarrow> registerAll fs calls')"
  by (induction es arbitrary: calls) (auto split: sum.split)

text \<open>The calls seen so far, each marked when a result for it was seen.\<close>

definition marked :: "toolEvent list \<Rightarrow> toolCalls" where
  "marked evs = map (\<lambda>(i, c). (i, c\<lparr>ocResult := i \<in> fst ` set (resultsIn evs)\<rparr>)) (callsIn evs)"

lemma marked_keys: "fst ` set (marked evs) = fst ` set (callsIn evs)"
  by (force simp: marked_def)

lemma marked_at:
  "map_of (marked evs) i = map_option (\<lambda>c. c\<lparr>ocResult := i \<in> fst ` set (resultsIn evs)\<rparr>) (map_of (callsIn evs) i)"
proof -
  have "map_of (map (\<lambda>(i, c :: observedToolCall). (i, c\<lparr>ocResult := i \<in> R\<rparr>)) xs) i = map_option (\<lambda>c. c\<lparr>ocResult := i \<in> R\<rparr>) (map_of xs i)"
    for R and xs :: toolCalls
    by (induction xs) auto
  then show ?thesis by (simp add: marked_def)
qed

lemma callsIn_unmarked: "(i, c) \<in> set (callsIn evs) \<Longrightarrow> \<not> ocResult c"
proof -
  assume "(i, c) \<in> set (callsIn evs)"
  then obtain e where "callOf e = Some (i, c)" by (auto simp: callsIn_def List.map_filter_def)
  then show ?thesis by (cases e) auto
qed

lemma marked_snoc_call:
  "marked (evs @ [ToolCall i name args n]) =
     marked evs @ [(trimSpace i, \<lparr>ocName = trimSpace name, ocMessageNo = n, ocResult = trimSpace i \<in> fst ` set (resultsIn evs)\<rparr>)]"
  by (simp add: marked_def events_snoc)

lemma marked_snoc_result: "marked (evs @ [ToolResult i n]) = markResult (trimSpace i) (marked evs)"
  by (auto simp: marked_def markResult_def events_snoc)

lemma callOf_Some: "callOf e = Some (i, c) \<Longrightarrow> eventNo e = ocMessageNo c \<and> (callWellFormed e \<longrightarrow> i \<noteq> [])"
  by (cases e) auto

lemma resultOf_Some: "resultOf e = Some (i, n) \<Longrightarrow> eventNo e = n"
  by (cases e) auto

lemma call_event: "(i, c) \<in> set (callsIn evs) \<Longrightarrow> \<exists>e \<in> set evs. eventNo e = ocMessageNo c \<and> callOf e = Some (i, c)"
proof -
  assume "(i, c) \<in> set (callsIn evs)"
  then obtain e where "e \<in> set evs" "callOf e = Some (i, c)" by (auto simp: callsIn_def List.map_filter_def)
  then show ?thesis using callOf_Some by blast
qed

lemma result_event: "(i, n) \<in> set (resultsIn evs) \<Longrightarrow> \<exists>e \<in> set evs. eventNo e = n"
proof -
  assume "(i, n) \<in> set (resultsIn evs)"
  then obtain e where "e \<in> set evs" "resultOf e = Some (i, n)" by (auto simp: resultsIn_def List.map_filter_def)
  then show ?thesis using resultOf_Some by blast
qed

lemma answered_snoc_call:
  assumes later: "\<forall>e \<in> set evs. eventNo e \<le> n"
  shows "answeredHistory (evs @ [ToolCall i name args n]) \<longleftrightarrow>
     answeredHistory evs \<and> callWellFormed (ToolCall i name args n) \<and> trimSpace i \<notin> fst ` set (callsIn evs)"
proof -
  have "\<not> n < m" if "(j, m) \<in> set (resultsIn evs)" for j m
    using result_event [OF that] later by auto
  then show ?thesis by (auto simp: answeredHistory_def events_snoc)
qed

lemma answered_snoc_result:
  "answeredHistory (evs @ [ToolResult i n]) \<longleftrightarrow>
     answeredHistory evs \<and> trimSpace i \<notin> fst ` set (resultsIn evs)
     \<and> (\<exists>c. (trimSpace i, c) \<in> set (callsIn evs) \<and> ocMessageNo c < n)"
  by (auto simp: answeredHistory_def events_snoc)

lemma answered_named: "answeredHistory evs \<Longrightarrow> i \<in> fst ` set (callsIn evs) \<Longrightarrow> i \<noteq> []"
proof -
  assume a: "answeredHistory evs" and "i \<in> fst ` set (callsIn evs)"
  then obtain c where "(i, c) \<in> set (callsIn evs)" by force
  then obtain e where "e \<in> set evs" "callOf e = Some (i, c)" using call_event by blast
  then show ?thesis using a callOf_Some by (auto simp: answeredHistory_def list_all_iff)
qed

lemma answered_results_called: "answeredHistory evs \<Longrightarrow> i \<notin> fst ` set (callsIn evs) \<Longrightarrow> i \<notin> fst ` set (resultsIn evs)"
  by (force simp: answeredHistory_def)

lemma registerAll_accepts:
  assumes "sorted (map eventNo evs)"
  shows "registerAll evs [] = Inr calls \<longleftrightarrow> answeredHistory evs \<and> calls = marked evs"
  using assms
proof (induction evs arbitrary: calls rule: rev_induct)
  case Nil
  then show ?case by (auto simp: answeredHistory_def marked_def callsIn_def resultsIn_def List.map_filter_simps)
next
  case (snoc e evs)
  have le: "\<forall>x \<in> set evs. eventNo x \<le> eventNo e" and srt: "sorted (map eventNo evs)"
    using snoc.prems by (auto simp: sorted_append)
  have step: "registerAll (evs @ [e]) [] = Inr calls \<longleftrightarrow> answeredHistory evs \<and> registerEvent e (marked evs) = Inr calls"
  proof (cases "registerAll evs []")
    case (Inl i)
    then show ?thesis using snoc.IH [OF srt, of "marked evs"] by (simp add: registerAll_append)
  next
    case (Inr c)
    then have "answeredHistory evs" "c = marked evs" using snoc.IH [OF srt, of c] by simp_all
    then show ?thesis using Inr by (simp add: registerAll_append split: sum.split)
  qed
  show ?case
  proof (cases e)
    case (ToolCall i name args n)
    have new: "map_of (marked evs) j \<noteq> None \<longleftrightarrow> j \<in> fst ` set (callsIn evs)" for j
      by (simp add: marked_at map_of_eq_None_iff)
    show ?thesis
    proof (cases "answeredHistory evs \<and> trimSpace i \<notin> fst ` set (callsIn evs)")
      case False
      then show ?thesis
        unfolding step unfolding ToolCall answered_snoc_call [OF le [unfolded ToolCall eventNo.simps]] registerEvent.simps
          registerCall_def Let_def new by auto
    next
      case True
      then have "marked (evs @ [e]) = marked evs @ [(trimSpace i, \<lparr>ocName = trimSpace name, ocMessageNo = n, ocResult = False\<rparr>)]"
        unfolding ToolCall marked_snoc_call using answered_results_called by simp
      then show ?thesis
        using True
        unfolding step unfolding ToolCall answered_snoc_call [OF le [unfolded ToolCall eventNo.simps]] registerEvent.simps
          registerCall_def Let_def new by (auto split: sum.split)
    qed
  next
    case (ToolResult i n)
    have seen: "(trimSpace i, c) \<in> set (callsIn evs) \<longleftrightarrow> map_of (callsIn evs) (trimSpace i) = Some c" if "answeredHistory evs" for c
      using that by (simp add: answeredHistory_def)
    have "trimSpace i \<noteq> []" if "answeredHistory evs" "map_of (callsIn evs) (trimSpace i) = Some c" for c
      using answered_named [OF that(1)] map_of_SomeD [OF that(2)] by force
    then show ?thesis
      unfolding step unfolding ToolResult answered_snoc_result
      by (cases "map_of (callsIn evs) (trimSpace i)")
        (auto simp: registerResult_def Let_def marked_at marked_snoc_result seen split: if_splits)
  qed
qed

lemma message_numbers: "e \<in> set (messageEvents (n, m)) \<Longrightarrow> eventNo e = n"
  by (auto simp: messageEvents_def toolCallEvent_def blockEvents_def Let_def split: option.splits if_splits)

lemma sorted_constant: "\<forall>x \<in> set xs. x = (n :: nat) \<Longrightarrow> sorted xs"
  by (induction xs) auto

lemma history_sorted: "sorted (map eventNo (concat (map messageEvents (List.enumerate n ms))))"
proof (induction ms arbitrary: n)
  case Nil
  then show ?case by simp
next
  case (Cons m ms)
  have "n < eventNo e" if "e \<in> set (concat (map messageEvents (List.enumerate (Suc n) ms)))" for e
    using that by (auto dest!: message_numbers simp: in_set_enumerate_eq)
  then show ?case
    using Cons [of "Suc n"] message_numbers [of _ n m]
    by (simp add: sorted_append sorted_constant [of _ n]) (metis less_imp_le)
qed

lemma no_call_open:
  "find (\<lambda>(i, c). \<not> ocResult c) (marked evs) = None \<longleftrightarrow> fst ` set (callsIn evs) \<subseteq> fst ` set (resultsIn evs)"
  by (force simp: find_None_iff marked_def)

text \<open>
  C15. The one-pass tool check accepts a request exactly when its declarations are well formed and its
  history is answered: every call has an identifier, a name and arguments that are one JSON value, no
  identifier is called twice or answered twice, every result names a call of a strictly earlier message, and
  every call has a result.  The right-hand side does not mention the order in which the loop meets the events.
\<close>

theorem tool_history_accepted_iff:
  "validateToolHistory payload = None \<longleftrightarrow>
     declarationsOk (arrOf payload ''tools'')
     \<and> answeredHistory (historyEvents payload)
     \<and> fst ` set (callsIn (historyEvents payload)) = fst ` set (resultsIn (historyEvents payload))"
proof -
  have tools: "collectDeclaredTools (jget payload ''tools'') = declareTools (arrOf payload ''tools'') []"
    by (auto simp: collectDeclaredTools_def arrOf_def arrAt_def split: option.split json.split)
  have decl: "(\<exists>d. declareTools (arrOf payload ''tools'') [] = Inr d) \<longleftrightarrow> declarationsOk (arrOf payload ''tools'')"
    using declareTools_accepts [of _ "[]"] by simp
  note hist = registerAll_accepts [OF history_sorted [of 0 "arrOf payload ''messages''"], folded historyEvents_def]
  have results: "fst ` set (resultsIn evs) \<subseteq> fst ` set (callsIn evs)" if "answeredHistory evs" for evs
    using answered_results_called [OF that] by blast
  show ?thesis
  proof (cases "\<exists>d. declareTools (arrOf payload ''tools'') [] = Inr d")
    case False
    then obtain i where "declareTools (arrOf payload ''tools'') [] = Inl i" by (metis sum.exhaust)
    then show ?thesis using False decl by (simp add: validateToolHistory_def tools)
  next
    case True
    then obtain d where d: "declareTools (arrOf payload ''tools'') [] = Inr d" by blast
    show ?thesis
    proof (cases "registerAll (historyEvents payload) []")
      case (Inl i)
      then show ?thesis using hist d by (auto simp: validateToolHistory_def tools)
    next
      case (Inr calls)
      then have ok: "answeredHistory (historyEvents payload)" "calls = marked (historyEvents payload)" using hist by auto
      have "validateToolHistory payload = None \<longleftrightarrow> find (\<lambda>(i, c). \<not> ocResult c) calls = None"
        using d Inr by (auto simp: validateToolHistory_def tools split: option.split)
      also have "\<dots> \<longleftrightarrow> fst ` set (callsIn (historyEvents payload)) = fst ` set (resultsIn (historyEvents payload))"
        unfolding ok(2) no_call_open using results [OF ok(1)] by auto
      finally show ?thesis using ok(1) True decl by simp
    qed
  qed
qed

end
