(* ===== verification/Endpoints.thy ===== *)
theory Endpoints
  imports PreRequest Settlement Forward ToolHistory
begin

text \<open>
  The customer-facing handlers of \<^verbatim>\<open>gateway_handler.go\<close> and the replies of \<^verbatim>\<open>helpers.go\<close>.  A handler gets the
  request with what the run time supplies (clock readings, fresh identifiers, whether the customer's connection is still there) and the
  upstream as a function from a base address, a path and a payload to an answer.  Deferred calls run last in, first out; the settlement
  that \<^verbatim>\<open>recordAndFinalizeAsync\<close> starts runs where it is started.  A call on a cancelled request context finds neither
  Postgres nor Redis; contexts made by \<^verbatim>\<open>WithoutCancel\<close> and \<^verbatim>\<open>Background\<close> are live.
\<close>

section \<open>Replies\<close>

record reply =
  rpStatus :: int
  rpBody :: string

definition respondJSON :: "int \<Rightarrow> jobject \<Rightarrow> reply" where
  "respondJSON status m = \<lparr>rpStatus = status, rpBody = marshalObj m @ [newline]\<rparr>"

definition publicErrorMessage :: "string \<Rightarrow> string" where
  "publicErrorMessage message =
     (if hasPrefix message ''upstream_'' then customerGatewayBusyMessage
      else if message \<in> {''insufficient_credit_balance'', ''insufficient_balance'', ''credit_reservation_failed'', ''payg_reservation_failed''}
      then ''Insufficient balance. Please top up your credits or upgrade your plan.''
      else if message \<in> {''no_active_subscription'', ''subscription_inactive''}
      then ''No active subscription. Please subscribe or renew your plan.''
      else if message \<in> {''quota_exceeded'', ''quota_reservation_failed''}
      then ''Your usage quota has been exceeded. Please upgrade or wait for the next billing period.''
      else if message \<in> {''model_not_in_unlimited_plan'', ''subscription_not_covering_model''}
      then ''Your current plan does not include this model. Please upgrade your plan.''
      else if message = ''rate_limit_exceeded'' then ''Rate limit exceeded. Please slow down and try again shortly.''
      else if message = ''concurrency_limit_exceeded''
      then ''Too many concurrent requests. Please wait for in-flight requests to finish, then retry.''
      else if message \<in> {''credit_cost_not_configured'', ''payg_price_not_configured''}
      then ''This model is not available for your billing type. Please contact support.''
      else if message \<in> {''missing_model'', ''model_not_allowed'', ''max_tokens_required''}
      then ''Invalid request. Please check your model name and parameters.''
      else if message \<in> {''router_unavailable'', ''upstream_error'', ''all_candidates_failed'', ''settlement_failed'', ''internal_error'', ''service_unavailable''}
      then customerGatewayBusyMessage
      else message)"

definition respondError :: "int \<Rightarrow> string \<Rightarrow> reply" where
  "respondError status message = respondJSON status [(''error'', JStr ''request_failed''), (''message'', JStr (publicErrorMessage message))]"

section \<open>The upstream and the request\<close>

datatype upstreamAnswer = CallFailed | Answer int "string list"

record 'r endpoint =
  epHandler :: "'r gatewayHandler"
  epCallback :: "GenfityCallback option"
  epRouters :: bool
  epProxyURL :: string
  epUpstream :: "string \<Rightarrow> string \<Rightarrow> jobject \<Rightarrow> upstreamAnswer"

text \<open>
  \<open>rqNow\<close> is the clock before the upstream call, \<open>rqThen\<close> after it; \<open>rqCancelled\<close> says that the request context was cancelled while the
  upstream worked, \<open>rqUp\<close> which writes the connection takes, \<open>rqTicks\<close> how often the keepalive ticker fired before the body was read,
  \<open>rqFlush\<close> whether the response writer is a \<^verbatim>\<open>Flusher\<close>.
\<close>

record gwRequest =
  rqKey :: APIKey
  rqBody :: string
  rqContextID :: string
  rqNewID :: string
  rqEntryID :: uuid
  rqNow :: time
  rqThen :: time
  rqCancelled :: bool
  rqUp :: "nat \<Rightarrow> bool"
  rqTicks :: nat
  rqFlush :: bool

definition maxRuntimeRequestBodyBytes :: nat where
  "maxRuntimeRequestBodyBytes = 8388608"

text \<open>The decoder reads the first value and gets no byte beyond the limit.\<close>

definition decodeRuntimePayload :: "string \<Rightarrow> jobject option" where
  "decodeRuntimePayload body = decodeObject (take maxRuntimeRequestBodyBytes body)"

definition clonePayload :: "jobject \<Rightarrow> jobject option" where
  "clonePayload original = (if finiteObj original then unmarshalObject (marshalObj original) else None)"

text \<open>The client of a route: the default one, or one for the base address of an active router instance.\<close>

definition clientForRouter :: "'r endpoint \<Rightarrow> string \<Rightarrow> pg_state \<Rightarrow> string option" where
  "clientForRouter E routerInstanceCode s =
     (let code = trimSpace routerInstanceCode in
      if \<not> epRouters E \<or> code = [] then Some (epProxyURL E)
      else (case GetRouterInstance code s of
              Inl _ \<Rightarrow> None
            | Inr inst \<Rightarrow> if trimSpace (riInternalBaseURL inst) = [] \<or> riStatus inst \<noteq> ''active'' then None else Some (riInternalBaseURL inst)))"

definition isRetriableStatus :: "int \<Rightarrow> bool" where
  "isRetriableStatus code \<longleftrightarrow> code = 429 \<or> code = 503 \<or> code = 502 \<or> code = 504 \<or> code = 500"

definition isRetriableTrigger :: "string \<Rightarrow> string list \<Rightarrow> bool" where
  "isRetriableTrigger body triggers \<longleftrightarrow> triggers = [] \<or> (\<exists>t \<in> set triggers. containsStr (lowerText body) (lowerText t))"

text \<open>The body without leading line ends and blanks; a writer that can flush got one line end for each tick before it.\<close>

definition isKeepaliveByte :: "char \<Rightarrow> bool" where
  "isKeepaliveByte c \<longleftrightarrow> c = CHR 0x0A \<or> c = CHR 0x0D \<or> c = CHR '' ''"

definition readBodyWithKeepalive :: "bool \<Rightarrow> nat \<Rightarrow> string list \<Rightarrow> string \<times> string" where
  "readBodyWithKeepalive canFlush ticks reads = (dropWhile isKeepaliveByte (concat reads), if canFlush then replicate ticks newline else [])"

text \<open>Once a tick was written the status is fixed at 200 and a later \<^verbatim>\<open>WriteHeader\<close> is ignored.\<close>

definition writtenAfter :: "string \<Rightarrow> int \<Rightarrow> string \<Rightarrow> reply" where
  "writtenAfter sent status body = \<lparr>rpStatus = (if sent = [] then status else 200), rpBody = sent @ body\<rparr>"

section \<open>Contexts\<close>

definition contextCanceled :: gerror where
  "contextCanceled = ErrText ''context canceled''"

definition deadRedis :: "'r redis_api" where
  "deadRedis = \<lparr>redisIncrBy = (\<lambda>k n r. (r, Inl contextCanceled)), redisIncrByFloat = (\<lambda>k x r. (r, Inl contextCanceled)),
     redisExpire = (\<lambda>k d r. (r, Inl contextCanceled)), redisGet = (\<lambda>k r. (r, Inl contextCanceled)),
     redisPttl = (\<lambda>k r. (r, Inl contextCanceled)), redisSet = (\<lambda>k v d r. (r, Inl contextCanceled)),
     redisSetNX = (\<lambda>k v d r. (r, Inl contextCanceled)), redisDel = (\<lambda>k r. (r, Inl contextCanceled)),
     redisEval = (\<lambda>f r. (r, Inl contextCanceled))\<rparr>"

text \<open>A call on the request's own context, after the upstream answered.\<close>

definition ctxHandler :: "bool \<Rightarrow> 'r gatewayHandler \<Rightarrow> 'r gatewayHandler" where
  "ctxHandler cancelled h = (if cancelled then h\<lparr>ghRateLimit := map_option (\<lambda>(R, pfx). (deadRedis, pfx)) (ghRateLimit h)\<rparr> else h)"

definition onCtx :: "bool \<Rightarrow> ('r gwState \<Rightarrow> 'r gwState \<times> 'a) \<Rightarrow> 'r gwState \<Rightarrow> 'r gwState \<times> 'a" where
  "onCtx cancelled f st = (if \<not> cancelled then f st
     else (case f ((fst st)\<lparr>pgFault := Some contextCanceled\<rparr>, snd st) of
             (st1, x) \<Rightarrow> (((fst st1)\<lparr>pgFault := pgFault (fst st)\<rparr>, snd st1), x)))"

section \<open>Refusing a request\<close>

text \<open>A refusal with a ledger row.\<close>

definition failWith :: "gwRequest \<Rightarrow> string \<Rightarrow> int \<Rightarrow> string \<Rightarrow> 'r gwState \<Rightarrow> 'r gwState \<times> reply" where
  "failWith q publicModel status code st =
     ((recordFailedRequest (rqNow q) (rqKey q) publicModel code (rqNow q) (rqContextID q) (rqNewID q) (rqEntryID q) (fst st), snd st),
      respondError status code)"

definition checkRequestRate :: "'r gatewayHandler \<Rightarrow> APIKey \<Rightarrow> plan_limits \<Rightarrow> 'r gwState \<Rightarrow> 'r gwState \<times> unit result" where
  "checkRequestRate h apiKey limits st = (case ghRateLimit h of
       None \<Rightarrow> (st, Inr ())
     | Some (R, pfx) \<Rightarrow> if HasRPM limits then onRedis (CheckRPM R pfx (akGenfityUserID apiKey) (plRPM limits)) st else (st, Inr ()))"

definition routeErrorCode :: "gerror \<Rightarrow> string" where
  "routeErrorCode e = (if e = ErrModelRetired then ''model_retired'' else ''model_not_allowed'')"

definition outsideAllowlist :: "APIKey \<Rightarrow> ActiveSubscription option \<Rightarrow> string \<Rightarrow> bool" where
  "outsideAllowlist apiKey subscription publicModel \<longleftrightarrow>
     shouldEnforceUnlimitedAllowlist apiKey \<and> isUnlimitedSubscription subscription \<and> \<not> entitlementAllowsModel subscription publicModel"

section \<open>Opening a completion\<close>

text \<open>What the checks before the reservation leave in the local variables of \<^verbatim>\<open>Messages\<close> and \<^verbatim>\<open>ChatCompletions\<close>.\<close>

record 'r admitted =
  adPayload :: jobject
  adPublicModel :: string
  adSub :: "ActiveSubscription option"
  adLimits :: plan_limits
  adRoute :: AIModelRoute
  adModel :: AIModel
  adCounters :: "'r preRequestCounters option"

text \<open>The next check, unless a reply was sent.\<close>

definition orReply :: "'r gwState \<times> (reply + 'a) \<Rightarrow> ('a \<Rightarrow> 'r gwState \<Rightarrow> 'r gwState \<times> (reply + 'b)) \<Rightarrow> 'r gwState \<times> (reply + 'b)" where
  "orReply p k = (case p of (st, Inl r) \<Rightarrow> (st, Inl r) | (st, Inr x) \<Rightarrow> k x st)"

definition replied :: "'r gwState \<times> reply \<Rightarrow> 'r gwState \<times> (reply + 'a)" where
  "replied p = (case p of (st, r) \<Rightarrow> (st, Inl r))"

definition readCompletion :: "gwRequest \<Rightarrow> 'r gwState \<Rightarrow> 'r gwState \<times> (reply + jobject)" where
  "readCompletion q st = (case decodeRuntimePayload (rqBody q) of
       None \<Rightarrow> replied (failWith q [] 400 ''invalid_json'' st)
     | Some payload \<Rightarrow>
         let publicModel = jgetStr payload ''model'' in
         if publicModel = [] then replied (failWith q [] 400 ''missing_model'' st)
         else (case validateToolHistory payload of
                 Some i \<Rightarrow>
                   ((recordFailedRequestWithMetadata (rqNow q) (rqKey q) publicModel (issCode i) (rqNow q)
                       [(''validation_reason'', JStr (issReason i)), (''tool_name'', JStr (issToolName i)), (''tool_call_id'', JStr (issToolCallID i))]
                       (rqContextID q) (rqNewID q) (rqEntryID q) (fst st), snd st),
                    Inl (respondError 400 (issCode i)))
               | None \<Rightarrow> (st, Inr payload)))"

definition subscriptionFor :: "'r endpoint \<Rightarrow> gwRequest \<Rightarrow> jobject \<Rightarrow> 'r gwState \<Rightarrow> 'r gwState \<times> (reply + ActiveSubscription option)" where
  "subscriptionFor E q payload st =
     (let publicModel = jgetStr payload ''model'' in
      case resolveSubscription (ghEnt (epHandler E)) (rqNow q) (akGenfityUserID (rqKey q)) st of
        (st1, Inl e) \<Rightarrow> replied (failWith q publicModel 402 (mapSubscriptionError e) st1)
      | (st1, Inr sub) \<Rightarrow>
          if outsideAllowlist (rqKey q) sub publicModel then replied (failWith q publicModel 402 ''model_not_in_unlimited_plan'' st1)
          else (st1, Inr sub))"

definition routeFor :: "'r endpoint \<Rightarrow> gwRequest \<Rightarrow> jobject \<Rightarrow> ActiveSubscription option \<Rightarrow> 'r gwState \<Rightarrow> 'r gwState \<times> (reply + 'r admitted)" where
  "routeFor E q payload sub st =
     (let publicModel = jgetStr payload ''model''; limits = PlanLimitsFromSnapshot (subscriptionPlan sub) in
      case ResolveRouteByPublicModel publicModel (fst st) of
        Inl e \<Rightarrow> replied (failWith q publicModel 400 (routeErrorCode e) st)
      | Inr (route, model) \<Rightarrow>
          (case checkRequestRate (epHandler E) (rqKey q) limits st of
             (st1, Inl _) \<Rightarrow> replied (failWith q (amPublicModel model) 429 ''rate_limit_exceeded'' st1)
           | (st1, Inr _) \<Rightarrow>
               (case applyPreRequestLimits (epHandler E) (rqNow q) (rqKey q) sub limits (Some model) st1 of
                  (st2, (code, status, counters)) \<Rightarrow>
                    if status \<noteq> 0 then replied (failWith q (amPublicModel model) status code st2)
                    else (st2, Inr \<lparr>adPayload = payload, adPublicModel = amPublicModel model, adSub = sub, adLimits = limits,
                                     adRoute = route, adModel = model, adCounters = counters\<rparr>))))"

definition openCompletion :: "'r endpoint \<Rightarrow> gwRequest \<Rightarrow> 'r gwState \<Rightarrow> 'r gwState \<times> (reply + 'r admitted)" where
  "openCompletion E q st =
     orReply (readCompletion q st) (\<lambda>payload st1.
     orReply (subscriptionFor E q payload st1) (\<lambda>sub st2. routeFor E q payload sub st2))"

section \<open>Serving a completion\<close>

text \<open>The state, the notifications, whether the reservation is settled, the counters and the reply, if one is written.\<close>

type_synonym 'r served = "'r gwState \<times> UsageDebitPayload list \<times> bool \<times> 'r preRequestCounters option \<times> reply option"

definition toSettle :: "gwRequest \<Rightarrow> 'r admitted \<Rightarrow> int \<Rightarrow> string \<Rightarrow> bool \<Rightarrow> settledRequest" where
  "toSettle q ad status body providerStarted =
     \<lparr>srKey = rqKey q, srSub = adSub ad, srModel = adModel ad, srRoute = (adRoute ad)\<lparr>arMetadata := None\<rparr>, srStarted = rqNow q,
      srStatus = status, srBody = body, srPublicModel = adPublicModel ad, srProviderStarted = providerStarted,
      srContextID = rqContextID q, srNewID = rqNewID q, srEntryID = rqEntryID q\<rparr>"

text \<open>\<^verbatim>\<open>recordAndFinalizeAsync\<close>: errors are only logged.\<close>

definition recordAndFinalizeAsync :: "'r endpoint \<Rightarrow> gwRequest \<Rightarrow> settledRequest \<Rightarrow> runtimeReservation \<Rightarrow> 'r gwState \<Rightarrow> 'r gwState \<times> UsageDebitPayload list" where
  "recordAndFinalizeAsync E q sr res st =
     (case recordAndFinalizeRuntime (epHandler E) (epCallback E) (rqThen q) sr res st of (st1, _, posts) \<Rightarrow> (st1, posts))"

text \<open>The \<^verbatim>\<open>CountRequest\<close> of the settlement that \<^verbatim>\<open>recordAndFinalizeRuntime\<close> returns: also when finalising failed, never when recording did.\<close>

definition countsRequest :: "time \<Rightarrow> settledRequest \<Rightarrow> runtimeReservation \<Rightarrow> pg_state \<Rightarrow> bool" where
  "countsRequest now sr res s = (case snd (recordUsage now sr (Some res) s) of Inr settle \<Rightarrow> usCountRequest settle | Inl _ \<Rightarrow> False)"

definition serveStream :: "'r endpoint \<Rightarrow> gwRequest \<Rightarrow> string \<Rightarrow> 'r admitted \<Rightarrow> runtimeReservation \<Rightarrow> int \<Rightarrow> string list \<Rightarrow> 'r gwState \<Rightarrow> 'r served" where
  "serveStream E q protocol ad res statusCode reads st =
     (case streamUpstreamResponse (adPublicModel ad) protocol (rqUp q) reads of (forward, out) \<Rightarrow>
        let body = sfBody forward;
            code = (if sfWriteFailed forward then statusClientClosedRequest else settlementStatus (rqCancelled q) statusCode body);
            sr = toSettle q ad code body (sfProviderStarted forward)
        in (case recordAndFinalizeRuntime (epHandler E) (epCallback E) (rqThen q) sr res st of
              (st1, _, posts) \<Rightarrow>
                (st1, posts, True,
                 (if countsRequest (rqThen q) sr res (fst st) then commit False (adCounters ad) else adCounters ad),
                 Some \<lparr>rpStatus = statusCode, rpBody = out\<rparr>)))"

definition servePlain :: "'r endpoint \<Rightarrow> gwRequest \<Rightarrow> (string \<Rightarrow> int \<Rightarrow> string \<Rightarrow> string) \<Rightarrow> 'r admitted \<Rightarrow> runtimeReservation \<Rightarrow> int \<Rightarrow> string list
    \<Rightarrow> 'r gwState \<Rightarrow> 'r served" where
  "servePlain E q render ad res statusCode reads st =
     (case readBodyWithKeepalive (rqFlush q) (rqTicks q) reads of (body, sent) \<Rightarrow>
        let code = settlementStatus (rqCancelled q) statusCode body in
        (case recordAndFinalizeAsync E q (toSettle q ad code body True) res st of
           (st1, posts) \<Rightarrow>
             (st1, posts, True,
              (if shouldCountSettlementRequest res code body True then commit False (adCounters ad) else adCounters ad),
              Some (writtenAfter sent statusCode (render body statusCode (adPublicModel ad))))))"

text \<open>An error answer in \<^verbatim>\<open>ChatCompletions\<close>: the reply is written, then the settlement is started.\<close>

definition serveErrorAsync :: "'r endpoint \<Rightarrow> gwRequest \<Rightarrow> 'r admitted \<Rightarrow> runtimeReservation \<Rightarrow> int \<Rightarrow> string list \<Rightarrow> 'r gwState \<Rightarrow> 'r served" where
  "serveErrorAsync E q ad res statusCode reads st =
     (let body = concat reads in
      case recordAndFinalizeAsync E q (toSettle q ad statusCode body True) res st of
        (st1, posts) \<Rightarrow>
          (st1, posts, True,
           (if shouldCountAsSuccess statusCode body then commit (rqCancelled q) (adCounters ad) else adCounters ad),
           Some \<lparr>rpStatus = statusCode,
             rpBody = (if \<not> isRetriableStatus statusCode \<or> \<not> isRetriableTrigger body [] then writeUpstreamResponse body statusCode (adPublicModel ad)
                       else sanitizeErrorBody body statusCode)\<rparr>))"

text \<open>An error answer in \<^verbatim>\<open>Messages\<close>: the settlement comes first, on the request's context, and its failure leaves the request unsettled.\<close>

definition serveErrorSync :: "'r endpoint \<Rightarrow> gwRequest \<Rightarrow> 'r admitted \<Rightarrow> runtimeReservation \<Rightarrow> int \<Rightarrow> string list \<Rightarrow> 'r gwState \<Rightarrow> 'r served" where
  "serveErrorSync E q ad res statusCode reads st =
     (let body = concat reads; cancelled = rqCancelled q in
      case onCtx cancelled (recordAndFinalizeRuntime (ctxHandler cancelled (epHandler E)) (epCallback E) (rqThen q)
             (toSettle q ad statusCode body True) res) st of
        (st1, Inl _, posts) \<Rightarrow> (st1, posts, False, adCounters ad, Some (respondError 500 ''settlement_failed''))
      | (st1, Inr _, posts) \<Rightarrow>
          (st1, posts, True,
           (if shouldCountAsSuccess statusCode body then commit cancelled (adCounters ad) else adCounters ad),
           Some \<lparr>rpStatus = statusCode, rpBody = sanitizeErrorBody body statusCode\<rparr>))"

definition serveNone :: "'r endpoint \<Rightarrow> gwRequest \<Rightarrow> 'r admitted \<Rightarrow> runtimeReservation \<Rightarrow> 'r gwState \<Rightarrow> 'r served" where
  "serveNone E q ad res st =
     (case finalizeRuntimeReservation (epHandler E) (rqThen q) (rqKey q) res (zeroSettlement\<lparr>usCountRequest := True\<rparr>) st of
        (st1, Inl _) \<Rightarrow> (st1, [], False, adCounters ad, Some (respondError 500 ''settlement_failed''))
      | (st1, Inr _) \<Rightarrow> (st1, [], True, adCounters ad, Some (respondError 502 ''all_candidates_failed'')))"

definition serveDisconnect :: "'r endpoint \<Rightarrow> gwRequest \<Rightarrow> 'r admitted \<Rightarrow> runtimeReservation \<Rightarrow> 'r gwState \<Rightarrow> 'r served" where
  "serveDisconnect E q ad res st =
     (case recordAndFinalizeClientDisconnect (epHandler E) (rqThen q) (toSettle q ad statusClientClosedRequest [] False) res st of
        (st1, _) \<Rightarrow> (st1, [], True, adCounters ad, None))"

text \<open>The payload of the one candidate.\<close>

definition candidatePayload :: "'r admitted \<Rightarrow> jobject option" where
  "candidatePayload ad = map_option
     (\<lambda>copy. let p = jset copy ''model'' (JStr (arRouterModel (adRoute ad))) in
             if isStreamingPayload (adPayload ad) then ensureStreamUsageOption p else ensureNonStreaming p)
     (clonePayload (adPayload ad))"

definition serveCandidate :: "'r endpoint \<Rightarrow> gwRequest \<Rightarrow> string \<Rightarrow> string \<Rightarrow> (string \<Rightarrow> int \<Rightarrow> string \<Rightarrow> string)
    \<Rightarrow> ('r admitted \<Rightarrow> runtimeReservation \<Rightarrow> int \<Rightarrow> string list \<Rightarrow> 'r gwState \<Rightarrow> 'r served) \<Rightarrow> 'r admitted \<Rightarrow> runtimeReservation \<Rightarrow> 'r gwState \<Rightarrow> 'r served" where
  "serveCandidate E q path protocol render onError ad res st =
     (case candidatePayload ad of
        None \<Rightarrow> (st, [], False, adCounters ad, Some (respondError 500 ''internal_error''))
      | Some p \<Rightarrow>
          (case clientForRouter E (arRouterInstanceCode (adRoute ad)) (fst st) of
             None \<Rightarrow> serveNone E q ad res st
           | Some base \<Rightarrow>
               (case epUpstream E base path p of
                  CallFailed \<Rightarrow> if rqCancelled q then serveDisconnect E q ad res st else serveNone E q ad res st
                | Answer statusCode reads \<Rightarrow>
                    if isStreamingPayload (adPayload ad) \<and> statusCode < 400 then serveStream E q protocol ad res statusCode reads st
                    else if \<not> isStreamingPayload (adPayload ad) \<and> statusCode < 400 then servePlain E q render ad res statusCode reads st
                    else onError ad res statusCode reads st)))"

section \<open>The deferred calls\<close>

definition finalizeUnsettled :: "'r endpoint \<Rightarrow> gwRequest \<Rightarrow> runtimeReservation \<Rightarrow> 'r served \<Rightarrow> 'r served" where
  "finalizeUnsettled E q res = (\<lambda>(st, posts, settled, counters, reply).
     ((if settled \<or> \<not> reservationNeedsFinalize res then st
       else fst (finalizeRuntimeReservation (epHandler E) (rqThen q) (rqKey q) res zeroSettlement st)), posts, settled, counters, reply))"

definition releaseSlot :: "'r endpoint \<Rightarrow> gwRequest \<Rightarrow> bool \<Rightarrow> 'r served \<Rightarrow> 'r served" where
  "releaseSlot E q held = (\<lambda>((s, r), posts, settled, counters, reply).
     ((s, (case ghRateLimit (epHandler E) of None \<Rightarrow> r | Some (R, pfx) \<Rightarrow> releaseConcurrency R pfx (akGenfityUserID (rqKey q)) held r)),
      posts, settled, counters, reply))"

definition rollbackCounters :: "gwRequest \<Rightarrow> 'r served \<Rightarrow> 'r gwState \<times> UsageDebitPayload list \<times> reply option" where
  "rollbackCounters q = (\<lambda>((s, r), posts, settled, counters, reply). ((s, fst (rollback (rqThen q) counters r)), posts, reply))"

definition acquireSlot :: "'r endpoint \<Rightarrow> gwRequest \<Rightarrow> plan_limits \<Rightarrow> 'r gwState \<Rightarrow> 'r gwState \<times> bool result" where
  "acquireSlot E q limits st = (case ghRateLimit (epHandler E) of
       None \<Rightarrow> (st, Inr False)
     | Some (R, pfx) \<Rightarrow> if HasConcurrency limits
         then onRedis (AcquireConcurrency R pfx (akGenfityUserID (rqKey q)) (plConcurrentLimit limits)) st else (st, Inr False))"

text \<open>A refusal after the counters were taken: nothing posted, and the deferred calls registered so far run.\<close>

definition unserved :: "'r admitted \<Rightarrow> 'r gwState \<times> reply \<Rightarrow> 'r served" where
  "unserved ad p = (case p of (st, r) \<Rightarrow> (st, [], False, adCounters ad, Some r))"

text \<open>What the recovery middleware sends after a panic.\<close>

definition recovered :: reply where
  "recovered = \<lparr>rpStatus = 500, rpBody = ''{\"error\":\"internal_error\",\"message\":\"internal_error\"}''\<rparr>"

definition completion :: "'r endpoint \<Rightarrow> gwRequest \<Rightarrow> ('r admitted \<Rightarrow> runtimeReservation \<Rightarrow> 'r gwState \<Rightarrow> 'r served) \<Rightarrow> 'r gwState
    \<Rightarrow> 'r gwState \<times> UsageDebitPayload list \<times> reply option" where
  "completion E q serve st = (case openCompletion E q st of
       (st1, Inl r) \<Rightarrow> (st1, [], Some r)
     | (st1, Inr ad) \<Rightarrow> rollbackCounters q
         (case acquireSlot E q (adLimits ad) st1 of
            (st2, Inl _) \<Rightarrow> unserved ad (failWith q (adPublicModel ad) 429 ''concurrency_limit_exceeded'' st2)
          | (st2, Inr held) \<Rightarrow> releaseSlot E q held
              (case reserveRuntimeLimits (epHandler E) (rqNow q) (rqKey q) (adSub ad) (adLimits ad) (adPayload ad) (Some (adModel ad)) st2 of
                 (st3, Inl _) \<Rightarrow> unserved ad (st3, recovered)
               | (st3, Inr (res, status, code)) \<Rightarrow>
                   if status \<noteq> 0 then unserved ad (failWith q (adPublicModel ad) status code st3)
                   else finalizeUnsettled E q res (serve ad res st3))))"

definition Messages :: "'r endpoint \<Rightarrow> gwRequest \<Rightarrow> 'r gwState \<Rightarrow> 'r gwState \<times> UsageDebitPayload list \<times> reply option" where
  "Messages E q = completion E q
     (serveCandidate E q ''/v1/messages'' ''anthropic'' rewriteResponseModel (serveErrorSync E q))"

definition ChatCompletions :: "'r endpoint \<Rightarrow> gwRequest \<Rightarrow> 'r gwState \<Rightarrow> 'r gwState \<times> UsageDebitPayload list \<times> reply option" where
  "ChatCompletions E q = completion E q
     (serveCandidate E q ''/v1/chat/completions'' ''openai'' writeUpstreamResponse (serveErrorAsync E q))"

section \<open>Embeddings and token counts\<close>

text \<open>The payload with the name the router knows the model by.\<close>

definition routedPayload :: "jobject \<Rightarrow> AIModelRoute \<Rightarrow> jobject option" where
  "routedPayload payload route = map_option (\<lambda>copy. jset copy ''model'' (JStr (arRouterModel route))) (clonePayload payload)"

definition resolvedSubscription :: "'r endpoint \<Rightarrow> gwRequest \<Rightarrow> string \<Rightarrow> 'r gwState \<Rightarrow> 'r gwState \<times> (reply + ActiveSubscription option)" where
  "resolvedSubscription E q publicModel st =
     (case resolveSubscription (ghEnt (epHandler E)) (rqNow q) (akGenfityUserID (rqKey q)) st of
        (st1, Inl e) \<Rightarrow> (st1, Inl (respondError 402 (mapSubscriptionError e)))
      | (st1, Inr sub) \<Rightarrow>
          if outsideAllowlist (rqKey q) sub publicModel then (st1, Inl (respondError 402 ''model_not_in_unlimited_plan''))
          else (st1, Inr sub))"

definition readModelRequest :: "gwRequest \<Rightarrow> 'r gwState \<Rightarrow> 'r gwState \<times> (reply + jobject)" where
  "readModelRequest q st = (case decodeRuntimePayload (rqBody q) of
       None \<Rightarrow> (st, Inl (respondError 400 ''invalid_json''))
     | Some payload \<Rightarrow> if jgetStr payload ''model'' = [] then (st, Inl (respondError 400 ''missing_model'')) else (st, Inr payload))"

text \<open>The call and its accounting, between the counters and their rollback.\<close>

definition callEmbeddings :: "'r endpoint \<Rightarrow> gwRequest \<Rightarrow> 'r admitted \<Rightarrow> 'r gwState \<Rightarrow> 'r served" where
  "callEmbeddings E q ad st =
     (case routedPayload (adPayload ad) (adRoute ad) of
        None \<Rightarrow> unserved ad (st, respondError 500 ''internal_error'')
      | Some p \<Rightarrow>
          (case clientForRouter E (arRouterInstanceCode (adRoute ad)) (fst st) of
             None \<Rightarrow> unserved ad (st, respondError 502 ''router_unavailable'')
           | Some base \<Rightarrow>
               (case epUpstream E base ''/v1/embeddings'' p of
                  CallFailed \<Rightarrow> unserved ad (st, respondError 502 ''upstream_error'')
                | Answer statusCode reads \<Rightarrow>
                    let body = concat reads;
                        st1 = fst (onCtx (rqCancelled q) (onPg (\<lambda>s. (recordUsageWithLegacyBilling (epHandler E) (rqThen q)
                                 (toSettle q ad statusCode body False) s, ()))) st)
                    in (st1, [], False,
                        (if shouldCountAsSuccess statusCode body then commit (rqCancelled q) (adCounters ad) else adCounters ad),
                        Some \<lparr>rpStatus = statusCode, rpBody = writeUpstreamResponse body statusCode (adPublicModel ad)\<rparr>))))"

definition Embeddings :: "'r endpoint \<Rightarrow> gwRequest \<Rightarrow> 'r gwState \<Rightarrow> 'r gwState \<times> UsageDebitPayload list \<times> reply option" where
  "Embeddings E q st = (case
       orReply (readModelRequest q st) (\<lambda>payload st1.
       orReply (resolvedSubscription E q (jgetStr payload ''model'') st1) (\<lambda>sub st2.
         let limits = PlanLimitsFromSnapshot (subscriptionPlan sub) in
         case ResolveRouteByPublicModel (jgetStr payload ''model'') (fst st2) of
           Inl e \<Rightarrow> (st2, Inl (respondError 400 (routeErrorCode e)))
         | Inr (route, model) \<Rightarrow>
             (case checkRequestRate (epHandler E) (rqKey q) limits st2 of
                (st3, Inl _) \<Rightarrow> replied (failWith q (amPublicModel model) 429 ''rate_limit_exceeded'' st3)
              | (st3, Inr _) \<Rightarrow>
                  (case applyPreRequestLimits (epHandler E) (rqNow q) (rqKey q) sub limits (Some model) st3 of
                     (st4, (code, status, counters)) \<Rightarrow>
                       if status \<noteq> 0 then replied (failWith q (amPublicModel model) status code st4)
                       else (st4, Inr \<lparr>adPayload = payload, adPublicModel = amPublicModel model, adSub = sub, adLimits = limits,
                                        adRoute = route, adModel = model, adCounters = counters\<rparr>))))) of
       (st5, Inl r) \<Rightarrow> (st5, [], Some r)
     | (st5, Inr ad) \<Rightarrow> rollbackCounters q (callEmbeddings E q ad st5))"

definition CountMessageTokens :: "'r endpoint \<Rightarrow> gwRequest \<Rightarrow> 'r gwState \<Rightarrow> 'r gwState \<times> reply" where
  "CountMessageTokens E q st = (case
       orReply (readModelRequest q st) (\<lambda>payload st1.
       orReply (resolvedSubscription E q (jgetStr payload ''model'') st1) (\<lambda>sub st2.
         case checkRequestRate (epHandler E) (rqKey q) (PlanLimitsFromSnapshot (subscriptionPlan sub)) st2 of
           (st3, Inl _) \<Rightarrow> (st3, Inl (respondError 429 ''rate_limit_exceeded''))
         | (st3, Inr _) \<Rightarrow>
             (case ResolveRouteByPublicModel (jgetStr payload ''model'') (fst st3) of
                Inl e \<Rightarrow> (st3, Inl (respondError 400 (routeErrorCode e)))
              | Inr (route, model) \<Rightarrow>
                  (case routedPayload payload route of
                     None \<Rightarrow> (st3, Inl (respondError 500 ''internal_error''))
                   | Some p \<Rightarrow>
                       (case clientForRouter E (arRouterInstanceCode route) (fst st3) of
                          None \<Rightarrow> (st3, Inl (respondError 502 ''router_unavailable''))
                        | Some base \<Rightarrow>
                            (case epUpstream E base ''/v1/messages/count_tokens'' p of
                               CallFailed \<Rightarrow> (st3, Inl (respondError 502 ''upstream_error''))
                             | Answer statusCode reads \<Rightarrow>
                                 (st3, Inr (if statusCode = 501 then \<lparr>rpStatus = 200, rpBody = ''{\"input_tokens\":-1}''\<rparr>
                                   else \<lparr>rpStatus = statusCode, rpBody = writeUpstreamResponse (concat reads) statusCode (amPublicModel model)\<rparr>)))))))) of
       (st4, Inl r) \<Rightarrow> (st4, r)
     | (st4, Inr r) \<Rightarrow> (st4, r))"

section \<open>Images\<close>

definition imageEntry :: "gwRequest \<Rightarrow> string \<Rightarrow> runtimeReservation \<Rightarrow> int \<Rightarrow> UsageLedgerEntry" where
  "imageEntry q publicModel res statusCode =
     \<lparr>ueID = rqEntryID q, ueRequestID = requestIDForContext (rqContextID q) (rqNewID q), ueGenfityUserID = akGenfityUserID (rqKey q),
      ueGenfityTenantID = akGenfityTenantID (rqKey q), ueAPIKeyID = Some (akID (rqKey q)), uePublicModel = publicModel,
      ueRouterModel = None, ueRouterInstanceCode = None, uePromptTokens = 0, ueCompletionTokens = 0, ueTotalTokens = 0,
      ueCachedTokens = 0, ueCacheReadInputTokens = 0, ueCacheCreationInputTokens = 0, ueReasoningTokens = 0,
      ueInputCost = ''0'', ueOutputCost = ''0'',
      ueTotalCost = (if 200 \<le> statusCode \<and> statusCode < 400 \<and> flt fzero (rrRequestCredits res) then sprintfF 4 (rrRequestCredits res) else ''0''),
      ueBillingMode = None, ueAmountCredits = None, ueBalanceAfterCredits = None, ueBalanceAfterUsd = None,
      ueStatus = (if statusCode \<ge> 400 then ''failed'' else ''success''),
      ueErrorCode = (if statusCode \<ge> 400 then Some ''upstream_error'' else None),
      ueLatencyMS = Some (wrap32 (milliseconds (rqThen q - rqNow q))), ueStartedAt = rqNow q, ueFinishedAt = Some (rqThen q),
      ueMetadata = None\<rparr>"

text \<open>The upstream call, the settlement of a success and the ledger row; \<open>False\<close> when the deferred release has to run.\<close>

definition callImages :: "'r endpoint \<Rightarrow> gwRequest \<Rightarrow> string \<Rightarrow> jobject \<Rightarrow> string \<Rightarrow> runtimeReservation \<Rightarrow> 'r gwState \<Rightarrow> 'r gwState \<times> bool \<times> reply" where
  "callImages E q path payload publicModel res st =
     (case clientForRouter E [] (fst st) of
        None \<Rightarrow> (st, False, respondError 502 ''router_unavailable'')
      | Some base \<Rightarrow>
          (case epUpstream E base path payload of
             CallFailed \<Rightarrow> (st, False, respondError 502 ''upstream_error'')
           | Answer statusCode reads \<Rightarrow>
               let success = (200 \<le> statusCode \<and> statusCode < 400);
                   settled = (success \<and> rrBillingMode res \<noteq> []);
                   st1 = (if settled then fst (finalizeRuntimeReservation (epHandler E) (rqThen q) (rqKey q) res
                            (zeroSettlement\<lparr>usChargeUsage := True, usCountRequest := True\<rparr>) st) else st);
                   st2 = fst (onCtx (rqCancelled q) (onPg (AppendUsage (rqThen q) (imageEntry q publicModel res statusCode))) st1)
               in (st2, settled, \<lparr>rpStatus = statusCode, rpBody = writeUpstreamResponse (concat reads) statusCode publicModel\<rparr>)))"

definition images :: "'r endpoint \<Rightarrow> gwRequest \<Rightarrow> string \<Rightarrow> jobject \<Rightarrow> string \<Rightarrow> 'r gwState \<Rightarrow> 'r gwState \<times> reply" where
  "images E q path payload publicModel st =
     (let h = epHandler E in
      case resolveSubscription (ghEnt h) (rqNow q) (akGenfityUserID (rqKey q)) st of
        (st1, Inl e) \<Rightarrow> failWith q publicModel 402 (mapSubscriptionError e) st1
      | (st1, Inr sub) \<Rightarrow>
          (case checkRequestRate h (rqKey q) (PlanLimitsFromSnapshot (subscriptionPlan sub)) st1 of
             (st2, Inl _) \<Rightarrow> failWith q publicModel 429 ''rate_limit_exceeded'' st2
           | (st2, Inr _) \<Rightarrow>
               let model = (case GetModelByPublicName publicModel (fst st2) of Inr m \<Rightarrow> Some m | Inl _ \<Rightarrow> None);
                   estimate = \<lparr>tePromptTokens = 0, teCompletionTokens = 0, teTotalTokens = 0, teBounded = True\<rparr>;
                   reserved = (case model of
                       Some m \<Rightarrow> if amStatus m = ''active'' then tryPriorityBilling h (rqNow q) (rqKey q) sub (Some m) estimate st2
                                else (st2, (zeroReservation, 0, []))
                     | None \<Rightarrow> (st2, (zeroReservation, 0, [])))
               in (case reserved of (st3, (res, status, code)) \<Rightarrow>
                     if status \<noteq> 0 then failWith q publicModel status code st3
                     else (case callImages E q path payload publicModel res st3 of
                             (st4, settled, r) \<Rightarrow>
                               ((if settled \<or> rrBillingMode res = [] then st4
                                 else fst (finalizeRuntimeReservation h (rqThen q) (rqKey q) res zeroSettlement st4)), r)))))"

definition ImagesGenerations :: "'r endpoint \<Rightarrow> gwRequest \<Rightarrow> 'r gwState \<Rightarrow> 'r gwState \<times> reply" where
  "ImagesGenerations E q st = (case decodeRuntimePayload (rqBody q) of
       None \<Rightarrow> failWith q [] 400 ''invalid_json'' st
     | Some payload \<Rightarrow>
         if jgetStr payload ''model'' = [] then failWith q [] 400 ''missing_model'' st
         else images E q ''/v1/images/generations'' payload (jgetStr payload ''model'') st)"

definition ImagesEdits :: "'r endpoint \<Rightarrow> gwRequest \<Rightarrow> 'r gwState \<Rightarrow> 'r gwState \<times> reply" where
  "ImagesEdits E q st = (case decodeRuntimePayload (rqBody q) of
       None \<Rightarrow> failWith q [] 400 ''invalid_json'' st
     | Some payload \<Rightarrow>
         images E q ''/v1/images/edits'' payload
           (if jgetStr payload ''model'' = [] then ''gpt-image-2'' else jgetStr payload ''model'') st)"

section \<open>The model list\<close>

definition visibleModel :: "time \<Rightarrow> string \<Rightarrow> ActiveSubscription option \<Rightarrow> pg_state \<Rightarrow> AIModel \<Rightarrow> bool" where
  "visibleModel now source subscription s m \<longleftrightarrow>
     amStatus m = ''active'' \<and>
     (if source = ''subscription'' then
        (case subscription of None \<Rightarrow> False | Some sub \<Rightarrow> asEntitlement sub \<noteq> None
           \<and> isUnlimitedGroup (resolveSubscriptionPricingGroup subscription)
           \<and> (resolveAllowedModels subscription = [] \<or> amPublicModel m \<in> set (resolveAllowedModels subscription)))
      else if source = ''credit'' then
        (case GetModelCreditCost (amPublicModel m) s of Inr (Some cost) \<Rightarrow> mcIsActive cost | _ \<Rightarrow> False)
      else if source = ''payg'' then amPaygExposed m \<and> modelPrice (ListPrices s) (amID m) \<noteq> None
      else False)"

definition modelItem :: "AIModel \<Rightarrow> json" where
  "modelItem m = JObj [(''id'', JStr (amPublicModel m)), (''object'', JStr ''model''),
     (''created'', JNum (fOfInt (unixSeconds (amCreatedAt m)))), (''owned_by'', JStr ''genfity'')]"

text \<open>A nil slice is encoded as null.\<close>

definition ListModelsEndpoint :: "'r endpoint \<Rightarrow> gwRequest \<Rightarrow> 'r gwState \<Rightarrow> 'r gwState \<times> reply" where
  "ListModelsEndpoint E q st =
     (let source = keySource (rqKey q) in
      case (if source = ''subscription''
            then (case CheckActiveSubscription (ghEnt (epHandler E)) (rqNow q) (akGenfityUserID (rqKey q)) st of
                    (st1, Inr sub) \<Rightarrow> (st1, Some sub) | (st1, Inl _) \<Rightarrow> (st1, None))
            else (st, None)) of
        (st1, sub) \<Rightarrow>
          let items = map modelItem (filter (visibleModel (rqNow q) source sub (fst st)) (ListModels (fst st))) in
          (st1, respondJSON 200 [(''object'', JStr ''list''), (''data'', if items = [] then JNull else JArr items)]))"

end
