(* ===== verification/Completion.thy ===== *)
theory Completion
  imports Endpoints
begin

text \<open>
  What a completion request does to a credit balance, over the whole handler: the checks before the
  reservation, the reservation, the answer of the upstream in each of its forms, the settlement and the deferred
  calls.  The lemmas follow a reservation from where it is taken to every exit of \<^verbatim>\<open>ChatCompletions\<close> and \<^verbatim>\<open>Messages\<close>.
\<close>

section \<open>The checks before the reservation\<close>

definition ledgerOnly :: "pg_state \<Rightarrow> pg_state \<Rightarrow> bool" where
  "ledgerOnly s s' \<longleftrightarrow> (\<exists>rows. s' = s\<lparr>pgLedger := rows\<rparr>)"

lemma ledgerOnly_refl [simp]: "ledgerOnly s s"
  unfolding ledgerOnly_def by (rule exI [of _ "pgLedger s"]) simp

lemma recordFailed_ledger:
  "ledgerOnly s (recordFailedRequestWithMetadata now key m code started meta ctx new i s)"
  "ledgerOnly s (recordFailedRequest now key m code started ctx new i s)"
proof -
  have app: "ledgerOnly s (fst (AppendUsage now e s))" for e
  proof (cases "AppendUsage now e s")
    case (Pair s' x)
    show ?thesis
    proof (cases x)
      case (Inl err)
      then have "s' = s" using Pair AppendUsage_Inl by metis
      then show ?thesis using Pair by simp
    next
      case (Inr row)
      then show ?thesis using Pair AppendUsage_Inr by (fastforce simp: ledgerOnly_def)
    qed
  qed
  then show "ledgerOnly s (recordFailedRequestWithMetadata now key m code started meta ctx new i s)"
    unfolding recordFailedRequestWithMetadata_def by blast
  show "ledgerOnly s (recordFailedRequest now key m code started ctx new i s)"
    unfolding recordFailedRequest_def recordFailedRequestWithMetadata_def by (rule app)
qed

lemma failWith_ledger [simp]: "ledgerOnly (fst st) (fst (fst (failWith q m status code st)))"
  by (simp add: failWith_def recordFailed_ledger)

lemma replied_parts [simp]: "fst (replied p) = fst p" "snd (replied p) = Inl (snd p)"
  by (simp_all add: replied_def split: prod.split)

lemma fst_resolveSubscription: "resolveSubscription co now u st = (st1, x) \<Longrightarrow> fst st1 = fst st"
  by (auto simp: resolveSubscription_def CheckActiveSubscription_def GetByUser_def split: prod.splits sum.splits if_splits option.splits)

lemma fst_checkRequestRate: "checkRequestRate h key limits st = (st1, x) \<Longrightarrow> fst st1 = fst st"
  by (auto simp: checkRequestRate_def split: option.splits if_splits dest: onRedis_pg)

definition pgKept :: "'r gwState \<Rightarrow> 'r gwState \<times> 'a \<Rightarrow> bool" where
  "pgKept st p \<longleftrightarrow> fst (fst p) = fst st"

lemma nextCount_kept:
  assumes "pgKept st p" "\<And>t st'. fst st' = fst st \<Longrightarrow> pgKept st (f t st')"
  shows "pgKept st (nextCount p b f)"
  using assms by (auto simp: nextCount_def pgKept_def split: prod.splits sum.splits)

lemma refuse_kept: "fst st' = fst st \<Longrightarrow> pgKept st (refuse now code t st')"
  by (auto simp: refuse_def pgKept_def dest: onRedis_pg split: prod.splits)

lemma counts_kept:
  assumes "fst st' = fst st"
  shows "pgKept st (countPeriod h R pfx now u sub e limits t st')" "pgKept st (countDay R pfx now u e limits t st')"
    "pgKept st (countFreeRPM R pfx now u m t st')" "pgKept st (countFreeRPD R pfx now u m t st')"
proof -
  have prep: "fst (preparePeriod h R pfx now u sub pk ttl st') = fst st'" for pk ttl
    by (auto simp: preparePeriod_def split: prod.splits sum.splits dest: onRedis_pg)
  show "pgKept st (countPeriod h R pfx now u sub e limits t st')"
    using prep assms by (auto simp: countPeriod_def Let_def pgKept_def split: prod.splits sum.splits dest!: onRedis_pg)
  show "pgKept st (countDay R pfx now u e limits t st')"
    using assms by (auto simp: countDay_def Let_def split: prod.splits sum.splits dest!: onRedis_pg intro!: refuse_kept) (simp add: pgKept_def)
  show "pgKept st (countFreeRPM R pfx now u m t st')" "pgKept st (countFreeRPD R pfx now u m t st')"
    using assms by (auto simp: countFreeRPM_def countFreeRPD_def split: prod.splits sum.splits option.splits dest!: onRedis_pg intro!: refuse_kept)
      (simp_all add: pgKept_def)
qed

lemma fst_applyPreRequestLimits:
  assumes "applyPreRequestLimits h now key sub limits m st = (st1, x)" shows "fst st1 = fst st"
proof (cases "ghRateLimit h")
  case None
  then show ?thesis using assms by (simp add: applyPreRequestLimits_def)
next
  case (Some rl)
  obtain R pfx where rl: "rl = (R, pfx)" by fastforce
  have start: "pgKept st (st, Inr t)" for t by (simp add: pgKept_def)
  note step = nextCount_kept [OF _ counts_kept(1)] nextCount_kept [OF _ counts_kept(2)]
    nextCount_kept [OF _ counts_kept(3)] nextCount_kept [OF _ counts_kept(4)]
  define p where "p b1 b2 b3 b4 e n = nextCount (nextCount (nextCount (nextCount (st, Inr (newTracker (R, pfx) (akGenfityUserID key) m)) b1
      (countPeriod h R pfx now (akGenfityUserID key) sub e limits)) b2 (countDay R pfx now (akGenfityUserID key) e limits))
      b3 (countFreeRPM R pfx now (akGenfityUserID key) n)) b4 (countFreeRPD R pfx now (akGenfityUserID key) n)" for b1 b2 b3 b4 e n
  have kept: "pgKept st (p b1 b2 b3 b4 e n)" for b1 b2 b3 b4 e n
    unfolding p_def by (rule step(4) [OF step(3) [OF step(2) [OF step(1) [OF start]]]])
  obtain b1 b2 b3 b4 e n where "(case p b1 b2 b3 b4 e n of (st', Inl out) \<Rightarrow> (st', out) | (st', Inr t) \<Rightarrow> (st', ([], 0, Some t))) = (st1, x)"
    using assms Some rl unfolding applyPreRequestLimits_def Let_def p_def by auto
  then show ?thesis using kept [of b1 b2 b3 b4 e n] by (auto simp: pgKept_def split: prod.splits sum.splits)
qed

lemma opening_pg:
  assumes "openCompletion E q st = (st1, x)"
  shows "ledgerOnly (fst st) (fst st1)" "x = Inr ad \<Longrightarrow> fst st1 = fst st"
proof -
  have read: "readCompletion q st = (st', y) \<Longrightarrow> ledgerOnly (fst st) (fst st') \<and> (\<forall>p. y = Inr p \<longrightarrow> st' = st)" for st' y
    by (auto simp: readCompletion_def Let_def recordFailed_ledger replied_def failWith_def split: option.splits if_splits)
  have sub: "subscriptionFor E q payload st' = (st'', y) \<Longrightarrow> ledgerOnly (fst st') (fst st'') \<and> (\<forall>p. y = Inr p \<longrightarrow> fst st'' = fst st')"
    for payload st' st'' y
    unfolding subscriptionFor_def Let_def
    by (auto simp: replied_def failWith_def split: prod.splits sum.splits if_splits dest!: fst_resolveSubscription)
      (metis recordFailed_ledger(2))+
  have route: "routeFor E q payload sb st' = (st'', y) \<Longrightarrow> ledgerOnly (fst st') (fst st'') \<and> (\<forall>p. y = Inr p \<longrightarrow> fst st'' = fst st')"
    for payload sb st' st'' y
    unfolding routeFor_def Let_def
    by (auto simp: replied_def failWith_def split: prod.splits sum.splits if_splits dest!: fst_checkRequestRate fst_applyPreRequestLimits)
      (metis recordFailed_ledger(2))+
  have "ledgerOnly (fst st) (fst st1) \<and> (\<forall>ad. x = Inr ad \<longrightarrow> fst st1 = fst st)"
    using assms unfolding openCompletion_def orReply_def
    by (auto split: prod.splits sum.splits dest!: read sub route)
  then show "ledgerOnly (fst st) (fst st1)" "x = Inr ad \<Longrightarrow> fst st1 = fst st" by blast+
qed

section \<open>What a credit reservation holds\<close>

text \<open>Every number of tokens (an \<^verbatim>\<open>int64\<close>) costs a positive finite amount at this price.\<close>

definition pricesEvery :: "float64 \<Rightarrow> bool" where
  "pricesEvery price \<longleftrightarrow> (\<forall>t. 1 \<le> t \<and> t < 2 ^ 63 \<longrightarrow> (\<exists>c > 0. calculateActualRequestCredits price t = Fin c))"

definition costsPriced :: "pg_state \<Rightarrow> bool" where
  "costsPriced s \<longleftrightarrow> (\<forall>cost \<in> set (pgCosts s). let price = parseFloatPtr (Some (mcCreditsPerReq cost)) in
     \<not> mcIsFree cost \<and> \<not> fle price fzero \<longrightarrow> pricesEvery price)"

text \<open>What the driver does with the amounts of this code: rounded credits come out with four decimals.\<close>

definition creditDriver :: "(float64 \<Rightarrow> rat option) \<Rightarrow> bool" where
  "creditDriver N \<longleftrightarrow> (\<forall>x v. N (roundCredits x) = Some v \<longrightarrow> onGrid 4 v)"

definition creditHold :: "(float64 \<Rightarrow> rat option) \<Rightarrow> string \<Rightarrow> rat \<Rightarrow> rat \<Rightarrow> runtimeReservation \<Rightarrow> pg_state \<Rightarrow> bool" where
  "creditHold N u b r res s \<longleftrightarrow> pgOk s \<and> isGrant ''credit'' (res, 0, []) \<and> rrPeriodStart res = zeroTime \<and> rrPeriodEnd res = zeroTime
     \<and> ((rrRequestCredits res = fzero \<and> rrCreditPricePer20k res = fzero \<and> creditAccount u s = Some (b, r))
        \<or> (\<exists>p v. rrRequestCredits res = Fin p \<and> 0 < p \<and> N (Fin p) = Some v \<and> onGrid 4 v
              \<and> pricesEvery (rrCreditPricePer20k res) \<and> creditAccount u s = Some (b, r + v)))"

lemma creditHold_keeps [simp]:
  "creditHold N u b r res (s\<lparr>pgLedger := rows\<rparr>) = creditHold N u b r res s"
  "creditHold N u b r res (s\<lparr>pgQuotas := rows'\<rparr>) = creditHold N u b r res s"
  by (simp_all add: creditHold_def)

lemma calculate_rounded: "calculateActualRequestCredits price t = Fin c \<Longrightarrow> 0 < c \<Longrightarrow> \<exists>x. Fin c = roundCredits x"
  by (auto simp: calculateActualRequestCredits_def Let_def split: if_splits) metis

lemma quoted_positive:
  assumes "pricesEvery price" "\<not> fle price fzero" "teTotalTokens est < 2 ^ 63"
  obtains p x where "estimateReservedRequestCredits price est = Fin p" "0 < p" "Fin p = roundCredits x"
proof -
  let ?t = "if teTotalTokens est \<le> 0 then creditBillingBucketTokens else teTotalTokens est"
  have "1 \<le> ?t \<and> ?t < 2 ^ 63" using assms(3) by (simp add: creditBillingBucketTokens_def)
  then obtain p where "0 < p" "calculateActualRequestCredits price ?t = Fin p" using assms(1) unfolding pricesEvery_def by blast
  moreover obtain x where "Fin p = roundCredits x" using calculate_rounded calculation by blast
  ultimately show thesis using that [of p x] assms(2) by (simp add: estimateReservedRequestCredits_def)
qed

lemma estimate_bounded: "teTotalTokens (estimateRequestTokens payload m) < 2 ^ 63"
proof -
  have "wrap64 x < 2 ^ 63" for x by (simp add: wrap64_def)
  then show ?thesis by (simp add: estimateRequestTokens_def Let_def split: prod.split)
qed

lemma cost_listed: "GetModelCreditCost m s = Inr (Some cost) \<Longrightarrow> cost \<in> set (pgCosts s)"
  by (auto simp: GetModelCreditCost_def pgRead_def firstRow_def find_Some_iff split: option.splits sum.splits if_splits)

lemma reserveCredit_price:
  assumes "reserveCredit h now key m est st = (st1, (res, 0, code))"
  shows "(rrRequestCredits res = fzero \<and> rrCreditPricePer20k res = fzero \<and> st1 = st)
    \<or> (\<exists>cost \<in> set (pgCosts (fst st)). \<not> mcIsFree cost \<and> rrCreditPricePer20k res = parseFloatPtr (Some (mcCreditsPerReq cost))
         \<and> \<not> fle (rrCreditPricePer20k res) fzero \<and> rrRequestCredits res = estimateReservedRequestCredits (rrCreditPricePer20k res) est)"
  using assms
  by (auto simp: reserveCredit_def Let_def refused_def granted_def zeroReservation_def split: if_splits sum.splits option.splits prod.splits dest: cost_listed)

lemma credit_reserved:
  assumes N: "pg_numeric (ghNum h)" "creditDriver (ghNum h)" and key: "keySource key = ''credit''" "akGenfityUserID key = u"
    and s: "pgOk (fst st)" "costsPriced (fst st)" "creditAccount u (fst st) = Some (b, r)"
    and run: "reserveRuntimeLimits h now key sub limits payload (Some m) st = (st1, out)"
  shows "(\<exists>res status code. out = Inr (res, status, code) \<and> status \<noteq> 0 \<and> fst st1 = fst st)
    \<or> (\<exists>res. out = Inr (res, 0, []) \<and> creditHold (ghNum h) u b r res (fst st1) \<and> (\<exists>ents. fst st1 = (fst st)\<lparr>pgEnts := ents\<rparr>))"
proof (rule reserveRuntimeLimits_out [of h now key sub limits payload m st])
  fix st1' status code
  assume "reserveRuntimeLimits h now key sub limits payload (Some m) st = (st1', Inr (refused status code))" "status \<noteq> 0" "fst st1' = fst st"
  then show ?thesis using run by (simp add: refused_def)
next
  fix st2 st3 out'
  assume a: "reserveRuntimeLimits h now key sub limits payload (Some m) st = (st3, Inr out')" "fst st2 = fst st"
    "tryPriorityBilling h now key sub (Some m) (estimateRequestTokens payload (Some m)) st2 = (st3, out')"
  let ?est = "estimateRequestTokens payload (Some m)"
  have rc: "reserveCredit h now key m ?est st2 = (st1, out')" and out: "out = Inr out'"
    using a run key by (simp_all add: tryPriorityBilling_def)
  show ?thesis
  proof (rule reserveCredit_out [of h now key m ?est st2])
    fix status code assume "reserveCredit h now key m ?est st2 = (st2, refused status code)" "status \<noteq> 0"
    then show ?thesis using rc out a(2) by (simp add: refused_def)
  next
    assume "reserveCredit h now key m ?est st2 = (st2, granted (zeroReservation\<lparr>rrBillingMode := ''credit_package''\<rparr>))"
    then have "st1 = st2" "out = Inr (zeroReservation\<lparr>rrBillingMode := ''credit_package''\<rparr>, 0, [])" using rc out by (simp_all add: granted_def)
    then show ?thesis
      using a(2) s by (auto simp: creditHold_def isGrant_def noPlanUse_def zeroReservation_def intro: exI [of _ "pgEnts (fst st)"])
  next
    fix s1 c price
    let ?res = "zeroReservation\<lparr>rrBillingMode := ''credit_package'', rrRequestCredits := c, rrCreditPricePer20k := price\<rparr>"
    assume g: "reserveCredit h now key m ?est st2 = ((s1, snd st2), granted ?res)"
      "ReserveRequestCredits (ghNum h) now (akGenfityUserID key) c (fst st2) = (s1, Inr ())" "c = estimateReservedRequestCredits price ?est"
    have o: "st1 = (s1, snd st2)" "out = Inr (?res, 0, [])" using rc out g(1) by (simp_all add: granted_def)
    have "reserveCredit h now key m ?est st2 = ((s1, snd st2), (?res, 0, []))" using g(1) by (simp add: granted_def)
    from reserveCredit_price [OF this] have pr: "(c = fzero \<and> price = fzero \<and> s1 = fst st2) \<or> (pricesEvery price \<and> \<not> fle price fzero)"
      using s(2) a(2) by (cases st2) (auto simp: costsPriced_def Let_def)
    have frame: "s1 = (fst st)\<lparr>pgEnts := pgEnts s1\<rparr>" using reserve_balance_frame(1) [OF g(2) refl] a(2) by simp
    show ?thesis
    proof (cases "c = fzero \<and> price = fzero \<and> s1 = fst st2")
      case True
      then have "creditHold (ghNum h) u b r ?res s1" using a(2) s by (simp add: creditHold_def isGrant_def noPlanUse_def)
      then show ?thesis using o frame by (metis fst_conv)
    next
      case False
      then have paid: "pricesEvery price" "\<not> fle price fzero" using pr by auto
      obtain p x where p: "c = Fin p" "0 < p" and x: "Fin p = roundCredits x" using quoted_positive [OF paid estimate_bounded, of payload "Some m"] g(3) by metis
      obtain v where v: "ghNum h (Fin p) = Some v" using pg_numeric.num_pos [OF N(1) p(2)] by blast
      have acct: "balance_account (\<lambda>now. ReserveRequestCredits (ghNum h) now u) (\<lambda>now. FinalizeRequestCredits (ghNum h) now u) (creditAccount u) pgOk (ghNum h) 4"
        by (rule credit_account [OF N(1)])
      have res: "ReserveRequestCredits (ghNum h) now u (Fin p) (fst st) = (s1, Inr ())" using g(2) a(2) key(2) p(1) by simp
      have fits: "v \<le> b - r" using balance_account.reserve_iff [OF acct s(1,3) p(2) v, of now] res by simp
      then have s1: "pgOk s1" "creditAccount u s1 = Some (b, toScale 4 (r + v))"
        using balance_account.reserve_enough [OF acct s(1,3) p(2) v, of now] res by auto
      have gv: "onGrid 4 v" using N(2) v x unfolding creditDriver_def by metis
      have "onGrid 4 r" using balance_account.account_wf [OF acct s(1,3)] by simp
      then have "toScale 4 (r + v) = r + v" using gv by (simp add: onGrid_add)
      then have "creditHold (ghNum h) u b r ?res s1"
        using s1 p v gv paid(1) by (auto simp: creditHold_def isGrant_def noPlanUse_def)
      then show ?thesis using o frame by auto
    qed
  qed
qed

section \<open>Settling it\<close>

text \<open>The durable counter has room for the tokens of one request.\<close>

definition roomy :: "string \<Rightarrow> pg_state \<Rightarrow> bool" where
  "roomy u s \<longleftrightarrow> quotaState s \<and> (case quotaOf u zeroTime zeroTime s of (x, y, z) \<Rightarrow> x < 2 ^ 62 \<and> in64 (z + 1))"

definition fitting :: "int \<Rightarrow> bool" where
  "fitting t \<longleftrightarrow> 0 \<le> t \<and> t < 2 ^ 62"

lemma roomy_keeps [simp]: "roomy u (s\<lparr>pgLedger := rows\<rparr>) = roomy u s" "roomy u (s\<lparr>pgEnts := ents\<rparr>) = roomy u s"
  by (simp_all add: roomy_def quotaState_def pgUp_def quotaOf_def)

lemma roomy_countable: "roomy u s \<Longrightarrow> fitting (chargedTokens settle) \<Longrightarrow> countable u settle s"
  using quotaOf_nonneg [of s u zeroTime zeroTime] by (auto simp: roomy_def countable_def fitting_def in64_def split: prod.splits)

text \<open>After an exit: nothing was posted and the account is as before, or one debit was posted and the balance fell by it.\<close>

definition accounted :: "(float64 \<Rightarrow> rat option) \<Rightarrow> string \<Rightarrow> rat \<Rightarrow> rat \<Rightarrow> UsageDebitPayload list \<Rightarrow> pg_state \<Rightarrow> bool" where
  "accounted N u b r posts s \<longleftrightarrow>
     (posts = [] \<and> creditAccount u s = Some (b, r))
     \<or> (\<exists>d w. posts = [d] \<and> udUserID d = u \<and> N (udAmountCredits d) = Some w \<and> 0 < w
          \<and> creditAccount u s = Some (toScale 4 (max (b - min w b) 0), r))"

lemma accounted_ledger [simp]: "accounted N u b r posts (s\<lparr>pgLedger := rows\<rparr>) = accounted N u b r posts s"
  by (simp add: accounted_def)

lemma finalize_hold:
  assumes N: "pg_numeric (ghNum h)" and key: "akGenfityUserID key = u" and hold: "creditHold (ghNum h) u b r res s" and room: "countable u settle s"
    and c: "chargedCredits settle = Fin c" "0 \<le> c" "ghNum h (Fin c) = Some w" "rrCreditPricePer20k res = fzero \<Longrightarrow> c = 0"
    and wf: "0 \<le> b" "onGrid 4 b" "0 \<le> r"
  obtains s' where "finalizeRuntimeReservation h now key res settle (s, rd) = ((s', rd), Inr ())"
    "creditAccount u s' = Some (toScale 4 (max (b - min w b) 0), r)"
proof -
  have g: "noPlanUse res" "rrCreditUSD res = fzero" "rrPaygUSD res = fzero" "rrPeriodStart res = zeroTime" "rrPeriodEnd res = zeroTime" "pgOk s"
    using hold by (simp_all add: creditHold_def isGrant_def)
  have room': "countable (akGenfityUserID key) settle s" using room key by simp
  show thesis
  proof (rule finalize_balances [OF room' g(1,4,5,2), of h now rd])
    fix rows
    assume f: "finalizeRuntimeReservation h now key res settle (s, rd) =
        andThen (whenDo (flt fzero (rrRequestCredits res))
          (onPg (FinalizeRequestCredits (ghNum h) now (akGenfityUserID key) (rrRequestCredits res) (chargedCredits settle))) (s\<lparr>pgQuotas := rows\<rparr>, rd))
        (whenDo (flt fzero (rrPaygUSD res)) (onPg (FinalizePaygUsdBalance (ghNum h) now (akGenfityUserID key) (rrPaygUSD res) (chargedUSD settle))))"
    have hold': "creditHold (ghNum h) u b r res (s\<lparr>pgQuotas := rows\<rparr>)" using hold by simp
    show thesis
    proof (cases "rrRequestCredits res = fzero \<and> rrCreditPricePer20k res = fzero \<and> creditAccount u s = Some (b, r)")
      case True
      have "w = 0" using c(3,4) True pg_numeric.num_zero [OF N] by simp
      then have "toScale 4 (max (b - min w b) 0) = b" using wf by (simp add: min_def)
      then show thesis using that [of "s\<lparr>pgQuotas := rows\<rparr>"] f g(3) True by simp
    next
      case False
      then obtain p v where p: "rrRequestCredits res = Fin p" "0 < p" "ghNum h (Fin p) = Some v" "creditAccount u s = Some (b, r + v)"
        using hold by (auto simp: creditHold_def)
      have acc: "creditAccount u (s\<lparr>pgQuotas := rows\<rparr>) = Some (b, r + v)" "pgOk (s\<lparr>pgQuotas := rows\<rparr>)" using p(4) g(6) by simp_all
      obtain s' where s': "FinalizeRequestCredits (ghNum h) now u (Fin p) (Fin c) (s\<lparr>pgQuotas := rows\<rparr>) = (s', Inr ())"
          "creditAccount u s' = Some (toScale 4 (max (b - min w b) 0), toScale 4 (max r 0))"
        using balance_account.finalize_account [OF credit_account [OF N, of u] acc(2,1) less_imp_le [OF p(2)] c(2) p(3) c(3), of now]
        by (metis add_diff_cancel_right' prod.collapse)
      moreover have "toScale 4 (max r 0) = r"
        using balance_account.account_wf [OF credit_account [OF N, of u] g(6) p(4)] hold wf(3) p
        by (auto simp: creditHold_def) (metis add_diff_cancel_right' onGrid_diff toScale_onGrid max_absorb1)
      ultimately show thesis using that [of s'] f g(3) p(1,2) key c(1) by (simp add: onPg_eq)
    qed
  qed
qed

lemma accounted_free:
  "0 \<le> b \<Longrightarrow> onGrid 4 b \<Longrightarrow> toScale 4 (max (b - min 0 b) 0) = b"
  by (simp add: min_def)

lemma settledCredits_hold:
  assumes "creditHold N u b r res s" "umTotalTokens m < 2 ^ 63"
  obtains c where "settledCredits (Some res) charge m = Fin c" "0 \<le> c" "rrCreditPricePer20k res = fzero \<Longrightarrow> c = 0"
proof -
  have mode: "rrBillingMode res = ''credit_package''" using assms(1) by (simp add: creditHold_def isGrant_def)
  define t1 where "t1 = (if umTotalTokens m \<le> 0 then wrap64 (umPromptTokens m + umCompletionTokens m) else umTotalTokens m)"
  define t where "t = (if t1 \<le> 0 then 1 else t1)"
  have "wrap64 x < 2 ^ 63" for x by (simp add: wrap64_def)
  then have t: "1 \<le> t \<and> t < 2 ^ 63" using assms(2) by (simp add: t_def t1_def)
  have eq: "settledCredits (Some res) charge m = (if charge \<and> flt fzero (rrCreditPricePer20k res)
      then calculateActualRequestCredits (rrCreditPricePer20k res) t else fzero)"
    using mode by (simp add: settledCredits_def t_def t1_def Let_def)
  show thesis
  proof (cases "charge \<and> flt fzero (rrCreditPricePer20k res)")
    case False
    then have "settledCredits (Some res) charge m = Fin 0" unfolding eq by auto
    then show thesis using that [of 0] by simp
  next
    case True
    then have "pricesEvery (rrCreditPricePer20k res)" using assms(1) by (auto simp: creditHold_def)
    then obtain c where "0 < c" "calculateActualRequestCredits (rrCreditPricePer20k res) t = Fin c" using t unfolding pricesEvery_def by blast
    moreover have "rrCreditPricePer20k res \<noteq> fzero" using True by auto
    ultimately show thesis using that [of c] True eq by (simp add: less_imp_le)
  qed
qed

lemma zero_released:
  assumes N: "pg_numeric (ghNum h)" and key: "akGenfityUserID key = u" and hold: "creditHold (ghNum h) u b r res s" and room: "roomy u s"
    and settle: "\<not> usChargeUsage settle" and wf: "0 \<le> b" "onGrid 4 b" "0 \<le> r"
  obtains s' where "finalizeRuntimeReservation h now key res settle (s, rd) = ((s', rd), Inr ())" "creditAccount u s' = Some (b, r)"
proof -
  have t: "countable u settle s" using room settle by (intro roomy_countable) (simp_all add: chargedTokens_def fitting_def)
  show thesis
    by (rule finalize_hold [OF N key hold t, of 0 0 now rd])
      (use that settle wf accounted_free pg_numeric.num_zero [OF N] in \<open>simp_all add: chargedCredits_def\<close>)
qed

lemma recordUsage_out:
  obtains (failed) e where "recordUsage now q (Some res) s = (s, Inl e)"
  | (done') rows where "recordUsage now q (Some res) s = (s\<lparr>pgLedger := rows\<rparr>, Inr (settlementOf q (Some res) s))"
proof (cases "recordUsage now q (Some res) s")
  case (Pair s1 x)
  show thesis
  proof (cases x)
    case (Inl e)
    then have "s1 = s" using Pair AppendUsage_Inl by (auto simp: recordUsage_def split: prod.splits sum.splits)
    then show thesis using failed Pair Inl by simp
  next
    case (Inr settle)
    show thesis by (rule recordUsage_Inr [OF Pair [unfolded Inr]]) (use done' Pair Inr in auto)
  qed
qed

lemma settlement_tokens:
  "usTotalTokens (settlementOf q res s) = umTotalTokens (parseUsageFromBody (srBody q))"
  "usActualCredits (settlementOf q res s) = settledCredits res (usChargeUsage (settlementOf q res s)) (parseUsageFromBody (srBody q))"
  by (simp_all add: settlementOf_def Let_def split: prod.split)

lemma settled_accounted:
  assumes N: "pg_numeric (ghNum h)" and key: "akGenfityUserID (srKey q) = u" and hold: "creditHold (ghNum h) u b r res (fst st)"
    and room: "roomy u (fst st)" "fitting (umTotalTokens (parseUsageFromBody (srBody q)))"
    and wf: "0 \<le> b" "onGrid 4 b" "0 \<le> r" and cb: "Enabled cb"
  shows "\<exists>st' x posts. recordAndFinalizeRuntime h cb now q res st = (st', x, posts) \<and> accounted (ghNum h) u b r posts (fst st')"
proof (rule recordUsage_out [of now q res "fst st"])
  fix e assume rec: "recordUsage now q (Some res) (fst st) = (fst st, Inl e)"
  obtain s' where "finalizeRuntimeReservation h now (srKey q) res zeroSettlement (fst st, snd st) = ((s', snd st), Inr ())" "creditAccount u s' = Some (b, r)"
    by (rule zero_released [OF N key hold room(1) _ wf, of zeroSettlement now "snd st"]) (simp_all add: zeroSettlement_def)
  then show ?thesis using rec by (simp add: recordAndFinalizeRuntime_def onPg_eq accounted_def)
next
  fix rows assume rec: "recordUsage now q (Some res) (fst st) = ((fst st)\<lparr>pgLedger := rows\<rparr>, Inr (settlementOf q (Some res) (fst st)))"
  define settle where "settle = settlementOf q (Some res) (fst st)"
  obtain c where c: "usActualCredits settle = Fin c" "0 \<le> c" "rrCreditPricePer20k res = fzero \<Longrightarrow> c = 0"
    using settledCredits_hold [OF hold, of "parseUsageFromBody (srBody q)" "usChargeUsage settle"] settlement_tokens(2) settle_def room(2)
    by (auto simp: fitting_def)
  obtain w where w: "ghNum h (Fin c) = Some w" "0 \<le> w" using pg_numeric.num_finite [OF N c(2)] by blast
  have free: "\<not> usChargeUsage settle \<Longrightarrow> usActualCredits settle = fzero" using usActual_zero settle_def by metis
  have cc: "chargedCredits settle = Fin c" using free c(1) by (auto simp: chargedCredits_def)
  have can: "countable u settle ((fst st)\<lparr>pgLedger := rows\<rparr>)"
    using room by (intro roomy_countable) (auto simp: chargedTokens_def settle_def settlement_tokens fitting_def)
  have hold': "creditHold (ghNum h) u b r res ((fst st)\<lparr>pgLedger := rows\<rparr>)" using hold by simp
  obtain s' where f: "finalizeRuntimeReservation h now (srKey q) res settle ((fst st)\<lparr>pgLedger := rows\<rparr>, snd st) = ((s', snd st), Inr ())"
      "creditAccount u s' = Some (toScale 4 (max (b - min w b) 0), r)"
    by (rule finalize_hold [OF N key hold' can cc c(2) w(1) c(3) wf, of now "snd st"]) simp
  define st' where "st' = (if flt fzero (rrRequestCredits res) \<or> flt fzero (rrPaygUSD res) \<or> flt fzero (rrCreditUSD res)
      then InvalidateUser (ghEnt h) u (s', snd st) else (s', snd st))"
  have run: "recordAndFinalizeRuntime h cb now q res st = (st', Inr settle, usageDebits cb q res settle)"
    using rec f(1) key by (simp add: recordAndFinalizeRuntime_def onPg_eq settle_def [symmetric] st'_def)
  have s': "fst st' = s'" by (simp add: st'_def)
  have mode: "rrBillingMode res = ''credit_package''" using hold by (simp add: creditHold_def isGrant_def)
  have "accounted (ghNum h) u b r (usageDebits cb q res settle) s'"
  proof (cases "0 < c")
    case True
    then have ch: "usChargeUsage settle" using free c(1) by auto
    obtain v where "ghNum h (Fin c) = Some v" "0 < v" using pg_numeric.num_pos [OF N True] by blast
    then have "0 < w" using w(1) by simp
    then show ?thesis using ch True mode c(1) w(1) f(2) key cb by (simp add: accounted_def usageDebits_def Let_def)
  next
    case False
    then have "c = 0" using c(2) by simp
    moreover have "w = 0" using w(1) \<open>c = 0\<close> pg_numeric.num_zero [OF N] by simp
    ultimately show ?thesis using mode c(1) f(2) wf accounted_free by (simp add: accounted_def usageDebits_def Let_def)
  qed
  then show ?thesis using run s' by simp
qed

section \<open>Serving it\<close>

text \<open>The bodies a handler may settle an answer by: the whole, the whole without leading blanks, the captured tail of what was read.\<close>

definition seenBodies :: "string list \<Rightarrow> string set" where
  "seenBodies reads = {concat reads, dropWhile isKeepaliveByte (concat reads)} \<union> range (\<lambda>k. lastN maxStreamCaptureBytes (concat (take k reads)))"

definition tokensFit :: "'r endpoint \<Rightarrow> bool" where
  "tokensFit E \<longleftrightarrow> (\<forall>base path p status reads. epUpstream E base path p = Answer status reads \<longrightarrow>
     (\<forall>body \<in> seenBodies reads. fitting (umTotalTokens (parseUsageFromBody body))))"

lemma capture_positive: "0 < maxStreamCaptureBytes"
  by (simp add: maxStreamCaptureBytes_def)

lemma forwardLoop_body:
  "captured = lastN maxStreamCaptureBytes pre \<Longrightarrow>
   \<exists>k. sfBody (fst (forwardLoop pm up n captured b out reads)) = lastN maxStreamCaptureBytes (pre @ concat (take k reads))"
proof (induction reads arbitrary: n captured b out pre)
  case Nil
  then show ?case by (simp add: split: prod.split)
next
  case (Cons chunk reads)
  show ?case
  proof (cases "chunk = []")
    case True
    obtain k where "sfBody (fst (forwardLoop pm up n captured b out reads)) = lastN maxStreamCaptureBytes (pre @ concat (take k reads))"
      using Cons.IH [OF Cons.prems] by blast
    then show ?thesis using True by (auto intro!: exI [of _ "Suc k"])
  next
    case False
    define captured' where "captured' = captureWrite maxStreamCaptureBytes captured chunk"
    have c: "captured' = lastN maxStreamCaptureBytes (pre @ chunk)"
      using captureWrite_tail [OF capture_positive] Cons.prems by (simp add: captured'_def)
    have later: "\<exists>k. sfBody (fst (forwardLoop pm up n' captured' b' out' reads)) = lastN maxStreamCaptureBytes (pre @ concat (take k (chunk # reads)))"
      for n' b' out'
    proof -
      obtain k where "sfBody (fst (forwardLoop pm up n' captured' b' out' reads)) = lastN maxStreamCaptureBytes ((pre @ chunk) @ concat (take k reads))"
        using Cons.IH [OF c] by blast
      then show ?thesis by (intro exI [of _ "Suc k"]) simp
    qed
    have now: "\<exists>k. captured' = lastN maxStreamCaptureBytes (pre @ concat (take k (chunk # reads)))"
      using c by (intro exI [of _ 1]) simp
    show ?thesis using False later now by (auto simp: Let_def captured'_def [symmetric] split: prod.split)
  qed
qed

lemma stream_body_seen: "sfBody (fst (streamUpstreamResponse pm protocol up reads)) \<in> seenBodies reads"
  using forwardLoop_body [of "[]" "[]"] by (fastforce simp: streamUpstreamResponse_def seenBodies_def)

text \<open>Served: settled with the books right, or not settled and still held.\<close>

definition servedRight :: "(float64 \<Rightarrow> rat option) \<Rightarrow> string \<Rightarrow> rat \<Rightarrow> rat \<Rightarrow> runtimeReservation \<Rightarrow> 'r served \<Rightarrow> bool" where
  "servedRight N u b r res sv = (case sv of (st, posts, settled, counters, reply) \<Rightarrow>
     if settled then accounted N u b r posts (fst st)
     else posts = [] \<and> creditHold N u b r res (fst st) \<and> roomy u (fst st))"

lemma toSettle_simps [simp]: "srKey (toSettle q ad status body ps) = rqKey q" "srBody (toSettle q ad status body ps) = body"
  by (simp_all add: toSettle_def)

lemma empty_body_tokens: "umTotalTokens (parseUsageFromBody []) = 0"
  by code_simp

definition heldRequest :: "'r endpoint \<Rightarrow> gwRequest \<Rightarrow> string \<Rightarrow> rat \<Rightarrow> rat \<Rightarrow> runtimeReservation \<Rightarrow> 'r gwState \<Rightarrow> bool" where
  "heldRequest E q u b r res st \<longleftrightarrow> pg_numeric (ghNum (epHandler E)) \<and> Enabled (epCallback E) \<and> akGenfityUserID (rqKey q) = u
     \<and> creditHold (ghNum (epHandler E)) u b r res (fst st) \<and> roomy u (fst st) \<and> 0 \<le> b \<and> onGrid 4 b \<and> 0 \<le> r"

lemma runtime_accounted:
  assumes "heldRequest E q u b r res st" "fitting (umTotalTokens (parseUsageFromBody body))"
  obtains st' x posts where "recordAndFinalizeRuntime (epHandler E) (epCallback E) now (toSettle q ad status body ps) res st = (st', x, posts)"
    "accounted (ghNum (epHandler E)) u b r posts (fst st')"
  using settled_accounted [of "epHandler E" "toSettle q ad status body ps" u b r res st "epCallback E" now] assms
  by (auto simp: heldRequest_def)

lemma served_stream:
  assumes "heldRequest E q u b r res st" "\<forall>body \<in> seenBodies reads. fitting (umTotalTokens (parseUsageFromBody body))"
  shows "servedRight (ghNum (epHandler E)) u b r res (serveStream E q protocol ad res status reads st)"
proof -
  obtain forward out where f: "streamUpstreamResponse (adPublicModel ad) protocol (rqUp q) reads = (forward, out)" by fastforce
  have fit: "fitting (umTotalTokens (parseUsageFromBody (sfBody forward)))"
    using assms(2) stream_body_seen [of "adPublicModel ad" protocol "rqUp q" reads] f by auto
  let ?code = "if sfWriteFailed forward then statusClientClosedRequest else settlementStatus (rqCancelled q) status (sfBody forward)"
  obtain st' x posts where "recordAndFinalizeRuntime (epHandler E) (epCallback E) (rqThen q)
      (toSettle q ad ?code (sfBody forward) (sfProviderStarted forward)) res st = (st', x, posts)"
      "accounted (ghNum (epHandler E)) u b r posts (fst st')"
    by (rule runtime_accounted [OF assms(1) fit])
  then show ?thesis using f by (simp add: serveStream_def Let_def servedRight_def)
qed

lemma served_async:
  assumes "heldRequest E q u b r res st" "\<forall>body \<in> seenBodies reads. fitting (umTotalTokens (parseUsageFromBody body))"
  shows "servedRight (ghNum (epHandler E)) u b r res (servePlain E q render ad res status reads st)"
    "servedRight (ghNum (epHandler E)) u b r res (serveErrorAsync E q ad res status reads st)"
proof -
  have fit: "fitting (umTotalTokens (parseUsageFromBody body))" if "body \<in> {concat reads, dropWhile isKeepaliveByte (concat reads)}" for body
    using that assms(2) by (auto simp: seenBodies_def)
  have async: "\<exists>st' posts. recordAndFinalizeAsync E q (toSettle q ad code body True) res st = (st', posts)
      \<and> accounted (ghNum (epHandler E)) u b r posts (fst st')" if "body \<in> {concat reads, dropWhile isKeepaliveByte (concat reads)}" for code body
    by (rule runtime_accounted [OF assms(1) fit [OF that], where now = "rqThen q" and ad = ad and status = code and ps = True])
      (simp add: recordAndFinalizeAsync_def)
  show "servedRight (ghNum (epHandler E)) u b r res (servePlain E q render ad res status reads st)"
    using async [of "dropWhile isKeepaliveByte (concat reads)" "settlementStatus (rqCancelled q) status (dropWhile isKeepaliveByte (concat reads))"]
    by (auto simp: servePlain_def readBodyWithKeepalive_def Let_def servedRight_def split: prod.splits)
  show "servedRight (ghNum (epHandler E)) u b r res (serveErrorAsync E q ad res status reads st)"
    using async [of "concat reads" status] by (auto simp: serveErrorAsync_def Let_def servedRight_def split: prod.splits)
qed

lemma served_none:
  assumes "heldRequest E q u b r res st"
  shows "servedRight (ghNum (epHandler E)) u b r res (serveNone E q ad res st)"
proof -
  have a: "pg_numeric (ghNum (epHandler E))" "akGenfityUserID (rqKey q) = u" "creditHold (ghNum (epHandler E)) u b r res (fst st)"
    "roomy u (fst st)" "0 \<le> b" "onGrid 4 b" "0 \<le> r" using assms by (simp_all add: heldRequest_def)
  obtain s' where "finalizeRuntimeReservation (epHandler E) (rqThen q) (rqKey q) res (zeroSettlement\<lparr>usCountRequest := True\<rparr>) (fst st, snd st)
      = ((s', snd st), Inr ())" "creditAccount u s' = Some (b, r)"
    by (rule zero_released [OF a(1-4) _ a(5-7), of "zeroSettlement\<lparr>usCountRequest := True\<rparr>" "rqThen q" "snd st"]) (simp_all add: zeroSettlement_def)
  then show ?thesis by (simp add: serveNone_def servedRight_def accounted_def)
qed

lemma decided_free: "\<not> sdChargeUsage (decideSettlementBilling (Some res) False statusClientClosedRequest 0 False)"
  by (simp add: decideSettlementBilling_def Let_def)

lemma disconnect_uncharged:
  "\<not> usChargeUsage (settlementOf (q\<lparr>srStatus := statusClientClosedRequest, srBody := [], srProviderStarted := False\<rparr>) (Some res) s)"
proof -
  have "responseOutcome statusClientClosedRequest [] = (False, ''client_disconnected'')"
    by (simp add: responseOutcome_def statusClientClosedRequest_def)
  then show ?thesis using decided_free [of res] by (simp add: settlementOf_def Let_def empty_body_tokens)
qed

lemma served_disconnect:
  assumes "heldRequest E q u b r res st"
  shows "servedRight (ghNum (epHandler E)) u b r res (serveDisconnect E q ad res st)"
proof -
  have a: "pg_numeric (ghNum (epHandler E))" "akGenfityUserID (rqKey q) = u" "creditHold (ghNum (epHandler E)) u b r res (fst st)"
    "roomy u (fst st)" "0 \<le> b" "onGrid 4 b" "0 \<le> r" using assms by (simp_all add: heldRequest_def)
  define q' where "q' = (toSettle q ad statusClientClosedRequest [] False)\<lparr>srStatus := statusClientClosedRequest, srBody := [], srProviderStarted := False\<rparr>"
  have released: "\<exists>s'. finalizeRuntimeReservation (epHandler E) (rqThen q) (rqKey q) res settle (s, snd st) = ((s', snd st), Inr ()) \<and> creditAccount u s' = Some (b, r)"
    if "\<not> usChargeUsage settle" "creditHold (ghNum (epHandler E)) u b r res s" "roomy u s" for settle s
    by (rule zero_released [OF a(1,2) that(2,3,1) a(5-7), of "rqThen q" "snd st"]) blast
  have "creditAccount u (fst (fst (recordAndFinalizeClientDisconnect (epHandler E) (rqThen q) (toSettle q ad statusClientClosedRequest [] False) res st)))
      = Some (b, r)"
  proof (rule recordUsage_out [of "rqThen q" q' res "fst st"])
    fix e assume "recordUsage (rqThen q) q' (Some res) (fst st) = (fst st, Inl e)"
    moreover have "\<not> usChargeUsage zeroSettlement" by (simp add: zeroSettlement_def)
    ultimately show ?thesis
      using released [of zeroSettlement "fst st"] a(3,4) by (auto simp: recordAndFinalizeClientDisconnect_def q'_def [symmetric] onPg_eq)
  next
    fix rows assume "recordUsage (rqThen q) q' (Some res) (fst st) = ((fst st)\<lparr>pgLedger := rows\<rparr>, Inr (settlementOf q' (Some res) (fst st)))"
    then show ?thesis
      using released [of "settlementOf q' (Some res) (fst st)" "(fst st)\<lparr>pgLedger := rows\<rparr>"] a(3,4) disconnect_uncharged [of _ res "fst st"]
      by (auto simp: recordAndFinalizeClientDisconnect_def q'_def onPg_eq)
  qed
  then show ?thesis by (auto simp: serveDisconnect_def servedRight_def accounted_def split: prod.splits)
qed

lemma served_candidate:
  assumes held: "heldRequest E q u b r res st" and fit: "tokensFit E"
    and err: "\<And>status reads. \<forall>body \<in> seenBodies reads. fitting (umTotalTokens (parseUsageFromBody body))
      \<Longrightarrow> servedRight (ghNum (epHandler E)) u b r res (onError ad res status reads st)"
  shows "servedRight (ghNum (epHandler E)) u b r res (serveCandidate E q path protocol render onError ad res st)"
proof (cases "candidatePayload ad")
  case None
  then show ?thesis using held by (simp add: serveCandidate_def servedRight_def heldRequest_def)
next
  case (Some p)
  have "\<forall>body \<in> seenBodies reads. fitting (umTotalTokens (parseUsageFromBody body))" if "epUpstream E base path p = Answer status reads" for base status reads
    using fit that unfolding tokensFit_def by blast
  then show ?thesis
    using Some served_none [OF held] served_disconnect [OF held] served_stream [OF held] served_async [OF held] err
    by (auto simp: serveCandidate_def split: option.split upstreamAnswer.split)
qed

text \<open>The deferred calls finish what is not settled, and the two that work on Redis leave the books alone.\<close>

lemma finalizeUnsettled_accounted:
  assumes "heldRequest E q u b r res st" "servedRight (ghNum (epHandler E)) u b r res sv"
  shows "case finalizeUnsettled E q res sv of (st', posts, _) \<Rightarrow> accounted (ghNum (epHandler E)) u b r posts (fst st')"
proof -
  obtain st1 posts settled counters rp where sv: "sv = (st1, posts, settled, counters, rp)" by (metis prod_cases5)
  have a: "pg_numeric (ghNum (epHandler E))" "akGenfityUserID (rqKey q) = u" "0 \<le> b" "onGrid 4 b" "0 \<le> r"
    using assms(1) by (simp_all add: heldRequest_def)
  show ?thesis
  proof (cases settled)
    case True
    then show ?thesis using assms(2) sv by (simp add: finalizeUnsettled_def servedRight_def)
  next
    case False
    then have h: "posts = []" "creditHold (ghNum (epHandler E)) u b r res (fst st1)" "roomy u (fst st1)"
      using assms(2) sv by (simp_all add: servedRight_def)
    have need: "reservationNeedsFinalize res" using h(2) by (simp add: creditHold_def isGrant_def reservationNeedsFinalize_def)
    obtain s' where "finalizeRuntimeReservation (epHandler E) (rqThen q) (rqKey q) res zeroSettlement (fst st1, snd st1) = ((s', snd st1), Inr ())"
        "creditAccount u s' = Some (b, r)"
      by (rule zero_released [OF a(1,2) h(2,3) _ a(3-5), of zeroSettlement "rqThen q" "snd st1"]) (simp_all add: zeroSettlement_def)
    then show ?thesis using False need sv h(1) by (simp add: finalizeUnsettled_def accounted_def)
  qed
qed

lemma deferred_parts:
  "fst (fst (rollbackCounters q sv)) = fst (fst sv)" "fst (snd (rollbackCounters q sv)) = fst (snd sv)"
  "fst (fst (releaseSlot E q held sv)) = fst (fst sv)" "fst (snd (releaseSlot E q held sv)) = fst (snd sv)"
  by (simp_all add: rollbackCounters_def releaseSlot_def split: prod.split)

lemma acquireSlot_pg: "acquireSlot E q limits st = (st1, x) \<Longrightarrow> fst st1 = fst st"
  by (auto simp: acquireSlot_def split: option.splits if_splits dest: onRedis_pg)

lemma completion_accounted:
  assumes N: "pg_numeric (ghNum (epHandler E))" "creditDriver (ghNum (epHandler E))" and cb: "Enabled (epCallback E)"
    and key: "keySource (rqKey q) = ''credit''" "akGenfityUserID (rqKey q) = u"
    and s: "pgOk (fst st)" "costsPriced (fst st)" "roomy u (fst st)" "creditAccount u (fst st) = Some (b, r)"
    and serve: "\<And>ad res st3. heldRequest E q u b r res st3 \<Longrightarrow> servedRight (ghNum (epHandler E)) u b r res (serve ad res st3)"
    and run: "completion E q serve st = (st', posts, rp)"
  shows "accounted (ghNum (epHandler E)) u b r posts (fst st')"
proof -
  have wf: "0 \<le> b" "0 \<le> r" "onGrid 4 b"
    using balance_account.account_wf [OF credit_account [OF N(1), of u] s(1,4)] by simp_all
  have idle: "accounted (ghNum (epHandler E)) u b r [] s1" if "ledgerOnly (fst st) s1" for s1
    using that s(4) by (auto simp: ledgerOnly_def accounted_def)
  obtain st1 x where o: "openCompletion E q st = (st1, x)" by fastforce
  show ?thesis
  proof (cases x)
    case (Inl rp')
    then show ?thesis using run o idle [OF opening_pg(1) [OF o]] by (simp add: completion_def)
  next
    case (Inr ad)
    have s1: "fst st1 = fst st" using opening_pg(2) [OF o Inr] .
    obtain st2 y where sl: "acquireSlot E q (adLimits ad) st1 = (st2, y)" by fastforce
    have s2: "fst st2 = fst st" using acquireSlot_pg [OF sl] s1 by simp
    have unserved: "accounted (ghNum (epHandler E)) u b r (fst (snd (unserved ad p))) (fst (fst (unserved ad p)))" if "ledgerOnly (fst st) (fst (fst p))" for p
      using idle [OF that] by (cases p) (simp add: unserved_def)
    have fail: "ledgerOnly (fst st) (fst (fst (failWith q m status code st0)))" if "fst st0 = fst st" for m status code st0
      using failWith_ledger [of st0] that by metis
    have "accounted (ghNum (epHandler E)) u b r (fst (snd (completion E q serve st))) (fst (fst (completion E q serve st)))"
    proof (cases y)
      case (Inl e)
      then show ?thesis using o Inr sl unserved [OF fail [OF s2]] by (simp add: completion_def deferred_parts)
    next
      case held: (Inr held)
      obtain st3 out where rv: "reserveRuntimeLimits (epHandler E) (rqNow q) (rqKey q) (adSub ad) (adLimits ad) (adPayload ad) (Some (adModel ad)) st2 = (st3, out)"
        by fastforce
      consider (no) res status code where "out = Inr (res, status, code)" "status \<noteq> 0" "fst st3 = fst st"
        | (yes) res where "out = Inr (res, 0, [])" "heldRequest E q u b r res st3"
        using credit_reserved [OF N key _ _ _ rv] s s2 wf cb N(1) key(2) unfolding heldRequest_def
        by (metis roomy_keeps(2))
      then show ?thesis
      proof cases
        case no
        then show ?thesis using o Inr sl held rv unserved [OF fail [OF no(3)]] by (simp add: completion_def deferred_parts)
      next
        case yes
        have "case finalizeUnsettled E q res (serve ad res st3) of (st', posts, _) \<Rightarrow> accounted (ghNum (epHandler E)) u b r posts (fst st')"
          by (rule finalizeUnsettled_accounted [OF yes(2) serve [OF yes(2)]])
        then show ?thesis using o Inr sl held rv yes(1) by (auto simp: completion_def deferred_parts split: prod.splits)
      qed
    qed
    then show ?thesis using run by simp
  qed
qed

text \<open>
  C4.  A chat completion on a credit key keeps the books, whichever way it ends (refused by a check, no router, upstream failed,
  an error answer, a stream broken off by either side, a settlement that could not be recorded, a success): afterwards the user's
  reserved credits are what they were, and either nothing was posted to the billing application and the balance is unchanged, or
  exactly one debit was posted and the balance fell by its amount, never below zero.
\<close>

theorem chat_keeps_the_books:
  assumes "pg_numeric (ghNum (epHandler E))" "creditDriver (ghNum (epHandler E))" "Enabled (epCallback E)"
    and "keySource (rqKey q) = ''credit''" "akGenfityUserID (rqKey q) = u"
    and "pgOk (fst st)" "costsPriced (fst st)" "roomy u (fst st)" "creditAccount u (fst st) = Some (b, r)"
    and "tokensFit E" "ChatCompletions E q st = (st', posts, rp)"
  shows "(posts = [] \<and> creditAccount u (fst st') = Some (b, r))
    \<or> (\<exists>d w. posts = [d] \<and> udUserID d = u \<and> ghNum (epHandler E) (udAmountCredits d) = Some w \<and> 0 < w
         \<and> creditAccount u (fst st') = Some (toScale 4 (max (b - min w b) 0), r))"
  using completion_accounted [OF assms(1-9) served_candidate [OF _ assms(10) served_async(2)] assms(11) [unfolded ChatCompletions_def]]
  unfolding accounted_def by blast

section \<open>A driver that writes four decimals\<close>

lemma rnd_double: "1 \<le> q \<Longrightarrow> 1 \<le> rnd q \<and> rnd q \<le> 2 * q"
proof -
  assume q: "1 \<le> q"
  have low: "1 \<le> rnd q" using rnd_mono [OF q] rnd_int [of 1] by simp
  define P where "P = pow2 (ulpExp q)"
  have "1 \<le> nbits (nat \<lfloor>\<bar>q\<bar>\<rfloor>)" using q nbits.simps [of "nat \<lfloor>\<bar>q\<bar>\<rfloor>"] by simp
  then have "0 \<le> expo q" using q by (simp add: expo_def)
  then have "ulpExp q \<le> expo q" by (simp add: ulpExp_def)
  then have "P \<le> q" using pow2_mono [of "ulpExp q" "expo q"] expo_bounds(1) [of q] q unfolding P_def by simp
  moreover have "0 < P" by (simp add: P_def)
  moreover have "of_int (rndEven (q / P)) * P \<le> (q / P + 1 / 2) * P"
    using abs_le_D1 [OF rndEven_bounds [of "q / P"]] \<open>0 < P\<close> by (intro mult_right_mono) linarith+
  moreover have "(q / P + 1 / 2) * P = q + P / 2" using \<open>0 < P\<close> by (simp add: field_simps)
  ultimately have "of_int (rndEven (q / P)) * P \<le> 2 * q" using q by linarith
  then show ?thesis using low q by (simp add: rnd_def P_def)
qed

lemma fin_double:
  assumes "1 \<le> q" "q \<le> 2 ^ 200" shows "\<exists>v. fin q = Fin v \<and> 1 \<le> v \<and> v \<le> 2 * q"
proof -
  have "2 * q \<le> 2 * 2 ^ 200" using assms(2) by simp
  also have "\<dots> < (2 :: rat) ^ 1024" by simp
  finally have "2 * q < 2 ^ 1024" .
  then show ?thesis using rnd_double [OF assms(1)] by (auto simp: fin_def Let_def)
qed

lemma two_prices: "pricesEvery (Fin 2)"
  unfolding pricesEvery_def
proof (intro allI impI)
  fix t :: int assume t: "1 \<le> t \<and> t < 2 ^ 63"
  have up: "(of_int t :: rat) \<le> 2 ^ 63" using t by (metis less_imp_le of_int_le_iff of_int_numeral of_int_power)
  obtain v where v: "fOfInt t = Fin v" "1 \<le> v" "v \<le> 2 * of_int t"
    using fin_double [of "of_int t"] t up unfolding fOfInt_def by (auto intro: order_trans)
  define n where "n = \<lceil>rnd (v / 20000)\<rceil>"
  have low: "1 / 2 ^ 15 \<le> rnd (v / 20000)"
    using rnd_mono [of "1 / 2 ^ 15" "v / 20000"] rnd_dyadic [of 1 15] v(2) by simp
  have "v \<le> 2 ^ 64" using v(3) up by simp
  then have "v / 20000 \<le> 2 ^ 64" by simp
  have "rnd (v / 20000) \<le> rnd (max 1 (v / 20000))" by (rule rnd_mono) simp
  also have "\<dots> \<le> 2 * max 1 (v / 20000)" using rnd_double by simp
  finally have high: "rnd (v / 20000) \<le> 2 ^ 52" using \<open>v \<le> 2 ^ 64\<close> by simp
  have f: "fdiv (fOfInt t) (fOfInt creditBillingBucketTokens) = Fin (rnd (v / 20000))"
    using high low by (simp add: v(1) creditBillingBucketTokens_def fOfInt_small fin_def Let_def)
  have n: "1 \<le> n" "n \<le> 2 ^ 52"
  proof -
    show "1 \<le> n" using low unfolding n_def by (simp add: less_ceiling_iff [of 0, simplified] int_one_le_iff_zero_less)
    show "n \<le> 2 ^ 52" using high unfolding n_def by (metis ceiling_le_iff of_int_numeral of_int_power)
  qed
  have b: "creditBillingBuckets t = n"
    using t n f by (simp add: creditBillingBuckets_def n_def [symmetric] truncRat_def in64_def)
  have w: "fOfInt n = Fin (of_int n)" using n by (intro fOfInt_small) simp
  have nr: "1 \<le> (of_int n :: rat)" "(of_int n :: rat) \<le> 2 ^ 52"
    using n by (simp, metis of_int_le_iff of_int_numeral of_int_power)
  obtain x where x: "fin (of_int n * 2) = Fin x" "1 \<le> x" "x \<le> 2 ^ 54" using fin_double [of "of_int n * 2"] nr by auto
  obtain y where y: "fin (x * 10000) = Fin y" "y \<le> 2 ^ 70" using fin_double [of "x * 10000"] x by auto
  have "10000 \<le> y" using rnd_mono [of 10000 "x * 10000"] rnd_int [of 10000] x(2) y(1) by (simp add: fin_def Let_def split: if_splits)
  then have k: "10000 \<le> roundAway y" using roundAway_mono [of "of_int 10000" y] roundAway_of_int [of 10000] by simp
  have "roundAway y \<le> roundAway (of_int (2 ^ 70))" using y(2) by (intro roundAway_mono) simp
  then have k2: "(of_int (roundAway y) :: rat) \<le> 2 ^ 70" by (simp only: roundAway_of_int) (metis of_int_le_iff of_int_numeral of_int_power)
  have "1 \<le> (of_int (roundAway y) / 10000 :: rat)" using k by (simp add: le_divide_eq)
  then obtain c where "fin (of_int (roundAway y) / 10000) = Fin c" "1 \<le> c" using fin_double [of "of_int (roundAway y) / 10000"] k2 by auto
  then show "\<exists>c>0. calculateActualRequestCredits (Fin 2) t = Fin c"
    using b n w x(1) y(1) by (simp add: calculateActualRequestCredits_def roundCredits_def)
qed

text \<open>A driver that writes an amount with four decimals unless it is too small for them.\<close>

fun gridNum :: "float64 \<Rightarrow> rat option" where
  "gridNum (Fin q) = Some (if \<bar>q\<bar> < 1 / 20000 then q else toScale 4 q)"
| "gridNum _ = None"

lemma toScale_tick: "1 / 20000 \<le> q \<Longrightarrow> 1 / 10000 \<le> toScale 4 q" "q \<le> - (1 / 20000) \<Longrightarrow> toScale 4 q \<le> - (1 / 10000)"
proof -
  have "toScale 4 (1 / 20000) = 1 / 10000" "toScale 4 (- (1 / 20000)) = - (1 / 10000)" by (simp_all add: toScale_def roundAway_def)
  then show "1 / 20000 \<le> q \<Longrightarrow> 1 / 10000 \<le> toScale 4 q" "q \<le> - (1 / 20000) \<Longrightarrow> toScale 4 q \<le> - (1 / 10000)"
    using toScale_mono [of "1 / 20000" q 4] toScale_mono [of q "- (1 / 20000)" 4] by simp_all
qed

interpretation gridDriver: pg_numeric gridNum
proof
  show "gridNum fzero = Some 0" by simp
  show "\<exists>v. gridNum (Fin q) = Some v \<and> 0 < v" if "0 < q" for q
    using that toScale_tick(1) [of q] by (auto simp: not_less)
  show "v \<le> w" if "p \<le> q" "gridNum (Fin p) = Some v" "gridNum (Fin q) = Some w" for p q v w
  proof -
    have vw: "v = (if \<bar>p\<bar> < 1 / 20000 then p else toScale 4 p)" "w = (if \<bar>q\<bar> < 1 / 20000 then q else toScale 4 q)"
      using that(2,3) by simp_all
    have ends: "1 / 20000 \<le> q \<Longrightarrow> 1 / 10000 \<le> toScale 4 q" "p \<le> - (1 / 20000) \<Longrightarrow> toScale 4 p \<le> - (1 / 10000)"
      by (rule toScale_tick, assumption)+
    have m: "toScale 4 p \<le> toScale 4 q" using that(1) by (rule toScale_mono)
    show ?thesis
    proof (cases "\<bar>p\<bar> < 1 / 20000"; cases "\<bar>q\<bar> < 1 / 20000")
      assume a: "\<bar>p\<bar> < 1 / 20000" "\<not> \<bar>q\<bar> < 1 / 20000"
      then have "1 / 20000 \<le> q" using that(1) by linarith
      then have "1 / 10000 \<le> toScale 4 q" by (rule ends(1))
      moreover have "v = p" "w = toScale 4 q" using a vw by simp_all
      ultimately show ?thesis using a(1) by linarith
    next
      assume a: "\<not> \<bar>p\<bar> < 1 / 20000" "\<bar>q\<bar> < 1 / 20000"
      then have "p \<le> - (1 / 20000)" using that(1) by linarith
      then have "toScale 4 p \<le> - (1 / 10000)" by (rule ends(2))
      moreover have "v = toScale 4 p" "w = q" using a vw by simp_all
      ultimately show ?thesis using a(2) by linarith
    qed (use vw that(1) m in simp_all)
  qed
qed

lemma gridDriver_credits: "creditDriver gridNum"
  unfolding creditDriver_def
proof (intro allI impI)
  fix x v assume "gridNum (roundCredits x) = Some v"
  then obtain c where c: "roundCredits x = Fin c" "v = (if \<bar>c\<bar> < 1 / 20000 then c else toScale 4 c)" by (cases "roundCredits x") auto
  then obtain k where k: "c = rnd (of_int k / 10000)"
    by (cases "fmul x (Fin 10000)") (auto simp: roundCredits_def fin_def Let_def split: if_splits)
  have big: "1 / 2 ^ 14 \<le> \<bar>rnd (of_int k / 10000)\<bar>" if "k \<noteq> 0"
  proof -
    have "(1 :: rat) \<le> \<bar>of_int k\<bar>" using that by (simp flip: of_int_abs)
    then consider "1 / 2 ^ 14 \<le> (of_int k / 10000 :: rat)" | "(of_int k / 10000 :: rat) \<le> - (1 / 2 ^ 14)" by (cases "0 \<le> k") auto
    then show ?thesis
    proof cases
      case 1
      then show ?thesis using rnd_mono [OF 1] rnd_dyadic [of 1 14] by simp
    next
      case 2
      then show ?thesis using rnd_mono [OF 2] rnd_dyadic [of "-1" 14] by simp
    qed
  qed
  show "onGrid 4 v"
  proof (cases "k = 0")
    case True
    then show ?thesis using c k by simp
  next
    case False
    then show ?thesis using c k big by simp
  qed
qed

section \<open>Examples\<close>

definition sampleEndpoint :: "map_redis endpoint" where
  "sampleEndpoint = \<lparr>epHandler = sampleHandler\<lparr>ghNum := gridNum\<rparr>, epCallback = samplePeer, epRouters = False, epProxyURL = ''http://core'',
     epUpstream = (\<lambda>base path p. Answer 200 [sampleBody])\<rparr>"

definition sampleChat :: gwRequest where
  "sampleChat = \<lparr>rqKey = sampleKey ''credit'', rqBody = ''{\"model\":\"gpt\",\"max_tokens\":10}'', rqContextID = ''req-1'', rqNewID = ''new'',
     rqEntryID = 77, rqNow = 0, rqThen = 7, rqCancelled = False, rqUp = (\<lambda>_. True), rqTicks = 0, rqFlush = False\<rparr>"

lemma sample_costs: "costsPriced (fst sampleGw)"
proof -
  have "mcCreditsPerReq c = ''2''" if "c \<in> set (pgCosts (fst sampleGw))" for c
    using that by (simp add: sampleGw_def samplePg_def pgEmpty_def)
  then show ?thesis using two_prices sample_price by (simp add: costsPriced_def Let_def)
qed

lemma sample_roomy: "roomy ''u'' (fst sampleGw)"
  using sampleGw_countable by (simp add: roomy_def countable_def sampleGw_def samplePg_def pgEmpty_def quotaOf_def in64_def)

lemma sample_tokens: "tokensFit sampleEndpoint"
proof -
  have same: "dropWhile isKeepaliveByte sampleBody = sampleBody"
    by (simp add: sampleBody_def isKeepaliveByte_def)
  have short: "lastN maxStreamCaptureBytes sampleBody = sampleBody"
    by (simp add: lastN_def maxStreamCaptureBytes_def sampleBody_def)
  have "lastN maxStreamCaptureBytes (concat (take k [sampleBody])) \<in> {[], sampleBody}" for k
    using short by (cases k) (auto simp: lastN_def)
  then have "body \<in> seenBodies [sampleBody] \<Longrightarrow> body \<in> {[], sampleBody}" for body
    using same by (auto simp: seenBodies_def)
  then have "\<forall>body \<in> seenBodies [sampleBody]. fitting (umTotalTokens (parseUsageFromBody body))"
    using sampleBody_tokens empty_body_tokens by (fastforce simp: fitting_def)
  then show ?thesis by (simp add: tokensFit_def sampleEndpoint_def)
qed

theorem chat_keeps_the_books_witness:
  "\<exists>st' posts rp c. ChatCompletions sampleEndpoint sampleChat sampleGw = (st', posts, rp)
     \<and> creditAccount ''u'' (fst st') = Some (c, 2) \<and> c \<le> 5"
proof -
  obtain st' posts rp where run: "ChatCompletions sampleEndpoint sampleChat sampleGw = (st', posts, rp)" by (metis prod_cases3)
  have e: "ghNum (epHandler sampleEndpoint) = gridNum" "Enabled (epCallback sampleEndpoint)" "keySource (rqKey sampleChat) = ''credit''"
    "akGenfityUserID (rqKey sampleChat) = ''u''"
    by (simp_all add: sampleEndpoint_def sampleChat_def samplePeer_def Enabled_def keySource_def sampleKey_def)
  have "toScale 4 (max (5 - min w 5) 0) \<le> 5" if "0 < w" for w :: rat
    using toScale_le_grid [of "max (5 - min w 5) 0" 5 4] that by simp
  then show ?thesis
    using chat_keeps_the_books [of sampleEndpoint sampleChat "''u''" sampleGw 5 2 st' posts rp] e gridDriver.pg_numeric_axioms gridDriver_credits
      sampleGw_ok sample_costs sample_roomy sample_tokens run
    by auto
qed

section \<open>An error answer that cannot be recorded\<close>

lemma zero_finalize:
  assumes "noPlanUse res" "rrPaygUSD res = fzero" "rrCreditUSD res = fzero" "rrRequestCredits res = Fin p" "0 < p" "akGenfityUserID key = u"
  shows "finalizeRuntimeReservation h now key res zeroSettlement st = onPg (FinalizeRequestCredits (ghNum h) now u (Fin p) fzero) st"
  using assms by (simp add: finalizeRuntimeReservation_def noPlanUse_def zeroSettlement_def Let_def)

text \<open>
  C37.  \<^verbatim>\<open>Messages\<close> releases a reservation twice: when the upstream answers with an error and the ledger refuses the row (a repeated
  \<^verbatim>\<open>X-Request-ID\<close> does it), the settlement has already released the hold, but the handler returns unsettled and the
  deferred call releases it again, out of what other requests in flight have reserved.  The balance itself is right.
\<close>

theorem messages_error_releases_twice:
  assumes held: "heldRequest E q u b r res st" and live: "\<not> rqCancelled q"
    and known: "requestIDForContext (rqContextID q) (rqNewID q) \<in> ueRequestID ` set (pgLedger (fst st))"
    and hold: "rrRequestCredits res = Fin p" "0 < p" "ghNum (epHandler E) (Fin p) = Some v"
  shows "creditAccount u (fst (fst (finalizeUnsettled E q res (serveErrorSync E q ad res status reads st)))) = Some (b, toScale 4 (max (r - v) 0))"
proof -
  let ?h = "epHandler E" and ?sr = "toSettle q ad status (concat reads) True"
  let ?fin = "FinalizeRequestCredits (ghNum ?h) (rqThen q) u (Fin p) fzero"
  have a: "pg_numeric (ghNum ?h)" "akGenfityUserID (rqKey q) = u" "creditHold (ghNum ?h) u b r res (fst st)" "0 \<le> b" "onGrid 4 b"
    using held by (simp_all add: heldRequest_def)
  then have g: "pgOk (fst st)" "noPlanUse res" "rrPaygUSD res = fzero" "rrCreditUSD res = fzero" "creditAccount u (fst st) = Some (b, r + v)"
    "rrBillingMode res \<noteq> []" "onGrid 4 (r + v)" "onGrid 4 v"
    using hold balance_account.account_wf [OF credit_account [OF a(1), of u], of "fst st"] by (auto simp: creditHold_def isGrant_def)
  have r: "0 \<le> r" "onGrid 4 r" using held g(7,8) onGrid_diff [of 4 "r + v" v] by (simp_all add: heldRequest_def)
  note acct = balance_account.finalize_account [OF credit_account [OF a(1), of u] _ _ less_imp_le [OF hold(2)] order_refl hold(3)
      pg_numeric.num_zero [OF a(1)], of _ b _ "rqThen q"]
  have one: "snd (?fin (fst st)) = Inr ()" "pgOk (fst (?fin (fst st)))" "creditAccount u (fst (?fin (fst st))) = Some (b, r)"
    using acct [OF g(1,5)] a(4,5) r accounted_free by (simp_all add: max_def)
  obtain e where rec: "recordUsage (rqThen q) ?sr (Some res) (fst st) = (fst st, Inl e)"
    by (rule recordUsage_repeated [of ?sr "fst st" "rqThen q" res]) (use known in \<open>simp_all add: toSettle_def\<close>)
  have fin: "finalizeRuntimeReservation ?h (rqThen q) (rqKey q) res zeroSettlement st' = onPg ?fin st'" for st'
    by (rule zero_finalize [OF g(2-4) hold(1,2) a(2)])
  have first: "recordAndFinalizeRuntime ?h (epCallback E) (rqThen q) ?sr res st = (fst (onPg ?fin st), Inl e, [])"
    using rec fin by (simp add: recordAndFinalizeRuntime_def onPg_eq)
  have "serveErrorSync E q ad res status reads st = (fst (onPg ?fin st), [], False, adCounters ad, Some (respondError 500 ''settlement_failed''))"
    using live first by (simp add: serveErrorSync_def Let_def onCtx_def ctxHandler_def)
  then have "fst (fst (finalizeUnsettled E q res (serveErrorSync E q ad res status reads st))) = fst (?fin (fst (?fin (fst st))))"
    using g(6) by (simp add: finalizeUnsettled_def reservationNeedsFinalize_def fin)
  then show ?thesis using acct [OF one(2,3)] a(4,5) accounted_free by simp
qed

text \<open>A user with 5 credits of which 4 are reserved, 2 of them by this request.\<close>

definition sampleShared :: "map_redis gwState" where
  "sampleShared = ((fst sampleTwice)\<lparr>pgEnts := map (\<lambda>e. e\<lparr>peCreditReserved := 4\<rparr>) (pgEnts (fst sampleTwice))\<rparr>, mrEmpty)"

definition sampleAdmitted :: "map_redis admitted" where
  "sampleAdmitted = \<lparr>adPayload = [], adPublicModel = ''gpt'', adSub = None, adLimits = PlanLimitsFromSnapshot None, adRoute = sampleRoute,
     adModel = sampleModel ''gpt'', adCounters = None\<rparr>"

lemma sampleShared_ok: "pgOk (fst sampleShared)" "creditAccount ''u'' (fst sampleShared) = Some (5, 4)"
  by (simp_all add: sampleShared_def sampleTwice_def sampleLedger_def samplePg_def pgEmpty_def pgOk_def pgUp_def entsOk_def rowOk_def sampleEnt_def
      creditAccount_def activeRow_def atMostOne_def)

lemma sampleShared_held: "heldRequest sampleEndpoint sampleChat ''u'' 5 2 sampleHold sampleShared"
proof -
  have "roomy ''u'' (fst sampleShared)"
    by (simp add: sampleShared_def sampleTwice_def sampleLedger_def samplePg_def pgEmpty_def roomy_def quotaState_def quotasOk_def pgUp_def quotaOf_def in64_def)
  moreover have "creditHold gridNum ''u'' 5 2 sampleHold (fst sampleShared)"
    using sampleShared_ok sampleHold_grant two_prices by (simp add: creditHold_def sampleHold_def)
  ultimately show ?thesis
    using gridDriver.pg_numeric_axioms
    by (simp add: heldRequest_def sampleEndpoint_def sampleChat_def samplePeer_def Enabled_def sampleKey_def)
qed

theorem messages_error_releases_twice_witness:
  "creditAccount ''u'' (fst (fst (finalizeUnsettled sampleEndpoint sampleChat sampleHold
     (serveErrorSync sampleEndpoint sampleChat sampleAdmitted sampleHold 400 [] sampleShared)))) = Some (5, 0)"
proof -
  have id: "ueRequestID (ledgerEntry 3 sampleSettled None s) = ''req-1''" for s
    by (simp add: ledgerEntry_def settlementOf_def Let_def sampleSettled_def requestIDForContext_def trimSpace_def isSpace_def split: prod.split)
  have k: "requestIDForContext (rqContextID sampleChat) (rqNewID sampleChat) \<in> ueRequestID ` set (pgLedger (fst sampleShared))"
    by (simp add: sampleShared_def sampleTwice_def id sampleChat_def requestIDForContext_def trimSpace_def isSpace_def)
  have n: "ghNum (epHandler sampleEndpoint) (Fin 2) = Some 2" "\<not> rqCancelled sampleChat" by (simp_all add: sampleEndpoint_def sampleChat_def)
  show ?thesis
    using messages_error_releases_twice [OF sampleShared_held n(2) k sampleHold_grant(4) _ n(1), of sampleAdmitted 400 "[]"] by simp
qed

end
