(* ===== verification/Upstream.thy ===== *)
theory Upstream
  imports Forward
begin

text \<open>
  The client of the upstream proxy (\<^verbatim>\<open>cli_proxy_client.go\<close>).  The network is the record \<^verbatim>\<open>transport\<close> over a world
  \<open>'w\<close>: whether an address parses, what \<^verbatim>\<open>http.Client.Do\<close> returns (an error's text, or a status and a body), and whether the
  request's context ended during a wait.  Both retry loops are recursions with a termination proof.  The lemmas record the calls and waits of a
  run: at most eighty calls, each but the last one refused before a connection was made, and a bounded wait that bridges a restart of the proxy.
\<close>

section \<open>The client\<close>

record CLIProxyClient =
  ccBaseURL :: string
  ccAPIKey :: string
  ccManagementKey :: string
  ccTimeout :: duration

definition NewCLIProxyClientWithManagementKey :: "string \<Rightarrow> string \<Rightarrow> string \<Rightarrow> duration \<Rightarrow> CLIProxyClient" where
  "NewCLIProxyClientWithManagementKey baseURL apiKey managementKey timeout =
     \<lparr>ccBaseURL = rev (dropWhile (\<lambda>c. c = CHR ''/'') (rev baseURL)), ccAPIKey = apiKey, ccManagementKey = managementKey, ccTimeout = timeout\<rparr>"

definition NewCLIProxyClient :: "string \<Rightarrow> string \<Rightarrow> duration \<Rightarrow> CLIProxyClient" where
  "NewCLIProxyClient baseURL apiKey timeout = NewCLIProxyClientWithManagementKey baseURL apiKey [] timeout"

text \<open>A request's body is the object that was marshalled; its headers are in the order they were set.\<close>

record outRequest =
  ouMethod :: string
  ouURL :: string
  ouHeaders :: "(string \<times> string) list"
  ouBody :: "jobject option"

type_synonym httpResponse = "int \<times> string"

record 'w transport =
  trBadURL :: "string \<Rightarrow> string option"
  trDo :: "outRequest \<Rightarrow> 'w \<Rightarrow> 'w \<times> (string + httpResponse)"
  trWait :: "duration \<Rightarrow> 'w \<Rightarrow> 'w \<times> string option"

datatype clientError = MarshalFailed | BadURL string | CallError string | ContextEnded string | ClientText string | DecodeFailed

section \<open>Forwarding a payload\<close>

definition safePreconnectMaxAttempts :: nat where
  "safePreconnectMaxAttempts = 80"

function doublings :: "nat \<Rightarrow> nat \<Rightarrow> duration \<Rightarrow> duration" where
  "doublings attempt i delay = (if i < attempt \<and> delay < nsSecond then doublings attempt (i + 1) (delay * 2) else delay)"
  by pat_completeness auto
termination
  by (relation "measure (\<lambda>(attempt, i, delay). attempt - i)") auto

declare doublings.simps [simp del]

definition safePreconnectRetryDelay :: "nat \<Rightarrow> duration" where
  "safePreconnectRetryDelay attempt =
     (let delay = doublings attempt 0 (250 * nsMilli) in if delay > nsSecond then nsSecond else delay)"

definition isSafePreconnectError :: "string \<Rightarrow> bool" where
  "isSafePreconnectError err =
     (let message = lowerText err in
      containsStr message ''connection refused'' \<or> containsStr message ''no such host'' \<or> containsStr message ''server misbehaving''
      \<or> containsStr message ''network is unreachable'' \<or> containsStr message ''temporary failure in name resolution'')"

definition forwardRequest :: "CLIProxyClient \<Rightarrow> string \<Rightarrow> string \<Rightarrow> jobject \<Rightarrow> outRequest" where
  "forwardRequest c requestID path payload = \<lparr>ouMethod = ''POST'', ouURL = ccBaseURL c @ path,
     ouHeaders = [(''Content-Type'', ''application/json'')]
       @ (if jget payload ''stream'' = Some (JBool True) then [(''X-Genfity-Provider-Evidence'', ''1'')] else [])
       @ (if ccAPIKey c \<noteq> [] then [(''Authorization'', ''Bearer '' @ ccAPIKey c)] else [])
       @ (if trimSpace requestID \<noteq> [] then [(''X-Request-ID'', trimSpace requestID)] else [])
       @ (if ccTimeout c > 0 then [(''X-Genfity-Request-Budget-Ms'', itoa (milliseconds (ccTimeout c)))] else []),
     ouBody = Some payload\<rparr>"

function preconnectLoop :: "'w transport \<Rightarrow> outRequest \<Rightarrow> nat \<Rightarrow> 'w \<Rightarrow> 'w \<times> (clientError + httpResponse)" where
  "preconnectLoop T req attempt w =
     (if attempt < safePreconnectMaxAttempts then
        (case trBadURL T (ouURL req) of
           Some e \<Rightarrow> (w, Inl (BadURL e))
         | None \<Rightarrow>
             (case trDo T req w of
                (w1, Inr resp) \<Rightarrow> (w1, Inr resp)
              | (w1, Inl callErr) \<Rightarrow>
                  if \<not> isSafePreconnectError callErr \<or> attempt = safePreconnectMaxAttempts - 1 then (w1, Inl (CallError callErr))
                  else (case trWait T (safePreconnectRetryDelay attempt) w1 of
                          (w2, Some e) \<Rightarrow> (w2, Inl (ContextEnded e))
                        | (w2, None) \<Rightarrow> preconnectLoop T req (attempt + 1) w2)))
      else (w, Inl (ClientText ''preconnect retry loop exhausted'')))"
  by pat_completeness auto
termination
  by (relation "measure (\<lambda>(T, req, attempt, w). safePreconnectMaxAttempts - attempt)") auto

declare preconnectLoop.simps [simp del]

definition forwardJSON :: "'w transport \<Rightarrow> CLIProxyClient \<Rightarrow> string \<Rightarrow> string \<Rightarrow> jobject \<Rightarrow> 'w \<Rightarrow> 'w \<times> (clientError + httpResponse)" where
  "forwardJSON T c requestID path payload w =
     (if \<not> finiteObj payload then (w, Inl MarshalFailed) else preconnectLoop T (forwardRequest c requestID path payload) 0 w)"

text \<open>The runtime endpoints and the paths they are forwarded to.\<close>

definition clientChatCompletions :: "'w transport \<Rightarrow> CLIProxyClient \<Rightarrow> string \<Rightarrow> jobject \<Rightarrow> 'w \<Rightarrow> 'w \<times> (clientError + httpResponse)" where
  "clientChatCompletions T c requestID = forwardJSON T c requestID ''/v1/chat/completions''"

definition clientMessages :: "'w transport \<Rightarrow> CLIProxyClient \<Rightarrow> string \<Rightarrow> jobject \<Rightarrow> 'w \<Rightarrow> 'w \<times> (clientError + httpResponse)" where
  "clientMessages T c requestID = forwardJSON T c requestID ''/v1/messages''"

definition clientCountMessageTokens :: "'w transport \<Rightarrow> CLIProxyClient \<Rightarrow> string \<Rightarrow> jobject \<Rightarrow> 'w \<Rightarrow> 'w \<times> (clientError + httpResponse)" where
  "clientCountMessageTokens T c requestID = forwardJSON T c requestID ''/v1/messages/count_tokens''"

definition clientEmbeddings :: "'w transport \<Rightarrow> CLIProxyClient \<Rightarrow> string \<Rightarrow> jobject \<Rightarrow> 'w \<Rightarrow> 'w \<times> (clientError + httpResponse)" where
  "clientEmbeddings T c requestID = forwardJSON T c requestID ''/v1/embeddings''"

definition clientImagesGenerations :: "'w transport \<Rightarrow> CLIProxyClient \<Rightarrow> string \<Rightarrow> jobject \<Rightarrow> 'w \<Rightarrow> 'w \<times> (clientError + httpResponse)" where
  "clientImagesGenerations T c requestID = forwardJSON T c requestID ''/v1/images/generations''"

definition clientImagesEdits :: "'w transport \<Rightarrow> CLIProxyClient \<Rightarrow> string \<Rightarrow> jobject \<Rightarrow> 'w \<Rightarrow> 'w \<times> (clientError + httpResponse)" where
  "clientImagesEdits T c requestID = forwardJSON T c requestID ''/v1/images/edits''"

section \<open>Reading from the proxy\<close>

definition isRetriableError :: "string \<Rightarrow> bool" where
  "isRetriableError msg \<longleftrightarrow> containsStr msg ''connection reset'' \<or> containsStr msg ''connection refused'' \<or> containsStr msg ''EOF''
     \<or> containsStr msg ''broken pipe'' \<or> containsStr msg ''timeout'' \<or> containsStr msg ''no such host''"

text \<open>A read has no body, so the emptied body of a repetition is the same request.  \<open>Inr None\<close> is the nil response without an error of a loop that never ran.\<close>

function retryLoop :: "'w transport \<Rightarrow> outRequest \<Rightarrow> int \<Rightarrow> nat \<Rightarrow> clientError option \<Rightarrow> 'w \<Rightarrow> 'w \<times> (clientError + httpResponse option)" where
  "retryLoop T req maxRetries attempt lastErr w =
     (if int attempt \<le> maxRetries then
        (case (if attempt > 0 then trWait T (int attempt * 100 * nsMilli) w else (w, None)) of
           (w1, Some e) \<Rightarrow> (w1, Inl (ContextEnded e))
         | (w1, None) \<Rightarrow>
             (case trDo T req w1 of
                (w2, Inl err) \<Rightarrow>
                  if isRetriableError err then retryLoop T req maxRetries (attempt + 1) (Some (CallError err)) w2 else (w2, Inl (CallError err))
              | (w2, Inr (status, body)) \<Rightarrow>
                  if status = 502 \<or> status = 503 \<or> status = 504
                  then retryLoop T req maxRetries (attempt + 1) (Some (ClientText (''upstream returned '' @ itoa status))) w2
                  else (w2, Inr (Some (status, body)))))
      else (w, case lastErr of Some e \<Rightarrow> Inl e | None \<Rightarrow> Inr None))"
  by pat_completeness auto
termination
  by (relation "measure (\<lambda>(T, req, maxRetries, attempt, lastErr, w). nat (maxRetries + 1 - int attempt))") auto

declare retryLoop.simps [simp del]

definition doWithRetry :: "'w transport \<Rightarrow> outRequest \<Rightarrow> int \<Rightarrow> 'w \<Rightarrow> 'w \<times> (clientError + httpResponse option)" where
  "doWithRetry T req maxRetries w = retryLoop T req maxRetries 0 None w"

definition readObject :: "'w \<times> (clientError + httpResponse option) \<Rightarrow> 'w \<times> (clientError + jobject)" where
  "readObject = (\<lambda>(w, r). (w, case r of
       Inl e \<Rightarrow> Inl e
     | Inr None \<Rightarrow> Inl (ClientText ''nil response'')
     | Inr (Some (status, body)) \<Rightarrow>
         if status \<ge> 400 then Inl (ClientText (''upstream_error status='' @ itoa status @ '' body='' @ body))
         else (case decodeObject body of None \<Rightarrow> Inl DecodeFailed | Some out \<Rightarrow> Inr out)))"

definition getRequest :: "CLIProxyClient \<Rightarrow> string \<Rightarrow> string \<Rightarrow> outRequest" where
  "getRequest c path key = \<lparr>ouMethod = ''GET'', ouURL = ccBaseURL c @ path,
     ouHeaders = (if key \<noteq> [] then [(''Authorization'', ''Bearer '' @ key)] else []), ouBody = None\<rparr>"

definition clientGet :: "'w transport \<Rightarrow> CLIProxyClient \<Rightarrow> string \<Rightarrow> 'w \<Rightarrow> 'w \<times> (clientError + jobject)" where
  "clientGet T c path w = (case trBadURL T (ccBaseURL c @ path) of
       Some e \<Rightarrow> (w, Inl (BadURL e))
     | None \<Rightarrow> readObject (doWithRetry T (getRequest c path (ccAPIKey c)) 2 w))"

definition managementGet :: "'w transport \<Rightarrow> CLIProxyClient \<Rightarrow> string \<Rightarrow> 'w \<Rightarrow> 'w \<times> (clientError + jobject)" where
  "managementGet T c path w =
     (if ccManagementKey c = [] then (w, Inl (ClientText ''management_key_not_configured''))
      else (case trBadURL T (ccBaseURL c @ path) of
              Some e \<Rightarrow> (w, Inl (BadURL e))
            | None \<Rightarrow> readObject (doWithRetry T (getRequest c path (ccManagementKey c)) 1 w)))"

definition clientListModels :: "'w transport \<Rightarrow> CLIProxyClient \<Rightarrow> 'w \<Rightarrow> 'w \<times> (clientError + jobject)" where
  "clientListModels T c = clientGet T c ''/v1/models''"

definition RouterHealth :: "'w transport \<Rightarrow> CLIProxyClient \<Rightarrow> 'w \<Rightarrow> 'w \<times> (clientError + jobject)" where
  "RouterHealth T c w = (case clientListModels T c w of
       (w1, Inl e) \<Rightarrow> (w1, Inl e)
     | (w1, Inr models) \<Rightarrow> (w1, Inr [(''status'', JStr ''ok''), (''models'', JObj models)]))"

definition ListAuthFiles :: "'w transport \<Rightarrow> CLIProxyClient \<Rightarrow> 'w \<Rightarrow> 'w \<times> (clientError + jobject)" where
  "ListAuthFiles T c = managementGet T c ''/v0/management/auth-files''"

definition GetGithubQuota :: "'w transport \<Rightarrow> CLIProxyClient \<Rightarrow> string \<Rightarrow> 'w \<Rightarrow> 'w \<times> (clientError + jobject)" where
  "GetGithubQuota T c authIndex = managementGet T c (''/v0/management/github-quota?auth_index='' @ authIndex)"

definition GetKiroQuota :: "'w transport \<Rightarrow> CLIProxyClient \<Rightarrow> string \<Rightarrow> 'w \<Rightarrow> 'w \<times> (clientError + jobject)" where
  "GetKiroQuota T c authIndex = managementGet T c (''/v0/management/kiro-quota?auth_index='' @ authIndex)"


section \<open>The calls and waits of a run\<close>

datatype netEvent = Called outRequest "string + httpResponse" | Waited duration

text \<open>The same network, with a record of what was asked of it.\<close>

definition logged :: "'w transport \<Rightarrow> ('w \<times> netEvent list) transport" where
  "logged T = \<lparr>trBadURL = trBadURL T,
     trDo = (\<lambda>q (w, evs). case trDo T q w of (w1, x) \<Rightarrow> ((w1, evs @ [Called q x]), x)),
     trWait = (\<lambda>d (w, evs). case trWait T d w of (w1, e) \<Rightarrow> ((w1, evs @ [Waited d]), e))\<rparr>"

fun calls :: "netEvent list \<Rightarrow> (outRequest \<times> (string + httpResponse)) list" where
  "calls [] = []"
| "calls (Called q x # evs) = (q, x) # calls evs"
| "calls (Waited d # evs) = calls evs"

fun waited :: "netEvent list \<Rightarrow> duration" where
  "waited [] = 0"
| "waited (Called q x # evs) = waited evs"
| "waited (Waited d # evs) = d + waited evs"

text \<open>What forwarding may do from its \<open>n\<close>th attempt on: call, and call again only after a call that found no connection.\<close>

inductive forwardRun :: "outRequest \<Rightarrow> nat \<Rightarrow> netEvent list \<Rightarrow> clientError + httpResponse \<Rightarrow> bool" for req where
  refused: "forwardRun req n [] (Inl (BadURL e))"
| answered: "n < 80 \<Longrightarrow> forwardRun req n [Called req (Inr resp)] (Inr resp)"
| gaveUp: "n < 80 \<Longrightarrow> forwardRun req n [Called req (Inl e)] (Inl (CallError e))"
| ended: "n < 79 \<Longrightarrow> isSafePreconnectError e \<Longrightarrow> forwardRun req n [Called req (Inl e), Waited (safePreconnectRetryDelay n)] (Inl (ContextEnded x))"
| again: "n < 79 \<Longrightarrow> isSafePreconnectError e \<Longrightarrow> forwardRun req (n + 1) evs r
    \<Longrightarrow> forwardRun req n (Called req (Inl e) # Waited (safePreconnectRetryDelay n) # evs) r"

lemma retryDelay: "safePreconnectRetryDelay 0 = 250 * nsMilli" "safePreconnectRetryDelay 1 = 500 * nsMilli"
  "2 \<le> n \<Longrightarrow> safePreconnectRetryDelay n = nsSecond"
proof -
  have twice: "doublings n 0 (250 * nsMilli) = nsSecond" if "2 \<le> n" for n
    using that by (simp add: doublings.simps [of n] time_defs)
  show "safePreconnectRetryDelay 0 = 250 * nsMilli" "safePreconnectRetryDelay 1 = 500 * nsMilli"
    by (simp_all add: safePreconnectRetryDelay_def doublings.simps time_defs)
  show "2 \<le> n \<Longrightarrow> safePreconnectRetryDelay n = nsSecond" by (simp add: safePreconnectRetryDelay_def twice)
qed

lemma retryDelay_nonneg: "0 \<le> safePreconnectRetryDelay n"
proof (cases "2 \<le> n")
  case False
  then have "n = 0 \<or> n = 1" by auto
  then show ?thesis by (auto simp only: retryDelay) (simp_all add: time_defs)
qed (simp add: retryDelay time_defs)

text \<open>The waits from the \<open>n\<close>th attempt to the last.\<close>

definition waitsFrom :: "nat \<Rightarrow> duration" where
  "waitsFrom n = (\<Sum>i = n..<79. safePreconnectRetryDelay i)"

lemma waitsFrom_Suc: "n < 79 \<Longrightarrow> waitsFrom n = safePreconnectRetryDelay n + waitsFrom (n + 1)"
  unfolding waitsFrom_def by (simp add: sum.atLeast_Suc_lessThan)

lemma waitsFrom_nonneg: "0 \<le> waitsFrom n"
  unfolding waitsFrom_def by (intro sum_nonneg retryDelay_nonneg)

lemma waitsFrom_0: "waitsFrom 0 = 77750 * nsMilli"
proof -
  have "(\<Sum>i :: nat = 2..<79. safePreconnectRetryDelay i) = (\<Sum>i :: nat = 2..<79. nsSecond)" by (intro sum.cong) (simp_all add: retryDelay)
  then have "waitsFrom 2 = 77 * nsSecond" by (simp add: waitsFrom_def)
  then show ?thesis using waitsFrom_Suc [of 0] waitsFrom_Suc [of 1] retryDelay(1,2) by (simp add: time_defs numeral_2_eq_2)
qed

lemma preconnectLoop_run:
  assumes "preconnectLoop (logged T) req n (w, evs) = ((w', evs'), r)" "n < 80"
  shows "\<exists>new. evs' = evs @ new \<and> forwardRun req n new r \<and> preconnectLoop T req n w = (w', r)"
  using assms
proof (induction "80 - n" arbitrary: n w evs)
  case (Suc k)
  show ?case
  proof (cases "trBadURL T (ouURL req)")
    case (Some e)
    then show ?thesis
      using Suc.prems by (auto simp: preconnectLoop.simps [of _ _ n] logged_def safePreconnectMaxAttempts_def intro: forwardRun.refused)
  next
    case ok: None
    obtain w1 x where d: "trDo T req w = (w1, x)" by fastforce
    show ?thesis
    proof (cases x)
      case (Inr resp)
      then show ?thesis
        using Suc.prems ok d by (auto simp: preconnectLoop.simps [of _ _ n] logged_def safePreconnectMaxAttempts_def intro: forwardRun.answered)
    next
      case (Inl e)
      show ?thesis
      proof (cases "\<not> isSafePreconnectError e \<or> n = 79")
        case True
        then show ?thesis
          using Suc.prems ok d Inl by (auto simp: preconnectLoop.simps [of _ _ n] logged_def safePreconnectMaxAttempts_def intro: forwardRun.gaveUp)
      next
        case False
        then have n: "n < 79" using Suc.prems(2) by simp
        have k: "k = 80 - (n + 1)" using Suc.hyps(2) by simp
        obtain w2 e2 where wt: "trWait T (safePreconnectRetryDelay n) w1 = (w2, e2)" by fastforce
        let ?two = "[Called req (Inl e), Waited (safePreconnectRetryDelay n)]"
        have step: "preconnectLoop (logged T) req n (w, evs)
            = (case e2 of Some x \<Rightarrow> ((w2, evs @ ?two), Inl (ContextEnded x)) | None \<Rightarrow> preconnectLoop (logged T) req (n + 1) (w2, evs @ ?two))"
          "preconnectLoop T req n w = (case e2 of Some x \<Rightarrow> (w2, Inl (ContextEnded x)) | None \<Rightarrow> preconnectLoop T req (n + 1) w2)"
          using False n ok d Inl wt by (simp_all add: preconnectLoop.simps [of _ _ n] logged_def safePreconnectMaxAttempts_def split: option.split)
        show ?thesis
        proof (cases e2)
          case (Some x)
          then show ?thesis using Suc.prems(1) step n False by (auto intro: forwardRun.ended)
        next
          case None
          then have "preconnectLoop (logged T) req (n + 1) (w2, evs @ ?two) = ((w', evs'), r)" using Suc.prems(1) step(1) by simp
          then obtain new where new: "evs' = (evs @ ?two) @ new" "forwardRun req (n + 1) new r" "preconnectLoop T req (n + 1) w2 = (w', r)"
            using Suc.hyps(1) [of "n + 1" w2 "evs @ ?two"] k n by auto
          then show ?thesis using step(2) None forwardRun.again [OF n _ new(2)] False by (intro exI [of _ "?two @ new"]) simp
        qed
      qed
    qed
  qed
qed simp


lemma forwardRun_bounds:
  "forwardRun req n evs r \<Longrightarrow> n < 80 \<Longrightarrow> length (calls evs) \<le> 80 - n \<and> waited evs \<le> waitsFrom n \<and> (\<forall>(q, x) \<in> set (calls evs). q = req)
    \<and> (\<forall>(q, x) \<in> set (butlast (calls evs)). \<exists>e. x = Inl e \<and> isSafePreconnectError e)
    \<and> (\<forall>resp. r = Inr resp \<longrightarrow> calls evs \<noteq> [] \<and> last (calls evs) = (req, Inr resp))"
proof (induction rule: forwardRun.induct)
  case (ended n e x)
  then show ?case using waitsFrom_Suc [of n] waitsFrom_nonneg [of "n + 1"] by simp
next
  case (again n e evs r)
  then show ?case using waitsFrom_Suc [of n] by auto
qed (simp_all add: waitsFrom_nonneg)

text \<open>
  C11.  Forwarding ends and repeats a request safely: over any network it makes at most eighty calls and waits at most 77.75 seconds in all,
  every call is the same request, each one that was followed by another failed before a connection was made, and the answer handed to the
  caller is that of the last call.  Recording the calls does not change the run.
\<close>

theorem forwarding_bounded:
  assumes "forwardJSON (logged T) c requestID path payload (w, []) = ((w', evs), r)"
  shows "forwardJSON T c requestID path payload w = (w', r) \<and> length (calls evs) \<le> 80 \<and> waited evs \<le> 77750 * nsMilli
    \<and> (\<forall>(q, x) \<in> set (calls evs). q = forwardRequest c requestID path payload)
    \<and> (\<forall>(q, x) \<in> set (butlast (calls evs)). \<exists>e. x = Inl e \<and> isSafePreconnectError e)
    \<and> (\<forall>resp. r = Inr resp \<longrightarrow> calls evs \<noteq> [] \<and> snd (last (calls evs)) = Inr resp)"
proof (cases "finiteObj payload")
  case True
  then have "preconnectLoop (logged T) (forwardRequest c requestID path payload) 0 (w, []) = ((w', evs), r)"
    using assms by (simp add: forwardJSON_def)
  then obtain "forwardRun (forwardRequest c requestID path payload) 0 evs r"
    and "preconnectLoop T (forwardRequest c requestID path payload) 0 w = (w', r)"
    using preconnectLoop_run [of T _ 0 w "[]" w' evs r] by auto
  then show ?thesis using forwardRun_bounds [of "forwardRequest c requestID path payload" 0 evs r] waitsFrom_0 True
    by (auto simp: forwardJSON_def)
next
  case False
  then show ?thesis using assms by (auto simp: forwardJSON_def time_defs)
qed

section \<open>A restart of the proxy\<close>

text \<open>A proxy that refuses connections up to an instant and answers from then on; the world is the clock.\<close>

definition drained :: "string \<Rightarrow> time \<Rightarrow> httpResponse \<Rightarrow> time transport" where
  "drained refusal upAt resp = \<lparr>trBadURL = (\<lambda>_. None), trDo = (\<lambda>q now. (now, if now < upAt then Inl refusal else Inr resp)),
     trWait = (\<lambda>d now. (now + d, None))\<rparr>"

lemma retryDelay_le: "safePreconnectRetryDelay n \<le> nsSecond"
  by (simp add: safePreconnectRetryDelay_def Let_def)

lemma drained_loop:
  assumes "isSafePreconnectError refusal" "n < 80" "upAt \<le> now + waitsFrom n"
  shows "\<exists>t. preconnectLoop (drained refusal upAt resp) req n now = (t, Inr resp) \<and> now \<le> t \<and> (t = now \<or> t < upAt + nsSecond)"
  using assms
proof (induction "80 - n" arbitrary: n now)
  case (Suc k)
  have k: "k = 80 - (n + 1)" using Suc.hyps(2) by simp
  show ?case
  proof (cases "now < upAt")
    case False
    then show ?thesis using Suc.prems by (simp add: preconnectLoop.simps [of _ _ n] drained_def safePreconnectMaxAttempts_def)
  next
    case True
    then have n: "n < 79" using Suc.prems(2,3) by (cases "n = 79") (auto simp: waitsFrom_def)
    let ?next = "now + safePreconnectRetryDelay n"
    have step: "preconnectLoop (drained refusal upAt resp) req n now = preconnectLoop (drained refusal upAt resp) req (n + 1) ?next"
      using True n assms(1) by (simp add: preconnectLoop.simps [of _ _ n] drained_def safePreconnectMaxAttempts_def)
    have "upAt \<le> ?next + waitsFrom (n + 1)" using Suc.prems(3) waitsFrom_Suc [OF n] by simp
    then obtain t where t: "preconnectLoop (drained refusal upAt resp) req (n + 1) ?next = (t, Inr resp)" "?next \<le> t" "t = ?next \<or> t < upAt + nsSecond"
      using Suc.hyps(1) [OF k assms(1)] n by auto
    have "?next < upAt + nsSecond" using True retryDelay_le [of n] by simp
    then show ?thesis using t step retryDelay_nonneg [of n] by auto
  qed
qed simp

text \<open>
  A restart of the proxy is bridged: if it refuses connections for at most 77.75 seconds, a request that arrives meanwhile is answered,
  less than a second after the proxy came back.
\<close>

theorem restart_bridged:
  assumes "isSafePreconnectError refusal" "finiteObj payload" "upAt \<le> now + 77750 * nsMilli"
  shows "\<exists>t. forwardJSON (drained refusal upAt resp) c requestID path payload now = (t, Inr resp) \<and> now \<le> t \<and> t < max (now + 1) (upAt + nsSecond)"
  using drained_loop [OF assms(1), of 0 upAt now] assms(2,3) waitsFrom_0 by (fastforce simp: forwardJSON_def)

section \<open>Examples\<close>

definition sampleClient :: CLIProxyClient where
  "sampleClient = NewCLIProxyClient ''http://cliproxy:8317/'' ''k'' (120 * nsSecond)"

definition sampleRefusal :: string where
  "sampleRefusal = ''dial tcp: lookup cliproxy: connection refused''"

lemma sampleRefusal_safe: "isSafePreconnectError sampleRefusal"
  by code_simp

theorem forwarding_bounded_witness:
  "\<exists>t evs. forwardJSON (logged (drained sampleRefusal 200000000 (200, ''{}''))) sampleClient ''r'' ''/v1/messages'' [] (0, []) = ((t, evs), Inr (200, ''{}''))
     \<and> length (calls evs) \<le> 80 \<and> snd (last (calls evs)) = Inr (200, ''{}'')"
proof -
  let ?run = "forwardJSON (logged (drained sampleRefusal 200000000 (200, ''{}''))) sampleClient ''r'' ''/v1/messages'' [] (0, [])"
  have "snd ?run = Inr (200, ''{}'')"
    by (simp add: forwardJSON_def preconnectLoop.simps [of _ _ 0] preconnectLoop.simps [of _ _ "Suc 0"] logged_def drained_def
        safePreconnectMaxAttempts_def sampleRefusal_safe retryDelay time_defs)
  then obtain t evs where r: "?run = ((t, evs), Inr (200, ''{}''))" by (metis prod.collapse)
  then show ?thesis using forwarding_bounded [OF r] by auto
qed

theorem restart_bridged_witness:
  "\<exists>t. forwardJSON (drained sampleRefusal (60 * nsSecond) (200, ''{}'')) sampleClient ''r'' ''/v1/messages'' [] 0 = (t, Inr (200, ''{}''))
     \<and> t < 61 * nsSecond"
  using restart_bridged [OF sampleRefusal_safe, of "[]" "60 * nsSecond" 0 "(200, ''{}'')" sampleClient "''r''" "''/v1/messages''"]
  by (auto simp: time_defs)

end
