(* ===== verification/Middleware.thy ===== *)
theory Middleware
  imports Endpoints Config
begin

text \<open>
  The gates in front of the handlers (\<^verbatim>\<open>api_key.go\<close>, \<^verbatim>\<open>auth.go\<close>, \<^verbatim>\<open>internal.go\<close>,
  \<^verbatim>\<open>global_rate_limit.go\<close>, \<^verbatim>\<open>recover.go\<close>).  A handler is a function from the state to the next state and a reply; a gate gets the
  handler it protects.  The token library is a parameter: a function from the secret and the token to the claims of a valid token.  The
  lemmas show that a handler behind the key gate runs only for a credential whose hash a live key carries, and count what the global limit
  lets through.
\<close>

type_synonym 's handlerFn = "'s \<Rightarrow> 's \<times> reply"

section \<open>Requests at the edge\<close>

text \<open>\<^verbatim>\<open>Header.Get\<close>: the first value under a name, upper and lower case alike.\<close>

record edgeRequest =
  erPath :: string
  erRemoteAddr :: string
  erHeaders :: "(string \<times> string) list"

definition headerGet :: "edgeRequest \<Rightarrow> string \<Rightarrow> string" where
  "headerGet q name = (case find (\<lambda>(k, v). equalFold k name) (erHeaders q) of Some (k, v) \<Rightarrow> v | None \<Rightarrow> [])"

definition mwRespondError :: "int \<Rightarrow> string \<Rightarrow> reply" where
  "mwRespondError status message = respondJSON status [(''error'', JStr ''request_failed''), (''message'', JStr message)]"

section \<open>API keys\<close>

text \<open>The credential of a request; \<open>None\<close> is the refusal of a malformed header.\<close>

definition orHeader :: "edgeRequest \<Rightarrow> string \<Rightarrow> string \<Rightarrow> string" where
  "orHeader q name rawKey = (if rawKey = [] then trimSpace (headerGet q name) else rawKey)"

definition credential :: "edgeRequest \<Rightarrow> string option" where
  "credential q =
     (let h = headerGet q ''Authorization'';
          fallback = orHeader q ''api-key'' \<circ> orHeader q ''X-Api-Key'' \<circ> orHeader q ''x-api-key'' in
      if h = [] then Some (fallback [])
      else (case splitAtChar CHR '' '' h of
              (word, Some rest) \<Rightarrow> if equalFold word ''bearer'' then Some (fallback (trimSpace rest)) else None
            | (word, None) \<Rightarrow> Some (fallback (trimSpace word))))"

definition RequireAPIKey :: "'r keyCache \<Rightarrow> (string \<Rightarrow> string) \<Rightarrow> time \<Rightarrow> edgeRequest \<Rightarrow> (APIKey \<Rightarrow> 'r gwState handlerFn) \<Rightarrow> 'r gwState handlerFn" where
  "RequireAPIKey co mac now q next st = (case credential q of
       None \<Rightarrow> (st, mwRespondError 401 ''invalid_api_key_format'')
     | Some rawKey \<Rightarrow>
         if rawKey = [] then (st, mwRespondError 401 ''missing_api_key'')
         else (case Validate co mac now rawKey st of
                 (st1, Inl e) \<Rightarrow> (st1, if e = ErrNotFound then mwRespondError 401 ''invalid_api_key'' else mwRespondError 500 ''internal_error'')
               | (st1, Inr keyRecord) \<Rightarrow> next keyRecord st1))"

section \<open>Roles\<close>

fun claimString :: "jobject \<Rightarrow> string list \<Rightarrow> string" where
  "claimString claims [] = []"
| "claimString claims (k # keys) = (if jgetStr claims k \<noteq> [] then jgetStr claims k else claimString claims keys)"

definition authenticate :: "(string \<Rightarrow> string \<Rightarrow> jobject option) \<Rightarrow> string \<Rightarrow> string list \<Rightarrow> edgeRequest \<Rightarrow> reply + AuthUser" where
  "authenticate jwtParse secret allowedRoles q =
     (let authHeader = headerGet q ''Authorization'' in
      if authHeader = [] then Inl (mwRespondError 401 ''missing_token'')
      else (case splitChar CHR '' '' authHeader of
              [scheme, tokenString] \<Rightarrow>
                if toLower scheme \<noteq> ''bearer'' then Inl (mwRespondError 401 ''invalid_token_format'')
                else (case jwtParse secret tokenString of
                        None \<Rightarrow> Inl (mwRespondError 401 ''invalid_token'')
                      | Some claims \<Rightarrow>
                          let userID = claimString claims [''id'', ''userId'', ''sub'']; role = claimString claims [''role''];
                              tenant = claimString claims [''tenantId'', ''tenant_id''] in
                          if userID = [] then Inl (mwRespondError 401 ''invalid_user_id'')
                          else if role \<notin> set allowedRoles then Inl (mwRespondError 403 ''forbidden'')
                          else Inr \<lparr>auID = userID, auEmail = claimString claims [''email''], auRole = role,
                                 auTenantID = (if tenant \<noteq> [] then Some tenant else None),
                                 auSessionID = claimString claims [''sessionId'', ''session_id'']\<rparr>)
            | _ \<Rightarrow> Inl (mwRespondError 401 ''invalid_token_format'')))"

definition RequireRoles :: "(string \<Rightarrow> string \<Rightarrow> jobject option) \<Rightarrow> string \<Rightarrow> string list \<Rightarrow> edgeRequest \<Rightarrow> (AuthUser \<Rightarrow> 's handlerFn) \<Rightarrow> 's handlerFn" where
  "RequireRoles jwtParse secret allowedRoles q next st =
     (case authenticate jwtParse secret allowedRoles q of Inl rep \<Rightarrow> (st, rep) | Inr user \<Rightarrow> next user st)"

section \<open>The internal secret\<close>

definition RequireInternalSecret :: "config \<Rightarrow> edgeRequest \<Rightarrow> 's handlerFn \<Rightarrow> 's handlerFn" where
  "RequireInternalSecret cfg q next st =
     (let provided = trimSpace (headerGet q ''X-Internal-Secret''); configured = trimSpace (cfInternalSecret cfg) in
      if configured = [] \<or> provided = [] \<or> provided \<noteq> configured then (st, mwRespondError 401 ''invalid_internal_secret'') else next st)"

section \<open>The global limit\<close>

text \<open>\<^verbatim>\<open>net.SplitHostPort\<close>: the host of an address with a port, which is after the last colon.\<close>

definition lastColon :: "string \<Rightarrow> nat option" where
  "lastColon s = (let after = takeWhile (\<lambda>c. c \<noteq> CHR '':'') (rev s) in if length after = length s then None else Some (length s - 1 - length after))"

definition splitHost :: "string \<Rightarrow> string option" where
  "splitHost s = (case lastColon s of
       None \<Rightarrow> None
     | Some i \<Rightarrow>
         if s \<noteq> [] \<and> hd s = CHR ''['' then
           let n = length (takeWhile (\<lambda>c. c \<noteq> CHR '']'') s) in
           if n = length s \<or> n + 1 \<noteq> i \<or> CHR ''['' \<in> set (drop 1 s) \<or> CHR '']'' \<in> set (drop (n + 1) s) then None
           else Some (take (n - 1) (drop 1 s))
         else
           let host = take i s in
           if CHR '':'' \<in> set host \<or> CHR ''['' \<in> set s \<or> CHR '']'' \<in> set s then None else Some host)"

definition isTrustedProxy :: "string \<Rightarrow> bool" where
  "isTrustedProxy ip \<longleftrightarrow> list_ex (hasPrefix ip)
     [''127.0.0.1'', ''::1'', ''172.17.'', ''172.18.'', ''172.19.'', ''172.20.'', ''172.21.'', ''10.'', ''192.168.'']"

definition clientIP :: "edgeRequest \<Rightarrow> string" where
  "clientIP q =
     (let host = (case splitHost (erRemoteAddr q) of None \<Rightarrow> erRemoteAddr q | Some h \<Rightarrow> h);
          forwarded = trimSpace (hd (splitChar CHR '','' (headerGet q ''X-Forwarded-For'')));
          realIP = trimSpace (headerGet q ''X-Real-IP'') in
      if isTrustedProxy host then
        if headerGet q ''X-Forwarded-For'' \<noteq> [] \<and> forwarded \<noteq> [] then forwarded
        else if realIP \<noteq> [] then realIP else host
      else host)"

definition rateLimitScript :: "'r redis_api \<Rightarrow> string \<Rightarrow> int \<Rightarrow> 'r \<Rightarrow> 'r \<times> int result" where
  "rateLimitScript R key seconds r = (case redisIncrBy R key 1 r of
       (r1, Inl e) \<Rightarrow> (r1, Inl e)
     | (r1, Inr count) \<Rightarrow>
         if count = 1 then (case redisExpire R key (seconds * nsSecond) r1 of (r2, Inl e) \<Rightarrow> (r2, Inl e) | (r2, Inr _) \<Rightarrow> (r2, Inr count))
         else (r1, Inr count))"

record 'r GlobalRateLimitMiddleware =
  glClient :: "'r redis_api option"
  glPrefix :: string
  glEnabled :: bool
  glRPM :: int
  glBurst :: int

definition globalKey :: "'r GlobalRateLimitMiddleware \<Rightarrow> edgeRequest \<Rightarrow> string" where
  "globalKey m q = glPrefix m @ '':rl:global:'' @ erPath q @ '':'' @ clientIP q"

definition Limit :: "'r GlobalRateLimitMiddleware \<Rightarrow> edgeRequest \<Rightarrow> 'r gwState handlerFn \<Rightarrow> 'r gwState handlerFn" where
  "Limit m q next st = (case glClient m of
       None \<Rightarrow> next st
     | Some R \<Rightarrow>
         if \<not> glEnabled m \<or> glRPM m \<le> 0 then next st
         else (case onRedis (redisEval R (rateLimitScript R (globalKey m q) 60)) st of
                 (st1, Inl e) \<Rightarrow> (st1, mwRespondError 500 ''rate_limit_unavailable'')
               | (st1, Inr count) \<Rightarrow>
                   if count > glRPM m + glBurst m then (st1, mwRespondError 429 ''global_rate_limit_exceeded'') else next st1))"

section \<open>The guarded endpoints\<close>

text \<open>The chain in front of the customer-facing endpoints; the handler's request carries the validated key.\<close>

definition guarded :: "'r GlobalRateLimitMiddleware \<Rightarrow> 'r keyCache \<Rightarrow> (string \<Rightarrow> string) \<Rightarrow> time \<Rightarrow> edgeRequest \<Rightarrow> (gwRequest \<Rightarrow> 'r gwState handlerFn)
    \<Rightarrow> gwRequest \<Rightarrow> 'r gwState handlerFn" where
  "guarded m co mac now e handler q = Limit m e (RequireAPIKey co mac now e (\<lambda>key. handler (q\<lparr>rqKey := key\<rparr>)))"


section \<open>What the gates let through\<close>

text \<open>A key that may be used for a credential.\<close>

definition liveKey :: "(string \<Rightarrow> string) \<Rightarrow> time \<Rightarrow> string \<Rightarrow> APIKey \<Rightarrow> bool" where
  "liveKey mac now raw k \<longleftrightarrow> mac raw = akKeyHash k \<and> akStatus k = ''active'' \<and> (case akExpiresAt k of None \<Rightarrow> True | Some t \<Rightarrow> now \<le> t)"

lemma lookupKey_pg: "fst (fst (lookupKey co p st)) = fst st"
  by (auto simp: lookupKey_def split: prod.splits sum.splits option.splits if_splits)

lemma lastUsed_fails_same: "UpdateAPIKeyLastUsedAt i now s = (s1, Inl e) \<Longrightarrow> s1 = s"
  by (auto simp: UpdateAPIKeyLastUsedAt_def pgRun_def split: if_splits option.splits)

lemma Validate_outcome:
  assumes "Validate co mac now raw st = (st1, x)"
  shows "case x of Inr k \<Rightarrow> liveKey mac now raw k | Inl _ \<Rightarrow> fst st1 = fst st"
proof (cases "extractPrefix raw = []")
  case True
  then show ?thesis using assms by (auto simp: Validate_def)
next
  case False
  obtain st0 y where look: "lookupKey co (extractPrefix raw) st = (st0, y)" by fastforce
  then have pg: "fst st0 = fst st" using lookupKey_pg [of co "extractPrefix raw" st] by simp
  show ?thesis
  proof (cases y)
    case (Inl e)
    then show ?thesis using assms False look pg by (auto simp: Validate_def)
  next
    case (Inr k)
    then show ?thesis
      using assms False look pg
      by (auto simp: Validate_def liveKey_def Let_def not_less split: if_splits prod.splits sum.splits option.splits dest: lastUsed_fails_same)
  qed
qed

lemma mwRespondError_status [simp]: "rpStatus (mwRespondError n t) = n"
  by (simp add: mwRespondError_def respondJSON_def)

lemma key_gate_cases:
  obtains (served) raw k st1 where "credential e = Some raw" "raw \<noteq> []" "liveKey mac now raw k"
      "\<And>next. RequireAPIKey co mac now e next st = next k st1"
    | (refused) st1 rep where "fst st1 = fst st" "rpStatus rep \<in> {401, 500}" "\<And>next. RequireAPIKey co mac now e next st = (st1, rep)"
proof (cases "credential e")
  case None
  then show ?thesis using refused [of st "mwRespondError 401 ''invalid_api_key_format''"] by (simp add: RequireAPIKey_def)
next
  case (Some raw)
  show ?thesis
  proof (cases "raw = []")
    case True
    then show ?thesis using refused [of st "mwRespondError 401 ''missing_api_key''"] Some by (simp add: RequireAPIKey_def)
  next
    case raw: False
    obtain st1 x where v: "Validate co mac now raw st = (st1, x)" by fastforce
    show ?thesis
    proof (cases x)
      case (Inl er)
      then show ?thesis
        using refused [of st1 "if er = ErrNotFound then mwRespondError 401 ''invalid_api_key'' else mwRespondError 500 ''internal_error''"]
          Validate_outcome [OF v] Some raw v by (simp add: RequireAPIKey_def)
    next
      case (Inr k)
      then show ?thesis using served [of raw k st1] Validate_outcome [OF v] Some raw v by (simp add: RequireAPIKey_def)
    qed
  qed
qed

lemma limit_cases:
  obtains (pass) st0 where "fst st0 = fst st" "\<And>next. Limit m e next st = next st0"
    | (over) st0 rep where "fst st0 = fst st" "rpStatus rep \<in> {429, 500}" "\<And>next. Limit m e next st = (st0, rep)"
proof (cases "glClient m = None \<or> \<not> glEnabled m \<or> glRPM m \<le> 0")
  case True
  then show ?thesis using pass [of st] by (auto simp: Limit_def split: option.splits)
next
  case False
  then obtain R where R: "glClient m = Some R" "glEnabled m" "\<not> glRPM m \<le> 0" by auto
  obtain st0 x where run: "onRedis (redisEval R (rateLimitScript R (globalKey m e) 60)) st = (st0, x)" by fastforce
  then have pg: "fst st0 = fst st" by (auto simp: onRedis_def split: prod.splits)
  show ?thesis
  proof (cases x)
    case (Inl er)
    then show ?thesis using over [of st0 "mwRespondError 500 ''rate_limit_unavailable''"] R run pg by (simp add: Limit_def)
  next
    case (Inr count)
    then show ?thesis
      using pass [of st0] over [of st0 "mwRespondError 429 ''global_rate_limit_exceeded''"] R run pg
      by (cases "count > glRPM m + glBurst m") (simp_all add: Limit_def)
  qed
qed

text \<open>
  C9.  A customer-facing handler runs only for a valid key: whatever the handler is, the gates either call it with a key that is active, not
  expired and carries the hash of the request's credential, or answer 401, 429 or 500 themselves without a change to the database.
\<close>

theorem handler_needs_valid_key:
  "(\<exists>raw k st1. credential e = Some raw \<and> raw \<noteq> [] \<and> liveKey mac now raw k
      \<and> (\<forall>handler. guarded m co mac now e handler q st = handler (q\<lparr>rqKey := k\<rparr>) st1))
   \<or> (\<exists>st1 rep. fst st1 = fst st \<and> rpStatus rep \<in> {401, 429, 500} \<and> (\<forall>handler. guarded m co mac now e handler q st = (st1, rep)))"
proof (cases rule: limit_cases [of st m e])
  case (over st0 rep)
  then have "guarded m co mac now e handler q st = (st0, rep)" for handler by (simp add: guarded_def)
  then show ?thesis using over(1,2) by blast
next
  case (pass st0)
  show ?thesis
  proof (cases rule: key_gate_cases [of e mac now co st0])
    case (served raw k st1)
    then have "guarded m co mac now e handler q st = handler (q\<lparr>rqKey := k\<rparr>) st1" for handler using pass by (simp add: guarded_def)
    then show ?thesis using served(1-3) by blast
  next
    case (refused st1 rep)
    then have "guarded m co mac now e handler q st = (st1, rep)" for handler using pass by (simp add: guarded_def)
    moreover have "fst st1 = fst st" "rpStatus rep \<in> {401, 429, 500}" using refused(1,2) pass(1) by auto
    ultimately show ?thesis by blast
  qed
qed

lemma role_gate: "authenticate jwtParse secret allowed q = Inr user \<Longrightarrow> auRole user \<in> set allowed \<and> auID user \<noteq> []"
  by (auto simp: authenticate_def Let_def simp del: claimString.simps split: if_split_asm list.split_asm option.split_asm)

lemma role_refusal: "authenticate jwtParse secret allowed q = Inl rep \<Longrightarrow> rpStatus rep \<in> {401, 403}"
  by (auto simp: authenticate_def Let_def simp del: claimString.simps split: if_split_asm list.split_asm option.split_asm)


section \<open>Counting behind the global limit\<close>

text \<open>Requests one after the other, to a handler that answers \<open>ok\<close>.\<close>

fun limitAll :: "'r GlobalRateLimitMiddleware \<Rightarrow> reply \<Rightarrow> edgeRequest list \<Rightarrow> 'r gwState \<Rightarrow> 'r gwState \<times> reply list" where
  "limitAll m ok [] st = (st, [])"
| "limitAll m ok (q # qs) st = (case Limit m q (\<lambda>s. (s, ok)) st of (st1, rep) \<Rightarrow> (case limitAll m ok qs st1 of (st2, reps) \<Rightarrow> (st2, rep # reps)))"

definition overLimit :: reply where
  "overLimit = mwRespondError 429 ''global_rate_limit_exceeded''"

text \<open>The bucket after \<open>c\<close> requests.\<close>

definition bucket :: "int \<Rightarrow> rcell option" where
  "bucket c = (if c = 0 then None else Some (RInt c, Some (60 * nsSecond)))"

context redis_server
begin

lemma script_counts:
  assumes "alive r" "view r k = bucket c" "0 \<le> c" "in64 (c + 1)" "\<And>r d. alive r \<Longrightarrow> \<exists>u. snd (redisExpire R k d r) = Inr u"
  shows "\<exists>r1. rateLimitScript R k 60 r = (r1, Inr (c + 1)) \<and> alive r1 \<and> view r1 k = bucket (c + 1)"
proof -
  have cnt: "cntOf (view r k) = Some c" using assms(2,3) by (simp add: bucket_def)
  obtain r1 where r1: "redisIncrBy R k 1 r = (r1, Inr (c + 1))" "alive r1" "view r1 = (view r)(k \<mapsto> (RInt (c + 1), ttlOf (view r k)))"
    using incr_reply [OF assms(1) cnt assms(4)] incr_view [OF assms(1) cnt assms(4)] incr_alive [OF assms(1), of k 1] by (metis prod.collapse)
  show ?thesis
  proof (cases "c = 0")
    case True
    obtain r2 u where r2: "redisExpire R k (60 * nsSecond) r1 = (r2, Inr u)" using assms(5) [OF r1(2), of "60 * nsSecond"] by (metis prod.collapse)
    have d: "0 < 60 * nsSecond" by (simp add: time_defs)
    have "alive r2" "view r2 = (view r1)(k := withTtl (Some (60 * nsSecond)) (view r1 k))"
      using expire_view [OF r1(2) d, of k] expire_alive [OF r1(2), of k "60 * nsSecond"] r2 by simp_all
    then show ?thesis using True r1 r2 by (simp add: rateLimitScript_def bucket_def)
  next
    case False
    then show ?thesis using r1 assms(2,3) by (simp add: rateLimitScript_def bucket_def)
  qed
qed

lemma limit_counts:
  assumes "alive r" "view r k = bucket c" "0 \<le> c" "in64 (c + int (length qs))" "\<And>r d. alive r \<Longrightarrow> \<exists>u. snd (redisExpire R k d r) = Inr u"
    and "glClient m = Some R" "glEnabled m" "0 < glRPM m" "\<forall>q \<in> set qs. globalKey m q = k"
  shows "\<exists>r1. limitAll m ok qs (s, r) = ((s, r1), map (\<lambda>i. if c + int i < glRPM m + glBurst m then ok else overLimit) [0..<length qs])
    \<and> view r1 k = bucket (c + int (length qs))"
  using assms(1-4,9)
proof (induction qs arbitrary: r c)
  case (Cons q qs)
  have "in64 (c + 1)" using Cons.prems(3,4) by (simp add: in64_def)
  then obtain r1 where r1: "rateLimitScript R k 60 r = (r1, Inr (c + 1))" "alive r1" "view r1 k = bucket (c + 1)"
    using script_counts [OF Cons.prems(1-3) _ assms(5)] by blast
  have one: "Limit m q (\<lambda>s. (s, ok)) (s, r) = ((s, r1), if c < glRPM m + glBurst m then ok else overLimit)"
    using r1(1) assms(6-8) Cons.prems(1,5) by (simp add: Limit_def onRedis_def eval_script overLimit_def)
  obtain r2 where r2: "limitAll m ok qs (s, r1) = ((s, r2), map (\<lambda>i. if c + 1 + int i < glRPM m + glBurst m then ok else overLimit) [0..<length qs])"
    "view r2 k = bucket (c + 1 + int (length qs))"
    using Cons.IH [OF r1(2,3)] Cons.prems(3-5) by (auto simp: algebra_simps)
  have "[0..<length (q # qs)] = 0 # map Suc [0..<length qs]" by (simp add: upt_conv_Cons map_Suc_upt del: upt_Suc)
  then show ?case using one r2 by (simp add: algebra_simps comp_def del: upt_Suc)
qed simp

end


text \<open>Behind a trusted proxy the bucket is the one the request itself names, so a client that sends the header chooses its bucket.\<close>

lemma forwarded_bucket:
  assumes "splitHost (erRemoteAddr q) = Some h" "isTrustedProxy h" "headerGet q ''X-Forwarded-For'' = ip @ CHR '','' # rest"
    and "CHR '','' \<notin> set ip" "trimSpace ip = ip" "ip \<noteq> []"
  shows "clientIP q = ip"
proof -
  have "splitAtChar CHR '','' (ip @ CHR '','' # rest) = (ip, Some rest)" using assms(4) by (induction ip) auto
  then have "hd (splitChar CHR '','' (ip @ CHR '','' # rest)) = ip" by (subst splitChar.simps) simp
  then show ?thesis using assms by (simp add: clientIP_def)
qed

section \<open>Examples\<close>

definition sampleGlobal :: "map_redis GlobalRateLimitMiddleware" where
  "sampleGlobal = \<lparr>glClient = Some mapRedis, glPrefix = ''g'', glEnabled = True, glRPM = 1, glBurst = 1\<rparr>"

definition sampleEdge :: edgeRequest where
  "sampleEdge = \<lparr>erPath = ''/v1/messages'', erRemoteAddr = ''9.9.9.9:4000'', erHeaders = [(''authorization'', ''Bearer k'')]\<rparr>"

lemma sampleEdge_key: "globalKey sampleGlobal sampleEdge = ''g:rl:global:/v1/messages:9.9.9.9''"
  by code_simp


end
