(* ===== verification/Sync.thy ===== *)
theory Sync
  imports Settlement
begin

text \<open>
  The synchronisation service (\<^verbatim>\<open>sync_service.go\<close>): what the billing application pushes (plans, entitlements, balances,
  credit costs, the model catalogue) and the replay of usage debits from the ledger.  A batch is a list of rows, each with the
  identifiers \<^verbatim>\<open>uuid.New()\<close> would give it.  The lemmas show that a failing entitlement row does not disturb its batch, that a replay
  posts the debit the settlement posted, and that a model missing from the catalogue cannot be routed any more.
\<close>

section \<open>Plans, costs and balances\<close>

fun SyncSubscriptionPlans :: "(float64 \<Rightarrow> rat option) \<Rightarrow> time \<Rightarrow> (SubscriptionPlanSnapshot \<times> uuid) list \<Rightarrow> int \<Rightarrow> pg_state
    \<Rightarrow> pg_state \<times> int \<times> unit result" where
  "SyncSubscriptionPlans N now [] count s = (s, count, Inr ())"
| "SyncSubscriptionPlans N now ((item, fresh) # payload) count s =
     (case UpsertPlan N now (item\<lparr>spID := orNew fresh (spID item)\<rparr>) s of
        (s1, Inl e) \<Rightarrow> (s1, count, Inl e)
      | (s1, Inr _) \<Rightarrow> SyncSubscriptionPlans N now payload (count + 1) s1)"

fun SyncModelCreditCosts :: "time \<Rightarrow> (ModelCreditCost \<times> uuid) list \<Rightarrow> int \<Rightarrow> pg_state \<Rightarrow> pg_state \<times> int \<times> unit result" where
  "SyncModelCreditCosts now [] count s = (s, count, Inr ())"
| "SyncModelCreditCosts now ((item, fresh) # payload) count s =
     (if mcFullModelID item = [] then (s, count, Inl (ErrText ''full_model_id required''))
      else (case UpsertModelCreditCost fresh now item s of
              (s1, Inl e) \<Rightarrow> (s1, count, Inl e)
            | (s1, Inr _) \<Rightarrow> SyncModelCreditCosts now payload (count + 1) s1))"

definition SyncCustomerBalance :: "time \<Rightarrow> string \<Rightarrow> string \<Rightarrow> string option \<Rightarrow> time option \<Rightarrow> pg_state \<Rightarrow> pg_state \<times> unit result" where
  "SyncCustomerBalance now userID balance paygBalance creditExpiresAt s =
     (case UpsertBalanceSnapshot now userID balance paygBalance creditExpiresAt s of (s1, Inl e) \<Rightarrow> (s1, Inl e) | (s1, Inr _) \<Rightarrow> (s1, Inr ()))"

section \<open>Entitlements\<close>

record EntitlementSyncFailure =
  efUserID :: string
  efPlanCode :: string
  efError :: gerror

text \<open>The service holds the entitlement service's cache and the limiter, which is nil without Redis.\<close>

record 'r syncService =
  syCache :: "'r entCache"
  syRateLimit :: "('r redis_api \<times> string) option"

definition resetPlanRPDForSamePlanExtension :: "'r syncService \<Rightarrow> time \<Rightarrow> CustomerEntitlement \<Rightarrow> 'r gwState \<Rightarrow> 'r gwState" where
  "resetPlanRPDForSamePlanExtension S now item st = (case syRateLimit S of
       None \<Rightarrow> st
     | Some (R, pfx) \<Rightarrow>
         if ceStatus item \<noteq> ''active'' \<or> ceGenfityUserID item = [] \<or> cePlanCode item = [] then st
         else (case metaObject (ceMetadata item) of
                 None \<Rightarrow> st
               | Some meta \<Rightarrow>
                   let resetID = jgetStr meta ''extensionTransactionId'' in
                   if resetID = [] then st
                   else (case cePeriodStart item of
                           None \<Rightarrow> st
                         | Some start \<Rightarrow> fst (onRedis (ResetPlanRPDOnce R pfx now (ceGenfityUserID item) (itoa (unixSeconds start)) resetID) st))))"

definition carryQuotaCounterOnExtension :: "time \<Rightarrow> CustomerEntitlement \<Rightarrow> 'r gwState \<Rightarrow> 'r gwState" where
  "carryQuotaCounterOnExtension now item st =
     (case (cePeriodStart item, cePeriodEnd item) of
        (Some start, Some end') \<Rightarrow>
          if ceStatus item \<noteq> ''active'' \<or> ceGenfityUserID item = [] \<or> ceQuotaTokensMonthly item = None then st
          else fst (onPg (MigrateQuotaCounterPeriodEnd now (ceGenfityUserID item) start end') st)
      | _ \<Rightarrow> st)"

fun SyncCustomerEntitlements :: "'r syncService \<Rightarrow> time \<Rightarrow> (CustomerEntitlement \<times> uuid) list \<Rightarrow> 'r gwState
    \<Rightarrow> 'r gwState \<times> int \<times> EntitlementSyncFailure list" where
  "SyncCustomerEntitlements S now [] st = (st, 0, [])"
| "SyncCustomerEntitlements S now ((item0, fresh) # payload) st =
     (let item = item0\<lparr>ceID := orNew fresh (ceID item0)\<rparr> in
      case UpsertEnt (syCache S) fresh now item st of
        (st1, Inl e) \<Rightarrow>
          (case SyncCustomerEntitlements S now payload st1 of
             (st2, count, failures) \<Rightarrow> (st2, count, \<lparr>efUserID = ceGenfityUserID item, efPlanCode = cePlanCode item, efError = e\<rparr> # failures))
      | (st1, Inr saved) \<Rightarrow>
          (case SyncCustomerEntitlements S now payload (carryQuotaCounterOnExtension now saved (resetPlanRPDForSamePlanExtension S now item st1)) of
             (st2, count, failures) \<Rightarrow> (st2, count + 1, failures)))"

section \<open>Replaying debits\<close>

text \<open>\<^verbatim>\<open>json.Unmarshal\<close> into a struct with one boolean field: a name matches without regard to case, a null leaves the field, another type is an error.\<close>

fun billableField :: "jobject \<Rightarrow> bool \<Rightarrow> bool option" where
  "billableField [] b = Some b"
| "billableField ((k, v) # m) b =
     (if toLower k \<noteq> ''billable'' then billableField m b
      else (case v of JBool c \<Rightarrow> billableField m c | JNull \<Rightarrow> billableField m b | _ \<Rightarrow> None))"

definition usageEntryIsBillable :: "UsageLedgerEntry \<Rightarrow> bool" where
  "usageEntryIsBillable entry \<longleftrightarrow> ueStatus entry = ''success''
     \<or> (case ueMetadata entry of Some (JObj m) \<Rightarrow> billableField m False = Some True | _ \<Rightarrow> False)"

definition parseUsageAmount :: "string option \<Rightarrow> float64 option" where
  "parseUsageAmount value = (case value of
       None \<Rightarrow> None
     | Some t \<Rightarrow>
         if t = [] then None
         else (case parseFloat t of
                 None \<Rightarrow> None
               | Some amount \<Rightarrow>
                   if flt amount fzero then None
                   else if flt (Fin 1000000) amount \<or> \<not> isFinite amount then None else Some amount))"

definition replayPayloadFromUsage :: "UsageLedgerEntry \<Rightarrow> UsageDebitPayload option" where
  "replayPayloadFromUsage entry =
     (let base = (\<lambda>mode. \<lparr>udUserID = ueGenfityUserID entry, udRequestID = ueRequestID entry, udBillingMode = mode,
            udAmountCredits = fzero, udAmountUSD = fzero, udModel = uePublicModel entry, udNotes = ''gateway debit replay''\<rparr>) in
      case ueBillingMode entry of
        None \<Rightarrow> None
      | Some mode \<Rightarrow>
          if \<not> usageEntryIsBillable entry \<or> ueRequestID entry = [] \<or> ueGenfityUserID entry = [] then None
          else if mode = ''credit_package'' then
            (case parseUsageAmount (ueAmountCredits entry) of
               None \<Rightarrow> None
             | Some amount \<Rightarrow> if fle amount fzero then None else Some ((base mode)\<lparr>udAmountCredits := amount\<rparr>))
          else if mode = ''payg_topup'' then
            (case parseUsageAmount (Some (ueTotalCost entry)) of
               None \<Rightarrow> None
             | Some amount \<Rightarrow> if fle amount fzero then None else Some ((base mode)\<lparr>udAmountUSD := amount\<rparr>))
          else None)"

definition ListAllUsage :: "int \<Rightarrow> pg_state \<Rightarrow> UsageLedgerEntry list" where
  "ListAllUsage limit = pgList (\<lambda>s. take (nat (if limit \<le> 0 then 100 else limit)) (sort_key (\<lambda>r. - ueStartedAt r) (pgLedger s)))"

definition replayUsageEntries :: "string \<Rightarrow> time \<Rightarrow> int \<Rightarrow> pg_state \<Rightarrow> UsageLedgerEntry list" where
  "replayUsageEntries userID since limit s =
     (if userID \<noteq> [] \<and> since \<noteq> zeroTime then ListUsageByUserSince userID since s
      else if userID \<noteq> [] then ListUsageByUser userID s
      else ListAllUsage limit s)"

record ReplayUsageDebitsInput =
  riUserID :: string
  riSince :: time
  riLimit :: int
  riDryRun :: bool

record ReplayUsageDebitsResult =
  rdScanned :: int
  rdReplayed :: int
  rdSkipped :: int
  rdFailed :: int
  rdDryRun :: bool
  rdErrors :: "(string \<times> string \<times> string) list"

fun replayLoop :: "'w peer \<Rightarrow> GenfityCallback option \<Rightarrow> ReplayUsageDebitsInput \<Rightarrow> int \<Rightarrow> UsageLedgerEntry list \<Rightarrow> ReplayUsageDebitsResult \<Rightarrow> 'w
    \<Rightarrow> 'w \<times> ReplayUsageDebitsResult" where
  "replayLoop P cb inp limit [] r w = (w, r)"
| "replayLoop P cb inp limit (entry # entries) r w =
     (if rdScanned r \<ge> limit then (w, r)
      else if riSince inp \<noteq> zeroTime \<and> ueStartedAt entry < riSince inp then replayLoop P cb inp limit entries r w
      else
        let r1 = r\<lparr>rdScanned := rdScanned r + 1\<rparr> in
        (case replayPayloadFromUsage entry of
           None \<Rightarrow> replayLoop P cb inp limit entries (r1\<lparr>rdSkipped := rdSkipped r1 + 1\<rparr>) w
         | Some payload \<Rightarrow>
             if riDryRun inp then replayLoop P cb inp limit entries (r1\<lparr>rdReplayed := rdReplayed r1 + 1\<rparr>) w
             else (case PostUsageDebit P cb payload w of
                     (w1, Inl e) \<Rightarrow> replayLoop P cb inp limit entries
                        (r1\<lparr>rdFailed := rdFailed r1 + 1, rdErrors := rdErrors r1 @ [(ueRequestID entry, ueGenfityUserID entry, callbackErrorText e)]\<rparr>) w1
                   | (w1, Inr _) \<Rightarrow> replayLoop P cb inp limit entries (r1\<lparr>rdReplayed := rdReplayed r1 + 1\<rparr>) w1)))"

definition ReplayUsageDebits :: "'w peer \<Rightarrow> GenfityCallback option \<Rightarrow> ReplayUsageDebitsInput \<Rightarrow> pg_state \<times> 'w
    \<Rightarrow> 'w \<times> ReplayUsageDebitsResult result" where
  "ReplayUsageDebits P cb inp sw =
     (if \<not> Enabled cb then (snd sw, Inl (ErrText ''genfity_callback_disabled''))
      else
        let l1 = (if riLimit inp \<le> 0 then 500 else riLimit inp); limit = (if l1 > 5000 then 5000 else l1) in
        (case replayLoop P cb inp limit (replayUsageEntries (riUserID inp) (riSince inp) limit (fst sw))
                \<lparr>rdScanned = 0, rdReplayed = 0, rdSkipped = 0, rdFailed = 0, rdDryRun = riDryRun inp, rdErrors = []\<rparr> (snd sw) of
           (w, r) \<Rightarrow> (w, Inr r)))"

section \<open>The model catalogue\<close>

record ModelSyncItem =
  msPublicModel :: string
  msDisplayName :: string
  msDescription :: string
  msStatus :: string
  msModelType :: string
  msContextWindow :: "int option"
  msSupportsStreaming :: bool
  msSupportsTools :: bool
  msSupportsVision :: bool
  msPaygExposed :: bool
  msIsFree :: bool
  msFreeLimitRPD :: "int option"
  msFreeLimitRPM :: "int option"
  msFreeLimitTPD :: "int option"
  msRouterInstanceCode :: string
  msRouterModel :: string
  msPriceInputPer1M :: "string option"
  msPriceOutputPer1M :: "string option"
  msPriceCachedPer1M :: "string option"
  msPriceReasoningPer1M :: "string option"
  msPriceCurrency :: string

text \<open>The identifiers a row draws: for its model, its route and its price.\<close>

type_synonym freshIds = "uuid \<times> uuid \<times> uuid"

definition modelOf :: "ModelSyncItem \<Rightarrow> uuid \<Rightarrow> AIModel" where
  "modelOf item modelID = \<lparr>amID = modelID, amPublicModel = msPublicModel item, amDisplayName = msDisplayName item,
     amDescription = msDescription item, amStatus = (if msStatus item = [] then ''active'' else msStatus item),
     amModelType = defaultString (msModelType item) ''text'', amContextWindow = msContextWindow item,
     amSupportsStreaming = msSupportsStreaming item, amSupportsTools = msSupportsTools item, amSupportsVision = msSupportsVision item,
     amPaygExposed = msPaygExposed item, amIsFree = msIsFree item, amFreeLimitRPD = msFreeLimitRPD item,
     amFreeLimitRPM = msFreeLimitRPM item, amFreeLimitTPD = msFreeLimitTPD item, amCreatedAt = zeroTime, amUpdatedAt = zeroTime\<rparr>"

definition syncRoute :: "time \<Rightarrow> ModelSyncItem \<Rightarrow> AIModel \<Rightarrow> uuid \<Rightarrow> pg_state \<Rightarrow> pg_state \<times> unit result" where
  "syncRoute now item model fresh s =
     (if msRouterInstanceCode item = [] \<and> msRouterModel item = [] then (s, Inr ())
      else
        let routeID = (case GetRouteByModelID (amID model) s of Inr r \<Rightarrow> arID r | Inl _ \<Rightarrow> fresh) in
        (case UpsertRoute now \<lparr>arID = routeID, arModelID = amID model, arRouterInstanceCode = msRouterInstanceCode item,
                arRouterModel = msRouterModel item, arStatus = ''active'', arMetadata = None, arCreatedAt = zeroTime\<rparr> s of
           (s1, Inl e) \<Rightarrow> (s1, Inl e) | (s1, Inr _) \<Rightarrow> (s1, Inr ())))"

definition syncPrice :: "time \<Rightarrow> ModelSyncItem \<Rightarrow> AIModel \<Rightarrow> uuid \<Rightarrow> pg_state \<Rightarrow> pg_state \<times> unit result" where
  "syncPrice now item model fresh s =
     (if msPriceInputPer1M item = None \<and> msPriceOutputPer1M item = None then (s, Inr ())
      else
        let found = (case find (\<lambda>p. apModelID p = amID model) (ListPrices s) of Some p \<Rightarrow> apID p | None \<Rightarrow> nilUUID);
            priceID = orNew fresh found in
        (case serviceUpsertPrice fresh now \<lparr>apID = priceID, apModelID = amID model,
                apInputPricePer1M = (case msPriceInputPer1M item of Some p \<Rightarrow> p | None \<Rightarrow> ''0''),
                apOutputPricePer1M = (case msPriceOutputPer1M item of Some p \<Rightarrow> p | None \<Rightarrow> ''0''),
                apCachedPricePer1M = msPriceCachedPer1M item, apReasoningPricePer1M = msPriceReasoningPer1M item,
                apCurrency = (if msPriceCurrency item = [] then ''USD'' else msPriceCurrency item), apActive = True, apCreatedAt = zeroTime\<rparr> s of
           (s1, Inl e) \<Rightarrow> (s1, Inl e) | (s1, Inr _) \<Rightarrow> (s1, Inr ())))"

fun syncModelRows :: "time \<Rightarrow> (ModelSyncItem \<times> freshIds) list \<Rightarrow> int \<Rightarrow> pg_state \<Rightarrow> pg_state \<times> int \<times> unit result" where
  "syncModelRows now [] count s = (s, count, Inr ())"
| "syncModelRows now ((item, (newModel, newRoute, newPrice)) # payload) count s =
     (if msPublicModel item = [] then (s, count, Inl (ErrText ''public_model required''))
      else
        let modelID = (case GetModelByPublicName (msPublicModel item) s of Inr m \<Rightarrow> amID m | Inl _ \<Rightarrow> newModel) in
        (case UpsertModel now (modelOf item modelID) s of
           (s1, Inl e) \<Rightarrow> (s1, count, Inl e)
         | (s1, Inr model) \<Rightarrow>
             (case syncRoute now item model newRoute s1 of
                (s2, Inl e) \<Rightarrow> (s2, count, Inl e)
              | (s2, Inr _) \<Rightarrow>
                  (case syncPrice now item model newPrice s2 of
                     (s3, Inl e) \<Rightarrow> (s3, count, Inl e)
                   | (s3, Inr _) \<Rightarrow> syncModelRows now payload (count + 1) s3))))"

text \<open>The clean-up: errors are ignored.\<close>

definition retireRoute :: "time \<Rightarrow> uuid \<Rightarrow> pg_state \<Rightarrow> pg_state" where
  "retireRoute now modelID s = (case GetRouteByModelID modelID s of
       Inr route \<Rightarrow> if arStatus route \<noteq> ''retired'' then fst (UpdateRoute now (route\<lparr>arStatus := ''retired''\<rparr>) s) else s
     | Inl _ \<Rightarrow> s)"

definition deactivatePrice :: "time \<Rightarrow> uuid \<Rightarrow> pg_state \<Rightarrow> AIModelPrice \<Rightarrow> pg_state" where
  "deactivatePrice now modelID s price =
     (if apModelID price = modelID \<and> apActive price then fst (UpdatePrice now (price\<lparr>apActive := False\<rparr>) s) else s)"

definition retireModel :: "time \<Rightarrow> string list \<Rightarrow> pg_state \<Rightarrow> AIModel \<Rightarrow> pg_state" where
  "retireModel now keep s existing =
     (if amPublicModel existing \<in> set keep \<or> amStatus existing = ''retired'' then s
      else
        let s1 = fst (UpdateModelStatus now (amID existing) ''retired'' s);
            s2 = retireRoute now (amID existing) s1
        in foldl (deactivatePrice now (amID existing)) s2 (ListPrices s2))"

definition SyncModels :: "time \<Rightarrow> (ModelSyncItem \<times> freshIds) list \<Rightarrow> pg_state \<Rightarrow> pg_state \<times> int \<times> unit result" where
  "SyncModels now payload s = (case syncModelRows now payload 0 s of
       (s1, count, Inl e) \<Rightarrow> (s1, count, Inl e)
     | (s1, count, Inr _) \<Rightarrow> (foldl (retireModel now (map (msPublicModel \<circ> fst) payload)) s1 (ListAllModels s1), count, Inr ()))"

section \<open>A batch and its failing rows\<close>

lemma upsert_fails_same: "upsertEntitlement now item s = (s1, Inl e) \<Longrightarrow> s1 = s"
  by (auto simp: upsertEntitlement_def upsertEntitlementByPlanCode_def insertEntitlementByPlanCode_def upsertSingleRowEntitlement_def Let_def pgRun_def
      split: if_splits option.splits prod.splits sum.splits)

lemma UpsertEnt_fails_same: "UpsertEnt co fresh now item st = (st1, Inl e) \<Longrightarrow> st1 = st"
  by (auto simp: UpsertEnt_def split: prod.splits sum.splits if_splits dest: upsert_fails_same)

text \<open>
  C33.  One bad row does not spoil an entitlement batch: every row is either counted or reported, and the batch leaves
  exactly the state that the rows which succeeded would leave by themselves.
\<close>

theorem entitlement_batch_isolated:
  assumes "SyncCustomerEntitlements S now payload st = (st', count, failures)"
  shows "count + int (length failures) = int (length payload)
    \<and> (\<exists>good. subseq good payload \<and> SyncCustomerEntitlements S now good st = (st', count, []))"
  using assms
proof (induction payload arbitrary: st count failures)
  case Nil
  then show ?case by (auto intro: exI [of _ "[]"])
next
  case (Cons row payload)
  obtain item0 fresh where row: "row = (item0, fresh)" by fastforce
  define item where "item = item0\<lparr>ceID := orNew fresh (ceID item0)\<rparr>"
  obtain st1 x where up: "UpsertEnt (syCache S) fresh now item st = (st1, x)" by fastforce
  show ?case
  proof (cases x)
    case (Inl e)
    then have "st1 = st" using up UpsertEnt_fails_same by metis
    then obtain fs where rest: "SyncCustomerEntitlements S now payload st = (st', count, fs)" and fs: "length failures = Suc (length fs)"
      using Cons.prems up Inl row item_def by (auto simp: Let_def split: prod.splits)
    then show ?thesis using Cons.IH [OF rest] by (auto intro: exI list_emb_Cons)
  next
    case (Inr saved)
    let ?st = "carryQuotaCounterOnExtension now saved (resetPlanRPDForSamePlanExtension S now item st1)"
    obtain c where rest: "SyncCustomerEntitlements S now payload ?st = (st', c, failures)" and c: "count = c + 1"
      using Cons.prems up Inr row item_def by (auto simp: Let_def split: prod.splits)
    obtain good where good: "subseq good payload" "SyncCustomerEntitlements S now good ?st = (st', c, [])" "c + int (length failures) = int (length payload)"
      using Cons.IH [OF rest] by blast
    have "SyncCustomerEntitlements S now (row # good) st = (st', count, [])"
      using up Inr row item_def good(2) c by (simp add: Let_def)
    then show ?thesis using good(1,3) c by (auto intro!: exI [of _ "row # good"])
  qed
qed

section \<open>Replaying a settlement\<close>

lemma rnd_near:
  assumes "0 < q" "q \<le> 2 ^ 20" shows "\<bar>rnd q - q\<bar> \<le> 1 / 2 ^ 33"
proof -
  define P where "P = pow2 (ulpExp q)"
  have "pow2 (expo q) \<le> pow2 20" using expo_bounds(1) [of q] assms by (simp add: pow2_def)
  then have "expo q \<le> 20" using pow2_less_iff [of 20 "expo q"] by linarith
  then have "P \<le> pow2 (-32)" unfolding P_def by (intro pow2_mono) (simp add: ulpExp_def)
  then have P: "0 < P" "P \<le> 1 / 2 ^ 32" by (simp_all add: P_def pow2_def)
  have "rnd q - q = (of_int (rndEven (q / P)) - q / P) * P" using assms(1) P(1) by (simp add: rnd_def P_def field_simps)
  then have "\<bar>rnd q - q\<bar> = \<bar>of_int (rndEven (q / P)) - q / P\<bar> * P" using P(1) by (simp add: abs_mult)
  also have "\<dots> \<le> 1 / 2 * P" using rndEven_bounds [of "q / P"] P(1) by (intro mult_right_mono) auto
  also have "\<dots> \<le> 1 / 2 ^ 33" using P(2) by simp
  finally show ?thesis .
qed

text \<open>An amount of the billing arithmetic survives its four-decimal text.\<close>

lemma rounded_text_back:
  assumes "roundCredits x = Fin c" "0 < c" "c \<le> 1000000"
  shows "parseFloat (fixedText 4 c) = Some (Fin c)"
proof -
  obtain k where k: "c = rnd (of_int k / 10000)" "fin (of_int k / 10000) = Fin c"
    using assms(1) by (cases "fmul x (Fin 10000)") (auto simp: roundCredits_def fin_def Let_def split: if_splits)
  define q where "q = (of_int k / 10000 :: rat)"
  have q: "0 < q" using assms(2) k(1) rnd_nonneg [of "- q"] rnd_minus [of q] unfolding q_def
    by (metis linorder_not_less neg_0_le_iff_le neg_le_0_iff_le order.strict_iff_not)
  have "q \<le> 2 ^ 20"
  proof (rule ccontr)
    assume "\<not> q \<le> 2 ^ 20"
    then have "rnd (2 ^ 20) \<le> rnd q" by (intro rnd_mono) simp
    then show False using rnd_int [of "2 ^ 20"] assms(3) k(1) unfolding q_def by simp
  qed
  then have "\<bar>c - q\<bar> \<le> 1 / 2 ^ 33" using rnd_near [OF q] k(1) unfolding q_def by simp
  then have "\<bar>c * 10 ^ 4 - of_int k\<bar> < 1 / 2" unfolding q_def by (simp add: abs_le_iff abs_less_iff field_simps)
  moreover have "\<bar>of_int (rndEven (c * 10 ^ 4)) - c * 10 ^ 4\<bar> \<le> 1 / 2" by (rule rndEven_bounds)
  ultimately have "\<bar>of_int (rndEven (c * 10 ^ 4)) - of_int k\<bar> < (1 :: rat)"
    using abs_triangle_ineq [of "of_int (rndEven (c * 10 ^ 4)) - c * 10 ^ 4" "c * 10 ^ 4 - of_int k"] by simp
  then have "\<bar>rndEven (c * 10 ^ 4) - k\<bar> < 1" by (metis of_int_1 of_int_abs of_int_diff of_int_less_iff)
  then have "rndEven (c * 10 ^ 4) = k" by simp
  then show ?thesis using parseFloat_fixedText [of c 4] assms(2) k(2) by simp
qed

lemma billable_meta: "billableField (ledgerMeta key sub res ps pc d) False = Some (sdBillable d)"
proof -
  have other: "toLower ''provider_started'' \<noteq> ''billable''" "toLower ''provider_completed'' \<noteq> ''billable''" "toLower ''charge_usage'' \<noteq> ''billable''"
    "toLower ''count_request'' \<noteq> ''billable''" "toLower ''billing_reason'' \<noteq> ''billable''" "toLower ''pricing_group'' \<noteq> ''billable''"
    "toLower ''is_unlimited'' \<noteq> ''billable''" "toLower ''plan_code'' \<noteq> ''billable''" "toLower ''billable'' = ''billable''" by code_simp+
  show ?thesis by (simp add: ledgerMeta_def Let_def other)
qed

lemma charged_billable: "sdChargeUsage (decideSettlementBilling res ok status t ps) \<Longrightarrow> sdBillable (decideSettlementBilling res ok status t ps)"
  by (auto simp: decideSettlementBilling_def split: if_splits)

text \<open>The columns of the row that a replay reads.\<close>

lemma recorded_row:
  assumes "recordUsage now q (Some res) s = (s', Inr settle)" "rrBillingMode res = ''credit_package''" "usChargeUsage settle"
    and "usActualCredits settle = Fin c" "0 < c"
  obtains row where "pgLedger s' = pgLedger s @ [row]" "settle = settlementOf q (Some res) s" "usageEntryIsBillable row" "ueBillingMode row = Some ''credit_package''"
    "ueRequestID row = usRequestID settle" "ueGenfityUserID row = akGenfityUserID (srKey q)" "uePublicModel row = srPublicModel q"
    "numericTextPtr 4 (Some (fixedText 4 c)) = Some (ueAmountCredits row)"
proof -
  let ?e = "ledgerEntry now q (Some res) s"
  obtain row where row: "AppendUsage now ?e s = (s', Inr row)" and settle: "settle = settlementOf q (Some res) s"
    using assms(1) unfolding recordUsage_def by (auto split: prod.splits sum.splits)
  have out: "s' = s\<lparr>pgLedger := pgLedger s @ [row]\<rparr>" "usageRow now ?e = Some row" using AppendUsage_Inr [OF row] by auto
  have e: "ueRequestID ?e = usRequestID settle" "ueGenfityUserID ?e = akGenfityUserID (srKey q)" "uePublicModel ?e = srPublicModel q"
    "ueBillingMode ?e = Some ''credit_package''" "ueAmountCredits ?e = Some (fixedText 4 c)"
    "ueStatus ?e = (if usSuccess settle then ''success'' else ''failed'')"
    using assms(2-5) by (simp_all add: ledgerEntry_def Let_def settle)
  define d where "d = decideSettlementBilling (Some res) (usSuccess settle) (srStatus q) (umTotalTokens (parseUsageFromBody (srBody q))) (srProviderStarted q)"
  have meta: "ueMetadata ?e = Some (JObj (ledgerMeta (srKey q) (srSub q) (Some res) (srProviderStarted q) (usProviderCompleted settle) d))"
    by (simp add: ledgerEntry_def Let_def settle d_def)
  have "sdChargeUsage d" using assms(3) by (simp add: settle settlementOf_def Let_def d_def split: prod.splits)
  then have bill: "sdBillable d" unfolding d_def by (rule charged_billable)
  have r: "ueRequestID row = ueRequestID ?e" "ueGenfityUserID row = ueGenfityUserID ?e" "uePublicModel row = uePublicModel ?e"
    "ueBillingMode row = ueBillingMode ?e" "ueStatus row = ueStatus ?e" "ueMetadata row = rawJSON (ueMetadata ?e)"
    "numericTextPtr 4 (ueAmountCredits ?e) = Some (ueAmountCredits row)"
    using out(2) by (auto simp: usageRow_def split: option.splits)
  have "usageEntryIsBillable row"
    unfolding usageEntryIsBillable_def r(6) meta using billable_meta bill by (simp add: rawJSON_def)
  then show thesis using that [of row] out(1) settle r e by simp
qed

text \<open>
  C24.  Replaying the ledger repeats the debit: for a charged request on a credit key, of at most a million credits, the row
  that the settlement wrote yields the very debit that the settlement posted, to the last bit of its amount, so that the billing
  application can recognise it by the request identifier; only the note differs.
\<close>

theorem replay_repeats_debit:
  assumes "recordUsage now q (Some res) s = (s', Inr settle)" "rrBillingMode res = ''credit_package''" "usChargeUsage settle" "Enabled cb"
    and "usActualCredits settle = roundCredits x" "roundCredits x = Fin c" "0 < c" "c \<le> 1000000"
    and "usRequestID settle \<noteq> []" "akGenfityUserID (srKey q) \<noteq> []"
  shows "\<exists>row d. pgLedger s' = pgLedger s @ [row] \<and> usageDebits cb q res settle = [d]
    \<and> replayPayloadFromUsage row = Some (d\<lparr>udNotes := ''gateway debit replay''\<rparr>)"
proof -
  have c: "usActualCredits settle = Fin c" using assms(5,6) by simp
  obtain row where row: "pgLedger s' = pgLedger s @ [row]" "settle = settlementOf q (Some res) s" "usageEntryIsBillable row"
    "ueBillingMode row = Some ''credit_package''" "ueRequestID row = usRequestID settle" "ueGenfityUserID row = akGenfityUserID (srKey q)"
    "uePublicModel row = srPublicModel q" "numericTextPtr 4 (Some (fixedText 4 c)) = Some (ueAmountCredits row)"
    by (rule recorded_row [OF assms(1-3) c assms(7)])
  have "onGrid 4 (of_int (rndEven (c * 10 ^ 4)) / 10 ^ 4)" unfolding onGrid_iff by blast
  then have amt: "ueAmountCredits row = Some (fixedText 4 (of_int (rndEven (c * 10 ^ 4)) / 10 ^ 4))"
    using row(8) assms(7) by (simp add: numericTextPtr_def numericText_def parseDecimal_fixedText)
  have exact: "parseFloat (fixedText 4 c) = Some (Fin c)" by (rule rounded_text_back [OF assms(6-8)])
  have same: "parseFloat (fixedText 4 (of_int (rndEven (c * 10 ^ 4)) / 10 ^ 4)) = parseFloat (fixedText 4 c)"
  proof -
    have "0 \<le> rndEven (c * 10 ^ 4)" using rndEven_mono [of 0 "c * 10 ^ 4"] rndEven_of_int [of 0] assms(7) by simp
    then show ?thesis using assms(7) by (simp add: parseFloat_fixedText)
  qed
  have "fixedText 4 (of_int (rndEven (c * 10 ^ 4)) / 10 ^ 4) \<noteq> []" by (simp add: fixedText_def fixedNat_nonempty)
  then have "parseUsageAmount (ueAmountCredits row) = Some (Fin c)"
    using amt same exact assms(7,8) by (simp add: parseUsageAmount_def)
  then show ?thesis
    using row assms(2-4,7,9,10) c by (simp add: replayPayloadFromUsage_def usageDebits_def Let_def)
qed


section \<open>The catalogue after a synchronisation\<close>

lemma upModels:
  "pgUp s \<Longrightarrow> pgUp (fst (UpdateRoute now route s)) \<and> pgModels (fst (UpdateRoute now route s)) = pgModels s"
  "pgUp s \<Longrightarrow> pgUp (fst (UpdatePrice now price s)) \<and> pgModels (fst (UpdatePrice now price s)) = pgModels s"
  "pgUp s \<Longrightarrow> pgUp (fst (UpsertRoute now route s)) \<and> pgModels (fst (UpsertRoute now route s)) = pgModels s"
  "pgUp s \<Longrightarrow> pgUp (fst (UpsertPrice now price s)) \<and> pgModels (fst (UpsertPrice now price s)) = pgModels s"
  by (auto simp: UpdateRoute_def UpdatePrice_def UpsertRoute_def UpsertPrice_def Let_def pgUp_def pgRun_def split: option.splits sum.splits prod.splits if_splits)

lemma retireRoute_models: "pgUp s \<Longrightarrow> pgUp (retireRoute now i s) \<and> pgModels (retireRoute now i s) = pgModels s"
  by (simp add: retireRoute_def upModels split: sum.split)

lemma deactivate_models:
  "pgUp s \<Longrightarrow> pgUp (foldl (deactivatePrice now i) s ps) \<and> pgModels (foldl (deactivatePrice now i) s ps) = pgModels s"
  by (induction ps arbitrary: s) (simp_all add: deactivatePrice_def upModels)

lemma retireModel_models:
  assumes "pgUp s"
  shows "pgUp (retireModel now keep s x) \<and> pgModels (retireModel now keep s x) =
    (if amPublicModel x \<in> set keep \<or> amStatus x = ''retired'' then pgModels s
     else updWhere (\<lambda>r. amID r = amID x) (\<lambda>r. r\<lparr>amStatus := ''retired'', amUpdatedAt := now\<rparr>) (pgModels s))"
proof -
  have "pgUp (fst (UpdateModelStatus now i st s)) \<and> pgModels (fst (UpdateModelStatus now i st s))
      = updWhere (\<lambda>r. amID r = i) (\<lambda>r. r\<lparr>amStatus := st, amUpdatedAt := now\<rparr>) (pgModels s)" for i st
    using assms by (auto simp: UpdateModelStatus_def pgUp_def pgRun_def affected_def updWhere_def filter_empty_conv intro!: map_idI [symmetric])
  then show ?thesis using assms by (simp add: retireModel_def Let_def retireRoute_models deactivate_models)
qed

lemma updRetired:
  assumes "r \<in> set (updWhere (\<lambda>r. amID r = i) (\<lambda>r. r\<lparr>amStatus := ''retired'', amUpdatedAt := now\<rparr>) rows)" "amStatus r \<noteq> ''retired''"
  shows "r \<in> set rows \<and> amID r \<noteq> i"
proof -
  obtain r0 where "r0 \<in> set rows" "r = (if amID r0 = i then r0\<lparr>amStatus := ''retired'', amUpdatedAt := now\<rparr> else r0)"
    using assms(1) by (auto simp: updWhere_def)
  then show ?thesis using assms(2) by (cases "amID r0 = i") simp_all
qed

lemma retireAll:
  assumes "pgUp s" "r \<in> set (pgModels (foldl (retireModel now keep) s xs))" "amStatus r \<noteq> ''retired''" "amPublicModel r \<notin> set keep"
  shows "r \<in> set (pgModels s) - set xs"
  using assms
proof (induction xs arbitrary: s)
  case (Cons x xs)
  note step = retireModel_models [OF Cons.prems(1), of now keep x]
  have "r \<in> set (pgModels (retireModel now keep s x)) - set xs"
    using Cons.IH [OF conjunct1 [OF step] _ Cons.prems(3,4)] Cons.prems(2) by simp
  moreover have "r \<in> set (pgModels s) \<and> r \<noteq> x" if "r \<in> set (pgModels (retireModel now keep s x))"
    using that step Cons.prems(3,4) updRetired [of r "amID x" now] by (metis (no_types, lifting))
  ultimately show ?case by auto
qed simp

lemma retireAll_keeps:
  assumes "pgUp s" "r \<in> set (pgModels s)" "\<forall>x \<in> set xs. amID x = amID r \<longrightarrow> amPublicModel x \<in> set keep"
  shows "r \<in> set (pgModels (foldl (retireModel now keep) s xs))"
  using assms
proof (induction xs arbitrary: s)
  case (Cons x xs)
  have "r \<in> set (pgModels (retireModel now keep s x))"
    using retireModel_models [OF Cons.prems(1), of now keep x] Cons.prems(2,3) by (force simp: updWhere_def)
  then show ?case using Cons.IH retireModel_models [OF Cons.prems(1), of now keep x] Cons.prems(3) by simp
qed simp

lemma retireAll_up: "pgUp s \<Longrightarrow> pgUp (foldl (retireModel now keep) s xs)"
  by (induction xs arbitrary: s) (simp_all add: retireModel_models)

lemma UpsertModel_row:
  assumes "pgUp s" "UpsertModel now item s = (s1, Inr saved)"
  shows "pgUp s1" "modelsOk (pgModels s1)" "saved \<in> set (pgModels s1)" "amPublicModel saved = amPublicModel item"
    "amStatus saved = defaultString (amStatus item) ''active''"
    "r \<in> set (pgModels s) \<Longrightarrow> amPublicModel r \<noteq> amPublicModel item \<Longrightarrow> r \<in> set (pgModels s1)"
proof -
  let ?key = "\<lambda>r. amPublicModel r = amPublicModel item" and ?new = "modelRow now item"
  let ?merge = "\<lambda>r. ?new\<lparr>amID := amID r, amCreatedAt := amCreatedAt r\<rparr>"
  obtain rows where rows: "upsertBy ?key ?new ?merge modelsOk (pgModels s) = Some (rows, saved)" "s1 = s\<lparr>pgModels := rows\<rparr>"
    using assms by (auto simp: UpsertModel_def Let_def split: if_splits option.splits prod.splits)
  then show "pgUp s1" using assms(1) by (simp add: pgUp_def)
  show "modelsOk (pgModels s1)" "saved \<in> set (pgModels s1)" "amPublicModel saved = amPublicModel item"
    "amStatus saved = defaultString (amStatus item) ''active''"
    using rows by (auto simp: upsertBy_def Let_def modelRow_def updWhere_def dest: find_SomeD split: option.splits if_splits)
  show "r \<in> set (pgModels s) \<Longrightarrow> amPublicModel r \<noteq> amPublicModel item \<Longrightarrow> r \<in> set (pgModels s1)"
    using rows by (force simp: upsertBy_def Let_def updWhere_def split: option.splits if_splits)
qed


lemma syncRoute_models: "pgUp s \<Longrightarrow> syncRoute now item m fresh s = (s1, x) \<Longrightarrow> pgUp s1 \<and> pgModels s1 = pgModels s"
  using upModels(3) [of s] by (auto simp: syncRoute_def Let_def split: if_splits prod.splits sum.splits) (metis fst_conv)+

lemma syncPrice_models: "pgUp s \<Longrightarrow> syncPrice now item m fresh s = (s1, x) \<Longrightarrow> pgUp s1 \<and> pgModels s1 = pgModels s"
  using upModels(4) [of s] by (auto simp: syncPrice_def serviceUpsertPrice_def Let_def split: if_splits prod.splits sum.splits) (metis fst_conv)+

text \<open>One row that succeeds.\<close>

lemma syncModelRows_Cons:
  assumes "pgUp s" "syncModelRows now ((item, ids) # payload) count s = (s', n, Inr ())"
  obtains s3 saved where "syncModelRows now payload (count + 1) s3 = (s', n, Inr ())" "pgUp s3" "modelsOk (pgModels s3)" "saved \<in> set (pgModels s3)"
    "amPublicModel saved = msPublicModel item" "amStatus saved = defaultString (msStatus item) ''active''"
    "\<And>r. r \<in> set (pgModels s) \<Longrightarrow> amPublicModel r \<noteq> msPublicModel item \<Longrightarrow> r \<in> set (pgModels s3)"
proof -
  obtain m ro pr where ids: "ids = (m, ro, pr)" by (cases ids) auto
  obtain i s1 model s2 s3 where up: "UpsertModel now (modelOf item i) s = (s1, Inr model)"
    and ro: "syncRoute now item model ro s1 = (s2, Inr ())" and pr: "syncPrice now item model pr s2 = (s3, Inr ())"
    and rest: "syncModelRows now payload (count + 1) s3 = (s', n, Inr ())"
    using assms(2) by (auto simp: ids Let_def split: if_splits prod.splits sum.splits)
  note row = UpsertModel_row [OF assms(1) up]
  have s3: "pgUp s3" "pgModels s3 = pgModels s1"
    using syncRoute_models [OF row(1) ro] syncPrice_models [OF _ pr] by auto
  show thesis
    using that [OF rest, of model] s3 row by (simp add: modelOf_def defaultString_def)
qed

lemma syncModelRows_listed:
  assumes "pgUp s" "syncModelRows now payload count s = (s', n, Inr ())"
  shows "pgUp s' \<and> n = count + int (length payload) \<and> (payload \<noteq> [] \<longrightarrow> modelsOk (pgModels s'))
    \<and> (\<forall>r \<in> set (pgModels s). amPublicModel r \<notin> msPublicModel ` fst ` set payload \<longrightarrow> r \<in> set (pgModels s'))
    \<and> (distinct (map (msPublicModel \<circ> fst) payload) \<longrightarrow> (\<forall>item \<in> fst ` set payload. \<exists>r \<in> set (pgModels s').
         amPublicModel r = msPublicModel item \<and> amStatus r = defaultString (msStatus item) ''active''))"
  using assms
proof (induction payload arbitrary: s count)
  case (Cons row payload)
  obtain item ids where row: "row = (item, ids)" by (cases row)
  obtain s3 saved where s3: "syncModelRows now payload (count + 1) s3 = (s', n, Inr ())" "pgUp s3" "modelsOk (pgModels s3)" "saved \<in> set (pgModels s3)"
    "amPublicModel saved = msPublicModel item" "amStatus saved = defaultString (msStatus item) ''active''"
    "\<And>r. r \<in> set (pgModels s) \<Longrightarrow> amPublicModel r \<noteq> msPublicModel item \<Longrightarrow> r \<in> set (pgModels s3)"
    using syncModelRows_Cons Cons.prems unfolding row by metis
  note ih = Cons.IH [OF s3(2,1)]
  have "modelsOk (pgModels s')" using ih s3(1,3) by (cases payload) auto
  moreover have "\<exists>r \<in> set (pgModels s'). amPublicModel r = msPublicModel item \<and> amStatus r = defaultString (msStatus item) ''active''"
    if "msPublicModel item \<notin> msPublicModel ` fst ` set payload" using ih s3(4-6) that by metis
  ultimately show ?case using ih s3(7) by (auto simp: row image_comp)
qed simp

lemma GetModelByPublicName_mem:
  assumes "pgUp s" "GetModelByPublicName k s = Inr m" shows "m \<in> set (pgModels s)"
proof -
  obtain ms where "sort_key (\<lambda>r. if amStatus r = ''active'' then 0 else 1 :: int) (filter (\<lambda>r. amPublicModel r = k) (pgModels s)) = m # ms"
    using assms by (auto simp: GetModelByPublicName_def split: list.splits)
  then have "m \<in> set (sort_key (\<lambda>r. if amStatus r = ''active'' then 0 else 1 :: int) (filter (\<lambda>r. amPublicModel r = k) (pgModels s)))" by simp
  then show ?thesis by simp
qed

text \<open>
  C26.  After a catalogue synchronisation the listing is what can be routed: a request resolves only to a model named in the
  payload, every row was counted, and (names given once) every listed model is in the table with the status it was sent with, so
  the clean-up retires no listed model.
\<close>

theorem synced_models_routable:
  assumes "SyncModels now payload s = (s', count, Inr ())" "pgUp s" "distinct (map (msPublicModel \<circ> fst) payload)"
  shows "count = int (length payload)
    \<and> (ResolveRouteByPublicModel n s' = Inr (route, m) \<longrightarrow> amPublicModel m \<in> msPublicModel ` fst ` set payload)
    \<and> (\<forall>item \<in> fst ` set payload. \<exists>r \<in> set (pgModels s').
         amPublicModel r = msPublicModel item \<and> amStatus r = defaultString (msStatus item) ''active'')"
proof -
  let ?keep = "map (msPublicModel \<circ> fst) payload"
  obtain s1 where rows: "syncModelRows now payload 0 s = (s1, count, Inr ())"
    and s': "s' = foldl (retireModel now ?keep) s1 (ListAllModels s1)"
    using assms(1) by (auto simp: SyncModels_def split: prod.splits sum.splits)
  note l = syncModelRows_listed [OF assms(2) rows]
  then have all: "set (ListAllModels s1) = set (pgModels s1)" "pgUp s1" "pgUp s'" by (auto simp: ListAllModels_def s' retireAll_up)
  have "amPublicModel m \<in> set ?keep" if res: "ResolveRouteByPublicModel n s' = Inr (route, m)"
  proof (rule ccontr)
    assume no: "amPublicModel m \<notin> set ?keep"
    obtain k where "GetModelByPublicName k s' = Inr m" "amStatus m \<noteq> ''retired''"
      using res by (auto simp: ResolveRouteByPublicModel_def Let_def split: sum.splits if_splits)
    then have "m \<in> set (pgModels s')" using all(3) GetModelByPublicName_mem by metis
    then show False using retireAll [OF all(2)] no \<open>amStatus m \<noteq> ''retired''\<close> all(1) s' by blast
  qed
  moreover have "r \<in> set (pgModels s')" if "r \<in> set (pgModels s1)" "amPublicModel r \<in> set ?keep" for r
  proof -
    have "payload \<noteq> []" using that(2) by auto
    then have "modelsOk (pgModels s1)" using l by blast
    then have "amPublicModel x \<in> set ?keep" if "x \<in> set (pgModels s1)" "amID x = amID r" for x
      using that \<open>r \<in> set (pgModels s1)\<close> \<open>amPublicModel r \<in> set ?keep\<close> unfolding modelsOk_def by (metis distinct_map inj_onD)
    then show ?thesis unfolding s' using retireAll_keeps [OF all(2) that(1)] all(1) by blast
  qed
  ultimately show ?thesis using l assms(3) by (simp add: image_comp) (metis comp_apply image_eqI)
qed


section \<open>Examples\<close>

definition sampleService :: "map_redis syncService" where
  "sampleService = \<lparr>syCache = None, syRateLimit = None\<rparr>"

definition sampleBatch :: "(CustomerEntitlement \<times> uuid) list" where
  "sampleBatch = [((sampleItem ''plus'' ''active'' 5 3)\<lparr>ceGenfityUserID := []\<rparr>, 20), (sampleItem ''plus'' ''active'' 5 0, 21), (sampleItem ''none'' ''active'' 5 0, 22)]"

theorem entitlement_batch_isolated_witness:
  "\<exists>st' good. subseq good sampleBatch \<and> length (snd (snd (SyncCustomerEntitlements sampleService 9 sampleBatch (sampleSubs, mrEmpty)))) = 2
     \<and> SyncCustomerEntitlements sampleService 9 good (sampleSubs, mrEmpty) = (st', 1, [])"
proof -
  have "fst (snd (SyncCustomerEntitlements sampleService 9 sampleBatch (sampleSubs, mrEmpty))) = 1" by code_simp
  then obtain st' failures where r: "SyncCustomerEntitlements sampleService 9 sampleBatch (sampleSubs, mrEmpty) = (st', 1, failures)"
    by (metis prod.collapse)
  have "length sampleBatch = 3" by (simp add: sampleBatch_def)
  then have "length failures = 2" using entitlement_batch_isolated [OF r] by simp
  then show ?thesis using entitlement_batch_isolated [OF r] unfolding r snd_conv by blast
qed

theorem replay_repeats_debit_witness:
  "\<exists>s' row d. recordUsage 7 sampleSettled (Some sampleHold) (fst sampleLedger) = (s', Inr (settlementOf sampleSettled (Some sampleHold) (fst sampleLedger)))
     \<and> pgLedger s' = [row]
     \<and> usageDebits samplePeer sampleSettled sampleHold (settlementOf sampleSettled (Some sampleHold) (fst sampleLedger)) = [d]
     \<and> replayPayloadFromUsage row = Some (d\<lparr>udNotes := ''gateway debit replay''\<rparr>)"
proof -
  obtain s' where r: "recordUsage 7 sampleSettled (Some sampleHold) (fst sampleLedger) = (s', Inr (settlementOf sampleSettled (Some sampleHold) (fst sampleLedger)))"
    using sampleRecorded by (metis prod.collapse)
  have "roundCredits (Fin 2) = Fin 2"
  proof -
    have "\<lfloor>40001 / 2 :: rat\<rfloor> = 20000" by (simp add: floor_eq_iff)
    then show ?thesis by (simp add: roundCredits_def fin_numeral roundAway_def)
  qed
  then have "\<exists>row d. pgLedger s' = pgLedger (fst sampleLedger) @ [row]
      \<and> usageDebits samplePeer sampleSettled sampleHold (settlementOf sampleSettled (Some sampleHold) (fst sampleLedger)) = [d]
      \<and> replayPayloadFromUsage row = Some (d\<lparr>udNotes := ''gateway debit replay''\<rparr>)"
    using sampleSettled_of [of "fst sampleLedger"]
    by (intro replay_repeats_debit [OF r, where x = "Fin 2" and c = 2]) (simp_all add: sampleHold_def samplePeer_def Enabled_def sampleSettled_def sampleKey_def)
  moreover have "pgLedger (fst sampleLedger) = []" by (simp add: sampleLedger_def samplePg_def pgEmpty_def)
  ultimately show ?thesis using r by auto
qed

definition sampleListing :: "(ModelSyncItem \<times> freshIds) list" where
  "sampleListing = [(\<lparr>msPublicModel = ''opus'', msDisplayName = ''Opus'', msDescription = [], msStatus = [], msModelType = [], msContextWindow = None,
     msSupportsStreaming = True, msSupportsTools = True, msSupportsVision = False, msPaygExposed = False, msIsFree = False, msFreeLimitRPD = None,
     msFreeLimitRPM = None, msFreeLimitTPD = None, msRouterInstanceCode = ''ai-core2'', msRouterModel = ''claude-opus'', msPriceInputPer1M = None,
     msPriceOutputPer1M = None, msPriceCachedPer1M = None, msPriceReasoningPer1M = None, msPriceCurrency = []\<rparr>, (11, 12, 13))]"

theorem synced_models_routable_witness:
  "\<exists>s' route m. SyncModels 9 sampleListing sampleCatalog = (s', 1, Inr ()) \<and> ResolveRouteByPublicModel ''opus'' s' = Inr (route, m)
     \<and> amPublicModel m = ''opus''"
proof -
  let ?r = "SyncModels 9 sampleListing sampleCatalog"
  have "\<not> isl (snd (snd ?r)) \<and> \<not> isl (ResolveRouteByPublicModel ''opus'' (fst ?r))" by code_simp
  then obtain s' c route m where r: "?r = (s', c, Inr ())" "ResolveRouteByPublicModel ''opus'' s' = Inr (route, m)"
    by (cases ?r; cases "ResolveRouteByPublicModel ''opus'' (fst ?r)") (auto simp: isl_def split: sum.splits, metis sum.exhaust old.unit.exhaust)
  have "pgUp sampleCatalog" by (simp add: sampleCatalog_def pgEmpty_def pgUp_def)
  then show ?thesis using synced_models_routable [OF r(1), of "''opus''" route m] r by (auto simp: sampleListing_def)
qed

end
