(* ===== verification/Customer.thy ===== *)
theory Customer
  imports Middleware Sync
begin

text \<open>
  The customer's dashboard (\<^verbatim>\<open>customer_handler.go\<close>) and the summaries of \<^verbatim>\<open>usage_service.go\<close>.  A handler gets the user that the
  role gate let through; what it hands to the JSON encoder is a value of \<open>answer\<close>.  The parser of identifiers is a third-party package
  and a parameter.  The lemmas show whose keys a customer can change, and that the counters on the dashboard are those the limits
  are enforced with.
\<close>

section \<open>Summaries of the ledger\<close>

definition isFreeModelEntry :: "UsageLedgerEntry \<Rightarrow> bool" where
  "isFreeModelEntry item \<longleftrightarrow> hasSuffix (uePublicModel item) '':free''
     \<or> (case ueRouterModel item of None \<Rightarrow> False | Some m \<Rightarrow> hasSuffix m '':free'')"

record usageSummary =
  smRequestCount :: int
  smPromptTokens :: int
  smCompletionTokens :: int
  smTotalTokens :: int
  smCachedTokens :: int
  smCacheReadInputTokens :: int
  smCacheCreationInputTokens :: int
  smReasoningTokens :: int
  smTotalCostUsd :: float64
  smRequestsToday :: "(int \<times> int) option"

text \<open>\<^verbatim>\<open>int64\<close> sums wrap; a cost that is no number is left out.\<close>

definition sum64 :: "(UsageLedgerEntry \<Rightarrow> int) \<Rightarrow> UsageLedgerEntry list \<Rightarrow> int" where
  "sum64 f entries = foldl (\<lambda>a item. wrap64 (a + f item)) 0 entries"

definition summaryForEntries :: "UsageLedgerEntry list \<Rightarrow> usageSummary" where
  "summaryForEntries entries = \<lparr>smRequestCount = int (length entries), smPromptTokens = sum64 uePromptTokens entries,
     smCompletionTokens = sum64 ueCompletionTokens entries, smTotalTokens = sum64 ueTotalTokens entries,
     smCachedTokens = sum64 ueCachedTokens entries, smCacheReadInputTokens = sum64 ueCacheReadInputTokens entries,
     smCacheCreationInputTokens = sum64 ueCacheCreationInputTokens entries, smReasoningTokens = sum64 ueReasoningTokens entries,
     smTotalCostUsd = foldl (\<lambda>a item. case parseFloat (ueTotalCost item) of Some v \<Rightarrow> fadd a v | None \<Rightarrow> a) fzero entries,
     smRequestsToday = None\<rparr>"

definition SummaryByUser :: "string \<Rightarrow> pg_state \<Rightarrow> usageSummary" where
  "SummaryByUser userID s = summaryForEntries (ListUsageByUser userID s)"

definition startOfDay :: "time \<Rightarrow> time" where
  "startOfDay now = dayOf now * nsDay"

definition SummaryByUser30d :: "time \<Rightarrow> string \<Rightarrow> pg_state \<Rightarrow> usageSummary" where
  "SummaryByUser30d now userID s =
     (let entries = ListUsageByUserSince userID (now - 30 * 24 * nsHour) s;
          today = filter (\<lambda>item. \<not> ueStartedAt item < startOfDay now) entries
      in (summaryForEntries entries)\<lparr>smRequestsToday :=
           Some (int (length (filter (\<lambda>item. \<not> isFreeModelEntry item) today)), int (length (filter isFreeModelEntry today)))\<rparr>)"

section \<open>The usage of a subscription\<close>

definition activeModels :: "AIModel list \<Rightarrow> AIModel list" where
  "activeModels models = filter (\<lambda>m. amStatus m = ''active'') models"

definition usageLedgerEntryBillable :: "UsageLedgerEntry \<Rightarrow> bool" where
  "usageLedgerEntryBillable row \<longleftrightarrow> ueStatus row = ''success''
     \<or> (case ueMetadata row of Some (JObj m) \<Rightarrow> billableField m False = Some True | _ \<Rightarrow> False)"

record subscriptionUsageSnapshot =
  suRPDUsed :: int
  suRPPUsed :: int
  suRPMUsed :: int
  suConcurrentUsed :: int
  suPeriodTokensUsed :: int
  suCreditUsedToday :: float64
  suCreditUsedPeriod :: float64
  suDebtFlagged :: bool
  suDebtRemaining :: int

definition zeroSnapshot :: subscriptionUsageSnapshot where
  "zeroSnapshot = \<lparr>suRPDUsed = 0, suRPPUsed = 0, suRPMUsed = 0, suConcurrentUsed = 0, suPeriodTokensUsed = 0, suCreditUsedToday = fzero,
     suCreditUsedPeriod = fzero, suDebtFlagged = False, suDebtRemaining = 0\<rparr>"

text \<open>The counters of the limiter, read one after the other.\<close>

definition enforcedCounts :: "'r redis_api \<Rightarrow> string \<Rightarrow> time \<Rightarrow> string \<Rightarrow> string \<Rightarrow> 'r \<Rightarrow> 'r \<times> subscriptionUsageSnapshot" where
  "enforcedCounts R pfx now userID pk r0 =
     (case GetPlanRPDCount R pfx now userID pk r0 of (r1, rpd) \<Rightarrow>
     (case GetRequestsPerPeriodCount R pfx userID pk r1 of (r2, rpp) \<Rightarrow>
     (case GetRPMCount R pfx userID r2 of (r3, rpm) \<Rightarrow>
     (case GetConcurrencyCount R pfx userID r3 of (r4, con) \<Rightarrow>
     (case GetPlanCreditRPDCount R pfx now userID pk r4 of (r5, today) \<Rightarrow>
     (case GetPlanCreditsPerPeriodCount R pfx userID pk r5 of (r6, period) \<Rightarrow>
        (r6, zeroSnapshot\<lparr>suRPDUsed := rpd, suRPPUsed := rpp, suRPMUsed := rpm, suConcurrentUsed := con, suCreditUsedToday := today,
               suCreditUsedPeriod := period\<rparr>)))))))"

text \<open>The rows of the ledger that the plan pays for, and the credits in them.\<close>

definition planRows :: "UsageLedgerEntry list \<Rightarrow> UsageLedgerEntry list" where
  "planRows entries = filter (\<lambda>row. usageLedgerEntryBillable row \<and> ueBillingMode row = Some ''unlimited'' \<and> \<not> isFreeUsageLedgerEntry row) entries"

definition ledgerCredits :: "UsageLedgerEntry list \<Rightarrow> float64" where
  "ledgerCredits rows = foldl (\<lambda>a row. if ueAmountCredits row = None then a else fadd a (parseFloatPtr (ueAmountCredits row))) fzero rows"

definition collectSubscriptionUsageSnapshot :: "('r redis_api \<times> string) option \<Rightarrow> time \<Rightarrow> UsageLedgerEntry list \<Rightarrow> ActiveSubscription option \<Rightarrow> string
    \<Rightarrow> 'r gwState \<Rightarrow> 'r gwState \<times> subscriptionUsageSnapshot" where
  "collectSubscriptionUsageSnapshot rateLimit now entries sub userID st =
     (case sub of
        None \<Rightarrow> (st, zeroSnapshot)
      | Some subscription \<Rightarrow>
          if asEntitlement subscription = None then (st, zeroSnapshot)
          else
            let (periodStart, periodEnd) = activePeriod now (asEntitlement subscription);
                redis = (if userID = [] then None else rateLimit);
                (st1, counts) = (case redis of
                    None \<Rightarrow> (st, zeroSnapshot)
                  | Some (R, pfx) \<Rightarrow> onRedis (enforcedCounts R pfx now userID (periodKey now (asEntitlement subscription))) st);
                today = filter (\<lambda>row. \<not> ueStartedAt row < startOfDay now) (planRows entries);
                period = filter (\<lambda>row. \<not> (ueStartedAt row < periodStart \<or> \<not> ueStartedAt row < periodEnd)) (planRows entries);
                quotaCounter = (if userID = [] then None
                  else case GetQuotaCounter userID periodStart periodEnd (fst st1) of Inr c \<Rightarrow> c | Inl _ \<Rightarrow> None);
                limits = PlanLimitsFromSnapshot (asPlan subscription);
                fromLedger = (\<lambda>has. redis = None \<or> \<not> has);
                (flagged, debtRemaining, _) = resolveAbuseDebt sub
            in (st1, counts\<lparr>
                 suPeriodTokensUsed := (case quotaCounter of Some c \<Rightarrow> qcTokensUsed c | None \<Rightarrow> sum64 ueTotalTokens period),
                 suRPDUsed := (if fromLedger (HasRPD limits) then int (length today) else suRPDUsed counts),
                 suRPPUsed := (if redis = None then int (length period)
                   else if HasMaxRequestsPerPeriod limits then suRPPUsed counts
                   else case quotaCounter of Some c \<Rightarrow> qcRequestCount c | None \<Rightarrow> int (length period)),
                 suCreditUsedToday := (if fromLedger (HasCreditPerDay limits) then ledgerCredits today else suCreditUsedToday counts),
                 suCreditUsedPeriod := (if fromLedger (HasCreditPerPeriod limits) then ledgerCredits period else suCreditUsedPeriod counts),
                 suDebtFlagged := flagged, suDebtRemaining := debtRemaining\<rparr>))"

section \<open>Answers\<close>

record quotaAnswer =
  qaBalanceSnapshot :: "string option"
  qaPeriodStart :: "time option"
  qaPeriodEnd :: "time option"
  qaQuotaTokensMonthly :: "int option"
  qaUsage :: "subscriptionUsageSnapshot option"
  qaCreditLimits :: "(float64 option \<times> float64 option) option"

record subscriptionAnswer =
  saEntitlement :: "CustomerEntitlement option"
  saPlan :: "SubscriptionPlanSnapshot option"
  saUsage :: "subscriptionUsageSnapshot option"
  saQuotaTokensMonthly :: "int option"
  saMaxRequestsPerPeriod :: "(int \<times> int) option"

datatype answer =
    Failed reply
  | Keys "APIKey list"
  | NewKey int APIKey string
  | Success
  | Logs "UsageLedgerEntry list"
  | Models "AIModel list"
  | OverviewOf AuthUser "AIModel list" usageSummary
  | UsageOf usageSummary "UsageLedgerEntry list"
  | SummaryOf usageSummary
  | QuotaOf quotaAnswer
  | SubscriptionOf subscriptionAnswer

record 'r customerHandler =
  chKeys :: "'r keyCache"
  chMac :: "string \<Rightarrow> string"
  chEnt :: "'r entCache"
  chRateLimit :: "('r redis_api \<times> string) option"
  chParse :: "string \<Rightarrow> uuid option"

text \<open>\<^verbatim>\<open>err.Error()\<close>\<close>

fun errorText :: "gerror \<Rightarrow> string" where
  "errorText ErrNotFound = ''not found''"
| "errorText ErrQuotaExceeded = ''quota exceeded''"
| "errorText ErrInsufficientBalance = ''insufficient balance''"
| "errorText ErrModelRetired = ''model retired''"
| "errorText ErrMiss = ''cache miss''"
| "errorText (ErrText t) = t"

text \<open>
  \<^verbatim>\<open>json\<close> decoding of a text field: names match without regard to case, with the long s and the Kelvin sign among the letters; a null
  empties a pointer and leaves a plain field; another type is an error.
\<close>

function foldName :: "string \<Rightarrow> string" where
  "foldName [] = []"
| "foldName (c # s) =
     (if take 2 (c # s) = [CHR 0xC5, CHR 0xBF] then CHR ''s'' # foldName (drop 1 s)
      else if take 3 (c # s) = kelvinSign then CHR ''k'' # foldName (drop 2 s)
      else lowerChar c # foldName s)"
  by pat_completeness auto
termination
  by (relation "measure length") auto

fun textField :: "bool \<Rightarrow> string \<Rightarrow> jobject \<Rightarrow> string option \<Rightarrow> string option option" where
  "textField pointer name [] current = Some current"
| "textField pointer name ((k, v) # m) current =
     (if foldName k \<noteq> name then textField pointer name m current
      else (case v of
              JStr t \<Rightarrow> textField pointer name m (Some t)
            | JNull \<Rightarrow> textField pointer name m (if pointer then None else current)
            | _ \<Rightarrow> None))"

section \<open>Reads\<close>

definition Overview :: "AuthUser \<Rightarrow> 'r gwState \<Rightarrow> answer" where
  "Overview user st = OverviewOf user (activeModels (ListModels (fst st))) (SummaryByUser (auID user) (fst st))"

definition ListAPIKeys :: "AuthUser \<Rightarrow> 'r gwState \<Rightarrow> answer" where
  "ListAPIKeys user st = Keys (ListAPIKeysByUser (auID user) (fst st))"

definition customerListModels :: "'r gwState \<Rightarrow> answer" where
  "customerListModels st = Models (activeModels (ListModels (fst st)))"

definition UsageHandler :: "time \<Rightarrow> AuthUser \<Rightarrow> 'r gwState \<Rightarrow> answer" where
  "UsageHandler now user st = UsageOf (SummaryByUser30d now (auID user) (fst st)) (ListUsageByUser (auID user) (fst st))"

definition UsageSummaryHandler :: "time \<Rightarrow> AuthUser \<Rightarrow> 'r gwState \<Rightarrow> answer" where
  "UsageSummaryHandler now user st = SummaryOf (SummaryByUser30d now (auID user) (fst st))"

definition Quota :: "'r customerHandler \<Rightarrow> time \<Rightarrow> AuthUser \<Rightarrow> 'r gwState \<Rightarrow> 'r gwState \<times> answer" where
  "Quota H now user st =
     (let plain = (\<lambda>st1. case GetByUser (chEnt H) now (auID user) st1 of
            (st2, Inl _) \<Rightarrow> (st2, Failed (respondError 404 ''subscription_not_found''))
          | (st2, Inr ent) \<Rightarrow> (st2, QuotaOf \<lparr>qaBalanceSnapshot = ceBalanceSnapshot ent, qaPeriodStart = cePeriodStart ent, qaPeriodEnd = cePeriodEnd ent,
               qaQuotaTokensMonthly = ceQuotaTokensMonthly ent, qaUsage = None, qaCreditLimits = None\<rparr>)) in
      case CheckActiveSubscription (chEnt H) now (auID user) st of
        (st1, Inl _) \<Rightarrow> plain st1
      | (st1, Inr sub) \<Rightarrow>
          (case asEntitlement sub of
             None \<Rightarrow> plain st1
           | Some ent \<Rightarrow>
               (case collectSubscriptionUsageSnapshot (chRateLimit H) now (ListUsageByUser (auID user) (fst st1)) (Some sub) (auID user) st1 of
                  (st2, snapshot) \<Rightarrow>
                    (st2, QuotaOf \<lparr>qaBalanceSnapshot = ceBalanceSnapshot ent, qaPeriodStart = cePeriodStart ent, qaPeriodEnd = cePeriodEnd ent,
                       qaQuotaTokensMonthly = quotaLimitPtr (Some sub), qaUsage = Some snapshot,
                       qaCreditLimits = map_option (\<lambda>p. (spCreditLimitPerDay p, spCreditLimitPerPeriod p)) (asPlan sub)\<rparr>))))"

text \<open>The flattened members of the answer repeat the entitlement and the plan; the cap of requests is given as its base and its effective value.\<close>

definition Subscription :: "'r customerHandler \<Rightarrow> time \<Rightarrow> AuthUser \<Rightarrow> 'r gwState \<Rightarrow> 'r gwState \<times> answer" where
  "Subscription H now user st = (case CheckActiveSubscription (chEnt H) now (auID user) st of
       (st1, Inl _) \<Rightarrow>
         (case GetByUser (chEnt H) now (auID user) st1 of
            (st2, Inl _) \<Rightarrow> (st2, Failed (respondError 404 ''subscription_not_found''))
          | (st2, Inr ent) \<Rightarrow> (st2, SubscriptionOf \<lparr>saEntitlement = Some ent, saPlan = None, saUsage = None, saQuotaTokensMonthly = None,
               saMaxRequestsPerPeriod = None\<rparr>))
     | (st1, Inr sub) \<Rightarrow>
         (case collectSubscriptionUsageSnapshot (chRateLimit H) now (ListUsageByUser (auID user) (fst st1)) (Some sub) (auID user) st1 of
            (st2, snapshot) \<Rightarrow>
              (st2, SubscriptionOf \<lparr>saEntitlement = asEntitlement sub, saPlan = asPlan sub, saUsage = Some snapshot,
                 saQuotaTokensMonthly = quotaLimitPtr (Some sub),
                 saMaxRequestsPerPeriod = (case asPlan sub of
                     None \<Rightarrow> None
                   | Some p \<Rightarrow> map_option (\<lambda>base. (base, wrap64 (base * periodRPPMultiplier now (Some sub)))) (spMaxRequestsPerPeriod p))\<rparr>)))"

section \<open>Keys\<close>

definition CreateAPIKeyHandler :: "'r customerHandler \<Rightarrow> time \<Rightarrow> nat list option \<Rightarrow> uuid \<Rightarrow> AuthUser \<Rightarrow> string \<Rightarrow> 'r gwState \<Rightarrow> 'r gwState \<times> answer" where
  "CreateAPIKeyHandler H now buf fresh user body st = (case decodeObject body of
       None \<Rightarrow> (st, Failed (respondError 400 ''invalid_json''))
     | Some m \<Rightarrow>
         (case (textField False ''name'' m (Some []), textField False ''status'' m (Some []), textField False ''billing_source'' m (Some [])) of
            (Some (Some name), Some (Some status), Some (Some source)) \<Rightarrow>
              (case CreateKey (chMac H) buf fresh now \<lparr>ciUserID = auID user, ciTenantID = auTenantID user, ciName = name, ciStatus = status,
                      ciBillingSource = source, ciExpiresAt = None\<rparr> (fst st) of
                 (s1, Inl _) \<Rightarrow> ((s1, snd st), Failed (respondError 500 ''failed_to_create_api_key''))
               | (s1, Inr (key, raw)) \<Rightarrow> ((s1, snd st), NewKey 201 key raw))
          | _ \<Rightarrow> (st, Failed (respondError 400 ''invalid_json''))))"

definition RevokeAPIKeyHandler :: "'r customerHandler \<Rightarrow> time \<Rightarrow> AuthUser \<Rightarrow> string \<Rightarrow> 'r gwState \<Rightarrow> 'r gwState \<times> answer" where
  "RevokeAPIKeyHandler H now user idText st = (case chParse H idText of
       None \<Rightarrow> (st, Failed (respondError 400 ''invalid_api_key_id''))
     | Some i \<Rightarrow>
         (case RevokeKey (chKeys H) now i st of
            (st1, Inl _) \<Rightarrow> (st1, Failed (respondError 404 ''api_key_not_found''))
          | (st1, Inr _) \<Rightarrow> (st1, Success)))"

definition UpdateAPIKeyStatusHandler :: "'r customerHandler \<Rightarrow> time \<Rightarrow> AuthUser \<Rightarrow> string \<Rightarrow> string \<Rightarrow> 'r gwState \<Rightarrow> 'r gwState \<times> answer" where
  "UpdateAPIKeyStatusHandler H now user idText body st = (case chParse H idText of
       None \<Rightarrow> (st, Failed (respondError 400 ''invalid_api_key_id''))
     | Some i \<Rightarrow>
         (case decodeObject body of
            None \<Rightarrow> (st, Failed (respondError 400 ''invalid_json''))
          | Some m \<Rightarrow>
              (case (textField True ''status'' m None, textField True ''billing_source'' m None) of
                 (Some status, Some source) \<Rightarrow>
                   (case (case status of None \<Rightarrow> (st, Inr ()) | Some t \<Rightarrow> UpdateStatus (chKeys H) now i t st) of
                      (st1, Inl e) \<Rightarrow> (st1, Failed (respondError 400 (errorText e)))
                    | (st1, Inr _) \<Rightarrow>
                        (case (case source of None \<Rightarrow> (st1, Inr ()) | Some t \<Rightarrow> UpdateBillingSource (chKeys H) i t st1) of
                           (st2, Inl e) \<Rightarrow> (st2, Failed (respondError 400 (errorText e)))
                         | (st2, Inr _) \<Rightarrow> (st2, Success)))
               | _ \<Rightarrow> (st, Failed (respondError 400 ''invalid_json'')))))"

definition RegenerateAPIKeyHandler :: "'r customerHandler \<Rightarrow> time \<Rightarrow> nat list option \<Rightarrow> AuthUser \<Rightarrow> string \<Rightarrow> 'r gwState \<Rightarrow> 'r gwState \<times> answer" where
  "RegenerateAPIKeyHandler H now buf user idText st = (case chParse H idText of
       None \<Rightarrow> (st, Failed (respondError 400 ''invalid_api_key_id''))
     | Some i \<Rightarrow>
         (case Regenerate (chKeys H) (chMac H) buf now i (auID user) st of
            (st1, Inl _) \<Rightarrow> (st1, Failed (respondError 404 ''api_key_not_found''))
          | (st1, Inr (key, raw)) \<Rightarrow> (st1, NewKey 200 key raw)))"

definition ListUsageByAPIKey :: "uuid \<Rightarrow> int \<Rightarrow> pg_state \<Rightarrow> UsageLedgerEntry list" where
  "ListUsageByAPIKey i limit = pgList (\<lambda>s. take (nat (if limit \<le> 0 then 100 else limit))
     (sort_key (\<lambda>r. - ueStartedAt r) (filter (\<lambda>r. ueAPIKeyID r = Some i) (pgLedger s))))"

definition APIKeyLogs :: "'r customerHandler \<Rightarrow> AuthUser \<Rightarrow> string \<Rightarrow> 'r gwState \<Rightarrow> answer" where
  "APIKeyLogs H user idText st = (case chParse H idText of
       None \<Rightarrow> Failed (respondError 400 ''invalid_api_key_id'')
     | Some i \<Rightarrow>
         if i \<in> set (map akID (ListAPIKeysByUser (auID user) (fst st))) then Logs (ListUsageByAPIKey i 100 (fst st))
         else Failed (respondError 404 ''api_key_not_found''))"


section \<open>The dashboard and the limits\<close>

context redis_server
begin

lemma getInt_counter:
  assumes "alive r" "counter r k" "0 \<le> count r k" "in64 (count r k)"
  shows "getInt R k r = (r, count r k)"
  using assms by (cases "view r k" rule: cntOf.cases) (auto simp: getInt_def get_reply isCounter_def cntVal_def)

lemma enforcedCounts_shown:
  assumes "alive r" "userID \<noteq> []" "pk \<noteq> []"
    and "counter r (planDayKey pfx userID pk now)" "0 \<le> count r (planDayKey pfx userID pk now)" "in64 (count r (planDayKey pfx userID pk now))"
    and "counter r (planPeriodKey pfx userID pk)" "0 \<le> count r (planPeriodKey pfx userID pk)" "in64 (count r (planPeriodKey pfx userID pk))"
  shows "suRPDUsed (snd (enforcedCounts R pfx now userID pk r)) = count r (planDayKey pfx userID pk now)"
    "suRPPUsed (snd (enforcedCounts R pfx now userID pk r)) = count r (planPeriodKey pfx userID pk)"
  using assms getInt_counter [OF assms(1,4-6)] getInt_counter [OF assms(1,7-9)]
  by (simp_all add: enforcedCounts_def GetPlanRPDCount_def GetRequestsPerPeriodCount_def split: prod.split)

end

lemma periodKey_nonempty: "periodKey now (Some ent) \<noteq> []"
  by (simp add: periodKey_def itoa_def natText_nonempty)

lemma shown_counts:
  assumes "userID \<noteq> []" "asEntitlement sub = Some ent" "limits = PlanLimitsFromSnapshot (asPlan sub)" "HasRPD limits" "HasMaxRequestsPerPeriod limits"
  shows "suRPDUsed (snd (collectSubscriptionUsageSnapshot (Some (R, pfx)) now entries (Some sub) userID (s, r)))
      = suRPDUsed (snd (enforcedCounts R pfx now userID (periodKey now (Some ent)) r))
    \<and> suRPPUsed (snd (collectSubscriptionUsageSnapshot (Some (R, pfx)) now entries (Some sub) userID (s, r)))
      = suRPPUsed (snd (enforcedCounts R pfx now userID (periodKey now (Some ent)) r))"
  using assms by (simp add: collectSubscriptionUsageSnapshot_def Let_def onRedis_def split: prod.split)


section \<open>Whose keys a customer changes\<close>

lemma revoke_row:
  assumes "pgUp s" "keysOk (pgKeys s)" "k \<in> set (pgKeys s)"
  shows "\<exists>s'. RevokeAPIKey (akID k) now s = (s', Inr ()) \<and> k\<lparr>akStatus := ''revoked'', akRevokedAt := Some (pgTs now)\<rparr> \<in> set (pgKeys s')"
proof -
  let ?f = "\<lambda>r. r\<lparr>akStatus := ''revoked'', akRevokedAt := Some (pgTs now)\<rparr>"
  let ?rows = "updWhere (\<lambda>r. akID r = akID k) ?f (pgKeys s)"
  have cols: "map akID ?rows = map akID (pgKeys s)" "map akKeyPrefix ?rows = map akKeyPrefix (pgKeys s)"
    by (simp_all add: updWhere_def)
  have "keysOk ?rows" using assms(2) unfolding keysOk_def cols by (auto simp: updWhere_def list_all_iff)
  moreover have "affected (\<lambda>r. akID r = akID k) (pgKeys s) \<noteq> 0" using assms(3) by (auto simp: affected_def filter_empty_conv)
  moreover have "?f k \<in> set ?rows" using assms(3) by (force simp: updWhere_def)
  ultimately show ?thesis using assms(1) by (simp add: RevokeAPIKey_def execKeys_def Let_def)
qed

text \<open>
  C35.  A customer can revoke anyone's key: the handler asks for no owner, so that a request by one customer with the identifier of a key
  of another succeeds and leaves that key revoked.
\<close>

theorem foreign_key_revoked:
  assumes "pgUp s" "keysOk (pgKeys s)" "k \<in> set (pgKeys s)" "akGenfityUserID k \<noteq> auID user" "chParse H t = Some (akID k)"
  shows "\<exists>st'. RevokeAPIKeyHandler H now user t (s, r) = (st', Success)
    \<and> k\<lparr>akStatus := ''revoked'', akRevokedAt := Some (pgTs now)\<rparr> \<in> set (pgKeys (fst st'))"
proof -
  obtain s' where "RevokeAPIKey (akID k) now s = (s', Inr ())" "k\<lparr>akStatus := ''revoked'', akRevokedAt := Some (pgTs now)\<rparr> \<in> set (pgKeys s')"
    using revoke_row [OF assms(1-3)] by blast
  then show ?thesis using assms(5) by (simp add: RevokeAPIKeyHandler_def RevokeKey_def mutateKey_def Let_def)
qed


text \<open>Where the owner is asked for: rotating a secret and reading the log of a key.\<close>

lemma upsertBy_other:
  assumes "upsertBy key new merge ok rows = Some (rows', r)" "k \<in> set rows" "\<not> key k"
  shows "k \<in> set rows'"
proof -
  have "k \<in> set (updWhere key merge rows)" unfolding updWhere_def set_map by (rule image_eqI [of _ _ k]) (use assms(2,3) in simp_all)
  then show ?thesis using assms(1,2) unfolding upsertBy_def Let_def by (auto split: if_splits option.splits)
qed

lemma UpsertAPIKey_keeps:
  assumes "pgUp s" "UpsertAPIKey now item s = (s', Inr saved)" "k \<in> set (pgKeys s)" "akID k \<noteq> akID item"
  shows "k \<in> set (pgKeys s')"
  using assms(1,2)
proof (rule UpsertAPIKey_success)
  fix rows
  assume s': "s' = s\<lparr>pgKeys := rows\<rparr>" and up: "upsertBy (\<lambda>r. akID r = akID item) (keyRow now item)
      (\<lambda>r. (keyRow now item)\<lparr>akGenfityUserID := akGenfityUserID r, akGenfityTenantID := akGenfityTenantID r, akCreatedAt := akCreatedAt r\<rparr>)
      keysOk (pgKeys s) = Some (rows, saved)"
  show ?thesis using upsertBy_other [OF up assms(3)] assms(4) s' by simp
qed

lemma regenerate_own:
  assumes "pgUp s" "RegenerateAPIKeyHandler H now buf user t (s, r) = (st', NewKey c key raw)" "k \<in> set (pgKeys s)" "akGenfityUserID k \<noteq> auID user"
    and "keysOk (pgKeys s)"
  shows "k \<in> set (pgKeys (fst st'))"
proof -
  obtain i where i: "chParse H t = Some i" "Regenerate (chKeys H) (chMac H) buf now i (auID user) (s, r) = (st', Inr (key, raw))"
    using assms(2) by (auto simp: RegenerateAPIKeyHandler_def split: option.splits prod.splits sum.splits)
  obtain ex where ex: "find (\<lambda>k. akID k = i) (ListAPIKeysByUser (auID user) s) = Some ex"
    using i(2) by (auto simp: Regenerate_def split: option.splits)
  then have own: "ex \<in> set (pgKeys s)" "akGenfityUserID ex = auID user" "akID ex = i"
    using assms(1) by (auto simp: ListAPIKeysByUser_def dest: find_SomeD)
  obtain pfx where up: "UpsertAPIKey now (ex\<lparr>akKeyPrefix := pfx, akKeyHash := chMac H raw, akLastUsedAt := None, akRegeneratedAt := Some now,
      akRevokedAt := None\<rparr>) s = (fst st', Inr key)"
    using i(2) ex by (auto simp: Regenerate_def split: sum.splits prod.splits)
  define item where "item = ex\<lparr>akKeyPrefix := pfx, akKeyHash := chMac H raw, akLastUsedAt := None, akRegeneratedAt := Some now, akRevokedAt := None\<rparr>"
  have item: "akID item = akID ex" "UpsertAPIKey now item s = (fst st', Inr key)" using up by (simp_all add: item_def)
  have "inj_on akID (set (pgKeys s))" using assms(5) by (simp add: keysOk_def distinct_map)
  then have "akID k \<noteq> akID item" using inj_onD [of akID "set (pgKeys s)" k ex] own assms(3,4) item(1) by auto
  then show ?thesis by (rule UpsertAPIKey_keeps [OF assms(1) item(2) assms(3)])
qed

lemma logs_own:
  assumes "pgUp s" "APIKeyLogs H user t (s, r) = Logs rows" "row \<in> set rows"
  shows "\<exists>k \<in> set (pgKeys s). akGenfityUserID k = auID user \<and> ueAPIKeyID row = Some (akID k)"
  using assms by (auto simp: APIKeyLogs_def ListAPIKeysByUser_def ListUsageByAPIKey_def split: option.splits if_splits dest!: in_set_takeD)

section \<open>Examples\<close>

definition sampleCustomer :: "map_redis customerHandler" where
  "sampleCustomer = \<lparr>chKeys = None, chMac = id, chEnt = None, chRateLimit = Some (mapRedis, ''g''), chParse = (\<lambda>_. Some (akID sampleKeyRow))\<rparr>"

definition sampleUser :: AuthUser where
  "sampleUser = \<lparr>auID = ''mallory'', auEmail = [], auRole = ''customer'', auTenantID = None, auSessionID = []\<rparr>"

theorem foreign_key_revoked_witness:
  "\<exists>st'. RevokeAPIKeyHandler sampleCustomer 5 sampleUser ''7'' (sampleKeys, mrEmpty) = (st', Success)
     \<and> sampleKeyRow\<lparr>akStatus := ''revoked'', akRevokedAt := Some (pgTs 5)\<rparr> \<in> set (pgKeys (fst st'))"
proof -
  have "akGenfityUserID sampleKeyRow \<noteq> auID sampleUser" "chParse sampleCustomer ''7'' = Some (akID sampleKeyRow)" "sampleKeyRow \<in> set (pgKeys sampleKeys)"
    by (simp_all add: sampleKeyRow_def sampleUser_def sampleCustomer_def sampleKeys_def)
  then show ?thesis by (intro foreign_key_revoked [OF sampleKeys_ok(1,2)])
qed

definition samplePlanSub :: ActiveSubscription where
  "samplePlanSub = \<lparr>asEntitlement = Some (sampleItem ''lite'' ''active'' 5 3),
     asPlan = Some ((samplePlan ''lite'')\<lparr>spRateLimitRPD := Some 2, spMaxRequestsPerPeriod := Some 9\<rparr>)\<rparr>"


end
