(* ===== verification/Analytics.thy ===== *)
theory Analytics
  imports PgCatalog "HOL-Library.Multiset"
begin

text \<open>
  The analytics of \<^verbatim>\<open>postgres_store.go\<close>: the daily rollup of the ledger with the pruning of old rows, and the queries of the admin
  dashboards, which add the rows of the ledger to the rolled-up days before its first row.  The session's time zone is UTC; rows with
  equal sort keys, whose order SQL leaves open, come in the order of their first group.  The driver closes a result when a row
  cannot be scanned.  The lemmas show that pruning is invisible to the totals, and when it is not.
\<close>

section \<open>Tables\<close>

record usageDims =
  udUser :: string
  udModel :: string
  udBilling :: string
  udStatus :: string
  udGroup :: string
  udPrefix :: string
  udError :: string

record usageRollup =
  ruDay :: int
  ruDims :: usageDims
  ruRequestCount :: int
  ruInputTokens :: int
  ruOutputTokens :: int
  ruTotalTokens :: int
  ruTotalCost :: rat
  ruAmountCredits :: rat
  ruCreatedAt :: time
  ruUpdatedAt :: time

type_synonym usageDB = "pg_state \<times> usageRollup list"

text \<open>\<^verbatim>\<open>COALESCE(NULLIF(t, ''), d)\<close>, \<^verbatim>\<open>split_part(router_model, '/', 1)\<close>, \<^verbatim>\<open>metadata->>'pricing_group'\<close> and numeric columns of the ledger.\<close>

definition orText :: "string \<Rightarrow> string \<Rightarrow> string" where
  "orText d t = (if t = [] then d else t)"

definition optText :: "string option \<Rightarrow> string" where
  "optText t = (case t of None \<Rightarrow> [] | Some x \<Rightarrow> x)"

definition routerPrefix :: "UsageLedgerEntry \<Rightarrow> string" where
  "routerPrefix r = takeWhile (\<lambda>c. c \<noteq> CHR ''/'') (optText (ueRouterModel r))"

definition metaGroup :: "UsageLedgerEntry \<Rightarrow> string" where
  "metaGroup r = (case ueMetadata r of
       Some (JObj m) \<Rightarrow> (case jget m ''pricing_group'' of Some (JStr g) \<Rightarrow> g | _ \<Rightarrow> [])
     | _ \<Rightarrow> [])"

definition numericVal :: "string \<Rightarrow> rat" where
  "numericVal t = (case parseDecimal t of Some q \<Rightarrow> q | None \<Rightarrow> 0)"

definition costOf :: "UsageLedgerEntry \<Rightarrow> rat" where
  "costOf r = numericVal (ueTotalCost r)"

definition creditsOf :: "UsageLedgerEntry \<Rightarrow> rat" where
  "creditsOf r = (case ueAmountCredits r of None \<Rightarrow> 0 | Some t \<Rightarrow> numericVal t)"

definition startDay :: "UsageLedgerEntry \<Rightarrow> int" where
  "startDay r = dayOf (ueStartedAt r)"

section \<open>Rollup\<close>

definition dimsOf :: "UsageLedgerEntry \<Rightarrow> usageDims" where
  "dimsOf r = \<lparr>udUser = ueGenfityUserID r, udModel = uePublicModel r, udBilling = optText (ueBillingMode r), udStatus = ueStatus r,
     udGroup = metaGroup r, udPrefix = orText ''unknown'' (routerPrefix r), udError = optText (ueErrorCode r)\<rparr>"

text \<open>\<^verbatim>\<open>GROUP BY\<close>: the groups of a non-empty table, each with its rows.\<close>

definition grouped :: "('r \<Rightarrow> 'k) \<Rightarrow> 'r list \<Rightarrow> ('k \<times> 'r list) list" where
  "grouped key rows = map (\<lambda>k. (k, filter (\<lambda>r. key r = k) rows)) (remdups (map key rows))"

definition total :: "('r \<Rightarrow> 'n::comm_monoid_add) \<Rightarrow> 'r list \<Rightarrow> 'n" where
  "total f rows = sum_list (map f rows)"

definition rollupRow :: "time \<Rightarrow> int \<Rightarrow> usageDims \<times> UsageLedgerEntry list \<Rightarrow> usageRollup" where
  "rollupRow now day g = \<lparr>ruDay = day, ruDims = fst g, ruRequestCount = int (length (snd g)), ruInputTokens = total uePromptTokens (snd g),
     ruOutputTokens = total ueCompletionTokens (snd g), ruTotalTokens = total ueTotalTokens (snd g),
     ruTotalCost = toScale 6 (total costOf (snd g)), ruAmountCredits = toScale 4 (total creditsOf (snd g)), ruCreatedAt = now, ruUpdatedAt = now\<rparr>"

definition rollupUpsert :: "usageRollup \<Rightarrow> usageRollup list \<Rightarrow> usageRollup list" where
  "rollupUpsert new rows = fst (onConflict (\<lambda>r. ruDay r = ruDay new \<and> ruDims r = ruDims new) new (\<lambda>_. True)
     (\<lambda>r. new\<lparr>ruCreatedAt := ruCreatedAt r\<rparr>) rows)"

definition onDay :: "int \<Rightarrow> UsageLedgerEntry \<Rightarrow> bool" where
  "onDay day r \<longleftrightarrow> ueStartedAt r \<ge> day * nsDay \<and> ueStartedAt r < (day + 1) * nsDay"

definition rollupOneDay :: "time \<Rightarrow> int \<Rightarrow> bool \<Rightarrow> usageDB \<Rightarrow> usageDB \<times> (int \<times> int)" where
  "rollupOneDay now day dryRun = (\<lambda>(s, roll).
     let raw = filter (onDay day) (pgLedger s);
         roll1 = foldl (\<lambda>rs g. rollupUpsert (rollupRow now day g) rs) roll (grouped dimsOf raw);
         rawCount = int (length raw)
     in if dryRun then ((s, roll1), (rawCount, 0))
        else ((s\<lparr>pgLedger := filter (\<lambda>r. \<not> onDay day r) (pgLedger s)\<rparr>, roll1), (rawCount, rawCount)))"

text \<open>\<^verbatim>\<open>day.Format("2006-01-02")\<close>\<close>

definition dateText :: "int \<Rightarrow> string" where
  "dateText day = (case civil day of (y, m, d) \<Rightarrow> pad4 y @ ''-'' @ pad2 m @ ''-'' @ pad2 d)"

record UsageRollupResult =
  urDaysProcessed :: int
  urRowsRolledUp :: int
  urRowsDeleted :: int
  urDays :: "string list"
  urDryRun :: bool
  urRetentionDays :: int

definition rollupDays :: "time \<Rightarrow> int \<Rightarrow> UsageLedgerEntry list \<Rightarrow> int list" where
  "rollupDays now retentionDays rows =
     sort (remdups (map startDay (filter (\<lambda>r. ueStartedAt r < (dayOf now - retentionDays) * nsDay) rows)))"

fun rollupLoop :: "time \<Rightarrow> bool \<Rightarrow> int list \<Rightarrow> UsageRollupResult \<Rightarrow> usageDB \<Rightarrow> usageDB \<times> UsageRollupResult" where
  "rollupLoop now dryRun [] result db = (db, result)"
| "rollupLoop now dryRun (day # days) result db = (case rollupOneDay now day dryRun db of
     (db1, rolled, deleted) \<Rightarrow> rollupLoop now dryRun days
        (result\<lparr>urDaysProcessed := urDaysProcessed result + 1, urRowsRolledUp := urRowsRolledUp result + rolled,
           urRowsDeleted := urRowsDeleted result + deleted, urDays := urDays result @ [dateText day]\<rparr>) db1)"

definition RollupAndPruneUsage :: "time \<Rightarrow> int \<Rightarrow> bool \<Rightarrow> usageDB \<Rightarrow> usageDB \<times> UsageRollupResult result" where
  "RollupAndPruneUsage now retention dryRun db =
     (let retentionDays = (if retention \<le> 0 then 7 else retention) in
      case pgFault (fst db) of
        Some e \<Rightarrow> (db, Inl e)
      | None \<Rightarrow> (case rollupLoop now dryRun (rollupDays now retentionDays (pgLedger (fst db)))
          \<lparr>urDaysProcessed = 0, urRowsRolledUp = 0, urRowsDeleted = 0, urDays = [], urDryRun = dryRun, urRetentionDays = retentionDays\<rparr> db of
            (db1, result) \<Rightarrow> (db1, Inr result)))"


section \<open>Totals over the ledger and the rolled-up days\<close>

definition nullableTime :: "time \<Rightarrow> time option" where
  "nullableTime t = (if t = zeroTime then None else Some t)"

definition rawSince :: "time option \<Rightarrow> UsageLedgerEntry \<Rightarrow> bool" where
  "rawSince since r \<longleftrightarrow> (case since of None \<Rightarrow> True | Some t \<Rightarrow> ueStartedAt r \<ge> pgTs t)"

text \<open>\<^verbatim>\<open>r.day < rf.floor_day\<close>, the day of the first raw row or infinity, and the bound of the window on the day.\<close>

definition rolledSince :: "time option \<Rightarrow> UsageLedgerEntry list \<Rightarrow> usageRollup \<Rightarrow> bool" where
  "rolledSince since raw r \<longleftrightarrow> list_all (\<lambda>x. ruDay r < startDay x) raw
     \<and> (case since of None \<Rightarrow> True | Some t \<Rightarrow> ruDay r \<ge> dayOf (pgTs t))"

text \<open>\<^verbatim>\<open>SUM(e) FILTER (WHERE p)\<close> and \<^verbatim>\<open>SUM(e)\<close> are NULL over no value.\<close>

definition sumFilter :: "('r \<Rightarrow> bool) \<Rightarrow> ('r \<Rightarrow> int) \<Rightarrow> 'r list \<Rightarrow> int option" where
  "sumFilter P f rows = (if filter P rows = [] then None else Some (total f (filter P rows)))"

definition sqlSum :: "int option list \<Rightarrow> int option" where
  "sqlSum xs = (if List.map_filter id xs = [] then None else Some (sum_list (List.map_filter id xs)))"

record 'k usagePart =
  upKey :: 'k
  upRequests :: int
  upSuccess :: "int option"
  upErrors :: "int option"
  upInput :: int
  upOutput :: int
  upTotal :: int
  upCost :: rat
  upLastActive :: time

definition countWhere :: "('r \<Rightarrow> bool) \<Rightarrow> 'r list \<Rightarrow> int" where
  "countWhere P rows = int (length (filter P rows))"

definition isSuccess :: "UsageLedgerEntry \<Rightarrow> bool" where
  "isSuccess r \<longleftrightarrow> ueStatus r = ''success''"

definition rawPart :: "('k \<times> UsageLedgerEntry list) \<Rightarrow> 'k usagePart" where
  "rawPart g = \<lparr>upKey = fst g, upRequests = int (length (snd g)), upSuccess = Some (countWhere isSuccess (snd g)),
     upErrors = Some (countWhere (\<lambda>r. \<not> isSuccess r) (snd g)), upInput = total uePromptTokens (snd g), upOutput = total ueCompletionTokens (snd g),
     upTotal = total ueTotalTokens (snd g), upCost = total costOf (snd g), upLastActive = Max (set (map ueStartedAt (snd g)))\<rparr>"

definition rolledPart :: "('k \<times> usageRollup list) \<Rightarrow> 'k usagePart" where
  "rolledPart g = \<lparr>upKey = fst g, upRequests = total ruRequestCount (snd g),
     upSuccess = sumFilter (\<lambda>r. udStatus (ruDims r) = ''success'') ruRequestCount (snd g),
     upErrors = sumFilter (\<lambda>r. udStatus (ruDims r) \<noteq> ''success'') ruRequestCount (snd g), upInput = total ruInputTokens (snd g),
     upOutput = total ruOutputTokens (snd g), upTotal = total ruTotalTokens (snd g), upCost = total ruTotalCost (snd g),
     upLastActive = Max (set (map (\<lambda>r. ruDay r * nsDay) (snd g)))\<rparr>"

definition sumParts :: "('k \<times> 'k usagePart list) \<Rightarrow> 'k usagePart" where
  "sumParts g = \<lparr>upKey = fst g, upRequests = total upRequests (snd g), upSuccess = sqlSum (map upSuccess (snd g)),
     upErrors = sqlSum (map upErrors (snd g)), upInput = total upInput (snd g), upOutput = total upOutput (snd g),
     upTotal = total upTotal (snd g), upCost = total upCost (snd g), upLastActive = Max (set (map upLastActive (snd g)))\<rparr>"

definition unionTotals :: "(UsageLedgerEntry \<Rightarrow> 'k) \<Rightarrow> (usageRollup \<Rightarrow> 'k) \<Rightarrow> UsageLedgerEntry list \<Rightarrow> usageRollup list \<Rightarrow> 'k usagePart list" where
  "unionTotals rawKey rolledKey raw rolled =
     map sumParts (grouped upKey (map rawPart (grouped rawKey raw) @ map rolledPart (grouped rolledKey rolled)))"

definition usageTotals :: "(UsageLedgerEntry \<Rightarrow> 'k) \<Rightarrow> (usageRollup \<Rightarrow> 'k) \<Rightarrow> time \<Rightarrow> usageDB \<Rightarrow> 'k usagePart list" where
  "usageTotals rawKey rolledKey since = (\<lambda>(s, roll).
     if pgFault s \<noteq> None then []
     else unionTotals rawKey rolledKey (filter (rawSince (nullableTime since)) (pgLedger s))
            (filter (rolledSince (nullableTime since) (pgLedger s)) roll))"

text \<open>A row with a NULL in a column of type \<^verbatim>\<open>int64\<close> cannot be scanned, and the result ends there.\<close>

definition scanRows :: "'a option list \<Rightarrow> 'a list" where
  "scanRows rows = map the (takeWhile (\<lambda>r. r \<noteq> None) rows)"

definition descending :: "('r \<Rightarrow> 'n::{linorder,uminus}) \<Rightarrow> 'r list \<Rightarrow> 'r list" where
  "descending f rows = sort_key (\<lambda>r. - f r) rows"

section \<open>Queries\<close>

definition costText :: "'k usagePart \<Rightarrow> string" where
  "costText p = fixedText 6 (upCost p)"

record UsageSummaryRow =
  usPricingGroup :: string
  usGenfityUserID :: string
  usRequestCount :: int
  usInputTokens :: int
  usOutputTokens :: int
  usTotalTokens :: int
  usTotalCost :: string
  usLastActive :: time

definition ListUsageSummaryGrouped :: "time \<Rightarrow> usageDB \<Rightarrow> UsageSummaryRow list" where
  "ListUsageSummaryGrouped since db =
     map (\<lambda>p. \<lparr>usPricingGroup = fst (upKey p), usGenfityUserID = snd (upKey p), usRequestCount = upRequests p, usInputTokens = upInput p,
            usOutputTokens = upOutput p, usTotalTokens = upTotal p, usTotalCost = costText p, usLastActive = upLastActive p\<rparr>)
       (descending upCost (usageTotals (\<lambda>r. (orText ''unknown'' (metaGroup r), ueGenfityUserID r))
          (\<lambda>r. (orText ''unknown'' (udGroup (ruDims r)), udUser (ruDims r))) since db))"

record ProviderStatsRow =
  psPrefix :: string
  psTotalCount :: int
  psSuccessCount :: int
  psErrorCount :: int

definition ListProviderStats :: "time \<Rightarrow> usageDB \<Rightarrow> ProviderStatsRow list" where
  "ListProviderStats since db =
     scanRows (map (\<lambda>p. case (upSuccess p, upErrors p) of
           (Some ok, Some bad) \<Rightarrow> Some \<lparr>psPrefix = upKey p, psTotalCount = upRequests p, psSuccessCount = ok, psErrorCount = bad\<rparr>
         | _ \<Rightarrow> None)
       (descending upRequests (usageTotals (\<lambda>r. orText ''unknown'' (routerPrefix r)) (\<lambda>r. orText ''unknown'' (udPrefix (ruDims r))) since db)))"

record UsageTimeseriesPoint =
  tsBucket :: time
  tsRequestCount :: int
  tsSuccessCount :: int
  tsErrorCount :: int
  tsInputTokens :: int
  tsOutputTokens :: int
  tsTotalTokens :: int
  tsTotalCost :: string

definition timePoint :: "time usagePart \<Rightarrow> UsageTimeseriesPoint option" where
  "timePoint p = (case (upSuccess p, upErrors p) of
       (Some ok, Some bad) \<Rightarrow> Some \<lparr>tsBucket = upKey p, tsRequestCount = upRequests p, tsSuccessCount = ok, tsErrorCount = bad,
         tsInputTokens = upInput p, tsOutputTokens = upOutput p, tsTotalTokens = upTotal p, tsTotalCost = costText p\<rparr>
     | _ \<Rightarrow> None)"

definition hourOf :: "UsageLedgerEntry \<Rightarrow> time" where
  "hourOf r = (ueStartedAt r div nsHour) * nsHour"

definition ListUsageTimeseries :: "time \<Rightarrow> string \<Rightarrow> usageDB \<Rightarrow> UsageTimeseriesPoint list" where
  "ListUsageTimeseries since bucket db =
     scanRows (map timePoint (sort_key upKey
       (if bucket = ''hour''
        then map rawPart (grouped hourOf (pgList (\<lambda>s. filter (rawSince (nullableTime since)) (pgLedger s)) (fst db)))
        else usageTotals (\<lambda>r. startDay r * nsDay) (\<lambda>r. ruDay r * nsDay) since db)))"

record TopModelRow =
  tmPublicModel :: string
  tmRequestCount :: int
  tmInputTokens :: int
  tmOutputTokens :: int
  tmTotalTokens :: int
  tmTotalCost :: string
  tmSuccessCount :: int
  tmErrorCount :: int

definition ListTopModels :: "time \<Rightarrow> int \<Rightarrow> usageDB \<Rightarrow> TopModelRow list" where
  "ListTopModels since limit db =
     scanRows (map (\<lambda>p. case (upSuccess p, upErrors p) of
           (Some ok, Some bad) \<Rightarrow> Some \<lparr>tmPublicModel = upKey p, tmRequestCount = upRequests p, tmInputTokens = upInput p,
             tmOutputTokens = upOutput p, tmTotalTokens = upTotal p, tmTotalCost = costText p, tmSuccessCount = ok, tmErrorCount = bad\<rparr>
         | _ \<Rightarrow> None)
       (take (nat (if limit \<le> 0 then 10 else limit))
         (descending upCost (descending upRequests (usageTotals uePublicModel (\<lambda>r. udModel (ruDims r)) since db)))))"

record BillingModeBreakdownRow =
  bbBillingMode :: string
  bbRequestCount :: int
  bbTotalTokens :: int
  bbTotalCost :: string

definition ListBillingModeBreakdown :: "time \<Rightarrow> usageDB \<Rightarrow> BillingModeBreakdownRow list" where
  "ListBillingModeBreakdown since db =
     map (\<lambda>p. \<lparr>bbBillingMode = upKey p, bbRequestCount = upRequests p, bbTotalTokens = upTotal p, bbTotalCost = costText p\<rparr>)
       (descending upRequests (usageTotals (\<lambda>r. orText ''subscription_unmetered'' (optText (ueBillingMode r)))
          (\<lambda>r. orText ''subscription_unmetered'' (udBilling (ruDims r))) since db))"

record StatusBreakdownRow =
  sbBucket :: string
  sbRequestCount :: int

definition ListStatusBreakdown :: "time \<Rightarrow> usageDB \<Rightarrow> StatusBreakdownRow list" where
  "ListStatusBreakdown since db = map (\<lambda>p. \<lparr>sbBucket = upKey p, sbRequestCount = upRequests p\<rparr>)
     (descending upRequests (usageTotals (\<lambda>r. orText ''unknown'' (ueStatus r)) (\<lambda>r. orText ''unknown'' (udStatus (ruDims r))) since db))"

definition failedWithCode :: "UsageLedgerEntry \<Rightarrow> bool" where
  "failedWithCode r \<longleftrightarrow> \<not> isSuccess r \<and> ueErrorCode r \<noteq> None"

definition ListErrorCodeBreakdown :: "time \<Rightarrow> int \<Rightarrow> usageDB \<Rightarrow> StatusBreakdownRow list" where
  "ListErrorCodeBreakdown since limit = (\<lambda>(s, roll).
     if pgFault s \<noteq> None then []
     else map (\<lambda>p. \<lparr>sbBucket = upKey p, sbRequestCount = upRequests p\<rparr>)
       (take (nat (if limit \<le> 0 then 10 else limit)) (descending upRequests
         (unionTotals (\<lambda>r. orText ''unknown'' (optText (ueErrorCode r))) (\<lambda>r. orText ''unknown'' (udError (ruDims r)))
            (filter (\<lambda>r. rawSince (nullableTime since) r \<and> failedWithCode r) (pgLedger s))
            (filter (\<lambda>r. rolledSince (nullableTime since) (pgLedger s) r \<and> udStatus (ruDims r) \<noteq> ''success'' \<and> udError (ruDims r) \<noteq> []) roll)))))"

record BillingModeUsageRow =
  buBillingMode :: string
  buRequestCount :: int
  buInputTokens :: int
  buOutputTokens :: int
  buTotalTokens :: int
  buTotalCost :: string
  buCreditsUsed :: string

definition ListUsageByBillingModeSince :: "string \<Rightarrow> time \<Rightarrow> pg_state \<Rightarrow> BillingModeUsageRow list" where
  "ListUsageByBillingModeSince userID since = pgList (\<lambda>s.
     map (\<lambda>(k, g). \<lparr>buBillingMode = k, buRequestCount = int (length g), buInputTokens = total uePromptTokens g, buOutputTokens = total ueCompletionTokens g,
            buTotalTokens = total ueTotalTokens g, buTotalCost = fixedText 6 (total costOf g),
            buCreditsUsed = (if list_all (\<lambda>r. ueAmountCredits r = None) g then ''0'' else fixedText 4 (total creditsOf g))\<rparr>)
       (grouped (\<lambda>r. orText ''unknown'' (optText (ueBillingMode r)))
         (filter (\<lambda>r. ueGenfityUserID r = userID \<and> isSuccess r \<and> rawSince (nullableTime since) r) (pgLedger s))))"

section \<open>One prefix\<close>

definition ofPrefix :: "string \<Rightarrow> UsageLedgerEntry \<Rightarrow> bool" where
  "ofPrefix pre r \<longleftrightarrow> (if pre = [] \<or> pre = ''unknown'' then routerPrefix r = [] else ueRouterModel r \<noteq> None \<and> routerPrefix r = pre)"

definition prefixRows :: "string \<Rightarrow> time \<Rightarrow> pg_state \<Rightarrow> UsageLedgerEntry list" where
  "prefixRows pre since = pgList (\<lambda>s. filter (\<lambda>r. rawSince (nullableTime since) r \<and> ofPrefix pre r) (pgLedger s))"

record PrefixHourlyPoint =
  phBucket :: time
  phSuccessCount :: int
  phErrorCount :: int

definition ListPrefixHourlyStats :: "string \<Rightarrow> time \<Rightarrow> pg_state \<Rightarrow> PrefixHourlyPoint list" where
  "ListPrefixHourlyStats pre since s =
     map (\<lambda>(k, g). \<lparr>phBucket = k, phSuccessCount = countWhere isSuccess g, phErrorCount = countWhere (\<lambda>r. \<not> isSuccess r) g\<rparr>)
       (sort_key fst (grouped hourOf (prefixRows pre since s)))"

record PrefixModelRow =
  pmRouterModel :: string
  pmPublicModel :: string
  pmTotalCount :: int
  pmSuccessCount :: int
  pmErrorCount :: int

definition ListPrefixModelStats :: "string \<Rightarrow> time \<Rightarrow> int \<Rightarrow> pg_state \<Rightarrow> PrefixModelRow list" where
  "ListPrefixModelStats pre since limit s =
     take (nat (if limit \<le> 0 then 50 else limit)) (descending pmTotalCount
       (map (\<lambda>((m, p), g). \<lparr>pmRouterModel = (if pre = [] \<or> pre = ''unknown'' then orText [CHR 0xE2, CHR 0x80, CHR 0x94] (optText m) else optText m),
              pmPublicModel = p, pmTotalCount = int (length g), pmSuccessCount = countWhere isSuccess g,
              pmErrorCount = countWhere (\<lambda>r. \<not> isSuccess r) g\<rparr>)
          (grouped (\<lambda>r. (ueRouterModel r, uePublicModel r)) (prefixRows pre since s))))"

definition ListPrefixErrorCodes :: "string \<Rightarrow> time \<Rightarrow> int \<Rightarrow> pg_state \<Rightarrow> StatusBreakdownRow list" where
  "ListPrefixErrorCodes pre since limit s =
     take (nat (if limit \<le> 0 then 10 else limit)) (descending sbRequestCount
       (map (\<lambda>(k, g). \<lparr>sbBucket = k, sbRequestCount = int (length g)\<rparr>)
          (grouped (\<lambda>r. orText ''unknown'' (optText (ueErrorCode r))) (filter failedWithCode (prefixRows pre since s)))))"

section \<open>Listings\<close>

definition ListUsage :: "pg_state \<Rightarrow> UsageLedgerEntry list" where
  "ListUsage = pgList (\<lambda>s. descending ueStartedAt (pgLedger s))"

definition ListUsageByTenant :: "string \<Rightarrow> pg_state \<Rightarrow> UsageLedgerEntry list" where
  "ListUsageByTenant tenantID = pgList (\<lambda>s. descending ueStartedAt (filter (\<lambda>r. ueGenfityTenantID r = Some tenantID) (pgLedger s)))"

record CreditBalanceRow =
  cbGenfityUserID :: string
  cbCreditBalance :: string
  cbCreditUsed :: string

definition ListCreditBalances :: "pg_state \<Rightarrow> CreditBalanceRow list" where
  "ListCreditBalances = pgList (\<lambda>s. map (\<lambda>r. \<lparr>cbGenfityUserID = peUser r, cbCreditBalance = fixedText 4 (peCredit r),
       cbCreditUsed = fixedText 4 (peCreditReserved r)\<rparr>)
     (filter (\<lambda>r. peStatus r = ''active'' \<and> pePricingGroup r = Some ''credit_package'') (pgEnts s)))"

record UsageLogFilter =
  lfUserID :: string
  lfAPIKeyID :: "uuid option"
  lfStatus :: string
  lfBillingMode :: string
  lfPublicModel :: string
  lfSearch :: string
  lfFrom :: time
  lfTo :: time
  lfLimit :: int
  lfOffset :: int

text \<open>\<^verbatim>\<open>LIKE\<close>: a percent sign stands for any text, an underscore for one character, a backslash takes the next one as it is.\<close>

fun like :: "string \<Rightarrow> string \<Rightarrow> bool" where
  "like [] t \<longleftrightarrow> t = []"
| "like (c # p) t \<longleftrightarrow>
     (if c = CHR ''%'' then list_ex (\<lambda>i. like p (drop i t)) [0..<Suc (length t)]
      else if c = CHR ''_'' then t \<noteq> [] \<and> like p (tl t)
      else if c = CHR 92 then (case p of [] \<Rightarrow> False | d # p' \<Rightarrow> t \<noteq> [] \<and> hd t = d \<and> like p' (tl t))
      else t \<noteq> [] \<and> hd t = c \<and> like p (tl t))"

definition needle :: "string \<Rightarrow> string" where
  "needle search = ''%'' @ toLower search @ ''%''"

definition filterSet :: "UsageLogFilter \<Rightarrow> bool" where
  "filterSet f \<longleftrightarrow> lfUserID f \<noteq> [] \<or> lfAPIKeyID f \<noteq> None \<or> lfStatus f \<noteq> [] \<or> lfBillingMode f \<noteq> [] \<or> lfPublicModel f \<noteq> [] \<or> lfSearch f \<noteq> []
     \<or> lfFrom f \<noteq> zeroTime \<or> lfTo f \<noteq> zeroTime"

definition logMatches :: "UsageLogFilter \<Rightarrow> UsageLedgerEntry \<Rightarrow> bool" where
  "logMatches f r \<longleftrightarrow> (lfUserID f \<noteq> [] \<longrightarrow> ueGenfityUserID r = lfUserID f) \<and> (lfAPIKeyID f \<noteq> None \<longrightarrow> ueAPIKeyID r = lfAPIKeyID f)
     \<and> (lfStatus f \<noteq> [] \<longrightarrow> ueStatus r = lfStatus f) \<and> (lfBillingMode f \<noteq> [] \<longrightarrow> ueBillingMode r = Some (lfBillingMode f))
     \<and> (lfPublicModel f \<noteq> [] \<longrightarrow> uePublicModel r = lfPublicModel f)
     \<and> (lfSearch f \<noteq> [] \<longrightarrow> like (needle (lfSearch f)) (toLower (ueGenfityUserID r)) \<or> like (needle (lfSearch f)) (toLower (uePublicModel r))
          \<or> like (needle (lfSearch f)) (toLower (ueRequestID r)))
     \<and> (lfFrom f \<noteq> zeroTime \<longrightarrow> ueStartedAt r \<ge> pgTs (lfFrom f)) \<and> (lfTo f \<noteq> zeroTime \<longrightarrow> ueStartedAt r < pgTs (lfTo f))"

definition pageLimit :: "int \<Rightarrow> int" where
  "pageLimit limit = (if limit \<le> 0 then 100 else if limit > 1000 then 1000 else limit)"

text \<open>\<open>estimate\<close> is the planner's row count, if it has one: the total of an unfiltered listing.\<close>

definition ListUsageLogs :: "int option \<Rightarrow> UsageLogFilter \<Rightarrow> pg_state \<Rightarrow> (UsageLedgerEntry list \<times> int) result" where
  "ListUsageLogs estimate f s = (case pgFault s of
       Some e \<Rightarrow> Inl e
     | None \<Rightarrow>
         let matched = filter (logMatches f) (pgLedger s);
             count = (case (filterSet f, estimate) of (False, Some n) \<Rightarrow> n | _ \<Rightarrow> int (length matched))
         in Inr (take (nat (pageLimit (lfLimit f))) (drop (nat (max 0 (lfOffset f))) (descending ueStartedAt matched)), count))"

text \<open>
  \<^verbatim>\<open>percentile_cont(p) WITHIN GROUP (ORDER BY ...)\<close> of integers, in doubles: the value at \<open>p (n - 1)\<close> of the sorted rows, between two rows
  interpolated.  The decimal that \<^verbatim>\<open>AVG\<close> gives for a sum and a count is a parameter.
\<close>

definition percentileCont :: "rat \<Rightarrow> int list \<Rightarrow> float64" where
  "percentileCont p xs = (case fmul (fin p) (fOfInt (int (length xs) - 1)) of
       Fin x \<Rightarrow>
         let lo = fOfInt (sort xs ! nat \<lfloor>x\<rfloor>); hi = fOfInt (sort xs ! nat \<lceil>x\<rceil>)
         in if \<lfloor>x\<rfloor> = \<lceil>x\<rceil> then lo else fadd lo (fmul (fin (x - of_int \<lfloor>x\<rfloor>)) (fsub hi lo))
     | _ \<Rightarrow> fzero)"

record LatencyStats =
  lsSampleSize :: int
  lsAvgMS :: float64
  lsP50MS :: float64
  lsP95MS :: float64
  lsP99MS :: float64
  lsMaxMS :: float64

definition latencyStats :: "(int \<Rightarrow> int \<Rightarrow> rat) \<Rightarrow> time \<Rightarrow> pg_state \<Rightarrow> LatencyStats" where
  "latencyStats avg since s =
     (let xs = (if pgUp s then List.map_filter ueLatencyMS (filter (rawSince (nullableTime since)) (pgLedger s)) else [])
      in if xs = [] then \<lparr>lsSampleSize = 0, lsAvgMS = fzero, lsP50MS = fzero, lsP95MS = fzero, lsP99MS = fzero, lsMaxMS = fzero\<rparr>
         else \<lparr>lsSampleSize = int (length xs), lsAvgMS = fin (avg (sum_list xs) (int (length xs))), lsP50MS = percentileCont (1 / 2) xs,
           lsP95MS = percentileCont (95 / 100) xs, lsP99MS = percentileCont (99 / 100) xs, lsMaxMS = fOfInt (Max (set xs))\<rparr>)"

section \<open>Groups and sums\<close>

lemma grouped_keys: "map fst (grouped key rows) = remdups (map key rows)"
  by (simp add: grouped_def comp_def)

lemma mem_grouped: "(k, g) \<in> set (grouped key rows) \<longleftrightarrow> k \<in> key ` set rows \<and> g = filter (\<lambda>r. key r = k) rows"
  by (auto simp: grouped_def)

lemma total_simps [simp]: "total f [] = 0" "total f (x # xs) = f x + total f xs" "total f (xs @ ys) = total f xs + total f ys"
  by (simp_all add: total_def)

lemma total_mset: "mset xs = mset ys \<Longrightarrow> total f xs = total f ys"
  by (metis total_def mset_map sum_mset_sum_list)

lemma total_map: "total f (map h xs) = total (\<lambda>x. f (h x)) xs"
  by (simp add: total_def comp_def)

lemma total_length: "total (\<lambda>_. 1) xs = int (length xs)"
  by (induction xs) auto

lemma total_none: "(\<And>x. x \<in> set xs \<Longrightarrow> \<not> P x) \<Longrightarrow> total f (filter P xs) = 0"
  by (simp add: filter_False)

text \<open>One group of a grouped table.\<close>

lemma filter_remdups_single: "filter (\<lambda>k'. k' = k) (remdups ks) = (if k \<in> set ks then [k] else [])"
  by (induction ks) auto

lemma total_one_group:
  assumes "\<And>g. key' (h g) = fst g"
  shows "total f (filter (\<lambda>p. key' p = k) (map h (grouped key rows)))
    = (if k \<in> key ` set rows then f (h (k, filter (\<lambda>r. key r = k) rows)) else 0)"
  using assms by (simp add: grouped_def filter_map comp_def filter_remdups_single)

lemma total_delta: "distinct ks \<Longrightarrow> total (\<lambda>k. if a = k then v else 0) ks = (if a \<in> set ks then v else 0)"
  by (induction ks) auto

lemma total_partition:
  assumes "distinct ks" "key ` set rows \<subseteq> set ks"
  shows "total (\<lambda>k. total f (filter (\<lambda>r. key r = k) rows)) ks = total f rows"
  using assms(2)
proof (induction rows)
  case Nil
  then show ?case by (induction ks) auto
next
  case (Cons r rows)
  have "total (\<lambda>k. total f (filter (\<lambda>x. key x = k) (r # rows))) ks
      = total (\<lambda>k. if key r = k then f r else 0) ks + total (\<lambda>k. total f (filter (\<lambda>x. key x = k) rows)) ks"
    by (induction ks) (auto simp: algebra_simps)
  moreover have "total (\<lambda>k. if key r = k then f r else 0) ks = f r"
    using assms(1) Cons.prems by (simp add: total_delta)
  ultimately show ?case using Cons by simp
qed


text \<open>A sum of a union is the sum over the raw rows and the rolled-up rows of its key.\<close>

lemma rawPart_key [simp]: "upKey (rawPart g) = fst g" and rolledPart_key [simp]: "upKey (rolledPart h) = fst h"
  by (simp_all add: rawPart_def rolledPart_def)

lemma unionTotals_keys: "upKey ` set (unionTotals kr kq raw rolled) = kr ` set raw \<union> kq ` set rolled"
proof -
  have "map upKey (unionTotals kr kq raw rolled)
      = remdups (map upKey (map rawPart (grouped kr raw) @ map rolledPart (grouped kq rolled)))"
    unfolding unionTotals_def grouped_keys [symmetric] by (simp add: comp_def sumParts_def)
  then have "upKey ` set (unionTotals kr kq raw rolled)
      = upKey ` set (map rawPart (grouped kr raw) @ map rolledPart (grouped kq rolled))"
    by (metis list.set_map set_remdups)
  also have "\<dots> = fst ` set (grouped kr raw) \<union> fst ` set (grouped kq rolled)" by (simp add: image_Un image_image)
  finally show ?thesis by (simp flip: set_map add: grouped_keys)
qed

lemma unionTotals_part:
  assumes "p \<in> set (unionTotals kr kq raw rolled)"
  obtains parts where "p = sumParts (upKey p, parts)"
    "parts = filter (\<lambda>q. upKey q = upKey p) (map rawPart (grouped kr raw)) @ filter (\<lambda>q. upKey q = upKey p) (map rolledPart (grouped kq rolled))"
proof -
  let ?all = "map rawPart (grouped kr raw) @ map rolledPart (grouped kq rolled)"
  obtain k g where g: "(k, g) \<in> set (grouped upKey ?all)" "p = sumParts (k, g)" using assms by (auto simp: unionTotals_def)
  have k: "k = upKey p" unfolding g(2) by (simp add: sumParts_def)
  have "g = filter (\<lambda>q. upKey q = upKey p) ?all" using g(1) unfolding k by (simp add: mem_grouped)
  with g(2) show thesis unfolding k by (intro that) (assumption, simp)
qed

lemma unionTotals_sum:
  assumes p: "p \<in> set (unionTotals kr kq raw rolled)"
    and f: "\<And>k ps. f (sumParts (k, ps)) = total f ps" "\<And>k g. f (rawPart (k, g)) = total f1 g" "\<And>k g. f (rolledPart (k, g)) = total f2 g"
  shows "f p = total f1 (filter (\<lambda>r. kr r = upKey p) raw) + total f2 (filter (\<lambda>r. kq r = upKey p) rolled)"
proof -
  have z: "total f1 (filter (\<lambda>r. kr r = upKey p) raw) = 0" if "upKey p \<notin> kr ` set raw"
    using that by (intro total_none) (metis image_eqI)
  have z2: "total f2 (filter (\<lambda>r. kq r = upKey p) rolled) = 0" if "upKey p \<notin> kq ` set rolled"
    using that by (intro total_none) (metis image_eqI)
  obtain parts where q: "p = sumParts (upKey p, parts)" and
    parts: "parts = filter (\<lambda>q. upKey q = upKey p) (map rawPart (grouped kr raw)) @ filter (\<lambda>q. upKey q = upKey p) (map rolledPart (grouped kq rolled))"
    by (rule unionTotals_part [OF p])
  have "f p = total f parts" using q f(1) by metis
  then show ?thesis
    unfolding parts by (simp add: total_one_group f(2,3) z z2)
qed

section \<open>What the rollup leaves\<close>

definition keyOf :: "UsageLedgerEntry \<Rightarrow> int \<times> usageDims" where
  "keyOf r = (startDay r, dimsOf r)"

definition rollKey :: "usageRollup \<Rightarrow> int \<times> usageDims" where
  "rollKey r = (ruDay r, ruDims r)"

lemma rollKey_row [simp]: "rollKey (rollupRow now d g) = (d, fst g)" "rollKey (r\<lparr>ruCreatedAt := c\<rparr>) = rollKey r"
  by (simp_all add: rollKey_def rollupRow_def)

lemma rollupUpsert_eq: "rollupUpsert new rows =
    (if rollKey new \<in> rollKey ` set rows then updWhere (\<lambda>r. rollKey r = rollKey new) (\<lambda>r. new\<lparr>ruCreatedAt := ruCreatedAt r\<rparr>) rows else rows @ [new])"
  by (auto simp: rollupUpsert_def onConflict_def rollKey_def list_ex_iff image_iff)

lemma rollupUpsert_keys: "distinct (map rollKey rows) \<Longrightarrow> distinct (map rollKey (rollupUpsert new rows))"
  "rollKey ` set (rollupUpsert new rows) = insert (rollKey new) (rollKey ` set rows)"
proof -
  have m: "map rollKey (updWhere (\<lambda>r. rollKey r = rollKey new) (\<lambda>r. new\<lparr>ruCreatedAt := ruCreatedAt r\<rparr>) rows) = map rollKey rows"
    by (auto simp: updWhere_def)
  then have i: "rollKey ` set (updWhere (\<lambda>r. rollKey r = rollKey new) (\<lambda>r. new\<lparr>ruCreatedAt := ruCreatedAt r\<rparr>) rows) = rollKey ` set rows"
    by (metis set_map)
  show "distinct (map rollKey rows) \<Longrightarrow> distinct (map rollKey (rollupUpsert new rows))"
    using m by (simp add: rollupUpsert_eq)
  show "rollKey ` set (rollupUpsert new rows) = insert (rollKey new) (rollKey ` set rows)"
    using i by (auto simp: rollupUpsert_eq)
qed

lemma rollupUpsert_mem:
  "r \<in> set (rollupUpsert new rows) \<longleftrightarrow>
     (if rollKey r = rollKey new then (if rollKey new \<in> rollKey ` set rows then \<exists>x \<in> set rows. rollKey x = rollKey new \<and> r = new\<lparr>ruCreatedAt := ruCreatedAt x\<rparr> else r = new)
      else r \<in> set rows)"
  by (auto simp: rollupUpsert_eq set_updWhere image_iff)

text \<open>The rows of one day after its groups are written.\<close>

definition dayRolled :: "time \<Rightarrow> int \<Rightarrow> (usageDims \<times> UsageLedgerEntry list) list \<Rightarrow> usageRollup list \<Rightarrow> usageRollup list" where
  "dayRolled now d gs rows = foldl (\<lambda>rs g. rollupUpsert (rollupRow now d g) rs) rows gs"

lemma dayRolled_keys: "distinct (map rollKey rows) \<Longrightarrow> distinct (map rollKey (dayRolled now d gs rows))"
  "rollKey ` set (dayRolled now d gs rows) = (\<lambda>g. (d, fst g)) ` set gs \<union> rollKey ` set rows"
  unfolding dayRolled_def by (induction gs arbitrary: rows) (auto simp: rollupUpsert_keys)

lemma dayRolled_mem:
  assumes "r \<in> set (dayRolled now d gs rows)"
  shows "(r \<in> set rows \<and> rollKey r \<notin> (\<lambda>g. (d, fst g)) ` set gs) \<or> (\<exists>g \<in> set gs. \<exists>c. r = (rollupRow now d g)\<lparr>ruCreatedAt := c\<rparr>)"
  using assms unfolding dayRolled_def
proof (induction gs arbitrary: rows)
  case (Cons g gs)
  let ?new = "rollupRow now d g"
  have "(r \<in> set (rollupUpsert ?new rows) \<and> rollKey r \<notin> (\<lambda>g. (d, fst g)) ` set gs) \<or> (\<exists>g \<in> set gs. \<exists>c. r = (rollupRow now d g)\<lparr>ruCreatedAt := c\<rparr>)"
    using Cons by simp
  moreover have "\<exists>c. r = ?new\<lparr>ruCreatedAt := c\<rparr>" if "r \<in> set (rollupUpsert ?new rows)" "rollKey r = rollKey ?new"
    using that by (auto simp: rollupUpsert_mem rollupRow_def split: if_splits)
  ultimately show ?case by (cases "rollKey r = rollKey ?new") (auto simp: rollupUpsert_mem)
qed simp

lemma dayRolled_keeps:
  assumes "r \<in> set rows" "rollKey r \<notin> (\<lambda>g. (d, fst g)) ` set gs"
  shows "r \<in> set (dayRolled now d gs rows)"
  using assms unfolding dayRolled_def by (induction gs arbitrary: rows) (auto simp: rollupUpsert_mem)

section \<open>Pruned rows live on in the rollup\<close>

definition sumsUp :: "UsageLedgerEntry list \<Rightarrow> usageRollup \<Rightarrow> bool" where
  "sumsUp rows r \<longleftrightarrow> (let g = filter (\<lambda>x. keyOf x = rollKey r) rows in
     ruRequestCount r = int (length g) \<and> ruInputTokens r = total uePromptTokens g \<and> ruOutputTokens r = total ueCompletionTokens g
     \<and> ruTotalTokens r = total ueTotalTokens g \<and> ruTotalCost r = total costOf g)"

definition shown :: "UsageLedgerEntry list \<Rightarrow> usageRollup \<Rightarrow> bool" where
  "shown raw r \<longleftrightarrow> list_all (\<lambda>x. ruDay r < startDay x) raw"

text \<open>
  \<open>pruned\<close> are the rows that were deleted, \<open>raw\<close> the ledger.  A rolled-up row before the first raw day holds the sums of its pruned rows;
  a later one, which a dry run left, has its raw rows still there.
\<close>

definition usageInv :: "int \<Rightarrow> UsageLedgerEntry list \<Rightarrow> UsageLedgerEntry list \<Rightarrow> usageRollup list \<Rightarrow> bool" where
  "usageInv today pruned raw roll \<longleftrightarrow>
     (\<forall>x \<in> set pruned. startDay x < today - 1 \<and> (\<forall>y \<in> set raw. startDay x < startDay y))
     \<and> distinct (map rollKey roll)
     \<and> (\<forall>r \<in> set roll. if shown raw r then sumsUp pruned r \<and> rollKey r \<in> keyOf ` set pruned else rollKey r \<in> keyOf ` set raw)
     \<and> keyOf ` set pruned \<subseteq> rollKey ` set roll
     \<and> (\<forall>y \<in> set raw. onGrid 6 (costOf y))"

lemma nsDay_nonzero [simp]: "nsDay \<noteq> 0"
  using nsDay_pos by (metis less_irrefl)

lemma div_between: "0 < (n::int) \<Longrightarrow> t div n = d \<longleftrightarrow> d * n \<le> t \<and> t < (d + 1) * n"
proof -
  assume n: "0 < n"
  have "t div n = d" if "d * n \<le> t" "t < (d + 1) * n"
    using that int_div_pos_eq [of t n d "t - n * d"] by (simp add: algebra_simps)
  moreover have "d * n \<le> t \<and> t < (d + 1) * n" if "t div n = d"
    using pos_mod_sign [OF n, of t] pos_mod_bound [OF n, of t] mult_div_mod_eq [of n t] unfolding that by (simp add: algebra_simps)
  ultimately show ?thesis by blast
qed

lemma onDay_iff: "onDay d r \<longleftrightarrow> startDay r = d"
  by (auto simp: onDay_def startDay_def dayOf_def div_between)

lemma onGrid_total: "(\<And>x. x \<in> set xs \<Longrightarrow> onGrid n (f x)) \<Longrightarrow> onGrid n (total f xs)"
  by (induction xs) (auto intro: onGrid_add)

lemma dayGroups:
  assumes "g \<in> set (grouped dimsOf (filter (onDay d) raw))"
  shows "snd g = filter (\<lambda>x. keyOf x = (d, fst g)) raw" "(d, fst g) \<in> keyOf ` set raw" "\<exists>y \<in> set raw. startDay y = d"
proof -
  obtain k where g: "g = (k, filter (\<lambda>x. dimsOf x = k) (filter (onDay d) raw))" "k \<in> dimsOf ` set (filter (onDay d) raw)"
    using assms mem_grouped [of "fst g" "snd g" dimsOf] by (metis prod.collapse)
  show "snd g = filter (\<lambda>x. keyOf x = (d, fst g)) raw" unfolding g(1) by (auto simp: onDay_iff keyOf_def intro!: filter_cong)
  show "(d, fst g) \<in> keyOf ` set raw" "\<exists>y \<in> set raw. startDay y = d" using g by (auto simp: onDay_iff keyOf_def image_iff)
qed

lemma dayGroups_keys: "(\<lambda>g. (d, fst g)) ` set (grouped dimsOf (filter (onDay d) raw)) = keyOf ` set (filter (onDay d) raw)"
  by (force simp: grouped_def onDay_iff keyOf_def image_iff)

lemma sumsUp_rollupRow:
  assumes "snd g = filter (\<lambda>x. keyOf x = (d, fst g)) rows" "\<And>y. y \<in> set rows \<Longrightarrow> onGrid 6 (costOf y)"
  shows "sumsUp rows ((rollupRow now d g)\<lparr>ruCreatedAt := c\<rparr>)"
proof -
  have "onGrid 6 (total costOf (snd g))" using assms by (intro onGrid_total) auto
  then show ?thesis using assms(1) by (simp add: sumsUp_def Let_def) (simp add: rollupRow_def)
qed

lemma sumsUp_append: "keyOf ` set other \<inter> {rollKey r} = {} \<Longrightarrow> sumsUp (rows @ other) r = sumsUp rows r \<and> sumsUp (other @ rows) r = sumsUp rows r"
proof -
  assume a: "keyOf ` set other \<inter> {rollKey r} = {}"
  have "keyOf x \<noteq> rollKey r" if "x \<in> set other" for x using a imageI [OF that, of keyOf] by auto
  then have "filter (\<lambda>x. keyOf x = rollKey r) other = []" by (simp add: filter_False)
  then show ?thesis by (simp add: sumsUp_def)
qed

lemma dryDay_inv:
  assumes "usageInv today pruned raw roll"
  shows "usageInv today pruned raw (dayRolled now d (grouped dimsOf (filter (onDay d) raw)) roll)"
    (is "usageInv _ _ _ ?roll")
proof -
  have "if shown raw r then sumsUp pruned r \<and> rollKey r \<in> keyOf ` set pruned else rollKey r \<in> keyOf ` set raw" if r: "r \<in> set ?roll" for r
    using dayRolled_mem [OF r]
  proof
    assume "r \<in> set roll \<and> rollKey r \<notin> (\<lambda>g. (d, fst g)) ` set (grouped dimsOf (filter (onDay d) raw))"
    then show ?thesis using assms by (simp add: usageInv_def)
  next
    assume "\<exists>g \<in> set (grouped dimsOf (filter (onDay d) raw)). \<exists>c. r = (rollupRow now d g)\<lparr>ruCreatedAt := c\<rparr>"
    then obtain g c where g: "g \<in> set (grouped dimsOf (filter (onDay d) raw))" "r = (rollupRow now d g)\<lparr>ruCreatedAt := c\<rparr>" by blast
    have "\<not> shown raw r" using dayGroups(3) [OF g(1)] g(2) by (auto simp: shown_def list_all_iff rollupRow_def)
    then show ?thesis using dayGroups(2) [OF g(1)] g(2) by simp
  qed
  then show ?thesis using assms dayRolled_keys(2) [of now d _ roll] by (auto simp: usageInv_def dayRolled_keys(1))
qed

lemma prunedDay_inv:
  assumes inv: "usageInv today pruned raw roll" and first: "\<And>y. y \<in> set raw \<Longrightarrow> d \<le> startDay y" and old: "d < today - 1"
  shows "usageInv today (pruned @ filter (onDay d) raw) (filter (\<lambda>r. \<not> onDay d r) raw)
      (dayRolled now d (grouped dimsOf (filter (onDay d) raw)) roll)"
    (is "usageInv _ ?pruned ?raw ?roll")
proof -
  let ?gs = "grouped dimsOf (filter (onDay d) raw)"
  have old_days: "startDay x < startDay y" if "x \<in> set pruned" "y \<in> set raw" for x y using inv that by (auto simp: usageInv_def)
  have row: "if shown ?raw r then sumsUp ?pruned r \<and> rollKey r \<in> keyOf ` set ?pruned else rollKey r \<in> keyOf ` set ?raw" if r: "r \<in> set ?roll" for r
    using dayRolled_mem [OF r]
  proof
    assume a: "r \<in> set roll \<and> rollKey r \<notin> (\<lambda>g. (d, fst g)) ` set ?gs"
    then have none: "rollKey r \<notin> keyOf ` set (filter (onDay d) raw)" by (simp add: dayGroups_keys)
    have i: "if shown raw r then sumsUp pruned r \<and> rollKey r \<in> keyOf ` set pruned else rollKey r \<in> keyOf ` set raw"
      using inv a by (simp add: usageInv_def)
    show ?thesis
    proof (cases "shown raw r")
      case True
      then have "shown ?raw r" by (auto simp: shown_def list_all_iff)
      then show ?thesis using i True none sumsUp_append [of "filter (onDay d) raw" r pruned] by auto
    next
      case False
      then obtain y where y: "y \<in> set raw" "keyOf y = rollKey r" using i by auto
      then have "y \<in> set ?raw" using none by (metis (mono_tags, lifting) filter_set image_eqI mem_Collect_eq set_filter)
      moreover from this have "\<not> shown ?raw r" using y(2) by (auto simp: shown_def list_all_iff keyOf_def rollKey_def)
      ultimately show ?thesis using y(2) by (metis image_eqI)
    qed
  next
    assume "\<exists>g \<in> set ?gs. \<exists>c. r = (rollupRow now d g)\<lparr>ruCreatedAt := c\<rparr>"
    then obtain g c where g: "g \<in> set ?gs" "r = (rollupRow now d g)\<lparr>ruCreatedAt := c\<rparr>" by blast
    have "shown ?raw r" using first g(2) by (force simp: shown_def list_all_iff rollupRow_def onDay_iff)
    moreover have "rollKey r \<in> keyOf ` set (filter (onDay d) raw)"
      using g dayGroups_keys [of d raw] by force
    moreover have "sumsUp (filter (onDay d) raw) r"
    proof -
      have "snd g = filter (\<lambda>x. keyOf x = (d, fst g)) (filter (onDay d) raw)"
        unfolding dayGroups(1) [OF g(1)] by (auto simp: onDay_iff keyOf_def intro!: filter_cong)
      then show ?thesis unfolding g(2) using inv by (intro sumsUp_rollupRow) (auto simp: usageInv_def)
    qed
    moreover have "keyOf ` set pruned \<inter> {rollKey r} = {}"
      using old_days dayGroups(3) [OF g(1)] g(2) by (fastforce simp: keyOf_def)
    ultimately show ?thesis using sumsUp_append [of pruned r "filter (onDay d) raw"] by auto
  qed
  show ?thesis unfolding usageInv_def
  proof (intro conjI)
    show "\<forall>x \<in> set ?pruned. startDay x < today - 1 \<and> (\<forall>y \<in> set ?raw. startDay x < startDay y)"
      using inv first old by (force simp: usageInv_def onDay_iff)
    show "keyOf ` set ?pruned \<subseteq> rollKey ` set ?roll"
      using inv unfolding dayRolled_keys(2) dayGroups_keys by (auto simp: usageInv_def)
    show "distinct (map rollKey ?roll)" "\<forall>y \<in> set ?raw. onGrid 6 (costOf y)" using inv by (auto simp: usageInv_def dayRolled_keys(1))
  qed (intro ballI row)
qed

definition prunesTo :: "int \<Rightarrow> UsageLedgerEntry list \<Rightarrow> usageDB \<Rightarrow> usageDB \<Rightarrow> bool" where
  "prunesTo today pruned db db' \<longleftrightarrow> (\<exists>pruned'. usageInv today pruned' (pgLedger (fst db')) (snd db')
     \<and> mset (pruned' @ pgLedger (fst db')) = mset (pruned @ pgLedger (fst db)) \<and> fst db' = (fst db)\<lparr>pgLedger := pgLedger (fst db')\<rparr>)"

lemma rollupLoop_inv:
  assumes "usageInv today pruned (pgLedger (fst db)) (snd db)" "sorted days" "distinct days" "\<And>d. d \<in> set days \<Longrightarrow> d < today - 1"
    and "\<And>y. \<not> dryRun \<Longrightarrow> y \<in> set (pgLedger (fst db)) \<Longrightarrow> startDay y \<in> set days \<or> (\<forall>d \<in> set days. d < startDay y)"
  shows "prunesTo today pruned db (fst (rollupLoop now dryRun days res db))"
  using assms
proof (induction days arbitrary: pruned db res)
  case Nil
  then show ?case by (auto simp: prunesTo_def intro!: exI [of _ pruned])
next
  case (Cons d days)
  obtain s roll where db: "db = (s, roll)" by force
  let ?roll = "dayRolled now d (grouped dimsOf (filter (onDay d) (pgLedger s))) roll"
  show ?case
  proof (cases dryRun)
    case True
    have "prunesTo today pruned (s, ?roll) (fst (rollupLoop now dryRun days r (s, ?roll)))" for r
      using Cons.prems db True by (intro Cons.IH) (auto intro!: dryDay_inv)
    then show ?thesis using True by (simp add: db rollupOneDay_def Let_def prunesTo_def flip: dayRolled_def)
  next
    case False
    let ?s = "s\<lparr>pgLedger := filter (\<lambda>r. \<not> onDay d r) (pgLedger s)\<rparr>"
    have "usageInv today (pruned @ filter (onDay d) (pgLedger s)) (pgLedger ?s) ?roll"
      using Cons.prems db False by (auto intro!: prunedDay_inv intro: less_imp_le)
    then have "prunesTo today (pruned @ filter (onDay d) (pgLedger s)) (?s, ?roll) (fst (rollupLoop now dryRun days r (?s, ?roll)))" for r
      using Cons.prems db False by (intro Cons.IH) (auto simp: onDay_iff)
    moreover have "mset (filter (onDay d) (pgLedger s)) + mset (filter (\<lambda>r. \<not> onDay d r) (pgLedger s)) = mset (pgLedger s)"
      by (metis mset_filter multiset_partition)
    ultimately have "prunesTo today pruned db (fst (rollupLoop now dryRun days r (?s, ?roll)))" for r
      by (simp add: prunesTo_def db union_assoc)
    then show ?thesis using False by (simp add: db rollupOneDay_def Let_def flip: dayRolled_def)
  qed
qed

text \<open>The days of a run are those of the old rows, oldest first.\<close>

lemma before_day: "t < d * nsDay \<longleftrightarrow> t div nsDay < (d::int)"
proof -
  have q: "t div nsDay * nsDay \<le> t" "t < (t div nsDay + 1) * nsDay" using div_between [of nsDay t "t div nsDay"] by simp_all
  have "t < d * nsDay" if "t div nsDay < d" 
    by (rule less_le_trans [OF q(2)], rule mult_right_mono) (use that in \<open>simp_all add: less_imp_le\<close>)
  moreover have "d * nsDay \<le> t" if "d \<le> t div nsDay" 
    by (rule order_trans [OF _ q(1)], rule mult_right_mono) (use that in \<open>simp_all add: less_imp_le\<close>)
  ultimately show ?thesis by (meson linorder_not_less)
qed

lemma mem_rollupDays: "d \<in> set (rollupDays now retention rows) \<longleftrightarrow> d < dayOf now - retention \<and> d \<in> startDay ` set rows"
  by (auto simp: rollupDays_def before_day startDay_def dayOf_def)

lemma RollupAndPruneUsage_inv:
  assumes "usageInv (dayOf now) pruned (pgLedger (fst db)) (snd db)" "RollupAndPruneUsage now retention dryRun db = (db', Inr res)"
  shows "prunesTo (dayOf now) pruned db db'"
proof -
  define ret where "ret = (if retention \<le> 0 then 7 else retention)"
  have ret: "1 \<le> ret" by (simp add: ret_def)
  obtain r0 where "db' = fst (rollupLoop now dryRun (rollupDays now ret (pgLedger (fst db))) r0 db)"
    using assms(2) that by (simp add: RollupAndPruneUsage_def flip: ret_def split: option.splits prod.splits) (metis fst_conv)
  moreover have "prunesTo (dayOf now) pruned db (fst (rollupLoop now dryRun (rollupDays now ret (pgLedger (fst db))) r0 db))"
  proof (rule rollupLoop_inv [OF assms(1)])
    show "sorted (rollupDays now ret (pgLedger (fst db)))" "distinct (rollupDays now ret (pgLedger (fst db)))"
      by (simp_all add: rollupDays_def)
  qed (use ret in \<open>auto simp: mem_rollupDays\<close>)
  ultimately show ?thesis by simp
qed

lemma RollupAndPruneUsage_runs:
  assumes "pgFault (fst db) = None"
  shows "\<exists>db' res. RollupAndPruneUsage now retention dryRun db = (db', Inr res)"
  using assms by (simp add: RollupAndPruneUsage_def Let_def split: prod.splits)

section \<open>Runs of the ledger\<close>

text \<open>
  The clock, the rows ever appended and the database.  A row is appended on the day its request started or the day after; a run of
  the rollup may be a dry one and may ask for any retention.
\<close>

inductive usageStep :: "time \<times> UsageLedgerEntry list \<times> usageDB \<Rightarrow> time \<times> UsageLedgerEntry list \<times> usageDB \<Rightarrow> bool" where
  us_tick: "now \<le> later \<Longrightarrow> usageStep (now, history, db) (later, history, db)"
| us_append: "AppendUsage now item s = (s', Inr row) \<Longrightarrow> dayOf now - 1 \<le> startDay row
    \<Longrightarrow> usageStep (now, history, (s, roll)) (now, history @ [row], (s', roll))"
| us_rollup: "RollupAndPruneUsage now retention dryRun db = (db', Inr res) \<Longrightarrow> usageStep (now, history, db) (now, history, db')"

definition historyKept :: "time \<times> UsageLedgerEntry list \<times> usageDB \<Rightarrow> bool" where
  "historyKept st = (case st of (now, history, db) \<Rightarrow>
     \<exists>pruned. usageInv (dayOf now) pruned (pgLedger (fst db)) (snd db) \<and> mset history = mset (pruned @ pgLedger (fst db)))"

lemma onGrid_fixedText: "onGrid n (numericVal (fixedText n q))"
  by (auto simp: numericVal_def parseDecimal_fixedText onGrid_iff)

lemma costOf_usageRow: "usageRow now item = Some row \<Longrightarrow> onGrid 6 (costOf row)"
  by (auto simp: usageRow_def costOf_def numericText_def onGrid_fixedText split: option.splits)

lemma AppendUsage_success:
  assumes "AppendUsage now item s = (s', Inr row)"
  shows "s' = s\<lparr>pgLedger := pgLedger s @ [row]\<rparr>" "onGrid 6 (costOf row)"
  using assms by (auto simp: AppendUsage_def pgRun_def intro: costOf_usageRow split: option.splits if_splits)

lemma append_inv:
  assumes "usageInv today pruned raw roll" "today - 1 \<le> startDay row" "onGrid 6 (costOf row)"
  shows "usageInv today pruned (raw @ [row]) roll"
proof -
  have old: "startDay x < today - 1" if "x \<in> set pruned" for x using assms(1) that by (auto simp: usageInv_def)
  have "if shown (raw @ [row]) r then sumsUp pruned r \<and> rollKey r \<in> keyOf ` set pruned else rollKey r \<in> keyOf ` set (raw @ [row])"
    if r: "r \<in> set roll" for r
  proof (cases "shown raw r")
    case True
    then have s: "sumsUp pruned r" "rollKey r \<in> keyOf ` set pruned" using assms(1) r by (auto simp: usageInv_def)
    then have "ruDay r < today - 1" using old by (auto simp: keyOf_def rollKey_def)
    then show ?thesis using s True assms(2) by (simp add: shown_def)
  next
    case False
    then have "rollKey r \<in> keyOf ` set raw" using assms(1) r by (auto simp: usageInv_def)
    then show ?thesis using False by (auto simp: shown_def)
  qed
  then show ?thesis using assms old by (fastforce simp: usageInv_def)
qed

lemma later_inv: "usageInv today pruned raw roll \<Longrightarrow> today \<le> today' \<Longrightarrow> usageInv today' pruned raw roll"
  by (fastforce simp: usageInv_def)

lemma usageStep_kept: "usageStep st st' \<Longrightarrow> historyKept st \<Longrightarrow> historyKept st'"
proof (induction rule: usageStep.induct)
  case (us_tick now later history db)
  then show ?case using later_inv [of "dayOf now" _ _ _ "dayOf later"] by (auto simp: historyKept_def dayOf_def zdiv_mono1)
next
  case (us_append now item s s' row history roll)
  then show ?case using AppendUsage_success [OF us_append.hyps(1)] append_inv by (fastforce simp: historyKept_def)
next
  case (us_rollup now retention dryRun db db' res history)
  then obtain pruned where p: "usageInv (dayOf now) pruned (pgLedger (fst db)) (snd db)" "mset history = mset (pruned @ pgLedger (fst db))"
    by (auto simp: historyKept_def)
  show ?case using RollupAndPruneUsage_inv [OF p(1) us_rollup.hyps] p(2) by (auto simp: historyKept_def prunesTo_def)
qed

lemma usageSteps_kept: "usageStep\<^sup>*\<^sup>* st st' \<Longrightarrow> historyKept st \<Longrightarrow> historyKept st'"
  by (induction rule: rtranclp_induct) (auto intro: usageStep_kept)

section \<open>The totals do not depend on pruning\<close>

definition partView :: "'k usagePart \<Rightarrow> 'k \<times> int \<times> int \<times> int \<times> int \<times> rat" where
  "partView p = (upKey p, upRequests p, upInput p, upOutput p, upTotal p, upCost p)"

definition viewOf :: "'k \<Rightarrow> UsageLedgerEntry list \<Rightarrow> usageRollup list \<Rightarrow> 'k \<times> int \<times> int \<times> int \<times> int \<times> rat" where
  "viewOf k raw rolled = (k, total (\<lambda>_. 1) raw + total ruRequestCount rolled, total uePromptTokens raw + total ruInputTokens rolled,
     total ueCompletionTokens raw + total ruOutputTokens rolled, total ueTotalTokens raw + total ruTotalTokens rolled,
     total costOf raw + total ruTotalCost rolled)"

lemma unionTotals_view:
  "partView ` set (unionTotals kr kq raw rolled)
    = (\<lambda>k. viewOf k (filter (\<lambda>r. kr r = k) raw) (filter (\<lambda>r. kq r = k) rolled)) ` (kr ` set raw \<union> kq ` set rolled)"
proof -
  have "partView p = viewOf (upKey p) (filter (\<lambda>r. kr r = upKey p) raw) (filter (\<lambda>r. kq r = upKey p) rolled)"
    if p: "p \<in> set (unionTotals kr kq raw rolled)" for p
    unfolding partView_def viewOf_def
    by (intro prod_eqI; simp; rule unionTotals_sum [OF p]) (simp_all add: sumParts_def rawPart_def rolledPart_def total_length)
  then have "partView ` set (unionTotals kr kq raw rolled)
      = (\<lambda>p. viewOf (upKey p) (filter (\<lambda>r. kr r = upKey p) raw) (filter (\<lambda>r. kq r = upKey p) rolled)) ` set (unionTotals kr kq raw rolled)"
    by (intro image_cong) auto
  also have "\<dots> = (\<lambda>k. viewOf k (filter (\<lambda>r. kr r = k) raw) (filter (\<lambda>r. kq r = k) rolled)) ` upKey ` set (unionTotals kr kq raw rolled)"
    by (simp add: image_image)
  finally show ?thesis by (simp add: unionTotals_keys)
qed

lemma pruned_shown:
  assumes "usageInv today pruned raw roll" "x \<in> set pruned"
  obtains r where "r \<in> set (filter (shown raw) roll)" "rollKey r = keyOf x"
proof -
  have "keyOf ` set pruned \<subseteq> rollKey ` set roll" using assms(1) by (simp add: usageInv_def)
  then have "keyOf x \<in> rollKey ` set roll" using assms(2) by blast
  then obtain r where r: "r \<in> set roll" "rollKey r = keyOf x" by (metis imageE)
  moreover have "ruDay r = startDay x" using r(2) by (simp add: rollKey_def keyOf_def)
  then have "shown raw r" using assms by (simp add: usageInv_def shown_def list_all_iff)
  ultimately show thesis by (intro that) simp_all
qed

lemma shown_total:
  assumes inv: "usageInv today pruned raw roll" and f: "\<And>r. sumsUp pruned r \<Longrightarrow> f2 r = total f1 (filter (\<lambda>x. keyOf x = rollKey r) pruned)"
  shows "total f2 (filter (\<lambda>r. \<kappa> (rollKey r) = k) (filter (shown raw) roll)) = total f1 (filter (\<lambda>x. \<kappa> (keyOf x) = k) pruned)"
proof -
  let ?rs = "filter (\<lambda>r. \<kappa> (rollKey r) = k) (filter (shown raw) roll)"
  let ?ps = "filter (\<lambda>x. \<kappa> (keyOf x) = k) pruned"
  have "f2 r = total f1 (filter (\<lambda>x. keyOf x = rollKey r) ?ps)" if "r \<in> set ?rs" for r
  proof -
    have "sumsUp pruned r" "\<kappa> (rollKey r) = k" using inv that by (auto simp: usageInv_def)
    then have "filter (\<lambda>x. keyOf x = rollKey r) ?ps = filter (\<lambda>x. keyOf x = rollKey r) pruned" by (auto intro!: filter_cong)
    then show ?thesis using f \<open>sumsUp pruned r\<close> by simp
  qed
  then have "total f2 ?rs = total (\<lambda>r. total f1 (filter (\<lambda>x. keyOf x = rollKey r) ?ps)) ?rs"
    unfolding total_def by (intro arg_cong [where f = sum_list] map_cong) auto
  also have "\<dots> = total (\<lambda>g. total f1 (filter (\<lambda>x. keyOf x = g) ?ps)) (map rollKey ?rs)" by (simp add: total_map)
  also have "\<dots> = total f1 ?ps"
  proof (rule total_partition)
    show "distinct (map rollKey ?rs)" using inv by (simp add: usageInv_def distinct_map_filter)
    show "keyOf ` set ?ps \<subseteq> set (map rollKey ?rs)"
    proof (rule image_subsetI)
      fix x assume x: "x \<in> set ?ps"
      obtain r where r: "r \<in> set (filter (shown raw) roll)" "rollKey r = keyOf x" using x by (auto intro: pruned_shown [OF inv])
      then have "r \<in> set ?rs" using x by simp
      then show "keyOf x \<in> set (map rollKey ?rs)" unfolding set_map r(2) [symmetric] by (rule imageI)
    qed
  qed
  finally show ?thesis .
qed

lemma shown_keys:
  assumes "usageInv today pruned raw roll"
  shows "(\<lambda>r. \<kappa> (rollKey r)) ` set (filter (shown raw) roll) = (\<lambda>x. \<kappa> (keyOf x)) ` set pruned"
proof -
  have "rollKey ` set (filter (shown raw) roll) = keyOf ` set pruned"
  proof
    show "rollKey ` set (filter (shown raw) roll) \<subseteq> keyOf ` set pruned" using assms by (auto simp: usageInv_def)
    show "keyOf ` set pruned \<subseteq> rollKey ` set (filter (shown raw) roll)"
    proof (rule image_subsetI)
      fix x assume x: "x \<in> set pruned"
      obtain r where "r \<in> set (filter (shown raw) roll)" "rollKey r = keyOf x" by (rule pruned_shown [OF assms x])
      then show "keyOf x \<in> rollKey ` set (filter (shown raw) roll)" by (metis imageI)
    qed
  qed
  then show ?thesis by (metis image_image)
qed

lemma zeroWindow [simp]: "nullableTime zeroTime = None" "rawSince None x" "rolledSince None raw = shown raw"
  by (auto simp: nullableTime_def rawSince_def rolledSince_def shown_def)

lemma history_total:
  assumes inv: "usageInv today pruned raw roll" and m: "mset history = mset (pruned @ raw)"
    and f: "\<And>r. sumsUp pruned r \<Longrightarrow> f2 r = total f1 (filter (\<lambda>x. keyOf x = rollKey r) pruned)"
  shows "total f1 (filter (\<lambda>x. \<kappa> (keyOf x) = k) raw) + total f2 (filter (\<lambda>r. \<kappa> (rollKey r) = k) (filter (shown raw) roll))
    = total f1 (filter (\<lambda>x. \<kappa> (keyOf x) = k) history)"
proof -
  have "mset (filter (\<lambda>x. \<kappa> (keyOf x) = k) history) = mset (filter (\<lambda>x. \<kappa> (keyOf x) = k) (pruned @ raw))"
    using m by (metis mset_filter)
  from total_mset [OF this, of f1] show ?thesis
    by (simp add: shown_total [where \<kappa> = \<kappa> and k = k and ?f2.0 = f2, OF inv f] add.commute del: filter_filter)
qed

lemma pruning_view:
  assumes kept: "historyKept (now, history, (s, roll))" and up: "pgFault s = None"
  shows "partView ` set (usageTotals (\<lambda>x. \<kappa> (keyOf x)) (\<lambda>r. \<kappa> (rollKey r)) zeroTime (s, roll))
    = partView ` set (usageTotals (\<lambda>x. \<kappa> (keyOf x)) (\<lambda>r. \<kappa> (rollKey r)) zeroTime (s\<lparr>pgLedger := history\<rparr>, []))"
proof -
  obtain pruned where inv: "usageInv (dayOf now) pruned (pgLedger s) roll" and m: "mset history = mset (pruned @ pgLedger s)"
    using kept by (auto simp: historyKept_def)
  have keys: "(\<lambda>x. \<kappa> (keyOf x)) ` set history = (\<lambda>x. \<kappa> (keyOf x)) ` set (pgLedger s) \<union> (\<lambda>r. \<kappa> (rollKey r)) ` set (filter (shown (pgLedger s)) roll)"
    unfolding shown_keys [OF inv] using mset_eq_setD [OF m] by auto
  note sums = history_total [where \<kappa> = \<kappa>, OF inv m]
  have "viewOf k (filter (\<lambda>x. \<kappa> (keyOf x) = k) (pgLedger s)) (filter (\<lambda>r. \<kappa> (rollKey r) = k) (filter (shown (pgLedger s)) roll))
      = viewOf k (filter (\<lambda>x. \<kappa> (keyOf x) = k) history) []" for k
    unfolding viewOf_def
    by (intro prod_eqI; simp only: fst_conv snd_conv total_simps(1) add_0_right; rule sums) (simp_all add: sumsUp_def Let_def total_length)
  then show ?thesis using up keys by (simp add: usageTotals_def unionTotals_view del: filter_filter)
qed

lemma pruning_image:
  assumes "historyKept (now, history, (s, roll))" "pgFault s = None"
  shows "(\<lambda>p. g (partView p)) ` set (usageTotals (\<lambda>x. \<kappa> (keyOf x)) (\<lambda>r. \<kappa> (rollKey r)) zeroTime (s, roll))
    = (\<lambda>p. g (partView p)) ` set (usageTotals (\<lambda>x. \<kappa> (keyOf x)) (\<lambda>r. \<kappa> (rollKey r)) zeroTime (s\<lparr>pgLedger := history\<rparr>, []))"
  using arg_cong [OF pruning_view [OF assms, of \<kappa>], of "image g"] by (simp add: image_image)

lemmas breakdownDefs = descending_def partView_def keyOf_def rollKey_def dimsOf_def costText_def

lemma usageRun_kept:
  assumes "usageStep\<^sup>*\<^sup>* (start, pgLedger s0, (s0, [])) st" "list_all (\<lambda>r. onGrid 6 (costOf r)) (pgLedger s0)"
  shows "historyKept st"
  by (rule usageSteps_kept [OF assms(1)]) (use assms(2) in \<open>auto simp: historyKept_def usageInv_def list_all_iff intro!: exI [of _ "[]"]\<close>)


lemma takeWhile_before:
  assumes "sorted (map f xs)" "q \<in> set xs" "p \<in> set (takeWhile P xs)" "\<And>x. x \<in> set xs \<Longrightarrow> f x = f q \<Longrightarrow> \<not> P x"
  shows "f p < f q"
  using assms by (induction xs) (auto split: if_splits intro: order.not_eq_order_implies_strict)

text \<open>
  C39.  A clean day cuts the chart: when a rolled-up day before the first raw row has no failed request, the sum of its errors is NULL,
  the driver closes the result at its row, and the daily series ends before that day, today's usage included.
\<close>

theorem clean_day_cuts_series:
  assumes "pgFault s = None" "r \<in> set roll" "rolledSince (nullableTime since) (pgLedger s) r"
    and clean: "\<And>x. x \<in> set roll \<Longrightarrow> ruDay x = ruDay r \<Longrightarrow> udStatus (ruDims x) = ''success''"
  shows "\<forall>p \<in> set (ListUsageTimeseries since ''day'' (s, roll)). tsBucket p < ruDay r * nsDay"
proof -
  let ?k = "ruDay r * nsDay"
  let ?T = "usageTotals (\<lambda>r. startDay r * nsDay) (\<lambda>r. ruDay r * nsDay) since (s, roll)"
  let ?raw = "filter (rawSince (nullableTime since)) (pgLedger s)" and ?rolled = "filter (rolledSince (nullableTime since) (pgLedger s)) roll"
  have T: "?T = unionTotals (\<lambda>r. startDay r * nsDay) (\<lambda>r. ruDay r * nsDay) ?raw ?rolled" using assms(1) by (simp add: usageTotals_def)
  have nul: "timePoint q = None" if q: "q \<in> set ?T" "upKey q = ?k" for q
  proof -
    obtain parts where p: "q = sumParts (upKey q, parts)" "parts = filter (\<lambda>p. upKey p = upKey q) (map rawPart (grouped (\<lambda>r. startDay r * nsDay) ?raw))
        @ filter (\<lambda>p. upKey p = upKey q) (map rolledPart (grouped (\<lambda>r. ruDay r * nsDay) ?rolled))"
      using q(1) unfolding T by (rule unionTotals_part)
    have "startDay x * nsDay \<noteq> ?k" if "x \<in> set ?raw" for x
      using assms(3) that by (auto simp: rolledSince_def list_all_iff)
    then have raw: "filter (\<lambda>p. upKey p = ?k) (map rawPart (grouped (\<lambda>r. startDay r * nsDay) ?raw)) = []"
      by (force simp: filter_empty_conv mem_grouped)
    have "upErrors p = None" if "p \<in> set parts" for p
    proof -
      have "p \<in> set (map rolledPart (grouped (\<lambda>r. ruDay r * nsDay) ?rolled))" "upKey p = ?k" using that raw q(2) unfolding p(2) by auto
      then obtain g where "p = rolledPart (?k, g)" "g = filter (\<lambda>r. ruDay r * nsDay = ?k) ?rolled"
        by (auto simp: mem_grouped)
      then show ?thesis using clean by (auto simp: rolledPart_def sumFilter_def filter_empty_conv)
    qed
    then have "List.map_filter id (map upErrors parts) = []" by (auto simp: List.map_filter_def filter_empty_conv)
    then have "upErrors q = None" by (subst p(1)) (simp add: sumParts_def sqlSum_def)
    then show ?thesis by (simp add: timePoint_def split: option.splits)
  qed
  have "?k \<in> upKey ` set ?T" unfolding T unionTotals_keys using assms(2,3) by auto
  then obtain q where q: "q \<in> set ?T" "upKey q = ?k" by auto
  have "upKey p < ?k" if "p \<in> set (takeWhile (\<lambda>p. timePoint p \<noteq> None) (sort_key upKey ?T))" for p
    using takeWhile_before [where f = upKey and xs = "sort_key upKey ?T" and q = q and p = p and P = "\<lambda>p. timePoint p \<noteq> None"] q nul that by auto
  then show ?thesis
    by (auto simp: ListUsageTimeseries_def scanRows_def takeWhile_map comp_def) (auto simp: timePoint_def split: option.splits dest!: set_takeWhileD)
qed


section \<open>Examples\<close>

definition sampleUse :: "time \<Rightarrow> UsageLedgerEntry" where
  "sampleUse t = \<lparr>ueID = 1, ueRequestID = ''r1'', ueGenfityUserID = ''u'', ueGenfityTenantID = None, ueAPIKeyID = None, uePublicModel = ''m'',
     ueRouterModel = Some ''mtr/m'', ueRouterInstanceCode = None, uePromptTokens = 3, ueCompletionTokens = 4, ueTotalTokens = 7, ueCachedTokens = 0,
     ueCacheReadInputTokens = 0, ueCacheCreationInputTokens = 0, ueReasoningTokens = 0, ueInputCost = ''0.000000'', ueOutputCost = ''0.000000'',
     ueTotalCost = fixedText 6 (1 / 4), ueBillingMode = None, ueAmountCredits = None, ueBalanceAfterCredits = None, ueBalanceAfterUsd = None,
     ueStatus = ''success'', ueErrorCode = None, ueLatencyMS = None, ueStartedAt = t, ueFinishedAt = None, ueMetadata = None\<rparr>"

definition sampleBooks :: usageDB where
  "sampleBooks = (pgEmpty\<lparr>pgLedger := [sampleUse 0, sampleUse (29 * nsDay)]\<rparr>, [])"

lemma sampleBooks_grid: "list_all (\<lambda>r. onGrid 6 (costOf r)) (pgLedger (fst sampleBooks))"
  by (simp add: sampleBooks_def costOf_def sampleUse_def onGrid_fixedText)


theorem clean_day_cuts_series_witness:
  "list_all (\<lambda>p. tsBucket p < 0) (ListUsageTimeseries zeroTime ''day'' (pgEmpty\<lparr>pgLedger := [sampleUse (29 * nsDay)]\<rparr>,
      [rollupRow 0 0 (dimsOf (sampleUse 0), [sampleUse 0])]))"
proof -
  let ?r = "rollupRow 0 0 (dimsOf (sampleUse 0), [sampleUse 0])"
  have "rolledSince (nullableTime zeroTime) (pgLedger (pgEmpty\<lparr>pgLedger := [sampleUse (29 * nsDay)]\<rparr>)) ?r"
    by (simp add: shown_def rollupRow_def startDay_def sampleUse_def dayOf_def)
  from clean_day_cuts_series [of "pgEmpty\<lparr>pgLedger := [sampleUse (29 * nsDay)]\<rparr>" ?r "[?r]", OF _ _ this] show ?thesis
    by (simp add: list_all_iff pgEmpty_def rollupRow_def dimsOf_def sampleUse_def)
qed

end
