(* ===== verification/GoDate.thy ===== *)
theory GoDate
  imports GoTime "HOL-Library.Monad_Syntax"
begin

text \<open>
  \<^verbatim>\<open>time.Parse(time.RFC3339, s)\<close> and the stricter form that JSON decoding uses.  An hour may have one digit and a fraction may follow a
  comma in the first, not in the second.
\<close>

text \<open>The day count of a date, as in \<open>civil\<close> by eras that begin on the first of March.\<close>

definition daysFromCivil :: "int \<Rightarrow> int \<Rightarrow> int \<Rightarrow> int" where
  "daysFromCivil y m d =
     (let y' = (if m \<le> 2 then y - 1 else y); era = y' div 400; yoe = y' - era * 400;
          mp = (if m > 2 then m - 3 else m + 9); doy = (153 * mp + 2) div 5 + d - 1;
          doe = yoe * 365 + yoe div 4 - yoe div 100 + doy
      in era * 146097 + doe - 719468)"

definition digitsN :: "nat \<Rightarrow> string \<Rightarrow> (int \<times> string) option" where
  "digitsN n s = (if length s \<ge> n \<and> list_all isDigit (take n s) then Some (int (digitsVal (take n s)), drop n s) else None)"

definition expectChar :: "char \<Rightarrow> string \<Rightarrow> string option" where
  "expectChar c s = (case s of d # r \<Rightarrow> if d = c then Some r else None | [] \<Rightarrow> None)"

definition hourDigits :: "string \<Rightarrow> (int \<times> string) option" where
  "hourDigits s = (case digitsN 2 s of Some r \<Rightarrow> Some r | None \<Rightarrow> digitsN 1 s)"

definition fraction :: "string \<Rightarrow> int \<times> string" where
  "fraction s =
     (if length s \<ge> 2 \<and> (s ! 0 = CHR ''.'' \<or> s ! 0 = CHR '','') \<and> isDigit (s ! 1)
      then let ds = take 9 (takeWhile isDigit (tl s))
           in (int (digitsVal ds) * 10 ^ (9 - length ds), dropWhile isDigit (tl s))
      else (0, s))"

definition zoneOffset :: "string \<Rightarrow> (int \<times> string) option" where
  "zoneOffset s = (case s of
       [] \<Rightarrow> None
     | c # r \<Rightarrow>
         if c = CHR ''Z'' then Some (0, r)
         else do {
           (hh, r1) \<leftarrow> digitsN 2 r;
           r2 \<leftarrow> expectChar (CHR '':'') r1;
           (mm, r3) \<leftarrow> digitsN 2 r2;
           if hh > 24 \<or> mm > 60 then None
           else if c = CHR ''+'' then Some (hh * 3600 + mm * 60, r3)
           else if c = CHR ''-'' then Some (- (hh * 3600 + mm * 60), r3)
           else None
         })"

definition parseRFC3339 :: "string \<Rightarrow> time option" where
  "parseRFC3339 s = do {
     (y, s1) \<leftarrow> digitsN 4 s;
     s2 \<leftarrow> expectChar (CHR ''-'') s1;
     (m, s3) \<leftarrow> digitsN 2 s2;
     s4 \<leftarrow> expectChar (CHR ''-'') s3;
     (d, s5) \<leftarrow> digitsN 2 s4;
     s6 \<leftarrow> expectChar (CHR ''T'') s5;
     (h, s7) \<leftarrow> hourDigits s6;
     s8 \<leftarrow> expectChar (CHR '':'') s7;
     (mi, s9) \<leftarrow> digitsN 2 s8;
     s10 \<leftarrow> expectChar (CHR '':'') s9;
     (sec, s11) \<leftarrow> digitsN 2 s10;
     (let (ns, s12) = fraction s11 in do {
       (off, rest) \<leftarrow> zoneOffset s12;
       if rest \<noteq> [] \<or> m < 1 \<or> 12 < m \<or> d < 1 \<or> daysInMonth y m < d \<or> 24 \<le> h \<or> 60 \<le> mi \<or> 60 \<le> sec then None
       else Some ((daysFromCivil y m d * 86400 + h * 3600 + mi * 60 + sec - off) * nsSecond + ns)
     })
   }"

definition strictRFC3339 :: "string \<Rightarrow> time option" where
  "strictRFC3339 s = (case parseRFC3339 s of
       None \<Rightarrow> None
     | Some t \<Rightarrow>
         if s ! 12 = CHR '':'' \<or> s ! 19 = CHR '','' then None
         else if last s = CHR ''Z'' then Some t
         else let n = length s in
           if digitsVal [s ! (n - 5), s ! (n - 4)] \<ge> 24 \<or> digitsVal [s ! (n - 2), s ! (n - 1)] \<ge> 60 then None else Some t)"

section \<open>Examples\<close>

lemma parseRFC3339_epoch: "parseRFC3339 ''1970-01-02T00:00:01.5Z'' = Some (86401500000000)"
  by code_simp

lemma parseRFC3339_zone: "parseRFC3339 ''2024-02-29T9:05:00,25+07:00'' = Some (1709172300250000000)"
  by code_simp

lemma strictRFC3339_refuses: "strictRFC3339 ''2024-02-29T9:05:00Z'' = None" "parseRFC3339 ''2023-02-29T09:05:00Z'' = None"
  by code_simp+

end
