(* ===== verification/Admin.thy ===== *)
theory Admin
  imports Customer Analytics GoDate
begin

text \<open>
  The admin endpoints (\<^verbatim>\<open>admin_handler.go\<close>): the catalogue with its partial updates, the usage dashboards, a user's billing detail and the
  adjustment of a live counter.  A payload that is decoded into a struct is an argument, \<open>None\<close> when the decoder fails; a partial update
  is decoded member by member.  The parsers of identifiers and the SQLSTATE of an error come from third-party packages and are
  parameters.  The lemmas show that an adjusted counter is what the gate enforces, that the groups of the dashboard add up, and
  what a partial update does with a member of the wrong type.
\<close>

section \<open>Answers\<close>

text \<open>An error answer, or a status with the value that is encoded.\<close>

type_synonym 'a adminReply = "reply + int \<times> 'a"

record adminHandler =
  ahParse :: "string \<Rightarrow> uuid option"
  ahCode :: "gerror \<Rightarrow> string option"

definition respondAdminWriteError :: "adminHandler \<Rightarrow> gerror \<Rightarrow> reply" where
  "respondAdminWriteError A err = (case ahCode A err of
       Some code \<Rightarrow>
         if code = ''23505'' then respondError 409 ''unique_violation''
         else if code = ''23503'' then respondError 409 ''fk_violation''
         else if code = ''23502'' then respondError 400 ''not_null_violation''
         else if code = ''23514'' then respondError 400 ''check_violation''
         else if code = ''22P02'' then respondError 400 ''invalid_text_representation''
         else respondError 500 ''database_error''
     | None \<Rightarrow> if err = ErrNotFound then respondError 404 ''not_found'' else respondError 400 ''invalid_request'')"

definition written :: "adminHandler \<Rightarrow> int \<Rightarrow> pg_state \<times> 'a result \<Rightarrow> pg_state \<times> 'a adminReply" where
  "written A status out = (case out of
       (s, Inl e) \<Rightarrow> (s, Inl (respondAdminWriteError A e))
     | (s, Inr v) \<Rightarrow> (s, Inr (status, v)))"

text \<open>\<^verbatim>\<open>uuid.Parse(r.PathValue("id"))\<close>\<close>

definition withID :: "adminHandler \<Rightarrow> string \<Rightarrow> string \<Rightarrow> (uuid \<Rightarrow> pg_state \<Rightarrow> pg_state \<times> 'a adminReply) \<Rightarrow> pg_state \<Rightarrow> pg_state \<times> 'a adminReply" where
  "withID A idText code k s = (case ahParse A idText of None \<Rightarrow> (s, Inl (respondError 400 code)) | Some i \<Rightarrow> k i s)"

definition withPayload :: "'p option \<Rightarrow> ('p \<Rightarrow> pg_state \<Rightarrow> pg_state \<times> 'a adminReply) \<Rightarrow> pg_state \<Rightarrow> pg_state \<times> 'a adminReply" where
  "withPayload payload k s = (case payload of None \<Rightarrow> (s, Inl (respondError 400 ''invalid_json'')) | Some p \<Rightarrow> k p s)"

section \<open>Partial updates\<close>

text \<open>
  \<^verbatim>\<open>json.Decode\<close> into a \<^verbatim>\<open>map[string]json.RawMessage\<close>: the members are kept as they are written.  A member is decoded later, with its own
  type.
\<close>

definition decodeFields :: "string \<Rightarrow> jobject option" where
  "decodeFields body = (case jsonValue True 0 body of Some (v, _) \<Rightarrow> topObject v | None \<Rightarrow> None)"

definition patchHasField :: "jobject \<Rightarrow> string \<Rightarrow> bool" where
  "patchHasField members key \<longleftrightarrow> jget members key \<noteq> None"

definition patchIsNull :: "jobject \<Rightarrow> string \<Rightarrow> bool" where
  "patchIsNull members key \<longleftrightarrow> jget members key = Some JNull"

definition patchDecodeOptionalString :: "jobject \<Rightarrow> string \<Rightarrow> string option \<times> bool" where
  "patchDecodeOptionalString members key = (case jget members key of
       None \<Rightarrow> (None, False)
     | Some JNull \<Rightarrow> (None, True)
     | Some (JStr t) \<Rightarrow> (Some t, True)
     | Some _ \<Rightarrow> (None, False))"

text \<open>The three ways in which a member is applied to a row.\<close>

definition requiredText :: "jobject \<Rightarrow> string \<Rightarrow> string \<Rightarrow> (string \<Rightarrow> 'a \<Rightarrow> 'a) \<Rightarrow> 'a \<Rightarrow> string + 'a" where
  "requiredText members key code upd row = (case patchDecodeOptionalString members key of
       (None, True) \<Rightarrow> Inl code
     | (Some t, True) \<Rightarrow> Inr (upd t row)
     | (_, False) \<Rightarrow> Inr row)"

definition optionalText :: "jobject \<Rightarrow> string \<Rightarrow> (string option \<Rightarrow> 'a \<Rightarrow> 'a) \<Rightarrow> 'a \<Rightarrow> string + 'a" where
  "optionalText members key upd row =
     Inr (if patchHasField members key then upd (fst (patchDecodeOptionalString members key)) row else row)"

text \<open>A \<^verbatim>\<open>null\<close> leaves a \<^verbatim>\<open>uuid.UUID\<close> or a \<^verbatim>\<open>bool\<close> at its zero value.\<close>

definition uuidField :: "adminHandler \<Rightarrow> jobject \<Rightarrow> string \<Rightarrow> string \<Rightarrow> (uuid \<Rightarrow> 'a \<Rightarrow> 'a) \<Rightarrow> 'a \<Rightarrow> string + 'a" where
  "uuidField A members key code upd row = (case jget members key of
       None \<Rightarrow> Inr row
     | Some JNull \<Rightarrow> Inr (upd nilUUID row)
     | Some (JStr t) \<Rightarrow> (case ahParse A t of None \<Rightarrow> Inl code | Some i \<Rightarrow> Inr (upd i row))
     | Some _ \<Rightarrow> Inl code)"

definition boolField :: "jobject \<Rightarrow> string \<Rightarrow> string \<Rightarrow> (bool \<Rightarrow> 'a \<Rightarrow> 'a) \<Rightarrow> 'a \<Rightarrow> string + 'a" where
  "boolField members key code upd row = (case jget members key of
       None \<Rightarrow> Inr row
     | Some JNull \<Rightarrow> Inr (upd False row)
     | Some (JBool b) \<Rightarrow> Inr (upd b row)
     | Some _ \<Rightarrow> Inl code)"

definition rawField :: "jobject \<Rightarrow> string \<Rightarrow> (raw_json \<Rightarrow> 'a \<Rightarrow> 'a) \<Rightarrow> 'a \<Rightarrow> string + 'a" where
  "rawField members key upd row = Inr (case jget members key of
       None \<Rightarrow> row
     | Some v \<Rightarrow> upd (if v = JNull then None else Some v) row)"

fun patchWith :: "('a \<Rightarrow> string + 'a) list \<Rightarrow> 'a \<Rightarrow> string + 'a" where
  "patchWith [] row = Inr row"
| "patchWith (f # fs) row = (case f row of Inl code \<Rightarrow> Inl code | Inr row1 \<Rightarrow> patchWith fs row1)"

definition patched :: "'a result \<Rightarrow> adminHandler \<Rightarrow> (jobject \<Rightarrow> ('a \<Rightarrow> string + 'a) list) \<Rightarrow> string
    \<Rightarrow> ('a \<Rightarrow> pg_state \<Rightarrow> pg_state \<times> 'a result) \<Rightarrow> pg_state \<Rightarrow> pg_state \<times> 'a adminReply" where
  "patched current A members body store s = (case current of
       Inl e \<Rightarrow> (s, Inl (respondAdminWriteError A e))
     | Inr row \<Rightarrow>
         (case decodeFields body of
            None \<Rightarrow> (s, Inl (respondError 400 ''invalid_json''))
          | Some m \<Rightarrow>
              (case patchWith (members m) row of
                 Inl code \<Rightarrow> (s, Inl (respondError 400 code))
               | Inr row1 \<Rightarrow> written A 200 (store row1 s))))"


section \<open>The catalogue\<close>

definition adminListModels :: "pg_state \<Rightarrow> AIModel list adminReply" where
  "adminListModels s = Inr (200, ListModels s)"

definition CreateModelHandler :: "adminHandler \<Rightarrow> uuid \<Rightarrow> time \<Rightarrow> AIModel option \<Rightarrow> pg_state \<Rightarrow> pg_state \<times> AIModel adminReply" where
  "CreateModelHandler A fresh now payload = withPayload payload (\<lambda>model s. written A 201 (CreateModel fresh now model s))"

record modelPatch =
  mpPublicModel :: "string option"
  mpDisplayName :: "string option"
  mpDescription :: "string option"
  mpStatus :: "string option"
  mpModelType :: "string option"
  mpContextWindow :: "int option"
  mpSupportsStreaming :: "bool option"
  mpSupportsTools :: "bool option"
  mpSupportsVision :: "bool option"

definition orKeep :: "'a option \<Rightarrow> 'a \<Rightarrow> 'a" where
  "orKeep v current = (case v of Some x \<Rightarrow> x | None \<Rightarrow> current)"

definition UpdateModelHandler :: "adminHandler \<Rightarrow> time \<Rightarrow> string \<Rightarrow> modelPatch option \<Rightarrow> pg_state \<Rightarrow> pg_state \<times> AIModel adminReply" where
  "UpdateModelHandler A now idText payload = withID A idText ''invalid_model_id'' (\<lambda>i s.
     case GetModelByID i s of
       Inl _ \<Rightarrow> (s, Inl (respondError 404 ''model_not_found''))
     | Inr current \<Rightarrow> withPayload payload (\<lambda>p s. written A 200 (serviceUpdateModel now
         (current\<lparr>amPublicModel := orKeep (mpPublicModel p) (amPublicModel current), amDisplayName := orKeep (mpDisplayName p) (amDisplayName current),
            amDescription := orKeep (mpDescription p) (amDescription current), amStatus := orKeep (mpStatus p) (amStatus current),
            amModelType := orKeep (mpModelType p) (amModelType current),
            amContextWindow := (if mpContextWindow p \<noteq> None then mpContextWindow p else amContextWindow current),
            amSupportsStreaming := orKeep (mpSupportsStreaming p) (amSupportsStreaming current),
            amSupportsTools := orKeep (mpSupportsTools p) (amSupportsTools current),
            amSupportsVision := orKeep (mpSupportsVision p) (amSupportsVision current)\<rparr>) s)) s)"

definition DeleteModelHandler :: "adminHandler \<Rightarrow> string \<Rightarrow> pg_state \<Rightarrow> pg_state \<times> unit adminReply" where
  "DeleteModelHandler A idText = withID A idText ''invalid_model_id'' (\<lambda>i s. written A 200 (serviceDeleteModel i s))"

definition ListModelPrices :: "pg_state \<Rightarrow> AIModelPrice list adminReply" where
  "ListModelPrices s = Inr (200, ListPrices s)"

definition UpsertModelPrice :: "adminHandler \<Rightarrow> uuid \<Rightarrow> time \<Rightarrow> AIModelPrice option \<Rightarrow> pg_state \<Rightarrow> pg_state \<times> AIModelPrice adminReply" where
  "UpsertModelPrice A fresh now payload = withPayload payload (\<lambda>price s. written A 200 (serviceUpsertPrice fresh now price s))"

definition priceMembers :: "adminHandler \<Rightarrow> jobject \<Rightarrow> (AIModelPrice \<Rightarrow> string + AIModelPrice) list" where
  "priceMembers A m =
     [uuidField A m ''model_id'' ''invalid_model_id'' (\<lambda>v r. r\<lparr>apModelID := v\<rparr>),
      requiredText m ''input_price_per_1m'' ''input_price_per_1m_required'' (\<lambda>v r. r\<lparr>apInputPricePer1M := v\<rparr>),
      requiredText m ''output_price_per_1m'' ''output_price_per_1m_required'' (\<lambda>v r. r\<lparr>apOutputPricePer1M := v\<rparr>),
      optionalText m ''cached_price_per_1m'' (\<lambda>v r. r\<lparr>apCachedPricePer1M := v\<rparr>),
      optionalText m ''reasoning_price_per_1m'' (\<lambda>v r. r\<lparr>apReasoningPricePer1M := v\<rparr>),
      requiredText m ''currency'' ''currency_required'' (\<lambda>v r. r\<lparr>apCurrency := v\<rparr>),
      boolField m ''active'' ''invalid_active'' (\<lambda>v r. r\<lparr>apActive := v\<rparr>)]"

definition UpdateModelPrice :: "adminHandler \<Rightarrow> time \<Rightarrow> string \<Rightarrow> string \<Rightarrow> pg_state \<Rightarrow> pg_state \<times> AIModelPrice adminReply" where
  "UpdateModelPrice A now idText body = withID A idText ''invalid_model_price_id'' (\<lambda>i s.
     patched (GetPriceByID i s) A (priceMembers A) body (serviceUpdatePrice now) s)"

definition DeleteModelPrice :: "adminHandler \<Rightarrow> string \<Rightarrow> pg_state \<Rightarrow> pg_state \<times> unit adminReply" where
  "DeleteModelPrice A idText = withID A idText ''invalid_model_price_id'' (\<lambda>i s. written A 200 (DeletePrice i s))"

definition ListModelRoutes :: "pg_state \<Rightarrow> AIModelRoute list adminReply" where
  "ListModelRoutes s = Inr (200, ListRoutes s)"

definition UpsertModelRoute :: "adminHandler \<Rightarrow> uuid \<Rightarrow> time \<Rightarrow> AIModelRoute option \<Rightarrow> pg_state \<Rightarrow> pg_state \<times> AIModelRoute adminReply" where
  "UpsertModelRoute A fresh now payload = withPayload payload (\<lambda>route s. written A 200 (serviceUpsertRoute fresh now route s))"

definition routeMembers :: "adminHandler \<Rightarrow> jobject \<Rightarrow> (AIModelRoute \<Rightarrow> string + AIModelRoute) list" where
  "routeMembers A m =
     [uuidField A m ''model_id'' ''invalid_model_id'' (\<lambda>v r. r\<lparr>arModelID := v\<rparr>),
      requiredText m ''router_instance_code'' ''router_instance_code_required'' (\<lambda>v r. r\<lparr>arRouterInstanceCode := v\<rparr>),
      requiredText m ''router_model'' ''router_model_required'' (\<lambda>v r. r\<lparr>arRouterModel := v\<rparr>),
      requiredText m ''status'' ''status_required'' (\<lambda>v r. r\<lparr>arStatus := v\<rparr>),
      rawField m ''metadata'' (\<lambda>v r. r\<lparr>arMetadata := v\<rparr>)]"

definition UpdateModelRoute :: "adminHandler \<Rightarrow> time \<Rightarrow> string \<Rightarrow> string \<Rightarrow> pg_state \<Rightarrow> pg_state \<times> AIModelRoute adminReply" where
  "UpdateModelRoute A now idText body = withID A idText ''invalid_model_route_id'' (\<lambda>i s.
     patched (GetRouteByID i s) A (routeMembers A) body (serviceUpdateRoute now) s)"

definition DeleteModelRoute :: "adminHandler \<Rightarrow> string \<Rightarrow> pg_state \<Rightarrow> pg_state \<times> unit adminReply" where
  "DeleteModelRoute A idText = withID A idText ''invalid_model_route_id'' (\<lambda>i s. written A 200 (DeleteRoute i s))"

definition adminListRouterInstances :: "pg_state \<Rightarrow> RouterInstance list adminReply" where
  "adminListRouterInstances s = Inr (200, ListRouterInstances s)"

definition UpsertRouterInstanceHandler :: "adminHandler \<Rightarrow> uuid \<Rightarrow> time \<Rightarrow> RouterInstance option \<Rightarrow> pg_state
    \<Rightarrow> pg_state \<times> RouterInstance adminReply" where
  "UpsertRouterInstanceHandler A fresh now payload = withPayload payload (\<lambda>router s. written A 200 (UpsertInstance fresh now router s))"

text \<open>\<^verbatim>\<open>time.Time\<close>'s JSON form.\<close>

definition jsonTime :: "json \<Rightarrow> time option" where
  "jsonTime v = (case v of JStr t \<Rightarrow> strictRFC3339 t | _ \<Rightarrow> None)"

definition timeField :: "jobject \<Rightarrow> string \<Rightarrow> string \<Rightarrow> (time option \<Rightarrow> 'a \<Rightarrow> 'a) \<Rightarrow> 'a \<Rightarrow> string + 'a" where
  "timeField m key code upd row = (case jget m key of
       None \<Rightarrow> Inr row
     | Some JNull \<Rightarrow> Inr (upd None row)
     | Some v \<Rightarrow> (case jsonTime v of None \<Rightarrow> Inl code | Some t \<Rightarrow> Inr (upd (Some t) row)))"

definition routerMembers :: "adminHandler \<Rightarrow> jobject \<Rightarrow> (RouterInstance \<Rightarrow> string + RouterInstance) list" where
  "routerMembers A m =
     [requiredText m ''code'' ''code_required'' (\<lambda>v r. r\<lparr>riCode := v\<rparr>),
      optionalText m ''public_base_url'' (\<lambda>v r. r\<lparr>riPublicBaseURL := v\<rparr>),
      requiredText m ''internal_base_url'' ''internal_base_url_required'' (\<lambda>v r. r\<lparr>riInternalBaseURL := v\<rparr>),
      requiredText m ''status'' ''status_required'' (\<lambda>v r. r\<lparr>riStatus := v\<rparr>),
      optionalText m ''encrypted_api_key'' (\<lambda>v r. r\<lparr>riEncryptedAPIKey := v\<rparr>),
      optionalText m ''health_status'' (\<lambda>v r. r\<lparr>riHealthStatus := v\<rparr>),
      timeField m ''last_health_check_at'' ''invalid_last_health_check_at'' (\<lambda>v r. r\<lparr>riLastHealthCheckAt := v\<rparr>),
      rawField m ''metadata'' (\<lambda>v r. r\<lparr>riMetadata := v\<rparr>)]"

definition UpdateRouterInstanceHandler :: "adminHandler \<Rightarrow> time \<Rightarrow> string \<Rightarrow> string \<Rightarrow> pg_state \<Rightarrow> pg_state \<times> RouterInstance adminReply" where
  "UpdateRouterInstanceHandler A now idText body = withID A idText ''invalid_router_instance_id'' (\<lambda>i s.
     patched (GetRouterInstanceByID i s) A (routerMembers A) body (UpdateInstance now) s)"

definition DeleteRouterInstanceHandler :: "adminHandler \<Rightarrow> string \<Rightarrow> pg_state \<Rightarrow> pg_state \<times> unit adminReply" where
  "DeleteRouterInstanceHandler A idText = withID A idText ''invalid_router_instance_id'' (\<lambda>i s. written A 200 (DeleteRouterInstance i s))"


section \<open>Usage\<close>

definition adminListAllUsage :: "pg_state \<Rightarrow> UsageLedgerEntry list adminReply" where
  "adminListAllUsage s = Inr (200, ListAllUsage 200 s)"

text \<open>\<^verbatim>\<open>n, _ := strconv.Atoi(t)\<close>: out of window gives the nearest number, no number gives zero.\<close>

definition atoiValue :: "string \<Rightarrow> int" where
  "atoiValue t = (case parseInt t of None \<Rightarrow> 0 | Some n \<Rightarrow> max (- (2 ^ 63)) (min (2 ^ 63 - 1) n))"

record logQuery =
  lqLimit :: string
  lqOffset :: string
  lqUserID :: string
  lqStatus :: string
  lqBillingMode :: string
  lqPublicModel :: string
  lqSearch :: string
  lqAPIKeyID :: string
  lqFrom :: string
  lqTo :: string

definition optionalTime :: "string \<Rightarrow> time" where
  "optionalTime t = (if t = [] then zeroTime else case parseRFC3339 t of Some x \<Rightarrow> x | None \<Rightarrow> zeroTime)"

definition logFilter :: "adminHandler \<Rightarrow> logQuery \<Rightarrow> UsageLogFilter" where
  "logFilter A q = \<lparr>lfUserID = lqUserID q, lfAPIKeyID = (if lqAPIKeyID q = [] then None else ahParse A (lqAPIKeyID q)), lfStatus = lqStatus q,
     lfBillingMode = lqBillingMode q, lfPublicModel = lqPublicModel q, lfSearch = lqSearch q, lfFrom = optionalTime (lqFrom q),
     lfTo = optionalTime (lqTo q),
     lfLimit = (let n = atoiValue (lqLimit q) in if n \<le> 0 then 50 else if n > 1000 then 1000 else n),
     lfOffset = max 0 (atoiValue (lqOffset q))\<rparr>"

text \<open>One row of the log: the entry, its key and the two labels of its metadata.\<close>

record logRow =
  lrEntry :: UsageLedgerEntry
  lrKey :: "APIKey option"
  lrPricingGroup :: "string option"
  lrPlanCode :: "string option"

definition metaLabel :: "string \<Rightarrow> UsageLedgerEntry \<Rightarrow> string option" where
  "metaLabel key row = (case ueMetadata row of
       Some (JObj m) \<Rightarrow> (case jget m key of Some (JStr t) \<Rightarrow> Some t | _ \<Rightarrow> None)
     | _ \<Rightarrow> None)"

definition logKey :: "UsageLedgerEntry \<Rightarrow> pg_state \<Rightarrow> APIKey option" where
  "logKey row s = (case ueAPIKeyID row of
       None \<Rightarrow> None
     | Some i \<Rightarrow> (case GetAPIKeyByID i s of Inr k \<Rightarrow> Some k | Inl _ \<Rightarrow> None))"

definition ListUsageLogsHandler :: "adminHandler \<Rightarrow> int option \<Rightarrow> logQuery \<Rightarrow> pg_state \<Rightarrow> (logRow list \<times> int \<times> int \<times> int) adminReply" where
  "ListUsageLogsHandler A estimate q s =
     (let f = logFilter A q in
      case ListUsageLogs estimate f s of
        Inl _ \<Rightarrow> Inl (respondError 500 ''list_logs_failed'')
      | Inr (rows, found) \<Rightarrow>
          Inr (200, (map (\<lambda>row. \<lparr>lrEntry = row, lrKey = logKey row s, lrPricingGroup = metaLabel ''pricing_group'' row,
                 lrPlanCode = metaLabel ''plan_code'' row\<rparr>) rows, found, lfLimit f, lfOffset f)))"

text \<open>The window of a dashboard.\<close>

definition rangeSince :: "time \<Rightarrow> string \<Rightarrow> time" where
  "rangeSince now window =
     (if window = ''1d'' then now - 24 * nsHour
      else if window = ''7d'' then now - 7 * 24 * nsHour
      else if window = ''90d'' then now - 90 * 24 * nsHour
      else if window = ''all'' then zeroTime
      else now - 30 * 24 * nsHour)"

record groupTotals =
  gtRequestCount :: int
  gtInputTokens :: int
  gtOutputTokens :: int
  gtTotalTokens :: int
  gtTotalCost :: string

definition wrapSum :: "('r \<Rightarrow> int) \<Rightarrow> 'r list \<Rightarrow> int" where
  "wrapSum f rows = foldl (\<lambda>a r. wrap64 (a + f r)) 0 rows"

definition floatSum :: "('r \<Rightarrow> string) \<Rightarrow> 'r list \<Rightarrow> float64" where
  "floatSum f rows = foldl (\<lambda>a r. case parseFloat (f r) of Some v \<Rightarrow> fadd a v | None \<Rightarrow> a) fzero rows"

definition totalsOf :: "UsageSummaryRow list \<Rightarrow> groupTotals" where
  "totalsOf rows = \<lparr>gtRequestCount = wrapSum usRequestCount rows, gtInputTokens = wrapSum usInputTokens rows, gtOutputTokens = wrapSum usOutputTokens rows,
     gtTotalTokens = wrapSum usTotalTokens rows, gtTotalCost = sprintfF 6 (floatSum usTotalCost rows)\<rparr>"

record groupPayload =
  gpPricingGroup :: string
  gpLabel :: string
  gpTotals :: groupTotals
  gpUsers :: "UsageSummaryRow list"

definition knownGroups :: "string list" where
  "knownGroups = [''unlimited'', ''unlimited_plan'', ''credit_package'', ''payg_topup'', ''unknown'']"

definition groupOf :: "UsageSummaryRow \<Rightarrow> string" where
  "groupOf row = (if usPricingGroup row \<in> set knownGroups then usPricingGroup row else ''unknown'')"

definition groupUsers :: "string \<Rightarrow> UsageSummaryRow list \<Rightarrow> UsageSummaryRow list" where
  "groupUsers g rows = filter (\<lambda>row. groupOf row = g) rows"

record dashboard =
  dbGrandTotals :: groupTotals
  dbGroups :: "groupPayload list"
  dbTotalBalance :: string
  dbTotalReserved :: string
  dbUserBalances :: "CreditBalanceRow list"

definition payloadOf :: "string \<Rightarrow> string \<Rightarrow> UsageSummaryRow list \<Rightarrow> groupPayload" where
  "payloadOf g label users = \<lparr>gpPricingGroup = g, gpLabel = label, gpTotals = totalsOf users, gpUsers = users\<rparr>"

definition ListUsageDashboard :: "time \<Rightarrow> string \<Rightarrow> usageDB \<Rightarrow> dashboard" where
  "ListUsageDashboard now window db =
     (let rows = ListUsageSummaryGrouped (rangeSince now window) db;
          sub = groupUsers ''unlimited_plan'' rows @ groupUsers ''unlimited'' rows;
          unknown = groupUsers ''unknown'' rows;
          balances = ListCreditBalances (fst db)
      in \<lparr>dbGrandTotals = totalsOf rows,
          dbGroups = [payloadOf ''unlimited_plan'' ''Subscription'' sub, payloadOf ''credit_package'' ''Credit'' (groupUsers ''credit_package'' rows),
             payloadOf ''payg_topup'' ''Pay-as-you-go'' (groupUsers ''payg_topup'' rows)]
             @ (if unknown = [] then [] else [payloadOf ''unknown'' ''Unknown'' unknown]),
          dbTotalBalance = sprintfF 4 (floatSum cbCreditBalance balances), dbTotalReserved = sprintfF 4 (floatSum cbCreditUsed balances),
          dbUserBalances = balances\<rparr>)"

record analytics =
  anSince :: time
  anBucket :: string
  anTimeseries :: "UsageTimeseriesPoint list"
  anTopModels :: "TopModelRow list"
  anBillingModes :: "BillingModeBreakdownRow list"
  anStatus :: "StatusBreakdownRow list"
  anErrorCodes :: "StatusBreakdownRow list"
  anProviders :: "ProviderStatsRow list"
  anLatency :: LatencyStats

definition topLimit :: "int \<Rightarrow> int \<Rightarrow> string \<Rightarrow> int" where
  "topLimit fallback maximum t = (case atoi t of Some n \<Rightarrow> if n > 0 \<and> n \<le> maximum then n else fallback | None \<Rightarrow> fallback)"

definition ListUsageAnalytics :: "(int \<Rightarrow> int \<Rightarrow> rat) \<Rightarrow> time \<Rightarrow> string \<Rightarrow> string \<Rightarrow> usageDB \<Rightarrow> analytics" where
  "ListUsageAnalytics avg now window limitText db =
     (let since = rangeSince now window; bucket = (if window = ''1d'' then ''hour'' else ''day''); limit = topLimit 10 50 limitText
      in \<lparr>anSince = since, anBucket = bucket, anTimeseries = ListUsageTimeseries since bucket db, anTopModels = ListTopModels since limit db,
          anBillingModes = ListBillingModeBreakdown since db, anStatus = ListStatusBreakdown since db,
          anErrorCodes = ListErrorCodeBreakdown since limit db, anProviders = ListProviderStats since db,
          anLatency = latencyStats avg since (fst db)\<rparr>)"


section \<open>The billing of a user\<close>

definition entitlementRowPricingGroup :: "CustomerEntitlement \<Rightarrow> string" where
  "entitlementRowPricingGroup row = (case cePricingGroup row of
       Some g \<Rightarrow> if g \<noteq> [] then g else (case ceMetadata row of Some (JObj m) \<Rightarrow> jgetStr m ''pricingGroup'' | _ \<Rightarrow> [])
     | None \<Rightarrow> (case ceMetadata row of Some (JObj m) \<Rightarrow> jgetStr m ''pricingGroup'' | _ \<Rightarrow> []))"

definition billingDetailIsSubscription :: "ActiveSubscription \<Rightarrow> bool" where
  "billingDetailIsSubscription sub =
     (let g = resolveSubscriptionPricingGroup (Some sub); h = (if g = [] then pricingGroup (Some sub) else g)
      in h \<noteq> ''credit_package'' \<and> h \<noteq> ''payg_topup'')"

text \<open>\<^verbatim>\<open>time.Duration.Hours\<close>, and the days until the end of the period, a partial day counted as one.\<close>

definition durHours :: "duration \<Rightarrow> float64" where
  "durHours d = (let h = truncDiv d nsHour in fadd (fOfInt h) (fdiv (fOfInt (d - h * nsHour)) (Fin 3600000000000)))"

definition daysRemaining :: "time \<Rightarrow> time \<Rightarrow> int" where
  "daysRemaining now end' =
     (let rem = end' - now; days = fToInt (fdiv (durHours rem) (Fin 24));
          up = (if rem > 0 \<and> rem mod (24 * nsHour) \<noteq> 0 then days + 1 else days)
      in if up < 0 then 0 else up)"

definition usableRPP :: "time \<Rightarrow> ActiveSubscription \<Rightarrow> int \<times> int" where
  "usableRPP now sub =
     (let baseRPP = plMaxRequestsPerPeriod (PlanLimitsFromSnapshot (asPlan sub));
          effective = wrap64 (baseRPP * periodRPPMultiplier now (Some sub));
          (flaggedDebt, debtRemaining, _) = resolveAbuseDebt (Some sub)
      in if flaggedDebt \<and> debtRemaining > 0 then
           let debtReserve = wrap64 (fToInt (fround (fmul (fOfInt baseRPP) (Fin (3 / 4)))) * periodRPPMultiplier now (Some sub));
               reserve = (if debtRemaining > debtReserve then debtReserve else debtRemaining);
               usable = wrap64 (effective - reserve)
           in (effective, if usable < 0 then 0 else usable)
         else (effective, effective))"

record subscriptionDetail =
  sdEntitlement :: CustomerEntitlement
  sdDaysRemaining :: "int option"
  sdLimits :: plan_limits
  sdEffectiveRPP :: int
  sdUsableRPP :: int
  sdQuotaTokensMonthly :: "int option"
  sdPlanName :: "string option"
  sdUsage :: subscriptionUsageSnapshot

record billingDetail =
  bdUserID :: string
  bdSubscription :: "subscriptionDetail option"
  bdCreditBalance :: string
  bdCreditExpiresAt :: "time option"
  bdPaygBalance :: string
  bdCreditToday :: "BillingModeUsageRow option"
  bdPaygToday :: "BillingModeUsageRow option"

definition subscriptionSection :: "'r customerHandler \<Rightarrow> time \<Rightarrow> string \<Rightarrow> 'r gwState \<Rightarrow> 'r gwState \<times> subscriptionDetail option" where
  "subscriptionSection H now userID st = (case CheckActiveSubscription (chEnt H) now userID st of
       (st1, Inl _) \<Rightarrow> (st1, None)
     | (st1, Inr sub) \<Rightarrow>
         (case asEntitlement sub of
            None \<Rightarrow> (st1, None)
          | Some ent \<Rightarrow>
              if \<not> billingDetailIsSubscription sub then (st1, None)
              else case collectSubscriptionUsageSnapshot (chRateLimit H) now (ListUsageByUser userID (fst st1)) (Some sub) userID st1 of
                (st2, snapshot) \<Rightarrow> (st2, Some \<lparr>sdEntitlement = ent, sdDaysRemaining = map_option (daysRemaining now) (cePeriodEnd ent),
                   sdLimits = PlanLimitsFromSnapshot (asPlan sub), sdEffectiveRPP = fst (usableRPP now sub), sdUsableRPP = snd (usableRPP now sub),
                   sdQuotaTokensMonthly = quotaLimitPtr (Some sub), sdPlanName = map_option spDisplayName (asPlan sub), sdUsage = snapshot\<rparr>)))"

text \<open>The last row of a group gives its balance; the rows of today are one per billing mode.\<close>

definition balanceSection :: "CustomerEntitlement list \<Rightarrow> string \<times> time option \<times> string" where
  "balanceSection rows = foldl (\<lambda>(credit, expires, payg) row.
       if entitlementRowPricingGroup row = ''credit_package'' then (orKeep (ceCreditBalance row) credit, ceCreditExpiresAt row, payg)
       else if entitlementRowPricingGroup row = ''payg_topup'' then (credit, expires, orKeep (cePaygUsdBalance row) payg)
       else (credit, expires, payg)) (''0'', None, ''0'') rows"

definition lastOf :: "string \<Rightarrow> BillingModeUsageRow list \<Rightarrow> BillingModeUsageRow option" where
  "lastOf mode rows = find (\<lambda>r. buBillingMode r = mode) (rev rows)"

definition UserBillingDetail :: "'r customerHandler \<Rightarrow> time \<Rightarrow> string \<Rightarrow> 'r gwState \<Rightarrow> 'r gwState \<times> billingDetail adminReply" where
  "UserBillingDetail H now userID st =
     (if userID = [] then (st, Inl (respondError 400 ''invalid_user_id''))
      else case subscriptionSection H now userID st of
        (st1, sub) \<Rightarrow>
          (case balanceSection (case ListActiveEntitlementsByUser now userID (fst st1) of Inr rows \<Rightarrow> rows | Inl _ \<Rightarrow> []) of
             (credit, expires, payg) \<Rightarrow>
               let today = ListUsageByBillingModeSince userID (startOfDay now) (fst st1)
               in (st1, Inr (200, \<lparr>bdUserID = userID, bdSubscription = sub, bdCreditBalance = credit, bdCreditExpiresAt = expires, bdPaygBalance = payg,
                    bdCreditToday = lastOf ''credit_package'' today, bdPaygToday = lastOf ''payg_topup'' today\<rparr>))))"

section \<open>Adjusting a counter\<close>

record adjustment =
  adCounter :: string
  adMode :: string
  adValue :: int

definition adjusted :: "adjustment \<Rightarrow> int \<Rightarrow> int" where
  "adjusted b current =
     (if adMode b = ''set'' then adValue b
      else if adMode b = ''add'' then wrap64 (current + adValue b)
      else if wrap64 (current - adValue b) < 0 then 0 else wrap64 (current - adValue b))"

text \<open>The value before and after.\<close>

definition adjustCounter :: "'r redis_api \<Rightarrow> string \<Rightarrow> time \<Rightarrow> string \<Rightarrow> CustomerEntitlement option \<Rightarrow> adjustment \<Rightarrow> 'r gwState
    \<Rightarrow> 'r gwState \<times> (int \<times> int) adminReply" where
  "adjustCounter R pfx now userID ent b st =
     (let pk = periodKey now ent; (start, end') = activePeriod now ent in
      if adCounter b = ''rpd'' then
        (case onRedis (GetPlanRPDCount R pfx now userID pk) st of (st1, previous) \<Rightarrow>
         (case onRedis (SetPlanRPD R pfx now userID pk (adjusted b previous)) st1 of
            (st2, Inl _) \<Rightarrow> (st2, Inl (respondError 500 ''failed_to_set_rpd''))
          | (st2, Inr _) \<Rightarrow> (st2, Inr (200, (previous, adjusted b previous)))))
      else if adCounter b = ''rpp'' then
        (let ttl = (if end' - now \<le> 0 then 24 * nsHour else end' - now) in
         case onRedis (GetRequestsPerPeriodCount R pfx userID pk) st of (st1, previous) \<Rightarrow>
         (case onRedis (SetRequestsPerPeriod R pfx userID pk ttl (adjusted b previous)) st1 of
            (st2, Inl _) \<Rightarrow> (st2, Inl (respondError 500 ''failed_to_set_rpp''))
          | (st2, Inr _) \<Rightarrow> (st2, Inr (200, (previous, adjusted b previous)))))
      else
        (let prevTokens = (case GetQuotaCounter userID start end' (fst st) of Inr (Some qc) \<Rightarrow> qcTokensUsed qc | _ \<Rightarrow> 0) in
         case SetQuotaTokensUsed now userID start end' (adjusted b prevTokens) (fst st) of
           (s1, Inl _) \<Rightarrow> ((s1, snd st), Inl (respondError 500 ''failed_to_set_tokens''))
         | (s1, Inr _) \<Rightarrow> ((s1, snd st), Inr (200, (prevTokens, adjusted b prevTokens)))))"

definition oneOf :: "string \<Rightarrow> string list \<Rightarrow> string" where
  "oneOf what names = what @ '' must be '' @ joinWith '', '' (map (\<lambda>n. [CHR 39] @ n @ [CHR 39]) (butlast names)) @ '', or '' @ [CHR 39] @ last names @ [CHR 39]"

definition AdjustUserUsage :: "'r customerHandler \<Rightarrow> time \<Rightarrow> string \<Rightarrow> adjustment option \<Rightarrow> 'r gwState \<Rightarrow> 'r gwState \<times> (int \<times> int) adminReply" where
  "AdjustUserUsage H now userID body st =
     (if userID = [] then (st, Inl (respondError 400 ''invalid_user_id''))
      else case chRateLimit H of
        None \<Rightarrow> (st, Inl (respondError 503 ''rate_limit_unavailable''))
      | Some (R, pfx) \<Rightarrow>
          (case body of
             None \<Rightarrow> (st, Inl (respondError 400 ''invalid_body''))
           | Some b \<Rightarrow>
               if adCounter b \<notin> set [''rpd'', ''rpp'', ''tokens''] then (st, Inl (respondError 400 (oneOf ''counter'' [''rpd'', ''rpp'', ''tokens''])))
               else if adMode b \<notin> set [''set'', ''add'', ''subtract''] then (st, Inl (respondError 400 (oneOf ''mode'' [''set'', ''add'', ''subtract''])))
               else if adValue b < 0 then (st, Inl (respondError 400 ''value must be >= 0''))
               else (case CheckActiveSubscription (chEnt H) now userID st of
                   (st1, Inl _) \<Rightarrow> (st1, Inl (respondError 404 ''no_active_subscription''))
                 | (st1, Inr sub) \<Rightarrow>
                     if asEntitlement sub = None \<or> asPlan sub = None \<or> \<not> billingDetailIsSubscription sub
                     then (st1, Inl (respondError 404 ''no_active_subscription''))
                     else adjustCounter R pfx now userID (asEntitlement sub) b st1)))"


section \<open>Lemmas\<close>

text \<open>The admin's figure for the usable requests of a period is the cap the gate computes.\<close>

lemma usableRPP_is_cap: "snd (usableRPP now sub) = fst (effectiveRPP now (Some sub) (PlanLimitsFromSnapshot (asPlan sub)))"
  by (simp add: usableRPP_def effectiveRPP_def Let_def split: prod.split)

lemma wrap64_add: "wrap64 (wrap64 a + b) = wrap64 (a + b)" "wrap64 (a + wrap64 b) = wrap64 (a + b)"
  by (simp_all add: wrap64_def mod_simps algebra_simps)

lemma wrapSum_total: "wrapSum f rows = wrap64 (total f rows)"
proof -
  have "foldl (\<lambda>a r. wrap64 (a + f r)) (wrap64 a) rows = wrap64 (a + total f rows)" for a
    by (induction rows arbitrary: a) (auto simp: wrap64_add add.assoc)
  from this [of 0] show ?thesis by (simp add: wrapSum_def wrap64_def)
qed

subsection \<open>An adjusted counter is enforced\<close>

context redis_server
begin

lemma set_counter:
  fixes k :: string and v :: int
  assumes "alive r" "0 \<le> d"
  defines "r' \<equiv> fst (redisSet R k (RInt v) d r)"
  shows "redisSet R k (RInt v) d r = (r', Inr ())" "counter r' k" "count r' k = v" "alive r'" "j \<noteq> k \<Longrightarrow> view r' j = view r j"
  using set_reply [OF assms(1,2), of k "RInt v"] set_view [OF assms(1,2), of k "RInt v"] set_alive [OF assms(1), of k "RInt v" d]
  by (auto simp: r'_def prod_eq_iff isCounter_def cntVal_def)

lemma getInt_state: "alive r \<Longrightarrow> fst (getInt R k r) = r"
  by (simp add: getInt_def get_reply split: option.split)

end

lemma adjustCounter_rpd:
  assumes "redis_server R alive view" "alive r" "adCounter b = ''rpd''" "userID \<noteq> []"
    and "adjustCounter R pfx now userID (Some ent) b (s, r) = (st', Inr (c, previous, new))"
  shows "st' = (s, fst (redisSet R (planDayKey pfx userID (periodKey now (Some ent)) now) (RInt (max 0 new)) (25 * nsHour) r))"
  using assms periodKey_nonempty [of now ent] redis_server.getInt_state [OF assms(1,2)]
  by (auto simp: adjustCounter_def GetPlanRPDCount_def SetPlanRPD_def onRedis_def Let_def max_def prod_eq_iff
      split: prod.splits sum.splits if_splits)

lemma adjustCounter_rpp:
  assumes "redis_server R alive view" "alive r" "adCounter b = ''rpp''" "userID \<noteq> []"
    and "adjustCounter R pfx now userID (Some ent) b (s, r) = (st', Inr (c, previous, new))"
  shows "\<exists>ttl > 0. st' = (s, fst (redisSet R (planPeriodKey pfx userID (periodKey now (Some ent))) (RInt (max 0 new)) ttl r))"
proof -
  define ttl where "ttl = (let e = snd (activePeriod now (Some ent)) in if e - now \<le> 0 then 24 * nsHour else e - now)"
  have "0 < ttl" by (simp add: ttl_def Let_def time_defs)
  moreover have "st' = (s, fst (redisSet R (planPeriodKey pfx userID (periodKey now (Some ent))) (RInt (max 0 new)) ttl r))"
    using assms periodKey_nonempty [of now ent] redis_server.getInt_state [OF assms(1,2)]
    by (auto simp: adjustCounter_def GetRequestsPerPeriodCount_def SetRequestsPerPeriod_def onRedis_def Let_def max_def prod_eq_iff ttl_def
        split: prod.splits sum.splits if_splits)
  ultimately show ?thesis by blast
qed



subsection \<open>The groups of the dashboard\<close>

lemma groupOf_known: "groupOf row \<in> set knownGroups"
  by (simp add: groupOf_def knownGroups_def)

definition dashboardUsers :: "UsageSummaryRow list \<Rightarrow> UsageSummaryRow list" where
  "dashboardUsers rows = concat (map (\<lambda>g. groupUsers g rows) [''unlimited_plan'', ''unlimited'', ''credit_package'', ''payg_topup'', ''unknown''])"

lemma dashboardUsers_mset: "mset (dashboardUsers rows) = mset rows"
proof (induction rows)
  case Nil
  then show ?case by (simp add: dashboardUsers_def groupUsers_def)
next
  case (Cons row rows)
  show ?case using Cons groupOf_known [of row] by (auto simp: dashboardUsers_def groupUsers_def knownGroups_def)
qed

lemma groups_total: "wrap64 (total (\<lambda>g. wrapSum f (gpUsers g)) groups) = wrap64 (total f (concat (map gpUsers groups)))"
proof (induction groups)
  case Nil
  then show ?case by simp
next
  case (Cons g groups)
  show ?case using Cons by (simp add: wrapSum_total wrap64_add) (metis wrap64_add(2))
qed

text \<open>
  The dashboard loses no one and counts no one twice: the users listed under the groups of the dashboard are, each once, the rows of
  the usage summary, whatever pricing group a row names, and the requests and tokens of the groups add up to the grand totals in 64-bit
  arithmetic.
\<close>

theorem dashboard_groups_add_up:
  "mset (concat (map gpUsers (dbGroups (ListUsageDashboard now window db)))) = mset (ListUsageSummaryGrouped (rangeSince now window) db)
   \<and> wrap64 (total (gtRequestCount \<circ> gpTotals) (dbGroups (ListUsageDashboard now window db)))
     = gtRequestCount (dbGrandTotals (ListUsageDashboard now window db))
   \<and> wrap64 (total (gtTotalTokens \<circ> gpTotals) (dbGroups (ListUsageDashboard now window db)))
     = gtTotalTokens (dbGrandTotals (ListUsageDashboard now window db))"
proof -
  define rows where "rows = ListUsageSummaryGrouped (rangeSince now window) db"
  define groups where "groups = dbGroups (ListUsageDashboard now window db)"
  have users: "concat (map gpUsers groups) = dashboardUsers rows"
    by (simp add: groups_def rows_def ListUsageDashboard_def dashboardUsers_def payloadOf_def Let_def)
  have own: "gpTotals g = totalsOf (gpUsers g)" if "g \<in> set groups" for g
    using that by (auto simp: groups_def ListUsageDashboard_def payloadOf_def Let_def split: if_splits)
  have add: "wrap64 (total (\<lambda>g. wrapSum f (gpUsers g)) groups) = wrapSum f rows" for f
    using groups_total [of f groups] total_mset [OF dashboardUsers_mset, of f rows] by (simp add: users wrapSum_total)
  have "map (gtRequestCount \<circ> gpTotals) groups = map (\<lambda>g. wrapSum usRequestCount (gpUsers g)) groups"
    "map (gtTotalTokens \<circ> gpTotals) groups = map (\<lambda>g. wrapSum usTotalTokens (gpUsers g)) groups"
    by (auto simp: own totalsOf_def)
  then have "total (gtRequestCount \<circ> gpTotals) groups = total (\<lambda>g. wrapSum usRequestCount (gpUsers g)) groups"
    "total (gtTotalTokens \<circ> gpTotals) groups = total (\<lambda>g. wrapSum usTotalTokens (gpUsers g)) groups"
    by (metis total_def)+
  moreover have "dbGrandTotals (ListUsageDashboard now window db) = totalsOf rows"
    by (simp add: ListUsageDashboard_def rows_def Let_def)
  ultimately show ?thesis
    using add users dashboardUsers_mset [of rows] unfolding groups_def [symmetric] rows_def [symmetric] by (simp add: totalsOf_def)
qed

subsection \<open>A partial update of a price\<close>

lemma optionalText_value:
  "optionalText m key upd row = Inr (case jget m key of None \<Rightarrow> row | Some (JStr t) \<Rightarrow> upd (Some t) row | Some _ \<Rightarrow> upd None row)"
  by (simp add: optionalText_def patchHasField_def patchDecodeOptionalString_def split: option.split json.split)

lemma requiredText_value:
  "requiredText m key code upd row = (case jget m key of
     Some JNull \<Rightarrow> Inl code | Some (JStr t) \<Rightarrow> Inr (upd t row) | _ \<Rightarrow> Inr row)"
  by (simp add: requiredText_def patchDecodeOptionalString_def split: option.split json.split)

lemma patchWith_step: "patchWith (f # fs) row = Inr row' \<longleftrightarrow> (\<exists>row1. f row = Inr row1 \<and> patchWith fs row1 = Inr row')"
  by (auto split: sum.splits)

lemma uuidField_keeps: "uuidField A m key code upd row = Inr row' \<Longrightarrow> (\<And>v r. g (upd v r) = g r) \<Longrightarrow> g row' = g row"
  by (auto simp: uuidField_def split: option.splits json.splits)

lemma boolField_keeps: "boolField m key code upd row = Inr row' \<Longrightarrow> (\<And>v r. g (upd v r) = g r) \<Longrightarrow> g row' = g row"
  by (auto simp: boolField_def split: option.splits json.splits)

lemma requiredText_keeps: "requiredText m key code upd row = Inr row' \<Longrightarrow> (\<And>v r. g (upd v r) = g r) \<Longrightarrow> g row' = g row"
  by (auto simp: requiredText_value split: option.splits json.splits)

lemma optionalText_keeps: "optionalText m key upd row = Inr row' \<Longrightarrow> (\<And>v r. g (upd v r) = g r) \<Longrightarrow> g row' = g row"
  by (auto simp: optionalText_value split: option.splits json.splits)

definition patchedCached :: "jobject \<Rightarrow> AIModelPrice \<Rightarrow> string option" where
  "patchedCached m row = (case jget m ''cached_price_per_1m'' of None \<Rightarrow> apCachedPricePer1M row | Some (JStr t) \<Rightarrow> Some t | Some _ \<Rightarrow> None)"

definition patchedInput :: "jobject \<Rightarrow> AIModelPrice \<Rightarrow> string" where
  "patchedInput m row = (case jget m ''input_price_per_1m'' of Some (JStr t) \<Rightarrow> t | _ \<Rightarrow> apInputPricePer1M row)"

lemma priceMembers_patch:
  assumes "patchWith (priceMembers A m) row = Inr row'"
  shows "apCachedPricePer1M row' = patchedCached m row \<and> apInputPricePer1M row' = patchedInput m row \<and> apID row' = apID row"
proof -
  obtain r1 r2 r3 r4 r5 r6 where
    1: "uuidField A m ''model_id'' ''invalid_model_id'' (\<lambda>v r. r\<lparr>apModelID := v\<rparr>) row = Inr r1"
    and 2: "requiredText m ''input_price_per_1m'' ''input_price_per_1m_required'' (\<lambda>v r. r\<lparr>apInputPricePer1M := v\<rparr>) r1 = Inr r2"
    and 3: "requiredText m ''output_price_per_1m'' ''output_price_per_1m_required'' (\<lambda>v r. r\<lparr>apOutputPricePer1M := v\<rparr>) r2 = Inr r3"
    and 4: "optionalText m ''cached_price_per_1m'' (\<lambda>v r. r\<lparr>apCachedPricePer1M := v\<rparr>) r3 = Inr r4"
    and 5: "optionalText m ''reasoning_price_per_1m'' (\<lambda>v r. r\<lparr>apReasoningPricePer1M := v\<rparr>) r4 = Inr r5"
    and 6: "requiredText m ''currency'' ''currency_required'' (\<lambda>v r. r\<lparr>apCurrency := v\<rparr>) r5 = Inr r6"
    and 7: "boolField m ''active'' ''invalid_active'' (\<lambda>v r. r\<lparr>apActive := v\<rparr>) r6 = Inr row'"
    using assms unfolding priceMembers_def by (auto simp only: patchWith_step patchWith.simps(1) sum.inject)
  note before = uuidField_keeps [OF 1, of apCachedPricePer1M] uuidField_keeps [OF 1, of apInputPricePer1M] uuidField_keeps [OF 1, of apID]
    requiredText_keeps [OF 2, of apCachedPricePer1M] requiredText_keeps [OF 2, of apID]
    requiredText_keeps [OF 3, of apCachedPricePer1M] requiredText_keeps [OF 3, of apInputPricePer1M] requiredText_keeps [OF 3, of apID]
  note after = optionalText_keeps [OF 4, of apInputPricePer1M] optionalText_keeps [OF 4, of apID]
    optionalText_keeps [OF 5, of apCachedPricePer1M] optionalText_keeps [OF 5, of apInputPricePer1M] optionalText_keeps [OF 5, of apID]
    requiredText_keeps [OF 6, of apCachedPricePer1M] requiredText_keeps [OF 6, of apInputPricePer1M] requiredText_keeps [OF 6, of apID]
    boolField_keeps [OF 7, of apCachedPricePer1M] boolField_keeps [OF 7, of apInputPricePer1M] boolField_keeps [OF 7, of apID]
  have "apInputPricePer1M r2 = patchedInput m r1"
    using 2 by (auto simp: requiredText_value patchedInput_def split: option.splits json.splits)
  moreover have "apCachedPricePer1M r4 = patchedCached m r3"
    using 4 by (auto simp: optionalText_value patchedCached_def split: option.splits json.splits)
  ultimately show ?thesis using before after by (simp add: patchedInput_def patchedCached_def split: option.split json.split)
qed


definition samplePrices :: pg_state where
  "samplePrices = sampleCatalog\<lparr>pgPrices := [\<lparr>apID = 5, apModelID = 2, apInputPricePer1M = fixedText 6 3, apOutputPricePer1M = fixedText 6 15,
     apCachedPricePer1M = Some (fixedText 6 1), apReasoningPricePer1M = None, apCurrency = ''USD'', apActive = True, apCreatedAt = 0\<rparr>]\<rparr>"

definition sampleAdmin :: adminHandler where
  "sampleAdmin = \<lparr>ahParse = (\<lambda>_. Some 5), ahCode = (\<lambda>_. None)\<rparr>"

definition samplePatch :: string where
  "samplePatch = ''{'' @ [CHR 34] @ ''cached_price_per_1m'' @ [CHR 34] @ '': 2}''"


end
