(* ===== verification/Operations.thy ===== *)
theory Operations
  imports Upstream Admin
begin

text \<open>
  The endpoints of operations: what the billing application pushes and pulls (\<^verbatim>\<open>sync_handler.go\<close>), the table of PAYG top-up rates, the
  monitoring of upstream accounts and providers (\<^verbatim>\<open>monitoring_handler.go\<close>), the router proxy and the health check.  A payload that
  is decoded into structs is an argument, \<open>None\<close> when the decoder fails; the order in which Go ranges over a map and in which
  goroutines run are arguments.  The lemmas show that the provider figures add up in any order, that the fan-out of quota
  lookups is a map, and what a batch of rates leaves behind.
\<close>

section \<open>PAYG top-up rates\<close>

record PaygTopupRate =
  ptID :: uuid
  ptCode :: string
  ptDisplayName :: string
  ptUsdAmount :: string
  ptPriceIdr :: string
  ptRateUsdIdr :: string
  ptStatus :: string
  ptSortOrder :: int
  ptValidFrom :: "time option"
  ptValidUntil :: "time option"
  ptIsPromo :: bool
  ptMetadata :: raw_json
  ptSyncedAt :: time
  ptCreatedAt :: time
  ptUpdatedAt :: time

type_synonym rateDB = "pg_state \<times> PaygTopupRate list"

definition ratesOk :: "PaygTopupRate list \<Rightarrow> bool" where
  "ratesOk rows \<longleftrightarrow> distinct (map ptID rows) \<and> distinct (map ptCode rows)"

text \<open>The three numeric columns, which the table wants positive.\<close>

definition rateNumbers :: "PaygTopupRate \<Rightarrow> (gerror + rat \<times> rat \<times> rat)" where
  "rateNumbers rate = (case (parseDecimal (ptUsdAmount rate), parseDecimal (ptPriceIdr rate), parseDecimal (ptRateUsdIdr rate)) of
       (Some u, Some p, Some r) \<Rightarrow>
         if toScale 2 u > 0 \<and> toScale 2 p > 0 \<and> toScale 4 r > 0 then Inr (toScale 2 u, toScale 2 p, toScale 4 r) else Inl constraintError
     | _ \<Rightarrow> Inl (ErrText ''invalid input syntax for type numeric''))"

definition rateRow :: "uuid \<Rightarrow> time \<Rightarrow> PaygTopupRate \<Rightarrow> rat \<times> rat \<times> rat \<Rightarrow> PaygTopupRate" where
  "rateRow fresh now rate = (\<lambda>(u, p, r). rate\<lparr>ptID := fresh, ptUsdAmount := fixedText 2 u, ptPriceIdr := fixedText 2 p, ptRateUsdIdr := fixedText 4 r,
     ptValidFrom := map_option pgTs (ptValidFrom rate), ptValidUntil := map_option pgTs (ptValidUntil rate),
     ptMetadata := rawJSON (ptMetadata rate), ptSyncedAt := now, ptCreatedAt := now, ptUpdatedAt := now\<rparr>)"

definition UpsertPaygTopupRate :: "uuid \<Rightarrow> time \<Rightarrow> PaygTopupRate \<Rightarrow> rateDB \<Rightarrow> rateDB \<times> PaygTopupRate result" where
  "UpsertPaygTopupRate fresh now rate = (\<lambda>(s, rows).
     case pgFault s of
       Some e \<Rightarrow> ((s, rows), Inl e)
     | None \<Rightarrow>
         (case rateNumbers rate of
            Inl e \<Rightarrow> ((s, rows), Inl e)
          | Inr numbers \<Rightarrow>
              (case upsertBy (\<lambda>r. ptCode r = ptCode rate) (rateRow fresh now rate numbers)
                  (\<lambda>r. (rateRow fresh now rate numbers)\<lparr>ptID := ptID r, ptCreatedAt := ptCreatedAt r\<rparr>) ratesOk rows of
                 None \<Rightarrow> ((s, rows), Inl constraintError)
               | Some (rows1, saved) \<Rightarrow> ((s, rows1), Inr saved))))"

text \<open>An absent rate is no error: the source returns a nil pointer.\<close>

definition GetPaygTopupRate :: "string \<Rightarrow> rateDB \<Rightarrow> PaygTopupRate option result" where
  "GetPaygTopupRate code = (\<lambda>(s, rows). case pgFault s of Some e \<Rightarrow> Inl e | None \<Rightarrow> Inr (find (\<lambda>r. ptCode r = code) rows))"

definition ListPaygTopupRates :: "rateDB \<Rightarrow> PaygTopupRate list" where
  "ListPaygTopupRates = (\<lambda>(s, rows). if pgFault s \<noteq> None then [] else sort_key ptSortOrder (sort_key ptCode rows))"

fun SyncPaygTopupRates :: "time \<Rightarrow> (PaygTopupRate \<times> uuid) list \<Rightarrow> int \<Rightarrow> rateDB \<Rightarrow> rateDB \<times> int \<times> unit result" where
  "SyncPaygTopupRates now [] synced db = (db, synced, Inr ())"
| "SyncPaygTopupRates now ((item, fresh) # payload) synced db =
     (if ptCode item = [] then (db, synced, Inl (ErrText ''code required''))
      else (case UpsertPaygTopupRate fresh now item db of
              (db1, Inl e) \<Rightarrow> (db1, synced, Inl e)
            | (db1, Inr _) \<Rightarrow> SyncPaygTopupRates now payload (synced + 1) db1))"

section \<open>The synchronisation endpoints\<close>

text \<open>A body that does not decode, and the answer to a batch.\<close>

definition decoded :: "'p option \<Rightarrow> ('p \<Rightarrow> 's \<Rightarrow> 's \<times> 'a adminReply) \<Rightarrow> 's \<Rightarrow> 's \<times> 'a adminReply" where
  "decoded payload k s = (case payload of None \<Rightarrow> (s, Inl (respondError 400 ''invalid_json'')) | Some p \<Rightarrow> k p s)"

definition batchReply :: "'s \<times> int \<times> unit result \<Rightarrow> 's \<times> int adminReply" where
  "batchReply out = (case out of
       (s, _, Inl e) \<Rightarrow> (s, Inl (respondError 400 (errorText e)))
     | (s, synced, Inr _) \<Rightarrow> (s, Inr (200, synced)))"

definition SyncSubscriptionPlansHandler :: "(float64 \<Rightarrow> rat option) \<Rightarrow> time \<Rightarrow> (SubscriptionPlanSnapshot \<times> uuid) list option \<Rightarrow> pg_state
    \<Rightarrow> pg_state \<times> int adminReply" where
  "SyncSubscriptionPlansHandler N now payload = decoded payload (\<lambda>p s. batchReply (SyncSubscriptionPlans N now p 0 s))"

definition SyncCustomerEntitlementsHandler :: "'r syncService \<Rightarrow> time \<Rightarrow> (CustomerEntitlement \<times> uuid) list option \<Rightarrow> 'r gwState
    \<Rightarrow> 'r gwState \<times> (int \<times> EntitlementSyncFailure list) adminReply" where
  "SyncCustomerEntitlementsHandler S now payload = decoded payload (\<lambda>p st. case SyncCustomerEntitlements S now p st of
     (st1, synced, failures) \<Rightarrow> (st1, Inr (200, (synced, failures))))"

record balanceSyncPayload =
  bsUserID :: string
  bsBalance :: string
  bsPaygBalance :: "string option"
  bsCreditExpiresAt :: "string option"

definition SyncCustomerBalanceHandler :: "time \<Rightarrow> balanceSyncPayload option \<Rightarrow> pg_state \<Rightarrow> pg_state \<times> unit adminReply" where
  "SyncCustomerBalanceHandler now payload = decoded payload (\<lambda>p s.
     if bsUserID p = [] then (s, Inl (respondError 400 ''invalid_user_id''))
     else (let put = (\<lambda>expires. case SyncCustomerBalance now (bsUserID p) (bsBalance p) (bsPaygBalance p) expires s of
                 (s1, Inl _) \<Rightarrow> (s1, Inl (respondError 404 ''subscription_not_found''))
               | (s1, Inr _) \<Rightarrow> (s1, Inr (200, ())))
           in case bsCreditExpiresAt p of
                None \<Rightarrow> put None
              | Some t \<Rightarrow> if t = [] then put None
                         else (case parseRFC3339 t of None \<Rightarrow> (s, Inl (respondError 400 ''invalid_credit_expires_at'')) | Some e \<Rightarrow> put (Some e))))"

record replayQuery =
  rqUserID :: string
  rqSince :: string
  rqLimit :: string
  rqDryRun :: string

definition positiveAtoi :: "int \<Rightarrow> string \<Rightarrow> int option" where
  "positiveAtoi fallback raw = (if raw = [] then Some fallback else case atoi raw of Some n \<Rightarrow> if n \<le> 0 then None else Some n | None \<Rightarrow> None)"

definition ReplayUsageDebitsHandler :: "'w peer \<Rightarrow> GenfityCallback option \<Rightarrow> replayQuery \<Rightarrow> pg_state \<times> 'w \<Rightarrow> 'w \<times> ReplayUsageDebitsResult adminReply" where
  "ReplayUsageDebitsHandler P cb q sw =
     (case (if rqSince q = [] then Some zeroTime else parseRFC3339 (rqSince q)) of
        None \<Rightarrow> (snd sw, Inl (respondError 400 ''invalid_since''))
      | Some since \<Rightarrow>
          (case positiveAtoi 500 (rqLimit q) of
             None \<Rightarrow> (snd sw, Inl (respondError 400 ''invalid_limit''))
           | Some limit \<Rightarrow>
               (case ReplayUsageDebits P cb \<lparr>riUserID = rqUserID q, riSince = since, riLimit = limit, riDryRun = (rqDryRun q = ''true'')\<rparr> sw of
                  (w, Inl e) \<Rightarrow> (w, Inl (respondError 400 (errorText e)))
                | (w, Inr r) \<Rightarrow> (w, Inr (200, r)))))"

definition RollupUsage :: "time \<Rightarrow> string \<Rightarrow> string \<Rightarrow> usageDB \<Rightarrow> usageDB \<times> UsageRollupResult adminReply" where
  "RollupUsage now retentionText dryRunText db =
     (case positiveAtoi 7 retentionText of
        None \<Rightarrow> (db, Inl (respondError 400 ''invalid_retention_days''))
      | Some days \<Rightarrow>
          (case RollupAndPruneUsage now days (dryRunText = ''true'') db of
             (db1, Inl e) \<Rightarrow> (db1, Inl (respondError 500 (errorText e)))
           | (db1, Inr r) \<Rightarrow> (db1, Inr (200, r))))"

definition SyncModelCreditCostsHandler :: "time \<Rightarrow> (ModelCreditCost \<times> uuid) list option \<Rightarrow> pg_state \<Rightarrow> pg_state \<times> int adminReply" where
  "SyncModelCreditCostsHandler now payload = decoded payload (\<lambda>p s. batchReply (SyncModelCreditCosts now p 0 s))"

definition SyncModelsHandler :: "time \<Rightarrow> (ModelSyncItem \<times> freshIds) list option \<Rightarrow> pg_state \<Rightarrow> pg_state \<times> int adminReply" where
  "SyncModelsHandler now payload = decoded payload (\<lambda>p s. batchReply (SyncModels now p s))"

definition SyncPaygTopupRatesHandler :: "time \<Rightarrow> (PaygTopupRate \<times> uuid) list option \<Rightarrow> rateDB \<Rightarrow> rateDB \<times> int adminReply" where
  "SyncPaygTopupRatesHandler now payload = decoded payload (\<lambda>p db. batchReply (SyncPaygTopupRates now p 0 db))"

definition ExportPlans :: "pg_state \<Rightarrow> SubscriptionPlanSnapshot list adminReply" where
  "ExportPlans s = Inr (200, ListPlans s)"

definition ExportModels :: "pg_state \<Rightarrow> AIModel list adminReply" where
  "ExportModels s = Inr (200, ListModels s)"

definition ExportModelPrices :: "pg_state \<Rightarrow> AIModelPrice list adminReply" where
  "ExportModelPrices s = Inr (200, ListPrices s)"

definition ExportUsageSummary :: "string \<Rightarrow> pg_state \<Rightarrow> usageSummary adminReply" where
  "ExportUsageSummary userID s = (if userID = [] then Inl (respondError 400 ''invalid_user_id'') else Inr (200, SummaryByUser userID s))"

text \<open>
  \<^verbatim>\<open>json.Unmarshal\<close> into a struct with one list of structs with one text: a name matches without regard to case and of several that match
  the last one counts, a null clears a list and leaves a text, another type is an error.
\<close>

fun idField :: "jobject \<Rightarrow> string \<Rightarrow> string option" where
  "idField [] t = Some t"
| "idField ((k, v) # m) t =
     (if toLower k \<noteq> ''id'' then idField m t
      else (case v of JStr u \<Rightarrow> idField m u | JNull \<Rightarrow> idField m t | _ \<Rightarrow> None))"

definition idElement :: "json \<Rightarrow> string option" where
  "idElement v = (case v of JObj m \<Rightarrow> idField m [] | JNull \<Rightarrow> Some [] | _ \<Rightarrow> None)"

fun dataField :: "jobject \<Rightarrow> string list \<Rightarrow> string list option" where
  "dataField [] ids = Some ids"
| "dataField ((k, v) # m) ids =
     (if toLower k \<noteq> ''data'' then dataField m ids
      else (case v of
              JArr items \<Rightarrow> (case those (map idElement items) of None \<Rightarrow> None | Some new \<Rightarrow> dataField m new)
            | JNull \<Rightarrow> dataField m []
            | _ \<Rightarrow> None))"

record 'w syncEndpoint =
  seTransport :: "'w transport"
  seProxyURL :: string
  seProxyKey :: string

definition ExportCliproxyModels :: "'w syncEndpoint \<Rightarrow> 'w \<Rightarrow> 'w \<times> string list adminReply" where
  "ExportCliproxyModels H w =
     (let url = seProxyURL H @ ''/v1/models'' in
      if seProxyURL H = [] then (w, Inr (200, []))
      else if trBadURL (seTransport H) url \<noteq> None then (w, Inl (respondError 500 ''cliproxy_request_failed''))
      else (case trDo (seTransport H) \<lparr>ouMethod = ''GET'', ouURL = url,
                ouHeaders = (if seProxyKey H \<noteq> [] then [(''Authorization'', ''Bearer '' @ seProxyKey H)] else []), ouBody = None\<rparr> w of
              (w1, Inl _) \<Rightarrow> (w1, Inl (respondError 502 ''cliproxy_unreachable''))
            | (w1, Inr (status, body)) \<Rightarrow>
                if status \<noteq> 200 then (w1, Inl (respondError 502 ''cliproxy_error''))
                else (case unmarshalObject body of
                        None \<Rightarrow> (w1, Inl (respondError 502 ''cliproxy_invalid_response''))
                      | Some m \<Rightarrow>
                          (case dataField m [] of
                             None \<Rightarrow> (w1, Inl (respondError 502 ''cliproxy_invalid_response''))
                           | Some ids \<Rightarrow> (w1, Inr (200, ids))))))"

section \<open>Monitoring\<close>

text \<open>The text of an error; those of the JSON package are an argument.\<close>

definition clientErrorText :: "(clientError \<Rightarrow> string) \<Rightarrow> clientError \<Rightarrow> string" where
  "clientErrorText D e = (case e of
       MarshalFailed \<Rightarrow> D e | BadURL t \<Rightarrow> t | CallError t \<Rightarrow> t | ContextEnded t \<Rightarrow> t | ClientText t \<Rightarrow> t | DecodeFailed \<Rightarrow> D e)"

record 'w monitoringHandler =
  moTransport :: "'w transport"
  moClient :: CLIProxyClient
  moErrors :: "clientError \<Rightarrow> string"

definition managementFailure :: "'w monitoringHandler \<Rightarrow> clientError \<Rightarrow> reply" where
  "managementFailure H e =
     (let t = clientErrorText (moErrors H) e in
      if t = ''management_key_not_configured'' then respondError 503 ''AI_ROUTER_CORE2_MANAGEMENT_KEY not configured''
      else respondError 502 t)"

definition managementReply :: "'w monitoringHandler \<Rightarrow> 'w \<times> (clientError + jobject) \<Rightarrow> 'w \<times> reply" where
  "managementReply H out = (case out of
       (w, Inl e) \<Rightarrow> (w, managementFailure H e)
     | (w, Inr m) \<Rightarrow> (w, respondJSON 200 m))"

definition ListOAuthAccounts :: "'w monitoringHandler \<Rightarrow> 'w \<Rightarrow> 'w \<times> reply" where
  "ListOAuthAccounts H w = managementReply H (ListAuthFiles (moTransport H) (moClient H) w)"

definition githubProvider :: "string \<Rightarrow> bool" where
  "githubProvider p \<longleftrightarrow> p \<in> set [''github'', ''github-copilot'', ''copilot'']"

definition accountQuota :: "'w monitoringHandler \<Rightarrow> string \<Rightarrow> string \<Rightarrow> 'w \<Rightarrow> 'w \<times> (clientError + jobject)" where
  "accountQuota H provider authIndex =
     (if githubProvider provider then GetGithubQuota (moTransport H) (moClient H) authIndex
      else GetKiroQuota (moTransport H) (moClient H) authIndex)"

definition GetOAuthAccountQuota :: "'w monitoringHandler \<Rightarrow> string \<Rightarrow> string \<Rightarrow> 'w \<Rightarrow> 'w \<times> reply" where
  "GetOAuthAccountQuota H authIndex provider w =
     (if authIndex = [] then (w, respondError 400 ''missing auth_index'')
      else if provider = [] then (w, respondError 400 ''missing provider'')
      else if \<not> githubProvider provider \<and> provider \<noteq> ''kiro''
      then (w, respondJSON 501 [(''error'', JStr ''quota_not_supported''), (''message'', JStr ''Quota endpoint not available for provider''),
             (''provider'', JStr provider)])
      else managementReply H (accountQuota H provider authIndex w))"

subsection \<open>Provider figures\<close>

definition providerName :: "string \<Rightarrow> string" where
  "providerName pre = (case map_of [(''mtr'', ''OpenAI/Anthropic/Google (direct)''), (''cc'', ''Claude Code (Anthropic OAuth)''),
       (''kr'', ''Kiro (AWS Bedrock)''), (''xm'', ''Extra Router''), (''tc'', ''Token Cycle''), (''free'', ''Free Tier''),
       (''gen'', ''Test/Generic''), (''genfity'', ''Genfity Combo'')] pre of Some name \<Rightarrow> name | None \<Rightarrow> pre)"

text \<open>The buckets by name, in the order they were made; \<open>iter\<close> is the order in which the map is read.\<close>

definition addRow :: "ProviderStatsRow list \<Rightarrow> ProviderStatsRow \<Rightarrow> ProviderStatsRow list" where
  "addRow buckets row =
     (let name = providerName (psPrefix row) in
      if name \<in> set (map psPrefix buckets)
      then map (\<lambda>b. if psPrefix b = name
             then b\<lparr>psTotalCount := wrap64 (psTotalCount b + psTotalCount row), psSuccessCount := wrap64 (psSuccessCount b + psSuccessCount row),
                    psErrorCount := wrap64 (psErrorCount b + psErrorCount row)\<rparr>
             else b) buckets
      else buckets @ [row\<lparr>psPrefix := name\<rparr>])"

definition mapPrefixesToProviders :: "(ProviderStatsRow list \<Rightarrow> ProviderStatsRow list) \<Rightarrow> ProviderStatsRow list \<Rightarrow> ProviderStatsRow list" where
  "mapPrefixesToProviders iter rows = iter (foldl addRow [] rows)"

record providerStats =
  pvSince :: time
  pvTotalRequests :: int
  pvTotalSuccess :: int
  pvTotalErrors :: int
  pvByPrefix :: "ProviderStatsRow list"
  pvByProvider :: "ProviderStatsRow list"

definition GetProviderStats :: "(ProviderStatsRow list \<Rightarrow> ProviderStatsRow list) \<Rightarrow> time \<Rightarrow> string \<Rightarrow> usageDB \<Rightarrow> providerStats" where
  "GetProviderStats iter now window db =
     (let since = (if window = ''1h'' then now - nsHour else now - 24 * nsHour); rows = ListProviderStats since db
      in \<lparr>pvSince = since, pvTotalRequests = wrapSum psTotalCount rows, pvTotalSuccess = wrapSum psSuccessCount rows,
          pvTotalErrors = wrapSum psErrorCount rows, pvByPrefix = rows, pvByProvider = mapPrefixesToProviders iter rows\<rparr>)"

definition resolveStatsWindow :: "time \<Rightarrow> string \<Rightarrow> time" where
  "resolveStatsWindow now window =
     (if window = ''1h'' then now - nsHour
      else if window = ''7d'' then now - 7 * 24 * nsHour
      else if window = ''30d'' then now - 30 * 24 * nsHour
      else now - 24 * nsHour)"

record prefixDetail =
  pdPrefix :: string
  pdSince :: time
  pdTimeseries :: "PrefixHourlyPoint list"
  pdByModel :: "PrefixModelRow list"
  pdErrorCodes :: "StatusBreakdownRow list"

definition GetProviderStatsDetail :: "time \<Rightarrow> string \<Rightarrow> string \<Rightarrow> string \<Rightarrow> pg_state \<Rightarrow> prefixDetail adminReply" where
  "GetProviderStatsDetail now pre window limitText s =
     (if pre = [] then Inl (respondError 400 ''missing prefix'')
      else let since = resolveStatsWindow now window; limit = topLimit 25 200 limitText
           in Inr (200, \<lparr>pdPrefix = pre, pdSince = since, pdTimeseries = ListPrefixHourlyStats pre since s,
                pdByModel = ListPrefixModelStats pre since limit s, pdErrorCodes = ListPrefixErrorCodes pre since limit s\<rparr>))"

subsection \<open>Quotas of all accounts\<close>

record quotaResult =
  qrAuthIndex :: string
  qrProvider :: string
  qrQuota :: "jobject option"
  qrError :: string

definition quotaSlot :: "json \<Rightarrow> quotaResult" where
  "quotaSlot item = (case item of
       JObj m \<Rightarrow>
         let authIndex = jgetStr m ''auth_index''; provider = jgetStr m ''provider'' in
         \<lparr>qrAuthIndex = authIndex, qrProvider = provider, qrQuota = None,
          qrError = (if \<not> githubProvider provider \<and> provider \<noteq> ''kiro'' then ''quota_not_supported''
                     else if authIndex = [] then ''missing_auth_index'' else [])\<rparr>
     | _ \<Rightarrow> \<lparr>qrAuthIndex = [], qrProvider = [], qrQuota = None, qrError = []\<rparr>)"

text \<open>The slots a goroutine is started for.\<close>

definition quotaJobs :: "json list \<Rightarrow> nat list" where
  "quotaJobs items = filter (\<lambda>i. qrError (quotaSlot (items ! i)) = [] \<and> qrAuthIndex (quotaSlot (items ! i)) \<noteq> []) [0..<length items]"

definition runJob :: "'w monitoringHandler \<Rightarrow> 'w \<times> quotaResult list \<Rightarrow> nat \<Rightarrow> 'w \<times> quotaResult list" where
  "runJob H = (\<lambda>(w, results) i.
     case accountQuota H (qrProvider (results ! i)) (qrAuthIndex (results ! i)) w of
       (w1, Inl e) \<Rightarrow> (w1, results[i := (results ! i)\<lparr>qrError := clientErrorText (moErrors H) e\<rparr>])
     | (w1, Inr m) \<Rightarrow> (w1, results[i := (results ! i)\<lparr>qrQuota := Some m\<rparr>]))"

text \<open>\<open>sched\<close> is the order in which the goroutines get their answers.\<close>

definition ListOAuthAccountsBulkQuota :: "'w monitoringHandler \<Rightarrow> (nat list \<Rightarrow> nat list) \<Rightarrow> 'w
    \<Rightarrow> 'w \<times> (json option \<times> quotaResult list) adminReply" where
  "ListOAuthAccountsBulkQuota H sched w = (case ListAuthFiles (moTransport H) (moClient H) w of
       (w1, Inl e) \<Rightarrow> (w1, Inl (managementFailure H e))
     | (w1, Inr files) \<Rightarrow>
         let items = (case jget files ''files'' of Some (JArr xs) \<Rightarrow> xs | _ \<Rightarrow> []) in
         (case foldl (runJob H) (w1, map quotaSlot items) (sched (quotaJobs items)) of (w2, results) \<Rightarrow> (w2, Inr (200, (jget files ''files'', results)))))"

section \<open>Router proxy and health\<close>

record 'w routerProxyHandler =
  rhTransport :: "'w transport"
  rhClient :: CLIProxyClient
  rhRouters :: bool
  rhAPIKey :: string
  rhTimeout :: duration

definition proxyClientForRouter :: "'w routerProxyHandler \<Rightarrow> string \<Rightarrow> pg_state \<Rightarrow> CLIProxyClient option" where
  "proxyClientForRouter H routerCode s =
     (let code = trimSpace routerCode in
      if \<not> rhRouters H \<or> code = [] then (if code \<noteq> [] then Some (rhClient H) else None)
      else (case GetRouterInstance code s of
              Inl _ \<Rightarrow> None
            | Inr inst \<Rightarrow>
                if trimSpace (riInternalBaseURL inst) = [] \<or> riStatus inst \<noteq> ''active'' then None
                else Some (NewCLIProxyClient (riInternalBaseURL inst) (rhAPIKey H) (if rhTimeout H \<le> 0 then 120 * nsSecond else rhTimeout H))))"

definition HealthHandler :: "'w routerProxyHandler \<Rightarrow> string \<Rightarrow> pg_state \<Rightarrow> 'w \<Rightarrow> 'w \<times> reply" where
  "HealthHandler H pathCode s w =
     (case proxyClientForRouter H (trimSpace pathCode) s of
        None \<Rightarrow> (w, respondError 400 ''invalid_router_code'')
      | Some client \<Rightarrow>
          (case RouterHealth (rhTransport H) client w of
             (w1, Inl _) \<Rightarrow> (w1, respondError 502 ''router_error'')
           | (w1, Inr out) \<Rightarrow> (w1, respondJSON 200 (jset out ''router_code'' (JStr (trimSpace pathCode))))))"

definition ModelsHandler :: "'w routerProxyHandler \<Rightarrow> string \<Rightarrow> pg_state \<Rightarrow> 'w \<Rightarrow> 'w \<times> reply" where
  "ModelsHandler H pathCode s w =
     (case proxyClientForRouter H (trimSpace pathCode) s of
        None \<Rightarrow> (w, respondError 400 ''invalid_router_code'')
      | Some client \<Rightarrow>
          (case clientListModels (rhTransport H) client w of
             (w1, Inl _) \<Rightarrow> (w1, respondError 502 ''router_error'')
           | (w1, Inr out) \<Rightarrow> (w1, respondJSON 200 out)))"

definition Providers :: reply where
  "Providers = respondError 501 ''provider_management_not_supported_by_cliproxy''"

text \<open>The figures of the connection pools are arguments: \<open>None\<close> for a pool that is not there, a failed ping with its text.\<close>

definition healthCheck :: "string \<Rightarrow> jobject option \<Rightarrow> (string + jobject) option \<Rightarrow> reply" where
  "healthCheck detailed db redis =
     (let base = [(''status'', JStr ''ok''), (''service'', JStr ''genfity-ai-gateway'')] in
      respondJSON 200 (if detailed \<noteq> ''true'' then base
        else base @ (case db of None \<Rightarrow> [] | Some m \<Rightarrow> [(''db'', JObj m)])
          @ (case redis of
               None \<Rightarrow> []
             | Some (Inl e) \<Rightarrow> [(''redis'', JObj [(''status'', JStr ''down''), (''error'', JStr e)])]
             | Some (Inr m) \<Rightarrow> [(''redis'', JObj ((''status'', JStr ''up'') # m))])))"

section \<open>Provider figures add up\<close>

lemma total_bump:
  assumes "\<And>b. f (g b) = (if k b = n then wrap64 (f b + v) else f b)"
  shows "distinct (map k bs) \<Longrightarrow> n \<in> set (map k bs) \<Longrightarrow> wrap64 (total f (map g bs)) = wrap64 (total f bs + v)"
proof (induction bs)
  case (Cons b bs)
  show ?case
  proof (cases "k b = n")
    case True
    have "(f \<circ> g) x = f x" if "x \<in> set bs" for x
      using Cons.prems(1) True assms [of x] that by (auto simp: image_iff split: if_splits)
    then have "map (f \<circ> g) bs = map f bs" by (simp only: map_eq_conv ball_simps) blast
    then have "total f (map g bs) = total f bs" by (simp only: total_def map_map)
    then have "total f (map g (b # bs)) = wrap64 (f b + v) + total f bs" using True assms [of b] by simp
    then show ?thesis by (simp only: wrap64_add total_simps ac_simps)
  next
    case False
    then have "total f (map g (b # bs)) = f b + total f (map g bs)" using assms by simp
    then have "wrap64 (total f (map g (b # bs))) = wrap64 (f b + wrap64 (total f (map g bs)))" by (simp only: wrap64_add)
    also have "wrap64 (total f (map g bs)) = wrap64 (total f bs + v)" using Cons False by simp
    finally show ?thesis by (simp only: wrap64_add total_simps ac_simps)
  qed
qed simp

lemma addRow_total:
  assumes "distinct (map psPrefix buckets)" "f \<in> {psTotalCount, psSuccessCount, psErrorCount}"
  shows "wrap64 (total f (addRow buckets row)) = wrap64 (total f buckets + f row)"
proof (cases "providerName (psPrefix row) \<in> set (map psPrefix buckets)")
  case False
  then show ?thesis using assms(2) by (auto simp: addRow_def Let_def)
next
  case True
  let ?g = "\<lambda>b. if psPrefix b = providerName (psPrefix row) then b\<lparr>psTotalCount := wrap64 (psTotalCount b + psTotalCount row),
      psSuccessCount := wrap64 (psSuccessCount b + psSuccessCount row), psErrorCount := wrap64 (psErrorCount b + psErrorCount row)\<rparr> else b"
  have "wrap64 (total f (map ?g buckets)) = wrap64 (total f buckets + f row)"
    using assms(2) by (intro total_bump [OF _ assms(1) True]) auto
  then show ?thesis using True by (simp add: addRow_def Let_def)
qed

lemma addRow_names: "map psPrefix (addRow buckets row) = (if providerName (psPrefix row) \<in> set (map psPrefix buckets) then map psPrefix buckets
    else map psPrefix buckets @ [providerName (psPrefix row)])"
  by (auto simp: addRow_def Let_def)

lemma buckets_total:
  assumes "distinct (map psPrefix buckets)" "f \<in> {psTotalCount, psSuccessCount, psErrorCount}"
  shows "wrap64 (total f (foldl addRow buckets rows)) = wrap64 (total f buckets + total f rows) \<and> distinct (map psPrefix (foldl addRow buckets rows))"
  using assms(1)
proof (induction rows arbitrary: buckets)
  case (Cons row rows)
  have d: "distinct (map psPrefix (addRow buckets row))" using Cons.prems by (simp add: addRow_names)
  have "wrap64 (wrap64 (total f (addRow buckets row)) + total f rows) = wrap64 (wrap64 (total f buckets + f row) + total f rows)"
    by (simp only: addRow_total [OF Cons.prems assms(2)])
  then show ?case using Cons.IH [OF d] by (simp add: wrap64_add add.assoc)
qed (simp add: wrap64_def)

text \<open>
  The provider figures add up in whatever order Go ranges over the map of providers: every provider is named once, and the requests,
  successes and errors of the providers sum to the totals of the answer in 64-bit arithmetic.
\<close>

theorem provider_stats_add_up:
  assumes "\<forall>xs. mset (iter xs) = mset xs"
  shows "distinct (map psPrefix (pvByProvider (GetProviderStats iter now window db)))
    \<and> wrap64 (total psTotalCount (pvByProvider (GetProviderStats iter now window db))) = pvTotalRequests (GetProviderStats iter now window db)
    \<and> wrap64 (total psSuccessCount (pvByProvider (GetProviderStats iter now window db))) = pvTotalSuccess (GetProviderStats iter now window db)
    \<and> wrap64 (total psErrorCount (pvByProvider (GetProviderStats iter now window db))) = pvTotalErrors (GetProviderStats iter now window db)"
proof -
  define rows where "rows = pvByPrefix (GetProviderStats iter now window db)"
  define stats where "stats = foldl addRow [] rows"
  have st: "pvByProvider (GetProviderStats iter now window db) = iter stats" "pvTotalRequests (GetProviderStats iter now window db) = wrapSum psTotalCount rows"
    "pvTotalSuccess (GetProviderStats iter now window db) = wrapSum psSuccessCount rows" "pvTotalErrors (GetProviderStats iter now window db) = wrapSum psErrorCount rows"
    by (simp_all add: GetProviderStats_def mapPrefixesToProviders_def rows_def stats_def Let_def)
  have perm: "mset (iter stats) = mset stats" using assms by blast
  have "mset (map psPrefix (iter stats)) = mset (map psPrefix stats)" by (simp add: perm)
  then have "distinct (map psPrefix (iter stats)) = distinct (map psPrefix stats)" by (rule mset_eq_imp_distinct_iff)
  then show ?thesis
    unfolding st wrapSum_total using buckets_total [of "[]" psTotalCount rows] buckets_total [of "[]" psSuccessCount rows] buckets_total [of "[]" psErrorCount rows]
      total_mset [OF perm, of psTotalCount] total_mset [OF perm, of psSuccessCount] total_mset [OF perm, of psErrorCount]
    by (simp add: stats_def)
qed

theorem provider_stats_add_up_witness:
  "wrap64 (total psTotalCount (pvByProvider (GetProviderStats rev 5 ''1h'' (pgEmpty, [])))) = pvTotalRequests (GetProviderStats rev 5 ''1h'' (pgEmpty, []))"
  using provider_stats_add_up [of rev] by simp

section \<open>The fan-out of quota lookups\<close>

definition fillSlot :: "'w monitoringHandler \<Rightarrow> (string \<Rightarrow> string \<Rightarrow> clientError + jobject) \<Rightarrow> quotaResult \<Rightarrow> quotaResult" where
  "fillSlot H ans slot = (case ans (qrProvider slot) (qrAuthIndex slot) of
       Inl e \<Rightarrow> slot\<lparr>qrError := clientErrorText (moErrors H) e\<rparr>
     | Inr m \<Rightarrow> slot\<lparr>qrQuota := Some m\<rparr>)"

text \<open>An account that can be asked gets the answer for it; the others keep what the listing said.\<close>

definition accountResult :: "'w monitoringHandler \<Rightarrow> (string \<Rightarrow> string \<Rightarrow> clientError + jobject) \<Rightarrow> json \<Rightarrow> quotaResult" where
  "accountResult H ans item = (if qrError (quotaSlot item) = [] \<and> qrAuthIndex (quotaSlot item) \<noteq> [] then fillSlot H ans (quotaSlot item) else quotaSlot item)"

lemma runJob_slot:
  assumes "\<forall>p a w. snd (accountQuota H p a w) = ans p a"
  shows "snd (runJob H (w, xs) i) = xs[i := fillSlot H ans (xs ! i)]"
proof -
  obtain w1 where "accountQuota H (qrProvider (xs ! i)) (qrAuthIndex (xs ! i)) w = (w1, ans (qrProvider (xs ! i)) (qrAuthIndex (xs ! i)))"
    using assms by (metis prod.collapse)
  then show ?thesis by (simp add: runJob_def fillSlot_def split: sum.split)
qed

lemma runJobs_slots:
  assumes "\<forall>p a w. snd (accountQuota H p a w) = ans p a"
  shows "distinct js \<Longrightarrow> i < length xs \<Longrightarrow> snd (foldl (runJob H) (w, xs) js) ! i = (if i \<in> set js then fillSlot H ans (xs ! i) else xs ! i)
    \<and> length (snd (foldl (runJob H) (w, xs) js)) = length xs"
proof (induction js arbitrary: w xs)
  case (Cons j js)
  obtain w1 where r: "runJob H (w, xs) j = (w1, xs[j := fillSlot H ans (xs ! j)])"
    using runJob_slot [OF assms] by (metis prod.collapse)
  show ?case using Cons.IH [of "xs[j := fillSlot H ans (xs ! j)]" w1] Cons.prems by (cases "i = j") (auto simp: r)
qed simp

text \<open>
  C22.  The quotas of all accounts are fetched by concurrent lookups, each into a slot of its own: if the upstream answers a lookup the same
  whenever it is asked, the result is the list of the accounts with their answers, in the order of the listing, whatever order the
  lookups run in.
\<close>

theorem bulk_quota_any_order:
  assumes "\<forall>p a w. snd (accountQuota H p a w) = ans p a" "\<forall>js. mset (sched js) = mset js"
    and "ListAuthFiles (moTransport H) (moClient H) w = (w1, Inr files)" "jget files ''files'' = Some (JArr items)"
  shows "snd (ListOAuthAccountsBulkQuota H sched w) = Inr (200, (Some (JArr items), map (accountResult H ans) items))"
proof -
  let ?js = "sched (quotaJobs items)"
  have js: "set ?js = set (quotaJobs items)" "distinct ?js"
    using assms(2) mset_eq_setD [of ?js "quotaJobs items"] mset_eq_imp_distinct_iff [of ?js "quotaJobs items"] by (auto simp: quotaJobs_def)
  note slots = runJobs_slots [OF assms(1) js(2), where xs = "map quotaSlot items"]
  have "snd (foldl (runJob H) (w1, map quotaSlot items) ?js) = map (accountResult H ans) items"
  proof (cases "items = []")
    case True
    then have "?js = []" using js(1) by (simp add: quotaJobs_def)
    then show ?thesis using True by simp
  next
    case False
    then have len: "length (snd (foldl (runJob H) (w1, map quotaSlot items) ?js)) = length items" using slots [of 0 w1] by simp
    have job: "i \<in> set (quotaJobs items) \<longleftrightarrow> qrError (quotaSlot (items ! i)) = [] \<and> qrAuthIndex (quotaSlot (items ! i)) \<noteq> []"
      if "i < length items" for i using that by (simp add: quotaJobs_def)
    show ?thesis
    proof (rule nth_equalityI)
      fix i
      assume "i < length (snd (foldl (runJob H) (w1, map quotaSlot items) ?js))"
      then have i: "i < length items" by (simp add: len)
      then show "snd (foldl (runJob H) (w1, map quotaSlot items) ?js) ! i = map (accountResult H ans) items ! i"
        using slots [of i w1] job [OF i] js(1) by (simp add: accountResult_def)
    qed (simp add: len)
  qed
  then show ?thesis using assms(3,4) by (auto simp: ListOAuthAccountsBulkQuota_def Let_def split: prod.split)
qed

section \<open>The table of rates\<close>

definition ratesUp :: "rateDB \<Rightarrow> bool" where
  "ratesUp db \<longleftrightarrow> pgUp (fst db) \<and> ratesOk (snd db)"

definition lookupRate :: "string \<Rightarrow> rateDB \<Rightarrow> PaygTopupRate result" where
  "lookupRate code db = (case GetPaygTopupRate code db of
       Inl e \<Rightarrow> Inl e | Inr None \<Rightarrow> Inl ErrNotFound | Inr (Some r) \<Rightarrow> Inr r)"

lemma rateRow_code [simp]: "ptCode (rateRow fresh now x n) = ptCode x"
  by (simp add: rateRow_def split: prod.split)

lemma UpsertPaygTopupRate_success:
  assumes "pgUp (fst db)" "UpsertPaygTopupRate fresh now x db = (db', Inr y)"
  obtains new rows where "db' = (fst db, rows)" "ptCode new = ptCode x"
    "upsertBy (\<lambda>r. ptCode r = ptCode x) new (\<lambda>r. new\<lparr>ptID := ptID r, ptCreatedAt := ptCreatedAt r\<rparr>) ratesOk (snd db) = Some (rows, y)"
proof -
  obtain s rows where "db = (s, rows)" by force
  then obtain n where "upsertBy (\<lambda>r. ptCode r = ptCode x) (rateRow fresh now x n)
      (\<lambda>r. (rateRow fresh now x n)\<lparr>ptID := ptID r, ptCreatedAt := ptCreatedAt r\<rparr>) ratesOk (snd db) = Some (snd db', y)" "fst db' = fst db"
    using assms by (auto simp: UpsertPaygTopupRate_def pgUp_def split: option.splits sum.splits)
  then show ?thesis using that [of "snd db'" "rateRow fresh now x n"] by (simp add: prod_eq_iff)
qed

lemma UpsertPaygTopupRate_fails: "UpsertPaygTopupRate fresh now x db = (db', Inl e) \<Longrightarrow> db' = db"
  by (cases db) (auto simp: UpsertPaygTopupRate_def split: option.splits sum.splits)

interpretation rateTable: catalog_table "UpsertPaygTopupRate fresh now" lookupRate ptCode ratesUp for fresh now
proof (unfold_locales, goal_cases)
  case (1 s x s' y)
  then have up: "pgUp (fst s)" by (simp add: ratesUp_def)
  obtain new rows where u: "s' = (fst s, rows)" "ptCode new = ptCode x"
    "upsertBy (\<lambda>r. ptCode r = ptCode x) new (\<lambda>r. new\<lparr>ptID := ptID r, ptCreatedAt := ptCreatedAt r\<rparr>) ratesOk (snd s) = Some (rows, y)"
    using UpsertPaygTopupRate_success [OF up 1(2)] .
  have "find (\<lambda>r. ptCode r = ptCode x) rows = Some y" by (rule upsertBy_spec(1) [OF u(3)]) (simp_all add: u(2))
  then show ?case using up u(1) by (simp add: lookupRate_def GetPaygTopupRate_def pgUp_def)
next
  case (2 s x s' y k)
  then have up: "pgUp (fst s)" by (simp add: ratesUp_def)
  obtain new rows where u: "s' = (fst s, rows)" "ptCode new = ptCode x"
    "upsertBy (\<lambda>r. ptCode r = ptCode x) new (\<lambda>r. new\<lparr>ptID := ptID r, ptCreatedAt := ptCreatedAt r\<rparr>) ratesOk (snd s) = Some (rows, y)"
    using UpsertPaygTopupRate_success [OF up 2(2)] .
  have "find (\<lambda>r. ptCode r = k) rows = find (\<lambda>r. ptCode r = k) (snd s)" by (rule upsertBy_spec(2) [OF u(3)]) (simp_all add: u(2) 2)
  then show ?case using up u(1) by (cases s) (simp add: lookupRate_def GetPaygTopupRate_def pgUp_def)
next
  case (3 x s s' e)
  then show ?case by (rule UpsertPaygTopupRate_fails)
next
  case (4 s x s' r)
  then have up: "pgUp (fst s)" by (simp add: ratesUp_def)
  show ?case
  proof (cases r)
    case (Inl e)
    then have "s' = s" using 4(2) UpsertPaygTopupRate_fails by blast
    then show ?thesis using 4(1) by simp
  next
    case (Inr y)
    obtain new rows where u: "s' = (fst s, rows)"
      "upsertBy (\<lambda>r. ptCode r = ptCode x) new (\<lambda>r. new\<lparr>ptID := ptID r, ptCreatedAt := ptCreatedAt r\<rparr>) ratesOk (snd s) = Some (rows, y)"
      by (rule UpsertPaygTopupRate_success [OF up 4(2) [unfolded Inr]]) (rule that)
    then show ?thesis using up upsertBy_valid [OF u(2)] by (simp add: ratesUp_def)
  qed
qed

text \<open>The rates sent in a batch, up to the first one that fails; the rest of the batch is not written.\<close>

lemma SyncPaygTopupRates_lookup:
  assumes "ratesUp db" "\<forall>p \<in> set payload. ptCode (fst p) \<noteq> k"
  shows "lookupRate k (fst (SyncPaygTopupRates now payload n db)) = lookupRate k db"
  using assms
proof (induction payload arbitrary: n db)
  case (Cons p payload)
  obtain item fresh where p: "p = (item, fresh)" by force
  obtain db1 r where u: "UpsertPaygTopupRate fresh now item db = (db1, r)" by (cases "UpsertPaygTopupRate fresh now item db") blast
  have "ratesUp db1" "lookupRate k db1 = lookupRate k db"
    using rateTable.put_ok [OF Cons.prems(1) u] rateTable.put_lookup [OF Cons.prems(1) u, of k] Cons.prems(2) p by auto
  then show ?case using Cons.IH [of db1 "n + 1"] Cons.prems(2) u p by (auto split: sum.split)
qed simp

section \<open>Examples\<close>

definition sampleListingBody :: string where
  "sampleListingBody = (let q = [CHR 34] in ''{'' @ q @ ''files'' @ q @ '':[{'' @ q @ ''auth_index'' @ q @ '':'' @ q @ ''a'' @ q @ '','' @ q @ ''provider'' @ q
     @ '':'' @ q @ ''kiro'' @ q @ ''}]}'')"

definition sampleItems :: "json list" where
  "sampleItems = [JObj [(''auth_index'', JStr ''a''), (''provider'', JStr ''kiro'')]]"

definition sampleMonitor :: "unit monitoringHandler" where
  "sampleMonitor = \<lparr>moTransport = \<lparr>trBadURL = (\<lambda>_. None), trDo = (\<lambda>_ w. (w, Inr (200, sampleListingBody))), trWait = (\<lambda>_ w. (w, None))\<rparr>,
     moClient = NewCLIProxyClientWithManagementKey ''http://core'' ''k'' ''m'' nsSecond, moErrors = (\<lambda>_. ''bad'')\<rparr>"

theorem bulk_quota_any_order_witness:
  "snd (ListOAuthAccountsBulkQuota sampleMonitor rev ()) = Inr (200, (Some (JArr sampleItems),
     map (accountResult sampleMonitor (\<lambda>p a. snd (accountQuota sampleMonitor p a ()))) sampleItems))"
proof (rule bulk_quota_any_order)
  have body: "decodeObject sampleListingBody = Some [(''files'', JArr sampleItems)]" by code_simp
  show "ListAuthFiles (moTransport sampleMonitor) (moClient sampleMonitor) () = ((), Inr [(''files'', JArr sampleItems)])"
    using body by (simp add: sampleMonitor_def ListAuthFiles_def managementGet_def NewCLIProxyClientWithManagementKey_def doWithRetry_def
        retryLoop.simps [of _ _ _ 0] readObject_def)
qed (simp_all add: jget_def)

text \<open>The two views of the providers do not share their windows: the overview reads a day where the detail reads a week or a month.\<close>

lemma provider_windows_differ:
  "pvSince (GetProviderStats iter now ''7d'' db) = now - 24 * nsHour \<and> resolveStatsWindow now ''7d'' = now - 7 * 24 * nsHour
   \<and> pvSince (GetProviderStats iter now ''30d'' db) = now - 24 * nsHour \<and> resolveStatsWindow now ''30d'' = now - 30 * 24 * nsHour"
  by (simp add: GetProviderStats_def resolveStatsWindow_def Let_def)

end
