(* ===== verification/MemoryStore.thy ===== *)
theory MemoryStore
  imports Operations
begin

text \<open>
  The in-memory store (\<^verbatim>\<open>memory_store.go\<close>), the double of the Postgres store in tests.  A Go map is a list of keys and values; where the
  source ranges over a map, the order is the argument \<open>iter\<close>.  \<^verbatim>\<open>sort.Slice\<close> leaves rows with equal keys in their order here.  Both stores
  are interpreted on the same contracts, so that what a client may rely on is proved once; the last section says where they differ.
\<close>

section \<open>Maps\<close>

type_synonym ('k, 'v) gomap = "('k \<times> 'v) list"

definition mput :: "'k \<Rightarrow> 'v \<Rightarrow> ('k, 'v) gomap \<Rightarrow> ('k, 'v) gomap" where
  "mput k v m = (if k \<in> fst ` set m then map (\<lambda>(j, w). if j = k then (j, v) else (j, w)) m else m @ [(k, v)])"

definition mdel :: "'k \<Rightarrow> ('k, 'v) gomap \<Rightarrow> ('k, 'v) gomap" where
  "mdel k m = filter (\<lambda>p. fst p \<noteq> k) m"

definition mlookup :: "'k \<Rightarrow> ('k, 'v) gomap \<Rightarrow> 'v result" where
  "mlookup k m = (case map_of m k of None \<Rightarrow> Inl ErrNotFound | Some v \<Rightarrow> Inr v)"

definition mcount :: "'k \<Rightarrow> ('k, int) gomap \<Rightarrow> int" where
  "mcount k m = (case map_of m k of None \<Rightarrow> 0 | Some n \<Rightarrow> n)"

lemma map_of_mput [simp]: "map_of (mput k v m) = (map_of m)(k \<mapsto> v)"
proof (cases "k \<in> fst ` set m")
  case True
  then show ?thesis by (simp add: mput_def map_of_map_update)
next
  case False
  then have "map_of m k = None" by (simp add: map_of_eq_None_iff)
  then show ?thesis using False by (auto simp: mput_def map_add_def fun_eq_iff split: option.splits)
qed

lemma map_of_mdel [simp]: "map_of (mdel k m) = (map_of m)(k := None)"
  by (induction m) (auto simp: mdel_def)

lemma keys_mput: "map fst (mput k v m) = (if k \<in> fst ` set m then map fst m else map fst m @ [k])"
  by (auto simp: mput_def)

lemma distinct_mput [simp]: "distinct (map fst (mput k v m)) \<longleftrightarrow> distinct (map fst m)"
  by (auto simp: keys_mput)

lemma distinct_mdel: "distinct (map fst m) \<Longrightarrow> distinct (map fst (mdel k m))"
  by (simp add: mdel_def distinct_map_filter)

lemma mlookup_mput [simp]: "mlookup j (mput k v m) = (if j = k then Inr v else mlookup j m)"
  by (simp add: mlookup_def)

section \<open>The store\<close>

record memoryStore =
  mmPlans :: "(string, SubscriptionPlanSnapshot) gomap"
  mmKeys :: "(uuid, APIKey) gomap"
  mmModels :: "(uuid, AIModel) gomap"
  mmPrices :: "(uuid, AIModelPrice) gomap"
  mmRoutes :: "(uuid, AIModelRoute) gomap"
  mmEnts :: "(uuid, CustomerEntitlement) gomap"
  mmRouters :: "(string, RouterInstance) gomap"
  mmQuotaReserved :: "(string, int) gomap"
  mmQuotaUsed :: "(string, int) gomap"
  mmQuotaRequests :: "(string, int) gomap"
  mmUsage :: "UsageLedgerEntry list"
  mmCosts :: "(string, ModelCreditCost) gomap"
  mmRates :: "(string, PaygTopupRate) gomap"
  mmCallbacks :: "(string, PendingCallback) gomap"

definition NewMemoryStore :: memoryStore where
  "NewMemoryStore = \<lparr>mmPlans = [], mmKeys = [], mmModels = [], mmPrices = [], mmRoutes = [], mmEnts = [], mmRouters = [], mmQuotaReserved = [],
     mmQuotaUsed = [], mmQuotaRequests = [], mmUsage = [], mmCosts = [], mmRates = [], mmCallbacks = []\<rparr>"

subsection \<open>Plans and keys\<close>

definition memUpsertPlan :: "time \<Rightarrow> SubscriptionPlanSnapshot \<Rightarrow> memoryStore \<Rightarrow> memoryStore \<times> SubscriptionPlanSnapshot result" where
  "memUpsertPlan now plan s =
     (let p = plan\<lparr>spCreatedAt := defaultTime now (spCreatedAt plan), spUpdatedAt := now,
            spSyncedFromGenfityAt := defaultTime now (spSyncedFromGenfityAt plan)\<rparr>
      in (s\<lparr>mmPlans := mput (spPlanCode p) p (mmPlans s)\<rparr>, Inr p))"

definition memListPlans :: "((string, SubscriptionPlanSnapshot) gomap \<Rightarrow> (string, SubscriptionPlanSnapshot) gomap) \<Rightarrow> memoryStore
    \<Rightarrow> SubscriptionPlanSnapshot list" where
  "memListPlans iter s = sort_key spPlanCode (map snd (iter (mmPlans s)))"

definition memGetPlanByCode :: "string \<Rightarrow> memoryStore \<Rightarrow> SubscriptionPlanSnapshot result" where
  "memGetPlanByCode planCode s = mlookup planCode (mmPlans s)"

definition memUpsertAPIKey :: "time \<Rightarrow> APIKey \<Rightarrow> memoryStore \<Rightarrow> memoryStore \<times> APIKey result" where
  "memUpsertAPIKey now key s =
     (let k = key\<lparr>akCreatedAt := defaultTime now (akCreatedAt key), akBillingSource := defaultString (akBillingSource key) ''subscription''\<rparr>
      in (s\<lparr>mmKeys := mput (akID k) k (mmKeys s)\<rparr>, Inr k))"

definition memListAPIKeysByUser :: "((uuid, APIKey) gomap \<Rightarrow> (uuid, APIKey) gomap) \<Rightarrow> string \<Rightarrow> memoryStore \<Rightarrow> APIKey list" where
  "memListAPIKeysByUser iter userID s = sort_key (\<lambda>k. - akCreatedAt k) (filter (\<lambda>k. akGenfityUserID k = userID) (map snd (iter (mmKeys s))))"

definition memFindAPIKeyByPrefix :: "((uuid, APIKey) gomap \<Rightarrow> (uuid, APIKey) gomap) \<Rightarrow> string \<Rightarrow> memoryStore \<Rightarrow> APIKey result" where
  "memFindAPIKeyByPrefix iter pre s = firstRow (\<lambda>k. akKeyPrefix k = pre \<and> akStatus k = ''active'') (map snd (iter (mmKeys s)))"

definition memGetAPIKeyByID :: "uuid \<Rightarrow> memoryStore \<Rightarrow> APIKey result" where
  "memGetAPIKeyByID i s = mlookup i (mmKeys s)"

definition alterKey :: "uuid \<Rightarrow> (APIKey \<Rightarrow> APIKey) \<Rightarrow> memoryStore \<Rightarrow> memoryStore \<times> unit result" where
  "alterKey i f s = (case map_of (mmKeys s) i of
       None \<Rightarrow> (s, Inl ErrNotFound)
     | Some k \<Rightarrow> (s\<lparr>mmKeys := mput i (f k) (mmKeys s)\<rparr>, Inr ()))"

definition memRevokeAPIKey :: "uuid \<Rightarrow> time \<Rightarrow> memoryStore \<Rightarrow> memoryStore \<times> unit result" where
  "memRevokeAPIKey i t = alterKey i (\<lambda>k. k\<lparr>akStatus := ''revoked'', akRevokedAt := Some t\<rparr>)"

definition memUpdateAPIKeyStatus :: "uuid \<Rightarrow> string \<Rightarrow> memoryStore \<Rightarrow> memoryStore \<times> unit result" where
  "memUpdateAPIKeyStatus i status = alterKey i (\<lambda>k. k\<lparr>akStatus := status\<rparr>)"

definition memUpdateAPIKeyBillingSource :: "uuid \<Rightarrow> string \<Rightarrow> memoryStore \<Rightarrow> memoryStore \<times> unit result" where
  "memUpdateAPIKeyBillingSource i source = alterKey i (\<lambda>k. k\<lparr>akBillingSource := source\<rparr>)"

definition memUpdateAPIKeyLastUsedAt :: "uuid \<Rightarrow> time \<Rightarrow> memoryStore \<Rightarrow> memoryStore \<times> unit result" where
  "memUpdateAPIKeyLastUsedAt i t = alterKey i (\<lambda>k. k\<lparr>akLastUsedAt := Some t\<rparr>)"

subsection \<open>Usage\<close>

definition newestFirst :: "UsageLedgerEntry list \<Rightarrow> UsageLedgerEntry list" where
  "newestFirst rows = sort_key (\<lambda>r. - ueStartedAt r) rows"

definition memListUsage :: "memoryStore \<Rightarrow> UsageLedgerEntry list" where
  "memListUsage s = newestFirst (mmUsage s)"

definition memListUsageByUserSince :: "string \<Rightarrow> time \<Rightarrow> memoryStore \<Rightarrow> UsageLedgerEntry list" where
  "memListUsageByUserSince userID since s = newestFirst (filter (\<lambda>r. ueGenfityUserID r = userID \<and> \<not> ueStartedAt r < since) (mmUsage s))"

definition memListUsageByUser :: "string \<Rightarrow> memoryStore \<Rightarrow> UsageLedgerEntry list" where
  "memListUsageByUser userID s = newestFirst (filter (\<lambda>r. ueGenfityUserID r = userID) (mmUsage s))"

definition memListUsageByTenant :: "string \<Rightarrow> memoryStore \<Rightarrow> UsageLedgerEntry list" where
  "memListUsageByTenant tenantID s = newestFirst (filter (\<lambda>r. ueGenfityTenantID r = Some tenantID) (mmUsage s))"

definition memAppendUsage :: "UsageLedgerEntry \<Rightarrow> memoryStore \<Rightarrow> memoryStore \<times> UsageLedgerEntry result" where
  "memAppendUsage item s = (s\<lparr>mmUsage := mmUsage s @ [item]\<rparr>, Inr item)"

definition memListAllUsage :: "int \<Rightarrow> memoryStore \<Rightarrow> UsageLedgerEntry list" where
  "memListAllUsage limit s = (if limit > 0 then drop (length (mmUsage s) - nat limit) (mmUsage s) else mmUsage s)"

definition memListUsageByAPIKey :: "uuid \<Rightarrow> int \<Rightarrow> memoryStore \<Rightarrow> UsageLedgerEntry list" where
  "memListUsageByAPIKey i limit s =
     (let rows = filter (\<lambda>r. ueAPIKeyID r = Some i) (mmUsage s) in if limit > 0 then take (nat limit) rows else rows)"

definition memLogMatches :: "UsageLogFilter \<Rightarrow> UsageLedgerEntry \<Rightarrow> bool" where
  "memLogMatches f r \<longleftrightarrow> (lfUserID f \<noteq> [] \<longrightarrow> ueGenfityUserID r = lfUserID f) \<and> (lfAPIKeyID f \<noteq> None \<longrightarrow> ueAPIKeyID r = lfAPIKeyID f)
     \<and> (lfStatus f \<noteq> [] \<longrightarrow> ueStatus r = lfStatus f) \<and> (lfBillingMode f \<noteq> [] \<longrightarrow> ueBillingMode r = Some (lfBillingMode f))
     \<and> (lfPublicModel f \<noteq> [] \<longrightarrow> uePublicModel r = lfPublicModel f)
     \<and> (lfFrom f \<noteq> zeroTime \<longrightarrow> \<not> ueStartedAt r < lfFrom f) \<and> (lfTo f \<noteq> zeroTime \<longrightarrow> ueStartedAt r < lfTo f)"

text \<open>The sum of the offset and the limit is taken to be in the range of \<^verbatim>\<open>int\<close>.\<close>

definition memListUsageLogs :: "UsageLogFilter \<Rightarrow> memoryStore \<Rightarrow> (UsageLedgerEntry list \<times> int) result" where
  "memListUsageLogs f s =
     (let matched = newestFirst (filter (memLogMatches f) (mmUsage s)); limit = (if lfLimit f \<le> 0 then 100 else lfLimit f)
      in Inr (take (nat limit) (drop (nat (max 0 (lfOffset f))) matched), int (length matched)))"

subsection \<open>Quota counters\<close>

text \<open>\<^verbatim>\<open>t.UTC().Format(time.RFC3339Nano)\<close>\<close>

definition rfc3339Nano :: "time \<Rightarrow> string" where
  "rfc3339Nano t =
     (let day = dayOf t; ns = t - day * nsDay; secs = ns div nsSecond; frac = ns mod nsSecond
      in dateText day @ ''T'' @ pad2 (secs div 3600) @ '':'' @ pad2 (secs div 60 mod 60) @ '':'' @ pad2 (secs mod 60)
         @ (if frac = 0 then [] else ''.'' @ rev (dropWhile (\<lambda>c. c = CHR ''0'') (rev (padLeft 9 (itoa frac))))) @ ''Z'')"

definition memoryQuotaKey :: "string \<Rightarrow> time \<Rightarrow> time \<Rightarrow> string" where
  "memoryQuotaKey userID periodStart periodEnd = userID @ '':'' @ rfc3339Nano periodStart @ '':'' @ rfc3339Nano periodEnd"

definition successSince :: "string \<Rightarrow> time \<Rightarrow> memoryStore \<Rightarrow> UsageLedgerEntry list" where
  "successSince userID since s = filter (\<lambda>r. ueGenfityUserID r = userID \<and> ueStatus r = ''success'' \<and> \<not> ueStartedAt r < since) (mmUsage s)"

definition memSumUsageTokensByUserSince :: "string \<Rightarrow> time \<Rightarrow> memoryStore \<Rightarrow> int" where
  "memSumUsageTokensByUserSince userID since s = sum64 ueTotalTokens (successSince userID since s)"

definition memIncrementQuotaCounter :: "string \<Rightarrow> time \<Rightarrow> time \<Rightarrow> int \<Rightarrow> memoryStore \<Rightarrow> memoryStore \<times> unit result" where
  "memIncrementQuotaCounter userID periodStart periodEnd tokens s =
     (let key = memoryQuotaKey userID periodStart periodEnd;
          used = (if tokens > 0 then mput key (wrap64 (mcount key (mmQuotaUsed s) + tokens)) (mmQuotaUsed s) else mmQuotaUsed s)
      in (s\<lparr>mmQuotaUsed := used, mmQuotaRequests := mput key (wrap64 (mcount key (mmQuotaRequests s) + 1)) (mmQuotaRequests s)\<rparr>, Inr ()))"

definition memReserveQuotaTokens :: "string \<Rightarrow> time \<Rightarrow> time \<Rightarrow> int \<Rightarrow> int \<Rightarrow> memoryStore \<Rightarrow> memoryStore \<times> unit result" where
  "memReserveQuotaTokens userID periodStart periodEnd tokens limit s =
     (if tokens \<le> 0 \<or> limit \<le> 0 then (s, Inr ())
      else
        let key = memoryQuotaKey userID periodStart periodEnd;
            counted = mcount key (mmQuotaUsed s);
            used = (if counted = 0 then sum64 ueTotalTokens (successSince userID periodStart s) else counted);
            reserved = mcount key (mmQuotaReserved s)
        in if wrap64 (wrap64 (used + reserved) + tokens) > limit then (s, Inl ErrQuotaExceeded)
           else (s\<lparr>mmQuotaReserved := mput key (wrap64 (reserved + tokens)) (mmQuotaReserved s)\<rparr>, Inr ()))"

definition memFinalizeQuotaTokens :: "string \<Rightarrow> time \<Rightarrow> time \<Rightarrow> int \<Rightarrow> int \<Rightarrow> bool \<Rightarrow> memoryStore \<Rightarrow> memoryStore \<times> unit result" where
  "memFinalizeQuotaTokens userID periodStart periodEnd reservedTokens actualTokens countRequest s =
     (if reservedTokens \<le> 0 then (s, Inr ())
      else
        let key = memoryQuotaKey userID periodStart periodEnd; next = wrap64 (mcount key (mmQuotaReserved s) - reservedTokens)
        in (s\<lparr>mmQuotaReserved := (if next \<le> 0 then mdel key (mmQuotaReserved s) else mput key next (mmQuotaReserved s))\<rparr>, Inr ()))"

definition memGetQuotaCounter :: "string \<Rightarrow> time \<Rightarrow> time \<Rightarrow> memoryStore \<Rightarrow> QuotaCounter option result" where
  "memGetQuotaCounter userID periodStart periodEnd s =
     (let key = memoryQuotaKey userID periodStart periodEnd; used = mcount key (mmQuotaUsed s); reserved = mcount key (mmQuotaReserved s);
          requests = mcount key (mmQuotaRequests s)
      in Inr (if used = 0 \<and> reserved = 0 \<and> requests = 0 then None
              else Some \<lparr>qcTokensUsed = used, qcTokensReserved = reserved, qcRequestCount = requests\<rparr>))"

definition foldCounter :: "string \<Rightarrow> memoryStore \<times> bool \<Rightarrow> string \<Rightarrow> memoryStore \<times> bool" where
  "foldCounter newKey = (\<lambda>(s, moved) k.
     (s\<lparr>mmQuotaUsed := mdel k (mput newKey (wrap64 (mcount newKey (mmQuotaUsed s) + mcount k (mmQuotaUsed s))) (mmQuotaUsed s)),
        mmQuotaRequests := mdel k (mput newKey (wrap64 (mcount newKey (mmQuotaRequests s) + mcount k (mmQuotaRequests s))) (mmQuotaRequests s)),
        mmQuotaReserved := mdel k (mmQuotaReserved s)\<rparr>, True))"

definition memMigrateQuotaCounterPeriodEnd :: "((string, int) gomap \<Rightarrow> (string, int) gomap) \<Rightarrow> string \<Rightarrow> time \<Rightarrow> time \<Rightarrow> memoryStore
    \<Rightarrow> memoryStore \<times> bool result" where
  "memMigrateQuotaCounterPeriodEnd iter userID periodStart newEnd s =
     (let pre = userID @ '':'' @ rfc3339Nano periodStart @ '':''; newKey = memoryQuotaKey userID periodStart newEnd;
          stale = filter (\<lambda>k. hasPrefix k pre \<and> k \<noteq> newKey) (map fst (iter (mmQuotaUsed s)))
      in case foldl (foldCounter newKey) (s, False) stale of (s1, moved) \<Rightarrow> (s1, Inr moved))"

definition memSetQuotaTokensUsed :: "string \<Rightarrow> time \<Rightarrow> time \<Rightarrow> int \<Rightarrow> memoryStore \<Rightarrow> memoryStore \<times> unit result" where
  "memSetQuotaTokensUsed userID periodStart periodEnd value s =
     (s\<lparr>mmQuotaUsed := mput (memoryQuotaKey userID periodStart periodEnd) (if value < 0 then 0 else value) (mmQuotaUsed s)\<rparr>, Inr ())"

definition memReleaseStaleQuotaReservations :: "memoryStore \<Rightarrow> memoryStore \<times> int result" where
  "memReleaseStaleQuotaReservations s =
     (s\<lparr>mmQuotaReserved := map (\<lambda>(k, v). (k, if v > 0 then 0 else v)) (mmQuotaReserved s)\<rparr>,
      Inr (int (length (filter (\<lambda>(k, v). v > 0) (mmQuotaReserved s)))))"

subsection \<open>Balances\<close>

definition parseFailure :: "string \<Rightarrow> gerror" where
  "parseFailure t = ErrText (''strconv.ParseFloat: parsing '' @ [CHR 34] @ t @ [CHR 34] @ '': invalid syntax'')"

definition parseAmount :: "string \<Rightarrow> float64 result" where
  "parseAmount t = (case parseFloat t of None \<Rightarrow> Inl (parseFailure t) | Some v \<Rightarrow> Inr v)"

text \<open>An absent reservation is zero.\<close>

definition parseReserved :: "string option \<Rightarrow> float64 result" where
  "parseReserved t = (case t of None \<Rightarrow> Inr fzero | Some x \<Rightarrow> parseAmount x)"

text \<open>A row with a balance of one kind: how it is read and written, and the digits it is written with.\<close>

record balanceField =
  bfDigits :: nat
  bfBalance :: "CustomerEntitlement \<Rightarrow> string option"
  bfReserved :: "CustomerEntitlement \<Rightarrow> string option"
  bfSetBalance :: "string \<Rightarrow> CustomerEntitlement \<Rightarrow> CustomerEntitlement"
  bfSetReserved :: "string \<Rightarrow> CustomerEntitlement \<Rightarrow> CustomerEntitlement"

definition snapshotField :: balanceField where
  "snapshotField = \<lparr>bfDigits = 6, bfBalance = ceBalanceSnapshot, bfReserved = ceBalanceReserved,
     bfSetBalance = (\<lambda>t e. e\<lparr>ceBalanceSnapshot := Some t\<rparr>), bfSetReserved = (\<lambda>t e. e\<lparr>ceBalanceReserved := Some t\<rparr>)\<rparr>"

definition creditField :: balanceField where
  "creditField = \<lparr>bfDigits = 4, bfBalance = ceCreditBalance, bfReserved = ceCreditBalanceReserved,
     bfSetBalance = (\<lambda>t e. e\<lparr>ceCreditBalance := Some t\<rparr>), bfSetReserved = (\<lambda>t e. e\<lparr>ceCreditBalanceReserved := Some t\<rparr>)\<rparr>"

definition paygField :: balanceField where
  "paygField = \<lparr>bfDigits = 6, bfBalance = cePaygUsdBalance, bfReserved = cePaygUsdBalanceReserved,
     bfSetBalance = (\<lambda>t e. e\<lparr>cePaygUsdBalance := Some t\<rparr>), bfSetReserved = (\<lambda>t e. e\<lparr>cePaygUsdBalanceReserved := Some t\<rparr>)\<rparr>"

text \<open>A row takes a reservation: \<open>Inr None\<close> when it has not enough left.\<close>

definition holdOn :: "balanceField \<Rightarrow> float64 \<Rightarrow> string \<Rightarrow> CustomerEntitlement \<Rightarrow> CustomerEntitlement option result" where
  "holdOn f amount t item = (case parseAmount t of
       Inl e \<Rightarrow> Inl e
     | Inr balance \<Rightarrow>
         (case parseReserved (bfReserved f item) of
            Inl e \<Rightarrow> Inl e
          | Inr reserved \<Rightarrow>
              if flt (fsub balance reserved) amount then Inr None
              else Inr (Some (bfSetReserved f (sprintfF (bfDigits f) (fadd reserved amount)) item))))"

fun reserveLoop :: "balanceField \<Rightarrow> string \<Rightarrow> float64 \<Rightarrow> (uuid, CustomerEntitlement) gomap \<Rightarrow> (uuid \<times> CustomerEntitlement) result" where
  "reserveLoop f userID amount [] = Inl ErrInsufficientBalance"
| "reserveLoop f userID amount ((i, item) # rest) =
     (if ceGenfityUserID item \<noteq> userID then reserveLoop f userID amount rest
      else (case bfBalance f item of
              None \<Rightarrow> reserveLoop f userID amount rest
            | Some t \<Rightarrow>
                (case holdOn f amount t item of
                   Inl e \<Rightarrow> Inl e
                 | Inr None \<Rightarrow> reserveLoop f userID amount rest
                 | Inr (Some item1) \<Rightarrow> Inr (i, item1))))"

definition zeroFloor :: "float64 \<Rightarrow> float64" where
  "zeroFloor x = (if flt x fzero then fzero else x)"

text \<open>A row is settled: the reservation is released, the debit is capped by the balance.\<close>

definition settleOn :: "balanceField \<Rightarrow> float64 \<Rightarrow> float64 \<Rightarrow> string \<Rightarrow> CustomerEntitlement \<Rightarrow> CustomerEntitlement result" where
  "settleOn f reservedAmount actual t item = (case parseAmount t of
       Inl e \<Rightarrow> Inl e
     | Inr balance \<Rightarrow>
         (case parseReserved (bfReserved f item) of
            Inl e \<Rightarrow> Inl e
          | Inr reserved \<Rightarrow>
              let debit = (if flt balance actual then balance else actual)
              in Inr (bfSetReserved f (sprintfF (bfDigits f) (zeroFloor (fsub reserved reservedAmount)))
                   (bfSetBalance f (sprintfF (bfDigits f) (zeroFloor (fsub balance debit))) item))))"

definition putEnt :: "memoryStore \<Rightarrow> (uuid \<times> CustomerEntitlement) result \<Rightarrow> memoryStore \<times> unit result" where
  "putEnt s out = (case out of Inl e \<Rightarrow> (s, Inl e) | Inr (i, item) \<Rightarrow> (s\<lparr>mmEnts := mput i item (mmEnts s)\<rparr>, Inr ()))"

type_synonym entIter = "(uuid, CustomerEntitlement) gomap \<Rightarrow> (uuid, CustomerEntitlement) gomap"

definition memReserve :: "balanceField \<Rightarrow> entIter \<Rightarrow> string \<Rightarrow> float64 \<Rightarrow> memoryStore \<Rightarrow> memoryStore \<times> unit result" where
  "memReserve f iter userID amount s = (if fle amount fzero then (s, Inr ()) else putEnt s (reserveLoop f userID amount (iter (mmEnts s))))"

definition memFinalize :: "(uuid \<times> CustomerEntitlement \<Rightarrow> bool) \<Rightarrow> balanceField \<Rightarrow> entIter \<Rightarrow> float64 \<Rightarrow> float64 \<Rightarrow> memoryStore \<Rightarrow> memoryStore \<times> unit result" where
  "memFinalize P f iter reservedAmount actual s =
     (if fle reservedAmount fzero \<and> fle actual fzero then (s, Inr ())
      else (case find (\<lambda>p. P p \<and> bfBalance f (snd p) \<noteq> None) (iter (mmEnts s)) of
              None \<Rightarrow> (s, Inr ())
            | Some (i, item) \<Rightarrow> putEnt s (case settleOn f (zeroFloor reservedAmount) (zeroFloor actual) (the (bfBalance f item)) item of
                Inl e \<Rightarrow> Inl e | Inr item1 \<Rightarrow> Inr (i, item1))))"

definition creditPackageOf :: "string \<Rightarrow> string \<Rightarrow> uuid \<times> CustomerEntitlement \<Rightarrow> bool" where
  "creditPackageOf userID planCode p \<longleftrightarrow> ceGenfityUserID (snd p) = userID \<and> cePlanCode (snd p) = planCode
     \<and> entitlementPricingGroup (snd p) = ''credit_package''"

definition memDebitCreditBalance :: "entIter \<Rightarrow> string \<Rightarrow> string \<Rightarrow> float64 \<Rightarrow> memoryStore \<Rightarrow> memoryStore \<times> unit result" where
  "memDebitCreditBalance iter userID planCode debitUsd s =
     (case find (\<lambda>p. creditPackageOf userID planCode p \<and> ceBalanceSnapshot (snd p) \<noteq> None) (iter (mmEnts s)) of
        None \<Rightarrow> (s, Inl ErrNotFound)
      | Some (i, item) \<Rightarrow> putEnt s (case parseAmount (the (ceBalanceSnapshot item)) of
            Inl e \<Rightarrow> Inl e
          | Inr current \<Rightarrow>
              if flt (fsub current debitUsd) fzero then Inl ErrInsufficientBalance
              else Inr (i, item\<lparr>ceBalanceSnapshot := Some (sprintfF 6 (fsub current debitUsd))\<rparr>)))"

definition memReserveCreditBalance :: "entIter \<Rightarrow> string \<Rightarrow> string \<Rightarrow> float64 \<Rightarrow> memoryStore \<Rightarrow> memoryStore \<times> unit result" where
  "memReserveCreditBalance iter userID planCode amountUsd s =
     (if fle amountUsd fzero then (s, Inr ())
      else (case find (\<lambda>p. creditPackageOf userID planCode p \<and> ceBalanceSnapshot (snd p) \<noteq> None) (iter (mmEnts s)) of
              None \<Rightarrow> (s, Inl ErrNotFound)
            | Some (i, item) \<Rightarrow> putEnt s (case holdOn snapshotField amountUsd (the (ceBalanceSnapshot item)) item of
                  Inl e \<Rightarrow> Inl e
                | Inr None \<Rightarrow> Inl ErrInsufficientBalance
                | Inr (Some item1) \<Rightarrow> Inr (i, item1))))"

definition memFinalizeCreditBalance :: "entIter \<Rightarrow> string \<Rightarrow> string \<Rightarrow> float64 \<Rightarrow> float64 \<Rightarrow> memoryStore \<Rightarrow> memoryStore \<times> unit result" where
  "memFinalizeCreditBalance iter userID planCode = memFinalize (creditPackageOf userID planCode) snapshotField iter"

definition memReserveRequestCredits :: "entIter \<Rightarrow> string \<Rightarrow> float64 \<Rightarrow> memoryStore \<Rightarrow> memoryStore \<times> unit result" where
  "memReserveRequestCredits = memReserve creditField"

definition memFinalizeRequestCredits :: "entIter \<Rightarrow> string \<Rightarrow> float64 \<Rightarrow> float64 \<Rightarrow> memoryStore \<Rightarrow> memoryStore \<times> unit result" where
  "memFinalizeRequestCredits iter userID = memFinalize (\<lambda>p. ceGenfityUserID (snd p) = userID) creditField iter"

definition memReservePaygUsdBalance :: "entIter \<Rightarrow> string \<Rightarrow> float64 \<Rightarrow> memoryStore \<Rightarrow> memoryStore \<times> unit result" where
  "memReservePaygUsdBalance = memReserve paygField"

definition memFinalizePaygUsdBalance :: "entIter \<Rightarrow> string \<Rightarrow> float64 \<Rightarrow> float64 \<Rightarrow> memoryStore \<Rightarrow> memoryStore \<times> unit result" where
  "memFinalizePaygUsdBalance iter userID = memFinalize (\<lambda>p. ceGenfityUserID (snd p) = userID) paygField iter"

definition holdsText :: "string option \<Rightarrow> bool" where
  "holdsText t \<longleftrightarrow> (case t of None \<Rightarrow> False | Some x \<Rightarrow> x \<noteq> ''0'' \<and> x \<noteq> [])"

definition memReleaseStaleReservations :: "memoryStore \<Rightarrow> memoryStore \<times> int result" where
  "memReleaseStaleReservations s =
     (s\<lparr>mmEnts := map (\<lambda>(i, e). (i, e\<lparr>ceCreditBalanceReserved := (if holdsText (ceCreditBalanceReserved e) then Some ''0'' else ceCreditBalanceReserved e),
            ceBalanceReserved := (if holdsText (ceBalanceReserved e) then Some ''0'' else ceBalanceReserved e)\<rparr>)) (mmEnts s)\<rparr>,
      Inr (int (length (filter (\<lambda>(i, e). holdsText (ceCreditBalanceReserved e) \<or> holdsText (ceBalanceReserved e)) (mmEnts s)))))"

subsection \<open>Costs, rates and entitlements\<close>

definition memUpsertModelCreditCost :: "ModelCreditCost \<Rightarrow> memoryStore \<Rightarrow> memoryStore \<times> ModelCreditCost result" where
  "memUpsertModelCreditCost cost s = (s\<lparr>mmCosts := mput (mcFullModelID cost) cost (mmCosts s)\<rparr>, Inr cost)"

definition memGetModelCreditCost :: "string \<Rightarrow> memoryStore \<Rightarrow> ModelCreditCost option result" where
  "memGetModelCreditCost fullModelID s = Inr (map_of (mmCosts s) fullModelID)"

definition memListModelCreditCosts :: "((string, ModelCreditCost) gomap \<Rightarrow> (string, ModelCreditCost) gomap) \<Rightarrow> memoryStore \<Rightarrow> ModelCreditCost list" where
  "memListModelCreditCosts iter s = map snd (iter (mmCosts s))"

definition memUpsertPaygTopupRate :: "PaygTopupRate \<Rightarrow> memoryStore \<Rightarrow> memoryStore \<times> PaygTopupRate result" where
  "memUpsertPaygTopupRate rate s = (s\<lparr>mmRates := mput (ptCode rate) rate (mmRates s)\<rparr>, Inr rate)"

definition memGetPaygTopupRate :: "string \<Rightarrow> memoryStore \<Rightarrow> PaygTopupRate option result" where
  "memGetPaygTopupRate code s = Inr (map_of (mmRates s) code)"

definition memListPaygTopupRates :: "((string, PaygTopupRate) gomap \<Rightarrow> (string, PaygTopupRate) gomap) \<Rightarrow> memoryStore \<Rightarrow> PaygTopupRate list" where
  "memListPaygTopupRates iter s = map snd (iter (mmRates s))"

definition memUpsertBalanceSnapshot :: "entIter \<Rightarrow> time \<Rightarrow> string \<Rightarrow> string \<Rightarrow> string option \<Rightarrow> time option \<Rightarrow> memoryStore
    \<Rightarrow> memoryStore \<times> CustomerEntitlement result" where
  "memUpsertBalanceSnapshot iter now userID balance paygBalance creditExpiresAt s =
     (case find (\<lambda>p. ceGenfityUserID (snd p) = userID) (iter (mmEnts s)) of
        None \<Rightarrow> (s, Inl ErrNotFound)
      | Some (i, item) \<Rightarrow>
          let e = item\<lparr>ceBalanceSnapshot := Some balance, cePaygUsdBalance := (if paygBalance \<noteq> None then paygBalance else cePaygUsdBalance item),
                ceCreditExpiresAt := (if creditExpiresAt \<noteq> None then creditExpiresAt else ceCreditExpiresAt item), ceUpdatedFromGenfityAt := now\<rparr>
          in (s\<lparr>mmEnts := mput i e (mmEnts s)\<rparr>, Inr e))"

definition memUpsertEntitlement :: "uuid \<Rightarrow> time \<Rightarrow> CustomerEntitlement \<Rightarrow> memoryStore \<Rightarrow> memoryStore \<times> CustomerEntitlement result" where
  "memUpsertEntitlement fresh now item s =
     (let e = item\<lparr>ceID := orNew fresh (ceID item), ceUpdatedFromGenfityAt := defaultTime now (ceUpdatedFromGenfityAt item)\<rparr>
      in (s\<lparr>mmEnts := mput (ceID e) e (mmEnts s)\<rparr>, Inr e))"

definition memUpsertEntitlementByUser :: "entIter \<Rightarrow> uuid \<Rightarrow> time \<Rightarrow> CustomerEntitlement \<Rightarrow> memoryStore \<Rightarrow> memoryStore \<times> CustomerEntitlement result" where
  "memUpsertEntitlementByUser iter fresh now item s =
     (case find (\<lambda>p. ceGenfityUserID (snd p) = ceGenfityUserID item \<and> cePlanCode (snd p) = cePlanCode item) (iter (mmEnts s)) of
        Some (i, existing) \<Rightarrow>
          let e = item\<lparr>ceUpdatedFromGenfityAt := now, ceID := (if ceID item = nilUUID then ceID existing else ceID item)\<rparr>
          in (s\<lparr>mmEnts := mput i e (mmEnts s)\<rparr>, Inr e)
      | None \<Rightarrow>
          let e = item\<lparr>ceUpdatedFromGenfityAt := now, ceID := orNew fresh (ceID item)\<rparr>
          in (s\<lparr>mmEnts := mput (ceID e) e (mmEnts s)\<rparr>, Inr e))"

definition memLiveEnt :: "time \<Rightarrow> string \<Rightarrow> CustomerEntitlement \<Rightarrow> bool" where
  "memLiveEnt now userID e \<longleftrightarrow> ceGenfityUserID e = userID \<and> ceStatus e = ''active''
     \<and> (case cePeriodEnd e of None \<Rightarrow> True | Some t \<Rightarrow> \<not> t < now)"

definition memGetEntitlementByUser :: "entIter \<Rightarrow> time \<Rightarrow> string \<Rightarrow> memoryStore \<Rightarrow> CustomerEntitlement result" where
  "memGetEntitlementByUser iter now userID s =
     (let rows = filter (memLiveEnt now userID) (map snd (iter (mmEnts s)))
      in case find (\<lambda>e. entitlementPricingGroup e = ''unlimited_plan'') rows of
           Some e \<Rightarrow> Inr e
         | None \<Rightarrow> (case rows of [] \<Rightarrow> Inl ErrNotFound | e # _ \<Rightarrow> Inr e))"

definition memListActiveEntitlementsByUser :: "entIter \<Rightarrow> time \<Rightarrow> string \<Rightarrow> memoryStore \<Rightarrow> CustomerEntitlement list result" where
  "memListActiveEntitlementsByUser iter now userID s =
     (let rows = filter (memLiveEnt now userID) (map snd (iter (mmEnts s)));
          unlimited = (\<lambda>e. entitlementPricingGroup e \<in> {''unlimited_plan'', ''unlimited''});
          credit = (\<lambda>e. entitlementPricingGroup e = ''credit_package'')
      in Inr (filter unlimited rows @ filter credit rows @ filter (\<lambda>e. \<not> unlimited e \<and> \<not> credit e) rows))"

subsection \<open>The catalogue\<close>

definition memUpsertModel :: "time \<Rightarrow> AIModel \<Rightarrow> memoryStore \<Rightarrow> memoryStore \<times> AIModel result" where
  "memUpsertModel now model s =
     (let m = model\<lparr>amCreatedAt := defaultTime now (amCreatedAt model), amUpdatedAt := now\<rparr> in (s\<lparr>mmModels := mput (amID m) m (mmModels s)\<rparr>, Inr m))"

type_synonym modelIter = "(uuid, AIModel) gomap \<Rightarrow> (uuid, AIModel) gomap"

definition memListModels :: "modelIter \<Rightarrow> memoryStore \<Rightarrow> AIModel list" where
  "memListModels iter s = sort_key amDisplayName (map snd (iter (mmModels s)))"

definition memGetModelByID :: "uuid \<Rightarrow> memoryStore \<Rightarrow> AIModel result" where
  "memGetModelByID i s = mlookup i (mmModels s)"

definition memGetModelByPublicName :: "modelIter \<Rightarrow> string \<Rightarrow> memoryStore \<Rightarrow> AIModel result" where
  "memGetModelByPublicName iter name s = firstRow (\<lambda>m. amPublicModel m = name) (map snd (iter (mmModels s)))"

definition memUpdateModel :: "time \<Rightarrow> AIModel \<Rightarrow> memoryStore \<Rightarrow> memoryStore \<times> AIModel result" where
  "memUpdateModel now model s = (case map_of (mmModels s) (amID model) of
       None \<Rightarrow> (s, Inl ErrNotFound)
     | Some current \<Rightarrow>
         let m = model\<lparr>amCreatedAt := defaultTime (amCreatedAt current) (amCreatedAt model), amUpdatedAt := now\<rparr>
         in (s\<lparr>mmModels := mput (amID m) m (mmModels s)\<rparr>, Inr m))"

definition memDeleteModel :: "uuid \<Rightarrow> memoryStore \<Rightarrow> memoryStore \<times> unit result" where
  "memDeleteModel i s = (if map_of (mmModels s) i = None then (s, Inl ErrNotFound) else (s\<lparr>mmModels := mdel i (mmModels s)\<rparr>, Inr ()))"

definition memUpdateModelStatus :: "time \<Rightarrow> uuid \<Rightarrow> string \<Rightarrow> memoryStore \<Rightarrow> memoryStore \<times> unit result" where
  "memUpdateModelStatus now i status s = (case map_of (mmModels s) i of
       None \<Rightarrow> (s, Inl ErrNotFound)
     | Some m \<Rightarrow> (s\<lparr>mmModels := mput i (m\<lparr>amStatus := status, amUpdatedAt := now\<rparr>) (mmModels s)\<rparr>, Inr ()))"

definition memListAllModels :: "modelIter \<Rightarrow> memoryStore \<Rightarrow> AIModel list" where
  "memListAllModels iter s = sort_key amPublicModel (map snd (iter (mmModels s)))"

definition memUpsertPrice :: "time \<Rightarrow> AIModelPrice \<Rightarrow> memoryStore \<Rightarrow> memoryStore \<times> AIModelPrice result" where
  "memUpsertPrice now price s =
     (let p = price\<lparr>apCreatedAt := defaultTime now (apCreatedAt price)\<rparr> in (s\<lparr>mmPrices := mput (apID p) p (mmPrices s)\<rparr>, Inr p))"

definition memGetPriceByID :: "uuid \<Rightarrow> memoryStore \<Rightarrow> AIModelPrice result" where
  "memGetPriceByID i s = mlookup i (mmPrices s)"

definition memUpdatePrice :: "AIModelPrice \<Rightarrow> memoryStore \<Rightarrow> memoryStore \<times> AIModelPrice result" where
  "memUpdatePrice price s = (case map_of (mmPrices s) (apID price) of
       None \<Rightarrow> (s, Inl ErrNotFound)
     | Some current \<Rightarrow>
         let p = price\<lparr>apCreatedAt := defaultTime (apCreatedAt current) (apCreatedAt price)\<rparr> in (s\<lparr>mmPrices := mput (apID p) p (mmPrices s)\<rparr>, Inr p))"

definition memDeletePrice :: "uuid \<Rightarrow> memoryStore \<Rightarrow> memoryStore \<times> unit result" where
  "memDeletePrice i s = (if map_of (mmPrices s) i = None then (s, Inl ErrNotFound) else (s\<lparr>mmPrices := mdel i (mmPrices s)\<rparr>, Inr ()))"

definition memListPrices :: "((uuid, AIModelPrice) gomap \<Rightarrow> (uuid, AIModelPrice) gomap) \<Rightarrow> memoryStore \<Rightarrow> AIModelPrice list" where
  "memListPrices iter s = map snd (iter (mmPrices s))"

definition memUpsertRoute :: "time \<Rightarrow> AIModelRoute \<Rightarrow> memoryStore \<Rightarrow> memoryStore \<times> AIModelRoute result" where
  "memUpsertRoute now route s =
     (let r = route\<lparr>arCreatedAt := defaultTime now (arCreatedAt route)\<rparr> in (s\<lparr>mmRoutes := mput (arID r) r (mmRoutes s)\<rparr>, Inr r))"

definition memGetRouteByID :: "uuid \<Rightarrow> memoryStore \<Rightarrow> AIModelRoute result" where
  "memGetRouteByID i s = mlookup i (mmRoutes s)"

definition memUpdateRoute :: "AIModelRoute \<Rightarrow> memoryStore \<Rightarrow> memoryStore \<times> AIModelRoute result" where
  "memUpdateRoute route s = (case map_of (mmRoutes s) (arID route) of
       None \<Rightarrow> (s, Inl ErrNotFound)
     | Some current \<Rightarrow>
         let r = route\<lparr>arCreatedAt := defaultTime (arCreatedAt current) (arCreatedAt route)\<rparr> in (s\<lparr>mmRoutes := mput (arID r) r (mmRoutes s)\<rparr>, Inr r))"

definition memDeleteRoute :: "uuid \<Rightarrow> memoryStore \<Rightarrow> memoryStore \<times> unit result" where
  "memDeleteRoute i s = (if map_of (mmRoutes s) i = None then (s, Inl ErrNotFound) else (s\<lparr>mmRoutes := mdel i (mmRoutes s)\<rparr>, Inr ()))"

type_synonym routeIter = "(uuid, AIModelRoute) gomap \<Rightarrow> (uuid, AIModelRoute) gomap"

definition memListRoutes :: "routeIter \<Rightarrow> memoryStore \<Rightarrow> AIModelRoute list" where
  "memListRoutes iter s = map snd (iter (mmRoutes s))"

definition memGetRouteByModelID :: "routeIter \<Rightarrow> uuid \<Rightarrow> memoryStore \<Rightarrow> AIModelRoute result" where
  "memGetRouteByModelID iter modelID s = firstRow (\<lambda>r. arModelID r = modelID \<and> arStatus r = ''active'') (map snd (iter (mmRoutes s)))"

type_synonym routerIter = "(string, RouterInstance) gomap \<Rightarrow> (string, RouterInstance) gomap"

definition memUpsertRouterInstance :: "time \<Rightarrow> RouterInstance \<Rightarrow> memoryStore \<Rightarrow> memoryStore \<times> RouterInstance result" where
  "memUpsertRouterInstance now item s =
     (let r = item\<lparr>riCreatedAt := defaultTime now (riCreatedAt item)\<rparr> in (s\<lparr>mmRouters := mput (riCode r) r (mmRouters s)\<rparr>, Inr r))"

definition memGetRouterInstanceByID :: "routerIter \<Rightarrow> uuid \<Rightarrow> memoryStore \<Rightarrow> RouterInstance result" where
  "memGetRouterInstanceByID iter i s = firstRow (\<lambda>r. riID r = i) (map snd (iter (mmRouters s)))"

definition memUpdateRouterInstance :: "routerIter \<Rightarrow> RouterInstance \<Rightarrow> memoryStore \<Rightarrow> memoryStore \<times> RouterInstance result" where
  "memUpdateRouterInstance iter item s = (case find (\<lambda>p. riID (snd p) = riID item) (iter (mmRouters s)) of
       None \<Rightarrow> (s, Inl ErrNotFound)
     | Some (code, current) \<Rightarrow>
         let r = item\<lparr>riCreatedAt := defaultTime (riCreatedAt current) (riCreatedAt item)\<rparr>;
             kept = (if code \<noteq> riCode item then mdel code (mmRouters s) else mmRouters s)
         in (s\<lparr>mmRouters := mput (riCode item) r kept\<rparr>, Inr r))"

definition memDeleteRouterInstance :: "routerIter \<Rightarrow> uuid \<Rightarrow> memoryStore \<Rightarrow> memoryStore \<times> unit result" where
  "memDeleteRouterInstance iter i s = (case find (\<lambda>p. riID (snd p) = i) (iter (mmRouters s)) of
       None \<Rightarrow> (s, Inl ErrNotFound)
     | Some (code, _) \<Rightarrow> (s\<lparr>mmRouters := mdel code (mmRouters s)\<rparr>, Inr ()))"

definition memListRouterInstances :: "routerIter \<Rightarrow> memoryStore \<Rightarrow> RouterInstance list" where
  "memListRouterInstances iter s = map snd (iter (mmRouters s))"

definition memGetRouterInstance :: "string \<Rightarrow> memoryStore \<Rightarrow> RouterInstance result" where
  "memGetRouterInstance code s = mlookup code (mmRouters s)"

subsection \<open>Pending callbacks\<close>

type_synonym callbackIter = "(string, PendingCallback) gomap \<Rightarrow> (string, PendingCallback) gomap"

definition memEnqueuePendingCallback :: "uuid \<Rightarrow> time \<Rightarrow> PendingCallback \<Rightarrow> memoryStore \<Rightarrow> memoryStore \<times> unit result" where
  "memEnqueuePendingCallback fresh now item s =
     (let key = pcRequestID item @ ''|'' @ pcBillingMode item in
      if map_of (mmCallbacks s) key \<noteq> None then (s, Inr ())
      else (s\<lparr>mmCallbacks := mput key (item\<lparr>pcID := orNew fresh (pcID item), pcNextAttemptAt := defaultTime now (pcNextAttemptAt item),
              pcCreatedAt := defaultTime now (pcCreatedAt item), pcStatus := defaultString (pcStatus item) ''pending''\<rparr>) (mmCallbacks s)\<rparr>, Inr ()))"

definition memListDuePendingCallbacks :: "callbackIter \<Rightarrow> time \<Rightarrow> int \<Rightarrow> memoryStore \<Rightarrow> PendingCallback list result" where
  "memListDuePendingCallbacks iter now limit s =
     (let due = filter (\<lambda>c. pcStatus c = ''pending'' \<and> \<not> pcNextAttemptAt c > now) (map snd (iter (mmCallbacks s)))
      in Inr (if limit > 0 then take (nat limit) due else due))"

definition alterCallback :: "callbackIter \<Rightarrow> uuid \<Rightarrow> (PendingCallback \<Rightarrow> PendingCallback option) \<Rightarrow> memoryStore \<Rightarrow> memoryStore \<times> unit result" where
  "alterCallback iter i f s = (case find (\<lambda>p. pcID (snd p) = i) (iter (mmCallbacks s)) of
       None \<Rightarrow> (s, Inr ())
     | Some (k, c) \<Rightarrow>
         (s\<lparr>mmCallbacks := (case f c of None \<Rightarrow> mdel k (mmCallbacks s) | Some c1 \<Rightarrow> mput k c1 (mmCallbacks s))\<rparr>, Inr ()))"

definition memMarkCallbackSucceeded :: "callbackIter \<Rightarrow> uuid \<Rightarrow> memoryStore \<Rightarrow> memoryStore \<times> unit result" where
  "memMarkCallbackSucceeded iter i = alterCallback iter i (\<lambda>_. None)"

definition memMarkCallbackRetry :: "callbackIter \<Rightarrow> time \<Rightarrow> uuid \<Rightarrow> string \<Rightarrow> time \<Rightarrow> memoryStore \<Rightarrow> memoryStore \<times> unit result" where
  "memMarkCallbackRetry iter now i lastError nextAttemptAt = alterCallback iter i (\<lambda>c.
     Some (c\<lparr>pcAttempts := wrap64 (pcAttempts c + 1), pcLastError := Some lastError, pcLastAttemptAt := Some now, pcNextAttemptAt := nextAttemptAt\<rparr>))"

definition memMarkCallbackAbandoned :: "callbackIter \<Rightarrow> time \<Rightarrow> uuid \<Rightarrow> string \<Rightarrow> string \<Rightarrow> memoryStore \<Rightarrow> memoryStore \<times> unit result" where
  "memMarkCallbackAbandoned iter now i status lastError = alterCallback iter i (\<lambda>c.
     Some (c\<lparr>pcStatus := (if status \<noteq> ''abandoned'' \<and> status \<noteq> ''failed_permanent'' then ''abandoned'' else status), pcLastError := Some lastError,
       pcAttempts := wrap64 (pcAttempts c + 1), pcLastAttemptAt := Some now\<rparr>))"

section \<open>Contracts both stores keep\<close>

text \<open>The tables by name, with the contract of the Postgres tables.\<close>

interpretation memPlanTable: catalog_table "memUpsertPlan now" memGetPlanByCode spPlanCode "\<lambda>_. True" for now
  by unfold_locales (auto simp: memUpsertPlan_def memGetPlanByCode_def Let_def)

interpretation memRouterTable: catalog_table "memUpsertRouterInstance now" memGetRouterInstance riCode "\<lambda>_. True" for now
  by unfold_locales (auto simp: memUpsertRouterInstance_def memGetRouterInstance_def Let_def)

interpretation memCostTable: catalog_table memUpsertModelCreditCost "\<lambda>k s. mlookup k (mmCosts s)" mcFullModelID "\<lambda>_. True"
  by unfold_locales (auto simp: memUpsertModelCreditCost_def)

interpretation memRateTable: catalog_table memUpsertPaygTopupRate "\<lambda>k s. mlookup k (mmRates s)" ptCode "\<lambda>_. True"
  by unfold_locales (auto simp: memUpsertPaygTopupRate_def)

text \<open>A store of API keys: what revoking a key does to the two ways of finding one.\<close>

locale key_store =
  fixes revoke :: "uuid \<Rightarrow> 's \<Rightarrow> 's \<times> unit result"
    and findKey :: "string \<Rightarrow> 's \<Rightarrow> APIKey result"
    and getKey :: "uuid \<Rightarrow> 's \<Rightarrow> APIKey result"
    and ok :: "'s \<Rightarrow> bool"
  assumes revoke_get: "\<lbrakk>ok s; revoke i s = (s', Inr ())\<rbrakk> \<Longrightarrow> \<exists>k. getKey i s' = Inr k \<and> akStatus k = ''revoked''"
    and revoke_other: "\<lbrakk>ok s; revoke i s = (s', Inr ()); j \<noteq> i\<rbrakk> \<Longrightarrow> getKey j s' = getKey j s"
    and revoke_ok: "\<lbrakk>ok s; revoke i s = (s', Inr ())\<rbrakk> \<Longrightarrow> ok s'"
    and find_get: "\<lbrakk>ok s; findKey p s = Inr k\<rbrakk> \<Longrightarrow> getKey (akID k) s = Inr k \<and> akKeyPrefix k = p"
begin

lemma revoked_not_active:
  assumes "ok s" "revoke i s = (s', Inr ())" "findKey p s' = Inr k" "akStatus k = ''active''"
  shows "akID k \<noteq> i \<and> getKey (akID k) s = Inr k"
proof -
  have f: "getKey (akID k) s' = Inr k" using find_get [OF revoke_ok [OF assms(1,2)] assms(3)] by simp
  have "akID k \<noteq> i" using revoke_get [OF assms(1,2)] f assms(4) by auto
  then show ?thesis using revoke_other [OF assms(1,2)] f by metis
qed

end

definition memKeysOk :: "((uuid, APIKey) gomap \<Rightarrow> (uuid, APIKey) gomap) \<Rightarrow> memoryStore \<Rightarrow> bool" where
  "memKeysOk iter s \<longleftrightarrow> distinct (map fst (mmKeys s)) \<and> list_all (\<lambda>(i, k). akID k = i) (mmKeys s) \<and> (\<forall>m. set (iter m) = set m)"

lemma set_mput: "distinct (map fst m) \<Longrightarrow> set (mput k v m) = insert (k, v) {p \<in> set m. fst p \<noteq> k}"
  by (force simp: mput_def image_iff split: if_splits)

interpretation memKeys: key_store "\<lambda>i. memRevokeAPIKey i t" "memFindAPIKeyByPrefix iter" memGetAPIKeyByID "memKeysOk iter" for t iter
proof (unfold_locales, goal_cases)
  case (1 s i s')
  then show ?case by (auto simp: memRevokeAPIKey_def alterKey_def memGetAPIKeyByID_def split: option.splits)
next
  case (2 s i s' j)
  then show ?case by (auto simp: memRevokeAPIKey_def alterKey_def memGetAPIKeyByID_def split: option.splits)
next
  case (3 s i s')
  then obtain k where k: "map_of (mmKeys s) i = Some k"
    "s' = s\<lparr>mmKeys := mput i (k\<lparr>akStatus := ''revoked'', akRevokedAt := Some t\<rparr>) (mmKeys s)\<rparr>"
    by (auto simp: memRevokeAPIKey_def alterKey_def split: option.splits)
  have "akID k = i" using 3(1) map_of_SomeD [OF k(1)] by (auto simp: memKeysOk_def list_all_iff)
  then show ?case using 3(1) k(2) by (auto simp: memKeysOk_def list_all_iff set_mput)
next
  case (4 s p k)
  then have "find (\<lambda>k. akKeyPrefix k = p \<and> akStatus k = ''active'') (map snd (iter (mmKeys s))) = Some k"
    by (auto simp: memFindAPIKeyByPrefix_def firstRow_def split: option.splits)
  then have k: "k \<in> snd ` set (iter (mmKeys s))" "akKeyPrefix k = p" using find_SomeD by force+
  then obtain i where "(i, k) \<in> set (mmKeys s)" using 4(1) by (auto simp: memKeysOk_def)
  moreover have "akID k = i" using calculation 4(1) by (auto simp: memKeysOk_def list_all_iff)
  ultimately show ?case using 4(1) k(2) by (simp add: memGetAPIKeyByID_def mlookup_def memKeysOk_def)
qed

interpretation pgKeyStore: key_store "\<lambda>i. RevokeAPIKey i t" FindAPIKeyByPrefix GetAPIKeyByID "\<lambda>s. pgUp s \<and> keysOk (pgKeys s)" for t
proof (unfold_locales, goal_cases)
  case (1 s i s')
  then have s': "s' = s\<lparr>pgKeys := updWhere (\<lambda>r. akID r = i) (\<lambda>r. r\<lparr>akStatus := ''revoked'', akRevokedAt := Some (pgTs t)\<rparr>) (pgKeys s)\<rparr>"
    by (simp add: RevokeAPIKey_def execKeys_success)
  have "affected (\<lambda>r. akID r = i) (pgKeys s) \<noteq> 0" using 1 by (auto simp: RevokeAPIKey_def execKeys_def Let_def split: if_splits)
  then obtain r where r: "find (\<lambda>r. akID r = i) (pgKeys s) = Some r"
    by (cases "find (\<lambda>r. akID r = i) (pgKeys s)") (auto simp: affected_def filter_empty_conv find_None_iff_all)
  then have "akID r = i" by (auto dest: find_SomeD)
  then show ?case using 1(1) s' r by (simp add: GetAPIKeyByID_def pgRead_def firstRow_def find_updWhere pgUp_def)
next
  case (2 s i s' j)
  then have s': "s' = s\<lparr>pgKeys := updWhere (\<lambda>r. akID r = i) (\<lambda>r. r\<lparr>akStatus := ''revoked'', akRevokedAt := Some (pgTs t)\<rparr>) (pgKeys s)\<rparr>"
    by (simp add: RevokeAPIKey_def execKeys_success)
  have "find (\<lambda>r. akID r = j) (pgKeys s') = find (\<lambda>r. akID r = j) (pgKeys s)"
    unfolding s' by (simp, rule find_updWhere_other) (use 2(3) in auto)
  then show ?case using 2(1) s' by (simp add: GetAPIKeyByID_def pgRead_def firstRow_def pgUp_def)
next
  case (3 s i s')
  then show ?case by (auto simp: RevokeAPIKey_def execKeys_def Let_def pgUp_def split: if_splits)
next
  case (4 s p k)
  then have "find (\<lambda>r. akKeyPrefix r = p) (pgKeys s) = Some k"
    by (auto simp: FindAPIKeyByPrefix_def firstRow_def split: option.splits)
  then have k: "k \<in> set (pgKeys s)" "akKeyPrefix k = p" by (auto dest: find_SomeD)
  then show ?case using 4(1) find_unique_key [of akID "pgKeys s" k] by (simp add: GetAPIKeyByID_def firstRow_def keysOk_def)
qed

section \<open>The same plans in both stores\<close>

lemma lastWritten_cong:
  assumes "list_all2 (\<lambda>r r'. \<not> isl r \<and> \<not> isl r' \<and> g r = h r') rs rs'" "length rs = length xs" "g d = h d'"
  shows "g (lastWritten key k d xs rs) = h (lastWritten key k d' xs rs')"
  using assms(1) assms(2-)
proof (induction arbitrary: xs d d' rule: list_all2_induct)
  case (Cons r rs r' rs')
  then obtain x ys where "xs = x # ys" by (cases xs) auto
  then show ?case using Cons by auto
qed simp

lemma putAll_results:
  assumes "\<And>x s s' y. put x s = (s', Inr y) \<Longrightarrow> g y = g x" "list_all (\<lambda>r. \<not> isl r) (snd (putAll put xs s))"
  shows "map (g \<circ> projr) (snd (putAll put xs s)) = map g xs \<and> length (snd (putAll put xs s)) = length xs"
  using assms(2)
proof (induction xs arbitrary: s)
  case (Cons x xs)
  obtain s1 r where p: "put x s = (s1, r)" by force
  then obtain y where "r = Inr y" using Cons.prems by (cases r) (auto split: prod.splits)
  then show ?case using Cons.IH [of s1] Cons.prems assms(1) [of x s s1 y] p by (auto split: prod.splits)
qed simp

text \<open>The limits of a plan that the gate enforces.\<close>

definition capsOf :: "SubscriptionPlanSnapshot \<Rightarrow> int option list" where
  "capsOf p = [spQuotaTokensMonthly p, spRateLimitRPM p, spRateLimitTPM p, spConcurrentLimit p, spMaxRequestsPerPeriod p, spRateLimitRPD p]"

definition foundCaps :: "SubscriptionPlanSnapshot result \<Rightarrow> int option list option" where
  "foundCaps r = (case r of Inl _ \<Rightarrow> None | Inr p \<Rightarrow> Some (capsOf p))"

lemma UpsertPlan_caps: "UpsertPlan N now x s = (s', Inr y) \<Longrightarrow> capsOf y = capsOf x"
  by (auto simp: UpsertPlan_def pgRun_def planRow_def upsertBy_def Let_def capsOf_def split: if_splits option.splits)

lemma memUpsertPlan_caps: "memUpsertPlan now x s = (s', Inr y) \<Longrightarrow> capsOf y = capsOf x"
  by (auto simp: memUpsertPlan_def Let_def capsOf_def)

lemma memPlans_succeed: "list_all (\<lambda>r. \<not> isl r) (snd (putAll (memUpsertPlan now) xs s))"
proof (induction xs arbitrary: s)
  case (Cons x xs)
  obtain s1 y where "memUpsertPlan now x s = (s1, Inr y)" by (simp add: memUpsertPlan_def Let_def)
  then show ?case using Cons.IH [of s1] by (cases "putAll (memUpsertPlan now) xs s1") simp
qed simp


section \<open>Where the stores differ\<close>

text \<open>
  Finalising a reservation of tokens in memory releases it and leaves the counter of the period as it was, whatever was used, while the
  Postgres store adds the actual tokens; in memory, requests count through the ledger alone, and only as long as the counter is zero.
\<close>

lemma memory_quota_unused:
  assumes "memReserveQuotaTokens u ps pe t l s = (s1, Inr ())" "memFinalizeQuotaTokens u ps pe t actual c s1 = (s2, Inr ())"
    and "0 < t" "0 < l" "0 \<le> mcount (memoryQuotaKey u ps pe) (mmQuotaReserved s)" "in64 (mcount (memoryQuotaKey u ps pe) (mmQuotaReserved s) + t)"
    and "in64 (mcount (memoryQuotaKey u ps pe) (mmQuotaReserved s))"
  shows "memGetQuotaCounter u ps pe s2 = memGetQuotaCounter u ps pe s \<and> snd (memReserveQuotaTokens u ps pe t l s2) = Inr ()"
proof -
  let ?k = "memoryQuotaKey u ps pe"
  have s1: "s1 = s\<lparr>mmQuotaReserved := mput ?k (mcount ?k (mmQuotaReserved s) + t) (mmQuotaReserved s)\<rparr>"
    using assms(1,3,4,6) by (auto simp: memReserveQuotaTokens_def Let_def split: if_splits)
  have one: "mcount ?k (mmQuotaReserved s1) = mcount ?k (mmQuotaReserved s) + t" by (simp add: s1 mcount_def)
  have s2: "s2 = s1\<lparr>mmQuotaReserved := mmQuotaReserved s2\<rparr>" "mcount ?k (mmQuotaReserved s2) = mcount ?k (mmQuotaReserved s)"
    using assms(2,3,5,7) one by (auto simp: memFinalizeQuotaTokens_def Let_def mcount_def split: if_splits)
  have rest: "mmQuotaUsed s2 = mmQuotaUsed s" "mmQuotaRequests s2 = mmQuotaRequests s" "mmUsage s2 = mmUsage s"
    using s1 by (subst s2(1), simp)+
  then show ?thesis using assms(1,3,4) s2(2)
    by (auto simp: memGetQuotaCounter_def memReserveQuotaTokens_def successSince_def Let_def split: if_splits)
qed

text \<open>A settlement touches only the row its range over the map meets first, whichever row the reservation was taken from.\<close>

lemma memory_settles_first_row:
  assumes "memFinalizeRequestCredits iter u reservedAmount actual s = (s', r)" "j \<noteq> i"
    and "find (\<lambda>p. ceGenfityUserID (snd p) = u \<and> ceCreditBalance (snd p) \<noteq> None) (iter (mmEnts s)) = Some (i, item)"
  shows "map_of (mmEnts s') j = map_of (mmEnts s) j"
  using assms by (auto simp: memFinalizeRequestCredits_def memFinalize_def putEnt_def creditField_def split: if_splits sum.splits)

section \<open>Examples\<close>

definition samplePlanBatch :: "SubscriptionPlanSnapshot list" where
  "samplePlanBatch = [(samplePlan ''lite'')\<lparr>spMonthlyPrice := fixedText 6 0\<rparr>,
     (samplePlan ''lite'')\<lparr>spMonthlyPrice := fixedText 6 0, spRateLimitRPM := Some 9\<rparr>]"

lemma samplePlanBatch_taken: "list_all (\<lambda>r. \<not> isl r) (snd (putAll (UpsertPlan exactNum 5) samplePlanBatch pgEmpty))"
proof -
  have n: "\<exists>t. numericText 6 (fixedText 6 0) = Some t" by (simp add: numericText_def parseDecimal_fixedText)
  then obtain t where "numericText 6 (fixedText 6 0) = Some t" by blast
  then show ?thesis
    by (simp add: samplePlanBatch_def UpsertPlan_def pgRun_def planRow_def numericFloatPtr_def samplePlan_def pgEmpty_def nilUUID_def
        upsertBy_def updWhere_def plansOk_def)
qed


end
