(* ===== verification/Spec2Isabelle.thy ===== *)
theory Spec2Isabelle
  imports Completion MemoryStore
begin

text \<open>
  A verification library for the Genfity AI gateway: a service written in Go that takes OpenAI- and Anthropic-style
  requests with an API key, checks the customer's plan, limits and balance, forwards them to a router of
  upstream models and charges what the answer cost.

  \<^bold>\<open>The program.\<close>  A request goes through these steps, each modelled by a theory.
  The gates count it per address and ask for a key (\<^verbatim>\<open>http/middleware\<close>, theory Middleware); the key is validated
  (\<^verbatim>\<open>api_key_service.go\<close>, theory ApiKeys).  The handler decodes the payload and checks its tool history
  (\<^verbatim>\<open>tool_validation.go\<close>, theory ToolHistory).  The subscription and the allow-list decide
  what pays for it (\<^verbatim>\<open>gateway_handler.go\<close>, theory Policy).  Counters per period, day and minute are taken in Redis
  (\<^verbatim>\<open>applyPreRequestLimits\<close>, theory PreRequest, on \<^verbatim>\<open>rate_limit_service.go\<close>, theory RateLimit).  Quota, credits or dollars are
  reserved in Postgres (\<^verbatim>\<open>reserveRuntimeLimits\<close>, theory Reservation, on \<^verbatim>\<open>postgres_store.go\<close>, theories PgQuota, PgBalance,
  PgEntitlements, PgCatalog).  The upstream is called (\<^verbatim>\<open>cli_proxy_client.go\<close>, theory Upstream) and its answer is rewritten and
  passed on (\<^verbatim>\<open>error_sanitize.go\<close>, theories Sanitize and Forward).  The answer is read for usage, completion and errors (theory Usage, on the
  JSON decoder of theory Json).  The ledger row is written, the reservation is settled and the debit is announced to the
  billing application (\<^verbatim>\<open>recordAndFinalizeRuntime\<close>, theory Settlement); a debit that cannot be announced waits in a durable
  queue for the retry worker (\<^verbatim>\<open>genfity_callback.go\<close>, \<^verbatim>\<open>callback_retry.go\<close>, theory Callback).  The handlers that put these steps
  together are theory Endpoints.  Beside the requests, the billing application pushes plans, purchases, balances and the catalogue
  (\<^verbatim>\<open>sync_service.go\<close>, theory Sync); customers see their usage and keys (theory Customer), administrators the catalogue, the analytics of the
  ledger and the live counters (theories Analytics and Admin), and operations the rates, providers and routers (theory Operations).

  \<^bold>\<open>The theories.\<close>
  \<^item> Prelude, GoFloat, GoTime, Decimal, Json: the language and its library.  64-bit wrap-around, decimal integers and
    string functions; IEEE doubles as rationals rounded to 53 bits with infinities and NaN (\<open>float64\<close>); time as
    nanoseconds and the civil calendar; \<^verbatim>\<open>%.nf\<close> and \<^verbatim>\<open>ParseFloat\<close>; UTF-8 and the JSON decoder.
  \<^item> Types, PgTables, Redis: the data structures of \<^verbatim>\<open>store/types.go\<close>, the tables and the statement forms of Postgres, the
    commands of Redis.  A Redis server is a record of its commands; the locale \<open>redis_server\<close> states their documented
    behaviour and is interpreted by a server on finite maps.
  \<^item> RateLimit: every method of \<^verbatim>\<open>RateLimitService\<close>, Lua scripts included.  Windows admit at most their limit, slots are given
    back, resets happen once; what a rollback after midnight does.
  \<^item> PgBalance: credits and dollars of a user.  The locale \<open>balance_account\<close> states what reserving and settling do to an account
    of balance and reservations and proves once that no interleaving overdraws it; it is interpreted by the credit row and the
    PAYG row.
  \<^item> PgQuota: token counters per period, with the same kind of invariant, and the migration to a new period end.
  \<^item> PgEntitlements: synchronised purchases, the single active row per pricing group, the choice of the entitlement.
  \<^item> PgCatalog: plans, models, prices, routes, routers, costs, the ledger; an \<open>inductive\<close> relation of catalogue requests and its
    invariant; the locale of keyed tables and its interpretations.
  \<^item> ApiKeys: keys, their cache and the life of a key.  The MAC and the cache's codec are parameters.
  \<^item> Policy, Billing: periods, allow-lists, prices, token estimate, credits, the settlement decision.
  \<^item> Reservation: the reservation chain and the settlement of a request on quota, plan credits and balances.  A refused
    request holds nothing; a granted one takes from the source of its key; a credit or PAYG request pays what it cost.
  \<^item> PreRequest: the counters taken before the call and their rollback, which leaves every counter at its value.
  \<^item> Usage: what a body says.  A stream is classified by its events.
  \<^item> Settlement: one request on the ledger, the balance and the notification; repeated request identifiers.
  \<^item> Callback: debits are acknowledged or queued, and the queue drains.
  \<^item> ToolHistory: the check of a tool history, equal to a declarative condition on the calls and results of the messages.
  \<^item> Sanitize, Forward: error bodies, rewritten documents and streams.  Nothing of an upstream error reaches the customer, and
    what a stream yields does not depend on how the network cuts it.
  \<^item> Endpoints: the handlers of chat, messages, embeddings, token counts, images and the model list, with their deferred calls.
  \<^item> Completion: a chat request on a credit key keeps the books on every path; what a failed settlement does in \<^verbatim>\<open>Messages\<close>.
  \<^item> Upstream: both retry loops, proved to end, over any network; the relation \<open>forwardRun\<close> of what a run may do.
  \<^item> Sync: batches, the clean-up of the catalogue, the replay of debits.
  \<^item> Config, Middleware: the configuration and the gates.
  \<^item> Customer: the endpoints of the customer's dashboard and keys.  The counters shown are those that are enforced; whose keys a
    customer can change.
  \<^item> Analytics: the daily rollup of the ledger, its pruning and the queries of the dashboards.  An \<open>inductive\<close> relation of requests,
    rollups and prunings over which the totals stay those of a ledger that is never pruned; where a missing \<^verbatim>\<open>COALESCE\<close> cuts a chart.
  \<^item> GoDate: the two parsers of RFC 3339 times.
  \<^item> Admin: the endpoints of \<^verbatim>\<open>admin_handler.go\<close>.  An adjusted counter is the one that is enforced; the groups of the dashboard add up;
    what a partial update does with a member of the wrong type.
  \<^item> Operations: \<^verbatim>\<open>sync_handler.go\<close>, \<^verbatim>\<open>monitoring_handler.go\<close>, the router proxy, the health check and the table of PAYG rates.  The order of
    a Go map and of goroutines is an argument, and the figures do not depend on it.
  \<^item> MemoryStore: \<^verbatim>\<open>memory_store.go\<close>.  The locale \<open>catalog_table\<close> of the Postgres tables and the locale \<open>key_store\<close> are interpreted on both
    stores; both take a batch of plans alike; where they differ.

  \<^bold>\<open>Conventions.\<close>  A handler call runs at one instant \<open>now\<close>, where the code reads the clock several times; calls of different
  requests interleave as steps.  A database error is \<open>pgFault\<close>, a Redis error is a value of the server's commands.
  \<open>ghNum\<close> turns a double into the decimal the database driver sends; the locale \<open>pg_numeric\<close> asks that it keeps zero, sign and order,
  and the identity satisfies it.  Text columns sort by bytes.  The precision limit of \<^verbatim>\<open>numeric(p, s)\<close> and the range of \<^verbatim>\<open>int4\<close>
  attempt counters are not modelled, nor is the sign of a zero double.  Goroutines started after a response run to completion.
  No definition uses fuel: the decoder recurses on the rest of its input, the retry loops have termination proofs and the other loops
  are folds.  The settlement that \<^verbatim>\<open>recordAndFinalizeAsync\<close> starts runs where it is started.  A request context is cancelled, if at
  all, while the upstream works; a call on it then finds neither Postgres nor Redis.  \<^verbatim>\<open>strings\<close> functions are those on ASCII text, but
  for the two letters whose lower case is ASCII where the source lowers a text.

  In the endpoints of the dashboards a payload that is decoded into a struct is an argument and an answer is a value.  The range of the
  integer casts of SQL aggregates is not modelled; the session's time zone is UTC; the driver closes a result when a row cannot be scanned.
  Where the source ranges over a map, the order of its entries is an argument; sorting keeps the order of rows with equal keys.

  \<^bold>\<open>Not modelled.\<close>  Response headers, logging, migrations and start-up, connection pooling, the
  schema checker of tool arguments, which only its tests call, and the code generated by sqlc, which nothing calls.
\<close>

end
